(* ===== verification/Prelude.thy ===== *)
theory Prelude
  imports Complex_Main "HOL-Library.Multiset" "HOL-Library.Word"
    "HOL-Library.Char_ord" "HOL-Library.List_Lexorder"
begin

text \<open>
  What the components share: the part of the Go language and of its standard library
  that the sources use.  Strings are byte strings (\<open>char list\<close>), case mapping and white
  space follow the ASCII rules, \<open>int64\<close> arithmetic is \<open>int\<close> with the wrap-around written
  out (\<open>wrap64\<close>), a \<open>time.Time\<close> is the number of nanoseconds since Go's zero time, and a
  run-time panic is a value of \<open>gopanic\<close>.
\<close>

named_theorems go_def \<open>definitions of the Go library functions\<close>
named_theorems go_panic \<open>facts excluding a run-time panic\<close>

section \<open>Panics and errors\<close>

datatype num_error = ErrSyntax | ErrRange

datatype gopanic = NilDeref | IndexOutOfRange | SliceBounds | CloseOfClosed | CloseOfNil

type_synonym 'a gores = "gopanic + 'a"

text \<open>
  The error values of the program: the package level error variables of its sources, the
  errors of the redis client (a nil reply, an error reply of the server, a network error), and
  errors built from a message.
\<close>

datatype err =
    ErrNil
  | ErrReply string
  | ErrNetwork string
  | NetReadyError
  | ErrInvalidLockName
  | ErrAlreadyLocked
  | ErrUnreachable
  | ErrRedisUpgradeRequired
  | ErrUnsupportedVersion
  | ErrOutsideRepo
  | ErrMultipleAddresses
  | ErrScanAborted
  | ErrScanInProgress
  | ErrNoSyncMethod
  | ErrNoTrace
  | ErrMirrorNotScanned
  | ErrNameAlreadyTaken
  | ErrLockInUse
  | ErrUnknownMirror
  | ErrEmptyFile
  | ErrTemplatesNotFound
  | ErrNum num_error
  | ErrMsg string
  | ErrWrap err string
  | ErrStatus string string

section \<open>Fixed width integers and time\<close>

definition wrap64 :: "int \<Rightarrow> int" where
  "wrap64 i = (i + 2 ^ 63) mod 2 ^ 64 - 2 ^ 63"

definition in_int64 :: "int \<Rightarrow> bool" where
  "in_int64 i \<longleftrightarrow> - (2 ^ 63) \<le> i \<and> i < 2 ^ 63"

definition wrap32 :: "int \<Rightarrow> int" where
  "wrap32 i = (i + 2 ^ 31) mod 2 ^ 32 - 2 ^ 31"

definition in_int32 :: "int \<Rightarrow> bool" where
  "in_int32 i \<longleftrightarrow> - (2 ^ 31) \<le> i \<and> i < 2 ^ 31"

definition wrapu32 :: "int \<Rightarrow> int" where
  "wrapu32 i = i mod 2 ^ 32"

type_synonym gotime = int
type_synonym duration = int

definition IsZero :: "gotime \<Rightarrow> bool" where
  "IsZero t \<longleftrightarrow> t = 0"

definition Truncate :: "gotime \<Rightarrow> duration \<Rightarrow> gotime" where
  "Truncate t d = (if d \<le> 0 then t else t - t mod d)"

text \<open>Seconds between Go's zero time (year 1) and the Unix epoch.\<close>

definition unix_epoch :: int where
  "unix_epoch = 62135596800"

definition time_Second :: duration where
  "time_Second = 1000000000"

definition time_Millisecond :: duration where
  "time_Millisecond = 1000000"

definition time_Minute :: duration where
  "time_Minute = 60 * time_Second"

definition Unix :: "gotime \<Rightarrow> int" where
  "Unix t = t div time_Second - unix_epoch"

definition time_Unix :: "int \<Rightarrow> gotime" where
  "time_Unix s = (s + unix_epoch) * time_Second"

definition UnixNano :: "gotime \<Rightarrow> int" where
  "UnixNano t = wrap64 (t - unix_epoch * time_Second)"

text \<open>Go's integer division truncates towards zero.\<close>

definition go_div :: "int \<Rightarrow> int \<Rightarrow> int" where
  "go_div a b = sgn a * sgn b * (\<bar>a\<bar> div \<bar>b\<bar>)"

section \<open>Byte strings\<close>

definition HasPrefix :: "string \<Rightarrow> string \<Rightarrow> bool" where
  "HasPrefix s p \<longleftrightarrow> take (length p) s = p"

definition HasSuffix :: "string \<Rightarrow> string \<Rightarrow> bool" where
  "HasSuffix s p \<longleftrightarrow> length p \<le> length s \<and> drop (length s - length p) s = p"

fun str_index :: "string \<Rightarrow> string \<Rightarrow> nat option" where
  "str_index [] p = (if p = [] then Some 0 else None)"
| "str_index (c # cs) p =
     (if HasPrefix (c # cs) p then Some 0 else map_option Suc (str_index cs p))"

definition Index :: "string \<Rightarrow> string \<Rightarrow> int" where
  "Index s p = (case str_index s p of None \<Rightarrow> -1 | Some n \<Rightarrow> int n)"

definition Contains :: "string \<Rightarrow> string \<Rightarrow> bool" where
  "Contains s p \<longleftrightarrow> str_index s p \<noteq> None"

text \<open>\<open>strings.LastIndex\<close> for a separator of one byte.\<close>

definition LastIndex :: "string \<Rightarrow> char \<Rightarrow> int" where
  "LastIndex s c =
     (case str_index (rev s) [c] of None \<Rightarrow> -1 | Some n \<Rightarrow> int (length s) - 1 - int n)"

text \<open>\<open>strings.Split\<close> for a separator of one byte: never empty.\<close>

fun Split :: "string \<Rightarrow> char \<Rightarrow> string list" where
  "Split [] sep = [[]]"
| "Split (c # cs) sep =
     (if c = sep then [] # Split cs sep
      else (case Split cs sep of [] \<Rightarrow> [[c]] | w # ws \<Rightarrow> (c # w) # ws))"

text \<open>\<open>strings.SplitN\<close> with \<open>n > 0\<close>: at most \<open>n\<close> pieces, the last one unsplit.\<close>

fun SplitN :: "string \<Rightarrow> char \<Rightarrow> nat \<Rightarrow> string list" where
  "SplitN s sep 0 = []"
| "SplitN s sep (Suc 0) = [s]"
| "SplitN s sep (Suc (Suc n)) =
     (let w = takeWhile (\<lambda>c. c \<noteq> sep) s; r = dropWhile (\<lambda>c. c \<noteq> sep) s
      in if r = [] then [w] else w # SplitN (tl r) sep (Suc n))"

fun Join :: "string list \<Rightarrow> string \<Rightarrow> string" where
  "Join [] sep = []"
| "Join [w] sep = w"
| "Join (w # v # ws) sep = w @ sep @ Join (v # ws) sep"

definition is_space :: "char \<Rightarrow> bool" where
  "is_space c \<longleftrightarrow> of_char c \<in> {9, 10, 11, 12, 13, 32 :: nat}"

fun fields_aux :: "string \<Rightarrow> string \<Rightarrow> string list" where
  "fields_aux acc [] = (if acc = [] then [] else [rev acc])"
| "fields_aux acc (c # cs) =
     (if is_space c then (if acc = [] then fields_aux [] cs else rev acc # fields_aux [] cs)
      else fields_aux (c # acc) cs)"

definition Fields :: "string \<Rightarrow> string list" where
  "Fields s = fields_aux [] s"

definition upper_char :: "char \<Rightarrow> char" where
  "upper_char c =
     (let n = (of_char c :: nat) in if 97 \<le> n \<and> n \<le> 122 then char_of (n - 32) else c)"

definition lower_char :: "char \<Rightarrow> char" where
  "lower_char c =
     (let n = (of_char c :: nat) in if 65 \<le> n \<and> n \<le> 90 then char_of (n + 32) else c)"

definition ToUpper :: "string \<Rightarrow> string" where
  "ToUpper s = map upper_char s"

definition ToLower :: "string \<Rightarrow> string" where
  "ToLower s = map lower_char s"

definition TrimSpace :: "string \<Rightarrow> string" where
  "TrimSpace s = rev (dropWhile is_space (rev (dropWhile is_space s)))"

definition TrimRight :: "string \<Rightarrow> char \<Rightarrow> string" where
  "TrimRight s c = rev (dropWhile (\<lambda>x. x = c) (rev s))"

definition TrimPrefix :: "string \<Rightarrow> string \<Rightarrow> string" where
  "TrimPrefix s p = (if HasPrefix s p then drop (length p) s else s)"

definition ReplaceAll :: "string \<Rightarrow> char \<Rightarrow> char \<Rightarrow> string" where
  "ReplaceAll s old new = map (\<lambda>c. if c = old then new else c) s"

section \<open>Numbers and strings\<close>

fun nat_digits :: "nat \<Rightarrow> string" where
  "nat_digits n =
     (if n < 10 then [char_of (48 + n)] else nat_digits (n div 10) @ [char_of (48 + n mod 10)])"

declare nat_digits.simps [simp del]

definition Itoa :: "int \<Rightarrow> string" where
  "Itoa i = (if i < 0 then CHR ''-'' # nat_digits (nat (- i)) else nat_digits (nat i))"

definition is_digit :: "char \<Rightarrow> bool" where
  "is_digit c \<longleftrightarrow> 48 \<le> (of_char c :: nat) \<and> (of_char c :: nat) \<le> 57"

text \<open>The loop of \<open>strconv.ParseUint\<close> in base 10 and 64 bits, with its two overflow exits.\<close>

fun parse_uint_loop :: "nat \<Rightarrow> string \<Rightarrow> (num_error \<times> nat) + nat" where
  "parse_uint_loop n [] = Inr n"
| "parse_uint_loop n (c # cs) =
     (if \<not> is_digit c then Inl (ErrSyntax, 0)
      else if n \<ge> 1844674407370955162 then Inl (ErrRange, 2 ^ 64 - 1)
      else let n1 = n * 10 + (of_char c - 48)
           in if n1 \<ge> 2 ^ 64 then Inl (ErrRange, 2 ^ 64 - 1) else parse_uint_loop n1 cs)"

definition parse_uint :: "string \<Rightarrow> (num_error \<times> nat) + nat" where
  "parse_uint s = (if s = [] then Inl (ErrSyntax, 0) else parse_uint_loop 0 s)"

text \<open>
  \<open>strconv.ParseInt(s, 10, 64)\<close>: the value and the error.  The sources often drop the
  error, so the value returned next to it (0, or the clamped bound) matters.
\<close>

definition ParseInt :: "string \<Rightarrow> int \<times> num_error option" where
  "ParseInt s =
     (let neg = (s \<noteq> [] \<and> hd s = CHR ''-'');
          body = (if s \<noteq> [] \<and> (hd s = CHR ''-'' \<or> hd s = CHR ''+'') then tl s else s)
      in case parse_uint body of
           Inl (ErrSyntax, _) \<Rightarrow> (0, Some ErrSyntax)
         | Inl (ErrRange, _) \<Rightarrow> (if neg then - (2 ^ 63) else 2 ^ 63 - 1, Some ErrRange)
         | Inr un \<Rightarrow>
             if \<not> neg \<and> un \<ge> 2 ^ 63 then (2 ^ 63 - 1, Some ErrRange)
             else if neg \<and> un > 2 ^ 63 then (- (2 ^ 63), Some ErrRange)
             else (if neg then - int un else int un, None))"

section \<open>Sorting\<close>

text \<open>
  \<open>sort.Sort\<close> and \<open>sort.SliceStable\<close> as the insertion sort that Go runs on slices of up
  to twelve elements: each element moves left while it is less than its left neighbour.
  The accumulator holds the sorted part reversed.
\<close>

fun sift_left :: "('a \<Rightarrow> 'a \<Rightarrow> bool) \<Rightarrow> 'a \<Rightarrow> 'a list \<Rightarrow> 'a list" where
  "sift_left lt x [] = [x]"
| "sift_left lt x (y # ys) = (if lt x y then y # sift_left lt x ys else x # y # ys)"

definition go_sort :: "('a \<Rightarrow> 'a \<Rightarrow> bool) \<Rightarrow> 'a list \<Rightarrow> 'a list" where
  "go_sort lt xs = rev (fold (sift_left lt) xs [])"

text \<open>\<open>sort.SearchInts\<close>: binary search for the least index whose element is \<open>\<ge> x\<close>.\<close>

function search_ints_loop :: "int list \<Rightarrow> int \<Rightarrow> nat \<Rightarrow> nat \<Rightarrow> nat" where
  "search_ints_loop a x i j =
     (if i < j then let h = (i + j) div 2
        in if a ! h < x then search_ints_loop a x (h + 1) j else search_ints_loop a x i h
      else i)"
  by pat_completeness auto
termination
  by (relation "measure (\<lambda>(a, x, i, j). j - i)") auto

declare search_ints_loop.simps [simp del]

definition SearchInts :: "int list \<Rightarrow> int \<Rightarrow> nat" where
  "SearchInts a x = search_ints_loop a x 0 (length a)"

section \<open>Lemmas on integers and time\<close>

lemma wrap64_id [simp]: "in_int64 i \<Longrightarrow> wrap64 i = i"
  by (simp add: in_int64_def wrap64_def)

lemma wrap64_range: "in_int64 (wrap64 i)"
  using pos_mod_bound [of "2 ^ 64 :: int" "i + 2 ^ 63"] pos_mod_sign [of "2 ^ 64 :: int" "i + 2 ^ 63"]
  by (simp add: in_int64_def wrap64_def)

lemma wrap32_id [simp]: "in_int32 i \<Longrightarrow> wrap32 i = i"
  by (simp add: in_int32_def wrap32_def)

lemma Unix_time_Unix [simp]: "Unix (time_Unix s) = s"
  by (simp add: Unix_def time_Unix_def time_Second_def)

lemma Truncate_idem [simp]: "Truncate (Truncate t d) d = Truncate t d"
  by (simp add: Truncate_def mod_diff_left_eq [symmetric])

section \<open>Lemmas on strings\<close>

lemma HasPrefix_iff: "HasPrefix s p \<longleftrightarrow> (\<exists>t. s = p @ t)"
  unfolding HasPrefix_def by (metis append_eq_conv_conj append_take_drop_id)

lemma HasSuffix_iff: "HasSuffix s p \<longleftrightarrow> (\<exists>t. s = t @ p)"
proof
  assume "HasSuffix s p"
  then show "\<exists>t. s = t @ p" unfolding HasSuffix_def by (metis append_take_drop_id)
qed (auto simp: HasSuffix_def)

lemma HasPrefix_append [simp]: "HasPrefix (p @ s) p"
  by (simp add: HasPrefix_def)

lemma HasSuffix_append [simp]: "HasSuffix (s @ p) p"
  by (simp add: HasSuffix_def)

lemma Split_nonempty [simp]: "Split s sep \<noteq> []"
  by (induction s) (auto split: list.splits)

lemma Split_Cons_other:
  "c \<noteq> sep \<Longrightarrow> Split (c # cs) sep = (c # hd (Split cs sep)) # tl (Split cs sep)"
  by (cases "Split cs sep") (auto simp: Split_nonempty)

lemma Join_Split: "Join (Split s sep) [sep] = s"
proof (induction s)
  case (Cons c cs)
  then show ?case
    by (cases "Split cs sep"; cases "tl (Split cs sep)") auto
qed simp

lemma Split_no_sep: "w \<in> set (Split s sep) \<Longrightarrow> sep \<notin> set w"
  by (induction s arbitrary: w) (auto split: if_splits list.splits)

lemma Split_append_sep:
  "sep \<notin> set w \<Longrightarrow> Split (w @ sep # s) sep = w # Split s sep"
  by (induction w) auto

lemma Split_whole: "sep \<notin> set w \<Longrightarrow> Split w sep = [w]"
  by (induction w) auto

lemma Split_Join:
  assumes "ws \<noteq> []" and "\<forall>w \<in> set ws. sep \<notin> set w"
  shows "Split (Join ws [sep]) sep = ws"
  using assms
proof (induction ws "[sep]" rule: Join.induct)
  case (3 w v ws)
  then show ?case by (simp add: Split_append_sep)
qed (auto simp: Split_whole)

lemma fields_aux_no_space:
  "list_all (\<lambda>c. \<not> is_space c) acc \<Longrightarrow>
     list_all (\<lambda>w. w \<noteq> [] \<and> list_all (\<lambda>c. \<not> is_space c) w) (fields_aux acc s)"
  by (induction acc s rule: fields_aux.induct) simp_all

lemma Fields_no_space: "w \<in> set (Fields s) \<Longrightarrow> w \<noteq> [] \<and> list_all (\<lambda>c. \<not> is_space c) w"
  unfolding Fields_def using fields_aux_no_space [of "[]" s] by (simp add: list_all_iff)

lemma fields_aux_word:
  "list_all (\<lambda>c. \<not> is_space c) w \<Longrightarrow> fields_aux acc (w @ s) = fields_aux (rev w @ acc) s"
  by (induction w arbitrary: acc) auto

section \<open>Printing and parsing integers\<close>

lemma of_char_digit [simp]: "n < 10 \<Longrightarrow> of_char (char_of (48 + n) :: char) = (48 + n :: nat)"
  by simp

lemma is_digit_char [simp]: "n < 10 \<Longrightarrow> is_digit (char_of (48 + n :: nat))"
  by (simp add: is_digit_def)

lemma nat_digits_are_digits: "list_all is_digit (nat_digits n)"
proof (induction n rule: nat_digits.induct)
  case (1 n)
  then show ?case
    by (subst nat_digits.simps) simp
qed

lemma nat_digits_nonempty [simp]: "nat_digits n \<noteq> []"
  by (subst nat_digits.simps) simp

lemma parse_uint_loop_append:
  "list_all is_digit xs \<Longrightarrow> parse_uint_loop m xs = Inr k \<Longrightarrow>
     parse_uint_loop m (xs @ ys) = parse_uint_loop k ys"
  by (induction xs arbitrary: m) (auto simp: Let_def split: if_splits)

lemma parse_uint_loop_digits: "n < 2 ^ 64 \<Longrightarrow> parse_uint_loop 0 (nat_digits n) = Inr n"
proof (induction n rule: nat_digits.induct)
  case (1 n)
  show ?case
  proof (cases "n < 10")
    case True
    then show ?thesis by (subst nat_digits.simps) simp
  next
    case False
    with 1 have "parse_uint_loop 0 (nat_digits (n div 10)) = Inr (n div 10)" by simp
    with False 1(2) show ?thesis
      by (subst nat_digits.simps) (simp add: parse_uint_loop_append [OF nat_digits_are_digits])
  qed
qed

lemma digit_not_sign: "is_digit c \<Longrightarrow> c \<noteq> CHR ''-'' \<and> c \<noteq> CHR ''+''"
  by (auto simp: is_digit_def)

lemma nat_digits_hd: "is_digit (hd (nat_digits n))"
  using nat_digits_are_digits [of n] nat_digits_nonempty [of n] by (cases "nat_digits n") auto

lemma ParseInt_Itoa: "in_int64 i \<Longrightarrow> ParseInt (Itoa i) = (i, None)"
  using nat_digits_hd [of "nat i"] digit_not_sign [OF nat_digits_hd, of "nat i"]
  by (auto simp: ParseInt_def Itoa_def parse_uint_def parse_uint_loop_digits in_int64_def Let_def)

lemma nat_digits_inj: "nat_digits m = nat_digits n \<Longrightarrow> m = n"
proof (induction m arbitrary: n rule: nat_digits.induct)
  case (1 m)
  have len: "length (nat_digits k) = 1 \<longleftrightarrow> k < 10" for k
    by (subst nat_digits.simps) simp
  show ?case
  proof (cases "m < 10")
    case True
    with 1(2) len [of m] len [of n] have "n < 10" by simp
    with True 1(2) have "char_of (48 + m) = (char_of (48 + n) :: char)"
      by (simp add: nat_digits.simps [of m] nat_digits.simps [of n])
    with True \<open>n < 10\<close> show ?thesis by (metis add_left_cancel of_char_digit)
  next
    case False
    with 1(2) len [of m] len [of n] have n: "\<not> n < 10" by simp
    with False 1(2) have eq: "nat_digits (m div 10) = nat_digits (n div 10)"
      and "char_of (48 + m mod 10) = (char_of (48 + n mod 10) :: char)"
      by (simp_all add: nat_digits.simps [of m] nat_digits.simps [of n])
    then have "m mod 10 = n mod 10"
      by (metis add_left_cancel of_char_digit mod_less_divisor zero_less_numeral)
    moreover have "m div 10 = n div 10" using 1(1) [OF False eq] .
    ultimately show ?thesis by (metis div_mult_mod_eq)
  qed
qed

lemma Itoa_inj [simp]: "Itoa i = Itoa j \<longleftrightarrow> i = j"
proof
  assume eq: "Itoa i = Itoa j"
  have sign: "hd (Itoa k) = CHR ''-'' \<longleftrightarrow> k < 0" for k
    using digit_not_sign [OF nat_digits_hd, of "nat k"] by (auto simp: Itoa_def)
  from eq sign [of i] sign [of j] have "i < 0 \<longleftrightarrow> j < 0" by simp
  with eq show "i = j" by (auto simp: Itoa_def dest!: nat_digits_inj)
qed simp

lemma Itoa_chars: "c \<in> set (Itoa i) \<Longrightarrow> is_digit c \<or> c = CHR ''-''"
  using nat_digits_are_digits [of "nat i"] nat_digits_are_digits [of "nat (- i)"]
  by (auto simp: Itoa_def list_all_iff split: if_splits)

lemma Itoa_not_in [simp]:
  "CHR ''_'' \<notin> set (Itoa i)" "CHR ''|'' \<notin> set (Itoa i)" "CHR '' '' \<notin> set (Itoa i)"
  by (auto dest!: Itoa_chars simp: is_digit_def)

text \<open>Two byte strings joined by a separator that the first part lacks.\<close>

lemma append_sep_inj:
  "c \<notin> set a \<Longrightarrow> c \<notin> set b \<Longrightarrow> a @ c # s = b @ c # t \<longleftrightarrow> a = b \<and> s = t"
  by (auto simp: append_eq_append_conv2 append_eq_Cons_conv Cons_eq_append_conv)

end
