(* ===== verification/Go_Sort.thy ===== *)
theory Go_Sort
  imports Prelude
begin

text \<open>
  The contract of \<open>sort.Sort\<close> and of \<open>sort.SearchInts\<close>.  A comparison handed to
  \<open>sort.Sort\<close> is required to be a strict weak order: the locale states it, proves once what
  sorting then gives, and is interpreted on every \<open>Less\<close> method of the program.
\<close>

section \<open>Strict weak orders\<close>

locale strict_weak_order =
  fixes lt :: "'a \<Rightarrow> 'a \<Rightarrow> bool"
  assumes asym: "lt x y \<Longrightarrow> \<not> lt y x"
    and negtrans: "lt x z \<Longrightarrow> lt x y \<or> lt y z"
begin

lemma ge_trans: "\<not> lt y x \<Longrightarrow> \<not> lt z y \<Longrightarrow> \<not> lt z x"
  using negtrans by blast

lemma set_sift: "set (sift_left lt x ys) = insert x (set ys)"
  by (induction ys) auto

lemma sorted_sift:
  "sorted_wrt (\<lambda>a b. \<not> lt a b) ys \<Longrightarrow> sorted_wrt (\<lambda>a b. \<not> lt a b) (sift_left lt x ys)"
proof (induction ys)
  case (Cons y ys)
  show ?case
  proof (cases "lt x y")
    case True
    with Cons show ?thesis by (auto simp: set_sift dest: asym)
  next
    case False
    with Cons.prems negtrans [of x _ y] show ?thesis by auto
  qed
qed simp

lemma sorted_fold_sift:
  "sorted_wrt (\<lambda>a b. \<not> lt a b) acc \<Longrightarrow>
     sorted_wrt (\<lambda>a b. \<not> lt a b) (fold (sift_left lt) xs acc)"
  by (induction xs arbitrary: acc) (auto intro: sorted_sift)

lemma go_sort_sorted: "sorted_wrt (\<lambda>a b. \<not> lt b a) (go_sort lt xs)"
  by (simp add: go_sort_def sorted_wrt_rev sorted_fold_sift)

text \<open>Elements that compare equal keep their order.\<close>

lemma filter_sift:
  "sorted_wrt (\<lambda>a b. \<not> lt a b) ys \<Longrightarrow>
   filter (\<lambda>y. \<not> lt z y \<and> \<not> lt y z) (sift_left lt x ys) =
     filter (\<lambda>y. \<not> lt z y \<and> \<not> lt y z) (x # ys)"
proof (induction ys)
  case (Cons y ys)
  then show ?case using negtrans asym by (auto simp: filter_empty_conv)
qed simp

lemma go_sort_stable:
  "filter (\<lambda>y. \<not> lt z y \<and> \<not> lt y z) (go_sort lt xs) =
     filter (\<lambda>y. \<not> lt z y \<and> \<not> lt y z) xs"
proof -
  have "filter (\<lambda>y. \<not> lt z y \<and> \<not> lt y z) (fold (sift_left lt) xs acc) =
      rev (filter (\<lambda>y. \<not> lt z y \<and> \<not> lt y z) xs) @ filter (\<lambda>y. \<not> lt z y \<and> \<not> lt y z) acc"
    if "sorted_wrt (\<lambda>a b. \<not> lt a b) acc" for acc
    using that
  proof (induction xs arbitrary: acc)
    case (Cons x xs)
    have "filter (\<lambda>y. \<not> lt z y \<and> \<not> lt y z) (fold (sift_left lt) xs (sift_left lt x acc)) =
        rev (filter (\<lambda>y. \<not> lt z y \<and> \<not> lt y z) xs) @
        filter (\<lambda>y. \<not> lt z y \<and> \<not> lt y z) (sift_left lt x acc)"
      by (rule Cons.IH) (rule sorted_sift [OF Cons.prems])
    then show ?case by (simp add: filter_sift [OF Cons.prems])
  qed simp
  from this [of "[]"] show ?thesis by (simp add: go_sort_def rev_filter [symmetric])
qed

end

text \<open>Sorting permutes, whatever the comparison does.\<close>

lemma mset_sift [simp]: "mset (sift_left lt x ys) = add_mset x (mset ys)"
  by (induction ys) auto

lemma mset_fold_sift: "mset (fold (sift_left lt) xs acc) = mset xs + mset acc"
  by (induction xs arbitrary: acc) auto

lemma mset_go_sort [simp]: "mset (go_sort lt xs) = mset xs"
  by (simp add: go_sort_def mset_fold_sift)

lemma set_go_sort [simp]: "set (go_sort lt xs) = set xs"
  by (metis mset_go_sort set_mset_mset)

lemma length_go_sort [simp]: "length (go_sort lt xs) = length xs"
  by (metis mset_go_sort size_mset)

lemma distinct_go_sort [simp]: "distinct (go_sort lt xs) = distinct xs"
  by (metis mset_go_sort mset_eq_imp_distinct_iff)

lemma go_sort_Nil [simp]: "go_sort lt [] = []"
  by (simp add: go_sort_def)

text \<open>A comparison by a key in a linear order, as most \<open>Less\<close> methods are.\<close>

lemma strict_weak_order_key: "strict_weak_order (\<lambda>x y. (f x :: 'k :: linorder) < f y)"
  by unfold_locales auto

lemma strict_weak_order_key_desc: "strict_weak_order (\<lambda>x y. (f y :: 'k :: linorder) < f x)"
  by unfold_locales auto

text \<open>Preferring the elements with a property over those without it, before another order.\<close>

lemma strict_weak_order_prefer:
  assumes "strict_weak_order lt"
  shows "strict_weak_order (\<lambda>a b. p a \<and> \<not> p b \<or> p a = p b \<and> lt a b)"
proof
  fix x y z
  show "\<not> (p y \<and> \<not> p x \<or> p y = p x \<and> lt y x)" if "p x \<and> \<not> p y \<or> p x = p y \<and> lt x y"
    using that strict_weak_order.asym [OF assms] by blast
  show "(p x \<and> \<not> p y \<or> p x = p y \<and> lt x y) \<or> (p y \<and> \<not> p z \<or> p y = p z \<and> lt y z)"
    if "p x \<and> \<not> p z \<or> p x = p z \<and> lt x z"
    using that strict_weak_order.negtrans [OF assms] by blast
qed

section \<open>Binary search\<close>

lemma search_ints_loop_bounds:
  assumes "sorted a" "i \<le> j" "j \<le> length a"
    and "\<forall>k < i. a ! k < x" and "\<forall>k. j \<le> k \<and> k < length a \<longrightarrow> x \<le> a ! k"
  shows "search_ints_loop a x i j \<le> length a \<and> (\<forall>k < search_ints_loop a x i j. a ! k < x) \<and>
    (\<forall>k. search_ints_loop a x i j \<le> k \<and> k < length a \<longrightarrow> x \<le> a ! k)"
  using assms
proof (induction a x i j rule: search_ints_loop.induct)
  case (1 a x i j)
  let ?h = "(i + j) div 2"
  show ?case
  proof (cases "i < j")
    case True
    then have h: "i \<le> ?h" "?h < j" by auto
    show ?thesis
    proof (cases "a ! ?h < x")
      case less: True
      have eq: "search_ints_loop a x i j = search_ints_loop a x (?h + 1) j"
        using True less by (simp add: search_ints_loop.simps [of a x i j] Let_def)
      have "a ! k < x" if "k < ?h + 1" for k
        using less h that 1(5) sorted_nth_mono [OF 1(3), of k ?h] by simp
      with h show ?thesis
        unfolding eq by (intro 1(1) [OF True refl less 1(3) _ 1(5) _ 1(7)]) auto
    next
      case False
      have eq: "search_ints_loop a x i j = search_ints_loop a x i ?h"
        using True False by (simp add: search_ints_loop.simps [of a x i j] Let_def)
      have "x \<le> a ! k" if "?h \<le> k" "k < length a" for k
        using False that sorted_nth_mono [OF 1(3), of ?h k] by simp
      with h 1(5) show ?thesis
        unfolding eq by (intro 1(2) [OF True refl False 1(3) _ _ 1(6)]) auto
    qed
  next
    case False
    with 1(4-7) show ?thesis unfolding search_ints_loop.simps [of a x i j] by auto
  qed
qed

lemma SearchInts_spec:
  assumes "sorted a"
  shows "SearchInts a x \<le> length a" "k < SearchInts a x \<Longrightarrow> a ! k < x"
    "SearchInts a x \<le> k \<Longrightarrow> k < length a \<Longrightarrow> x \<le> a ! k"
  using search_ints_loop_bounds [of a 0 "length a" x] assms by (auto simp: SearchInts_def)

lemma SearchInts_found:
  assumes "sorted_wrt (<) a" "i < length a"
  shows "SearchInts a (a ! i) = i"
proof -
  have s: "sorted a" using assms(1) by (simp add: strict_sorted_imp_sorted)
  have "\<not> SearchInts a (a ! i) < i"
  proof
    assume "SearchInts a (a ! i) < i"
    then have "a ! SearchInts a (a ! i) < a ! i" "SearchInts a (a ! i) < length a"
      using assms by (auto simp: sorted_wrt_iff_nth_less)
    with SearchInts_spec(3) [OF s, of "a ! i" "SearchInts a (a ! i)"] show False by simp
  qed
  moreover have "\<not> i < SearchInts a (a ! i)"
    using SearchInts_spec(2) [OF s, of i "a ! i"] by auto
  ultimately show ?thesis by simp
qed

lemma SearchInts_mem:
  assumes "sorted a"
  shows "x \<in> set a \<longleftrightarrow> SearchInts a x < length a \<and> a ! SearchInts a x = x"
proof
  assume "x \<in> set a"
  then obtain i where i: "i < length a" "a ! i = x" by (auto simp: in_set_conv_nth)
  with SearchInts_spec(2) [OF assms, of i x] have le: "SearchInts a x \<le> i" by fastforce
  with i SearchInts_spec(3) [OF assms, of x "SearchInts a x"]
    sorted_nth_mono [OF assms le] show "SearchInts a x < length a \<and> a ! SearchInts a x = x"
    by auto
qed (auto simp: in_set_conv_nth)

end
