(* ===== verification/Utils.thy ===== *)
theory Utils
  imports Go_Sort
begin

text \<open>
  The helpers of \<^verbatim>\<open>utils/utils.go\<close> and \<^verbatim>\<open>network/utils.go\<close>.  Floating point numbers
  are exact here: \<open>ReadableSize\<close> and \<open>FuzzyTimeStr\<close> compute with the rationals their
  \<open>float64\<close> values stand for, \<open>GetDistanceKm\<close> with reals.
\<close>

section \<open>URLs and paths\<close>

definition NormalizeURL :: "string \<Rightarrow> string" where
  "NormalizeURL url = (if url \<noteq> [] \<and> \<not> HasSuffix url ''/'' then url @ ''/'' else url)"

definition ConcatURL :: "string \<Rightarrow> string \<Rightarrow> string" where
  "ConcatURL url path =
     (if HasSuffix url ''/'' \<and> HasPrefix path ''/'' then take (length url - 1) url @ path
      else if \<not> HasSuffix url ''/'' \<and> \<not> HasPrefix path ''/'' then url @ ''/'' @ path
      else url @ path)"

section \<open>Small helpers\<close>

definition utils_Min :: "int \<Rightarrow> int \<Rightarrow> int" where
  "utils_Min v1 v2 = (if v1 < v2 then v1 else v2)"

definition utils_Max :: "int \<Rightarrow> int \<Rightarrow> int" where
  "utils_Max v1 v2 = (if v1 > v2 then v1 else v2)"

definition utils_Add :: "int \<Rightarrow> int \<Rightarrow> int" where
  "utils_Add x y = wrap64 (x + y)"

fun IsInSlice :: "string \<Rightarrow> string list \<Rightarrow> bool" where
  "IsInSlice a [] = False"
| "IsInSlice a (b # bs) = (if b = a then True else IsInSlice a bs)"

text \<open>\<open>Plural\<close> takes an \<open>interface{}\<close>: \<open>None\<close> stands for a value that is not an \<open>int\<close>.\<close>

definition Plural :: "int option \<Rightarrow> string" where
  "Plural v =
     (let n = (case v of Some i \<Rightarrow> i | None \<Rightarrow> 0); ok = (v \<noteq> None)
      in if ok \<and> n > 1 \<or> n < -1 then ''s'' else '''')"

definition ElapsedSec :: "gotime \<Rightarrow> int \<Rightarrow> int \<Rightarrow> bool" where
  "ElapsedSec now lastTimestamp elapsedTime \<longleftrightarrow> wrap64 (lastTimestamp + elapsedTime) < Unix now"

section \<open>Human readable output\<close>

text \<open>Rounding as the \<open>%.1f\<close> verb does it: to the nearest tenth, ties to the even digit.\<close>

definition round_half_even :: "int \<Rightarrow> int \<Rightarrow> int" where
  "round_half_even n d =
     (let q = n div d; r = n mod d
      in if 2 * r < d then q else if 2 * r > d then q + 1 else if even q then q else q + 1)"

definition fmt_1f :: "int \<Rightarrow> int \<Rightarrow> string" where
  "fmt_1f num den =
     (let q = round_half_even (10 * num) den
      in (if q < 0 then ''-'' else '''') @ Itoa (\<bar>q\<bar> div 10) @ ''.'' @ Itoa (\<bar>q\<bar> mod 10))"

fun ReadableSize_loop :: "int \<Rightarrow> int \<Rightarrow> string list \<Rightarrow> string" where
  "ReadableSize_loop v den [] = ''''"
| "ReadableSize_loop v den (u # us) =
     (if v < 1024 * den \<or> u = ''TiB'' then fmt_1f v den @ '' '' @ u
      else ReadableSize_loop v (den * 1024) us)"

definition ReadableSize :: "int \<Rightarrow> string" where
  "ReadableSize value = ReadableSize_loop value 1 [''B'', ''KiB'', ''MiB'', ''GiB'', ''TiB'']"

definition FuzzyTimeStr :: "duration \<Rightarrow> string" where
  "FuzzyTimeStr d =
     (let minute = 60 * time_Second; hour = 60 * minute; day = 24 * hour; year = 365 * day
      in if go_div d minute = 0 then ''up-to-date''
         else if d < 0 then ''in the future''
         else if d < hour then
           Itoa (go_div d minute) @ '' minute'' @ Plural (Some (go_div d minute)) @ '' ago''
         else if d < day then
           Itoa (go_div d hour) @ '' hour'' @ Plural (Some (go_div d hour)) @ '' ago''
         else if d > year then
           Itoa (go_div d year) @ '' year'' @ Plural (Some (go_div d year)) @ '' ago''
         else Itoa (go_div d day) @ '' day'' @ Plural (Some (go_div d day)) @ '' ago'')"

section \<open>Location codes\<close>

fun sanitize_loop :: "string \<Rightarrow> string list \<Rightarrow> string" where
  "sanitize_loop output [] = output"
| "sanitize_loop output (c # ccodes) = sanitize_loop (output @ ToUpper c @ '' '') ccodes"

definition SanitizeLocationCodes :: "string \<Rightarrow> string" where
  "SanitizeLocationCodes input =
     TrimRight (sanitize_loop '''' (Fields (ReplaceAll input (CHR '','') (CHR '' '')))) (CHR '' '')"

section \<open>Distances\<close>

definition DegToRad :: real where
  "DegToRad = pi / 180"

definition math_Atan2 :: "real \<Rightarrow> real \<Rightarrow> real" where
  "math_Atan2 y x =
     (if x > 0 then arctan (y / x)
      else if x < 0 \<and> y \<ge> 0 then arctan (y / x) + pi
      else if x < 0 then arctan (y / x) - pi
      else if y > 0 then pi / 2 else if y < 0 then - (pi / 2) else 0)"

definition haversine :: "real \<Rightarrow> real \<Rightarrow> real \<Rightarrow> real \<Rightarrow> real" where
  "haversine lat1 lon1 lat2 lon2 =
     (let dLat = (lat2 - lat1) * DegToRad; dLon = (lon2 - lon1) * DegToRad
      in sin (dLat / 2) * sin (dLat / 2) +
         cos (lat1 * DegToRad) * cos (lat2 * DegToRad) * sin (dLon / 2) * sin (dLon / 2))"

definition GetDistanceKm :: "real \<Rightarrow> real \<Rightarrow> real \<Rightarrow> real \<Rightarrow> real" where
  "GetDistanceKm lat1 lon1 lat2 lon2 =
     (let R = 6371; a = haversine lat1 lon1 lat2 lon2; c = 2 * math_Atan2 (sqrt a) (sqrt (1 - a))
      in R * c)"

section \<open>Client addresses\<close>

definition RemoteIPFromAddr :: "string \<Rightarrow> string gores" where
  "RemoteIPFromAddr remoteAddr =
     (let i = LastIndex remoteAddr (CHR '':'')
      in if i < 0 then Inl SliceBounds else Inr (take (nat i) remoteAddr))"

definition ExtractRemoteIP :: "string \<Rightarrow> string" where
  "ExtractRemoteIP XForwardedFor =
     (case Split XForwardedFor (CHR '','') of [] \<Rightarrow> '''' | a # _ \<Rightarrow> TrimSpace a)"

text \<open>The resolver is the operating system's: its answer is an argument.\<close>

definition LookupMirrorIP :: "(string \<Rightarrow> err + string list) \<Rightarrow> string \<Rightarrow> (string \<times> err option) gores" where
  "LookupMirrorIP LookupIP host =
     (case LookupIP host of
        Inl e \<Rightarrow> Inr ('''', Some e)
      | Inr addrs \<Rightarrow>
          (let e = (if length addrs > 1 then Some ErrMultipleAddresses else None)
           in case addrs of [] \<Rightarrow> Inl IndexOutOfRange | a # _ \<Rightarrow> Inr (a, e)))"

section \<open>Lemmas\<close>

lemma IsInSlice_iff [simp]: "IsInSlice a list \<longleftrightarrow> a \<in> set list"
  by (induction list) auto

lemma utils_Min_min [simp]: "utils_Min a b = min a b"
  by (auto simp: utils_Min_def min_def)

lemma utils_Max_max [simp]: "utils_Max a b = max a b"
  by (auto simp: utils_Max_def max_def)

lemma HasSuffix_slash: "HasSuffix s ''/'' \<longleftrightarrow> s \<noteq> [] \<and> last s = CHR ''/''"
  by (cases s rule: rev_cases) (auto simp: HasSuffix_iff)

lemma HasPrefix_slash: "HasPrefix s ''/'' \<longleftrightarrow> s \<noteq> [] \<and> hd s = CHR ''/''"
  by (cases s) (auto simp: HasPrefix_iff)

lemma NormalizeURL_idem: "NormalizeURL (NormalizeURL u) = NormalizeURL u"
  by (auto simp: NormalizeURL_def HasSuffix_slash)

lemma upper_char_idem [simp]: "upper_char (upper_char c) = upper_char c"
  by (auto simp: upper_char_def Let_def)

lemma ToUpper_idem [simp]: "ToUpper (ToUpper s) = ToUpper s"
  by (simp add: ToUpper_def)

lemma upper_char_space [simp]: "is_space (upper_char c) = is_space c"
  by (auto simp: upper_char_def is_space_def Let_def)

lemma upper_char_comma [simp]: "upper_char c = CHR '','' \<longleftrightarrow> c = CHR '',''"
proof -
  have "of_char (upper_char c) = (44 :: nat) \<longleftrightarrow> of_char c = (44 :: nat)"
    by (auto simp: upper_char_def Let_def)
  moreover have "d = CHR '','' \<longleftrightarrow> of_char d = (44 :: nat)" for d
  proof -
    have "d = CHR '','' \<longleftrightarrow> of_char d = (of_char (CHR '','') :: nat)"
      by (simp only: of_char_eq_iff)
    then show ?thesis by simp
  qed
  ultimately show ?thesis by simp
qed

lemma ConcatURL_joint:
  "ConcatURL url path =
     (if HasSuffix url ''/'' then butlast url else url) @ ''/'' @
     (if HasPrefix path ''/'' then tl path else path)"
  by (cases url rule: rev_cases; cases path)
    (auto simp: ConcatURL_def HasSuffix_slash HasPrefix_slash)

subsection \<open>Location codes\<close>

lemma sanitize_loop_concat:
  "sanitize_loop out ws = out @ concat (map (\<lambda>w. ToUpper w @ '' '') ws)"
  by (induction ws arbitrary: out) auto

lemma concat_trailing_Join:
  "ws \<noteq> [] \<Longrightarrow> concat (map (\<lambda>w. f w @ [sep]) ws) = Join (map f ws) [sep] @ [sep]"
proof (induction ws)
  case (Cons w ws)
  then show ?case by (cases ws) auto
qed simp

lemma Join_last_nonsep:
  "ws \<noteq> [] \<Longrightarrow> list_all (\<lambda>w. w \<noteq> [] \<and> last w \<noteq> sep) ws \<Longrightarrow>
     Join ws [sep] \<noteq> [] \<and> last (Join ws [sep]) \<noteq> sep"
proof (induction ws "[sep]" rule: Join.induct)
  case (3 w v ws)
  then show ?case by (auto simp: last_append)
qed auto

lemma TrimRight_last: "s \<noteq> [] \<Longrightarrow> last s \<noteq> c \<Longrightarrow> TrimRight (s @ [c]) c = s"
  by (cases s rule: rev_cases) (auto simp: TrimRight_def)

lemma is_space_space [simp]: "is_space (CHR '' '')"
  by (simp add: is_space_def)

lemma words_last_nonspace:
  "list_all (\<lambda>w. w \<noteq> [] \<and> list_all (\<lambda>c. \<not> is_space c) w) ws \<Longrightarrow>
     list_all (\<lambda>w. w \<noteq> [] \<and> last w \<noteq> CHR '' '') ws"
  unfolding list_all_iff by (metis last_in_set is_space_space)

lemma Fields_words:
  "list_all (\<lambda>w. w \<noteq> [] \<and> list_all (\<lambda>c. \<not> is_space c) w) (Fields s)"
  using fields_aux_no_space [of "[]" s] by (simp add: Fields_def)

definition upper_words :: "string \<Rightarrow> string list" where
  "upper_words s = map ToUpper (Fields (ReplaceAll s (CHR '','') (CHR '' '')))"

lemma upper_words_ok:
  "list_all (\<lambda>w. w \<noteq> [] \<and> list_all (\<lambda>c. \<not> is_space c) w) (upper_words s)"
  using Fields_words [of "ReplaceAll s (CHR '','') (CHR '' '')"]
  by (simp add: upper_words_def list.pred_map ToUpper_def comp_def)

lemma Sanitize_Join: "SanitizeLocationCodes s = Join (upper_words s) '' ''"
proof (cases "upper_words s = []")
  case True
  then show ?thesis by (simp add: SanitizeLocationCodes_def upper_words_def TrimRight_def)
next
  case False
  have out: "sanitize_loop '''' (Fields (ReplaceAll s (CHR '','') (CHR '' ''))) =
      Join (upper_words s) '' '' @ '' ''"
    using False concat_trailing_Join [of "Fields (ReplaceAll s (CHR '','') (CHR '' ''))" ToUpper]
    by (simp add: sanitize_loop_concat upper_words_def)
  have "Join (upper_words s) '' '' \<noteq> [] \<and> last (Join (upper_words s) '' '') \<noteq> CHR '' ''"
    by (rule Join_last_nonsep [OF False words_last_nonspace [OF upper_words_ok]])
  then show ?thesis
    unfolding SanitizeLocationCodes_def out by (simp add: TrimRight_last)
qed

lemma Fields_Join:
  "list_all (\<lambda>w. w \<noteq> [] \<and> list_all (\<lambda>c. \<not> is_space c) w) ws \<Longrightarrow> Fields (Join ws '' '') = ws"
proof (induction ws "'' ''" rule: Join.induct)
  case (2 w)
  then show ?case using fields_aux_word [of w "[]" "[]"] by (simp add: Fields_def)
next
  case (3 w v ws)
  then show ?case
    using fields_aux_word [of w "[]" "'' '' @ Join (v # ws) '' ''"] by (simp add: Fields_def)
qed (simp add: Fields_def)

lemma ReplaceAll_absent: "old \<notin> set s \<Longrightarrow> ReplaceAll s old new = s"
  by (auto simp: ReplaceAll_def intro: map_idI)

lemma set_fields_aux: "w \<in> set (fields_aux acc s) \<Longrightarrow> set w \<subseteq> set acc \<union> set s"
  by (induction acc s arbitrary: w rule: fields_aux.induct) (auto split: if_splits)

lemma set_Join: "set (Join ws sep) \<subseteq> (\<Union>w \<in> set ws. set w) \<union> set sep"
  by (induction ws sep rule: Join.induct) auto

lemma Sanitize_no_comma: "CHR '','' \<notin> set (SanitizeLocationCodes s)"
proof -
  have "CHR '','' \<notin> set w" if w: "w \<in> set (upper_words s)" for w
  proof -
    from w obtain v where v: "v \<in> set (Fields (ReplaceAll s (CHR '','') (CHR '' '')))" "w = ToUpper v"
      by (auto simp: upper_words_def)
    then have "CHR '','' \<notin> set v"
      using set_fields_aux [of v "[]" "ReplaceAll s (CHR '','') (CHR '' '')"]
      by (auto simp: Fields_def ReplaceAll_def split: if_splits)
    then show ?thesis using v(2) by (metis ToUpper_def imageE set_map upper_char_comma)
  qed
  then show ?thesis using set_Join [of "upper_words s" "'' ''"] by (auto simp: Sanitize_Join)
qed

lemma Fields_Sanitize: "Fields (SanitizeLocationCodes s) = upper_words s"
  by (simp add: Sanitize_Join Fields_Join upper_words_ok)

lemma upper_words_Sanitize: "upper_words (SanitizeLocationCodes s) = upper_words s"
  unfolding upper_words_def [of "SanitizeLocationCodes s"]
  by (simp add: ReplaceAll_absent Sanitize_no_comma Fields_Sanitize) (simp add: upper_words_def)

subsection \<open>Distances\<close>

lemma haversine_sym: "haversine a b c d = haversine c d a b"
proof -
  have "sin ((a - c) * DegToRad / 2) = - sin ((c - a) * DegToRad / 2)"
    "sin ((b - d) * DegToRad / 2) = - sin ((d - b) * DegToRad / 2)"
    by (metis minus_diff_eq minus_divide_left mult_minus_left sin_minus)+
  then show ?thesis unfolding haversine_def Let_def by simp
qed

lemma haversine_identity:
  fixes p q :: real
  shows "(sin ((q - p) / 2))\<^sup>2 + cos p * cos q = (1 + cos (p + q)) / 2"
proof -
  have "(sin ((q - p) / 2))\<^sup>2 = (1 - cos (q - p)) / 2"
  proof -
    have "2 * ((q - p) / 2) = q - p" by simp
    with cos_double_sin [of "(q - p) / 2"] have "cos (q - p) = 1 - 2 * (sin ((q - p) / 2))\<^sup>2"
      by (simp only:)
    then show ?thesis by simp
  qed
  moreover have "cos p * cos q = (cos (p - q) + cos (p + q)) / 2" by (rule cos_times_cos)
  moreover have "cos (q - p) = cos (p - q)" by (metis cos_minus minus_diff_eq)
  ultimately show ?thesis by simp
qed

lemma haversine_bounds: "0 \<le> haversine lat1 lon1 lat2 lon2 \<and> haversine lat1 lon1 lat2 lon2 \<le> 1"
proof -
  define p q y where "p = lat1 * DegToRad" and "q = lat2 * DegToRad"
    and "y = (lon2 - lon1) * DegToRad / 2"
  define A B where "A = (sin ((q - p) / 2))\<^sup>2" and "B = (sin y)\<^sup>2"
  have h: "haversine lat1 lon1 lat2 lon2 = A + cos p * cos q * B"
    unfolding haversine_def Let_def A_def B_def p_def q_def y_def
    by (simp add: power2_eq_square left_diff_distrib)
  have AB: "0 \<le> A" "A \<le> 1" "0 \<le> B" "B \<le> 1"
    by (simp_all add: A_def B_def abs_square_le_1)
  have e: "A + cos p * cos q = (1 + cos (p + q)) / 2"
    unfolding A_def by (rule haversine_identity)
  have s: "0 \<le> A + cos p * cos q" unfolding e
    using add_left_mono [OF cos_ge_minus_one [of "p + q"], of 1] by simp
  have s': "A + cos p * cos q \<le> 1" unfolding e using cos_le_one [of "p + q"] by simp
  show ?thesis
  proof (cases "0 \<le> cos p * cos q")
    case True
    then have "cos p * cos q * B \<le> cos p * cos q" "0 \<le> cos p * cos q * B"
      using AB mult_left_mono [of B 1 "cos p * cos q"] by simp_all
    then show ?thesis using h AB s s' by simp
  next
    case False
    then have "cos p * cos q \<le> cos p * cos q * B" "cos p * cos q * B \<le> 0"
      using AB mult_left_mono_neg [of B 1 "cos p * cos q"] by (simp_all add: mult_nonpos_nonneg)
    then show ?thesis using h AB s s' by simp
  qed
qed

lemma math_Atan2_quadrant: "0 \<le> y \<Longrightarrow> 0 \<le> x \<Longrightarrow> 0 \<le> math_Atan2 y x \<and> math_Atan2 y x \<le> pi / 2"
  using arctan_ubound [of "y / x"] by (auto simp: math_Atan2_def less_imp_le)

lemma GetDistanceKm_same: "GetDistanceKm lat lon lat lon = 0"
  by (simp add: GetDistanceKm_def haversine_def math_Atan2_def)

section \<open>Properties\<close>

text \<open>
  \<open>SanitizeLocationCodes\<close> normalises a list of codes: reading its result back by white space
  gives the upper-cased words of the input (commas count as blanks), the result has no comma,
  and applying it twice changes nothing.
\<close>

theorem SanitizeLocationCodes_normal:
  "Fields (SanitizeLocationCodes s) =
       map ToUpper (Fields (ReplaceAll s (CHR '','') (CHR '' ''))) \<and>
     CHR '','' \<notin> set (SanitizeLocationCodes s) \<and>
     SanitizeLocationCodes (SanitizeLocationCodes s) = SanitizeLocationCodes s"
proof (intro conjI)
  show "Fields (SanitizeLocationCodes s) =
      map ToUpper (Fields (ReplaceAll s (CHR '','') (CHR '' '')))"
    by (simp add: Fields_Sanitize upper_words_def)
  show "SanitizeLocationCodes (SanitizeLocationCodes s) = SanitizeLocationCodes s"
    by (subst Sanitize_Join) (simp add: upper_words_Sanitize Sanitize_Join [symmetric])
qed (rule Sanitize_no_comma)


end
