(* ===== verification/Config.thy ===== *)
theory Config
  imports Utils
begin

text \<open>
  The configuration of \<^verbatim>\<open>config/config.go\<close> and the constants of \<^verbatim>\<open>core\<close>: the record of
  options, its defaults, loading and reloading with the checks on the values, and the
  notification of subscribers.  The file system, the environment and the YAML decoder are
  arguments.  A \<open>float32\<close> option is a real number.
\<close>

section \<open>Constants of the core package\<close>

definition RedisMinimumVersion :: string where
  "RedisMinimumVersion = ''3.2.0''"

definition DBVersion :: int where
  "DBVersion = 1"

definition DBVersionKey :: string where
  "DBVersionKey = ''MIRRORBITS_DB_VERSION''"

datatype ScannerType = RSYNC | FTP | HTTP

text \<open>A \<open>core.Precision\<close> is a duration.\<close>

type_synonym Precision = duration

definition Precision_Duration :: "Precision \<Rightarrow> duration" where
  "Precision_Duration p = p"

section \<open>The options\<close>

record ParticularFileMapping =
  VersionName :: string
  ScenarioName :: string
  ArchName :: string
  SourcePath :: "string list"
  SHA256List :: "string list"

record DirFilter =
  SecondDir :: "string list"
  ThirdDir :: "string list"
  ParticularFile :: "ParticularFileMapping list"

record FileVersionMap =
  fv_FilePath :: string
  fv_Version :: string

record Fallback =
  fb_URL :: string
  fb_CountryCode :: string
  fb_ContinentCode :: string
  fb_Name :: string
  fb_NetworkBandwidth :: int

record sentinels =
  sentinel_Host :: string

record hashing =
  hash_SHA1 :: bool
  hash_SHA256 :: bool
  hash_MD5 :: bool

record Configuration =
  Repository :: string
  RepositoryFileListText :: string
  RepositorySourcesLockFile :: string
  cfg_Templates :: string
  cfg_LocalJSPath :: string
  OutputMode :: string
  ListenAddress :: string
  cfg_Gzip :: bool
  RedisAddress :: string
  RedisPassword :: string
  RedisDB :: int
  LogDir :: string
  TraceFileLocation :: string
  GeoipDatabasePath :: string
  ConcurrentSync :: int
  ScanInterval :: int
  CheckInterval :: int
  RepositoryScanInterval :: int
  MaxLinkHeaders :: int
  FixTimezoneOffsets :: bool
  Hashes :: hashing
  DisallowRedirects :: bool
  WeightDistributionRange :: real
  DisableOnMissingFile :: bool
  Fallbacks :: "Fallback list"
  SchemaStrictMatch :: bool
  RedisSentinelMasterName :: string
  RedisSentinels :: "sentinels list"
  RPCListenAddress :: string
  RPCPassword :: string
  PreReleaseVersion :: string
  RepositoryFilter :: DirFilter
  RepoFileIntoVersion :: "FileVersionMap list"

text \<open>\<open>TEMPLATES_PATH\<close> is set by the linker, so it is an argument.\<close>

definition defaultConfig :: "string \<Rightarrow> Configuration" where
  "defaultConfig TEMPLATES_PATH =
     \<lparr>Repository = '''', RepositoryFileListText = '''', RepositorySourcesLockFile = '''',
      cfg_Templates = TEMPLATES_PATH, cfg_LocalJSPath = '''', OutputMode = ''auto'',
      ListenAddress = '':8080'', cfg_Gzip = False, RedisAddress = ''127.0.0.1:6379'',
      RedisPassword = '''', RedisDB = 0, LogDir = '''', TraceFileLocation = '''',
      GeoipDatabasePath = ''/usr/share/GeoIP/'', ConcurrentSync = 50, ScanInterval = 60,
      CheckInterval = 30, RepositoryScanInterval = 50, MaxLinkHeaders = 10,
      FixTimezoneOffsets = False,
      Hashes = \<lparr>hash_SHA1 = False, hash_SHA256 = True, hash_MD5 = False\<rparr>,
      DisallowRedirects = False, WeightDistributionRange = 3 / 2, DisableOnMissingFile = False,
      Fallbacks = [], SchemaStrictMatch = True, RedisSentinelMasterName = '''',
      RedisSentinels = [], RPCListenAddress = ''localhost:3390'', RPCPassword = '''',
      PreReleaseVersion = '''',
      RepositoryFilter = \<lparr>SecondDir = [], ThirdDir = [], ParticularFile = []\<rparr>,
      RepoFileIntoVersion = []\<rparr>"

section \<open>Subscribers\<close>

text \<open>
  A subscriber is a \<open>chan bool\<close>: its capacity, the values waiting in it, and whether a receiver
  is blocked on it.  A send that is not possible at once is dropped by the \<open>default\<close> case.
\<close>

record bool_chan =
  chan_cap :: nat
  chan_buf :: "bool list"
  chan_receiver :: bool

definition try_send :: "bool_chan \<Rightarrow> bool \<Rightarrow> bool_chan" where
  "try_send ch b =
     (if chan_receiver ch then ch\<lparr>chan_receiver := False\<rparr>
      else if length (chan_buf ch) < chan_cap ch then ch\<lparr>chan_buf := chan_buf ch @ [b]\<rparr>
      else ch)"

record config_state =
  config :: "Configuration option"
  subscribers :: "bool_chan list"
  ConfigFile :: string

definition SubscribeConfig :: "config_state \<Rightarrow> bool_chan \<Rightarrow> config_state" where
  "SubscribeConfig st subscriber = st\<lparr>subscribers := subscribers st @ [subscriber]\<rparr>"

definition notifySubscribers :: "config_state \<Rightarrow> config_state" where
  "notifySubscribers st = st\<lparr>subscribers := map (\<lambda>c. try_send c True) (subscribers st)\<rparr>"

section \<open>Loading\<close>

record config_env =
  fileExists :: "string \<Rightarrow> bool"
  ReadFile :: "string \<Rightarrow> err + string"
  yaml_Unmarshal :: "string \<Rightarrow> Configuration \<Rightarrow> err + Configuration"
  filepath_Abs :: "string \<Rightarrow> err + string"
  TEMPLATES_PATH :: string

datatype load_result = Exited | Failed err | Loaded

fun testSentinelsEq_loop :: "sentinels list \<Rightarrow> sentinels list \<Rightarrow> bool" where
  "testSentinelsEq_loop (x # xs) (y # ys) =
     (if sentinel_Host x \<noteq> sentinel_Host y then False else testSentinelsEq_loop xs ys)"
| "testSentinelsEq_loop _ _ = True"

definition testSentinelsEq :: "sentinels list \<Rightarrow> sentinels list \<Rightarrow> bool" where
  "testSentinelsEq a b = (if length a \<noteq> length b then False else testSentinelsEq_loop a b)"

definition ReloadConfig :: "config_env \<Rightarrow> config_state \<Rightarrow> load_result \<times> config_state" where
  "ReloadConfig env st0 =
     (let st = (if ConfigFile st0 = '''' \<and> fileExists env ''/etc/mirrorbits.conf''
                then st0\<lparr>ConfigFile := ''/etc/mirrorbits.conf''\<rparr> else st0)
      in case ReadFile env (ConfigFile st) of
           Inl e \<Rightarrow> (Exited, st)
         | Inr content \<Rightarrow>
             (case yaml_Unmarshal env content (defaultConfig (TEMPLATES_PATH env)) of
                Inl e \<Rightarrow> (Failed (ErrWrap e (ConfigFile st)), st)
              | Inr c \<Rightarrow>
                  if WeightDistributionRange c \<le> 0 then
                    (Failed (ErrMsg ''WeightDistributionRange must be > 0''), st)
                  else if \<not> IsInSlice (OutputMode c) [''auto'', ''json'', ''redirect''] then
                    (Failed (ErrMsg (''Config: outputMode can only be set to 'auto', 'json' or 'redirect'' @ [CHR 0x27])), st)
                  else if Repository c = '''' then
                    (Failed (ErrMsg ''Path to local repository not configured (see mirrorbits.conf)''), st)
                  else (case filepath_Abs env (Repository c) of
                          Inl e \<Rightarrow> (Failed (ErrWrap e ''Invalid local repository path''), st)
                        | Inr p \<Rightarrow>
                            (let c1 = c\<lparr>Repository := p\<rparr>;
                                 c2 = (if RepositoryScanInterval c1 < 0
                                       then c1\<lparr>RepositoryScanInterval := 0\<rparr> else c1)
                             in (Loaded, notifySubscribers (st\<lparr>config := Some c2\<rparr>))))))"

definition LoadConfig :: "config_env \<Rightarrow> config_state \<Rightarrow> load_result \<times> config_state" where
  "LoadConfig env st =
     (if config st \<noteq> None then (Loaded, st)
      else (case ReloadConfig env st of (Failed e, st') \<Rightarrow> (Exited, st') | r \<Rightarrow> r))"

definition GetConfig :: "config_state \<Rightarrow> Configuration option" where
  "GetConfig st = config st"

section \<open>Properties\<close>

definition config_valid :: "Configuration \<Rightarrow> bool" where
  "config_valid c \<longleftrightarrow>
     WeightDistributionRange c > 0 \<and> OutputMode c \<in> {''auto'', ''json'', ''redirect''} \<and>
     RepositoryScanInterval c \<ge> 0"

definition config_inv :: "config_state \<Rightarrow> bool" where
  "config_inv st \<longleftrightarrow> (case config st of None \<Rightarrow> True | Some c \<Rightarrow> config_valid c)"

lemma testSentinelsEq_iff:
  "testSentinelsEq a b \<longleftrightarrow> map sentinel_Host a = map sentinel_Host b"
proof -
  have "length xs = length ys \<Longrightarrow>
      testSentinelsEq_loop xs ys \<longleftrightarrow> map sentinel_Host xs = map sentinel_Host ys" for xs ys
    by (induction xs ys rule: list_induct2) auto
  then show ?thesis
    unfolding testSentinelsEq_def by (metis (mono_tags) length_map)
qed

lemma config_notify [simp]: "config (notifySubscribers st) = config st"
  by (simp add: notifySubscribers_def)

lemma ReloadConfig_cases:
  "ReloadConfig env st = (res, st') \<Longrightarrow>
     (res = Loaded \<and> (\<exists>c. config st' = Some c \<and> config_valid c)) \<or>
     (res \<noteq> Loaded \<and> config st' = config st \<and> subscribers st' = subscribers st)"
  by (auto simp: ReloadConfig_def Let_def config_valid_def split: if_splits sum.splits)


definition demo_env :: config_env where
  "demo_env =
     \<lparr>fileExists = (\<lambda>_. False), ReadFile = (\<lambda>_. Inr ''Repository: /srv''),
      yaml_Unmarshal = (\<lambda>_ c. Inr (c\<lparr>Repository := ''/srv'', RepositoryScanInterval := -4\<rparr>)),
      filepath_Abs = Inr, TEMPLATES_PATH = ''''\<rparr>"

definition demo_config_state :: config_state where
  "demo_config_state =
     \<lparr>config = None,
      subscribers = [\<lparr>chan_cap = 1, chan_buf = [], chan_receiver = False\<rparr>], ConfigFile = ''a''\<rparr>"


end
