(* ===== verification/Geo.thy ===== *)
theory Geo
  imports Config
begin

text \<open>
  The GeoIP layer of \<^verbatim>\<open>network/geoip.go\<close> and the two helpers of \<^verbatim>\<open>utils/utils.go\<close> that read a
  GeoIP record.  The MaxMind reader is a third-party package: opening a database file and looking
  an address up in it are arguments, as is the address parser.
\<close>

section \<open>Records\<close>

record GeoIPRecord =
  geo_CountryCode :: string
  geo_ContinentCode :: string
  geo_City :: string
  geo_Country :: string
  geo_Latitude :: real
  geo_Longitude :: real
  geo_ASName :: string
  geo_ASNum :: nat

definition empty_record :: GeoIPRecord where
  "empty_record =
     \<lparr>geo_CountryCode = '''', geo_ContinentCode = '''', geo_City = '''', geo_Country = '''',
      geo_Latitude = 0, geo_Longitude = 0, geo_ASName = '''', geo_ASNum = 0\<rparr>"

definition geo_IsValid :: "GeoIPRecord \<Rightarrow> bool" where
  "geo_IsValid g \<longleftrightarrow> length (geo_CountryCode g) > 0"

text \<open>The two structures a lookup decodes into.\<close>

record CityDb =
  city_Name :: string
  country_IsoCode :: string
  country_Name :: string
  continent_Code :: string
  loc_Latitude :: real
  loc_Longitude :: real

record ASNDb =
  AutonomousSystemNumber :: nat
  AutonomousSystemOrg :: string

section \<open>Databases\<close>

text \<open>A reader answers lookups and knows when its database was built.\<close>

record ('a, 'd) reader =
  BuildEpoch :: int
  Lookup :: "'a \<Rightarrow> err + 'd"

record ('a, 'd) geoipDB =
  db_filename :: string
  db_modTime :: gotime
  db_reader :: "('a, 'd) reader option"

record 'a GeoIP =
  city :: "('a, CityDb) geoipDB option"
  asn :: "('a, ASNDb) geoipDB option"

definition NewGeoIP :: "'a GeoIP" where
  "NewGeoIP = \<lparr>city = None, asn = None\<rparr>"

record GeoIPError =
  Errors :: "err list"
  loaded :: nat

definition IsFatal :: "GeoIPError \<Rightarrow> bool" where
  "IsFatal e \<longleftrightarrow> loaded e = length (Errors e)"

definition geoipUpdatedExt :: string where
  "geoipUpdatedExt = ''.updated''"

text \<open>\<open>statExists f\<close> is the negation of \<open>os.IsNotExist\<close> on the error of \<open>os.Stat f\<close>.\<close>

definition openDatabase ::
    "string \<Rightarrow> (string \<Rightarrow> bool) \<Rightarrow> (string \<Rightarrow> err + ('a, 'd) reader) \<Rightarrow> string \<Rightarrow> err + ('a, 'd) reader" where
  "openDatabase GeoipPath statExists mmdb_Open file =
     (let dbpath = (if GeoipPath \<noteq> [] \<and> \<not> HasSuffix GeoipPath ''/'' then GeoipPath @ ''/'' else GeoipPath);
          filename = dbpath @ file;
          filename' = (if statExists (filename @ geoipUpdatedExt) then filename @ geoipUpdatedExt else filename)
      in mmdb_Open filename')"

definition loadDB ::
    "(string \<Rightarrow> err + ('a, 'd) reader) \<Rightarrow> string \<Rightarrow> ('a, 'd) geoipDB option \<Rightarrow> GeoIPError \<Rightarrow>
       ('a, 'd) geoipDB option \<times> GeoIPError" where
  "loadDB openDb filename geodb ge =
     (let ge1 = ge\<lparr>loaded := loaded ge + 1\<rparr>;
          g = (case geodb of
                 None \<Rightarrow> \<lparr>db_filename = filename, db_modTime = 0, db_reader = None\<rparr>
               | Some g \<Rightarrow> g)
      in case openDb filename of
           Inl e \<Rightarrow> (Some g, ge1\<lparr>Errors := Errors ge1 @ [e]\<rparr>)
         | Inr db \<Rightarrow>
             (let modTime = time_Unix (BuildEpoch db)
              in if db_modTime g = modTime then (Some g, ge1)
                 else (Some (g\<lparr>db_reader := Some db, db_modTime := modTime\<rparr>), ge1)))"

definition LoadGeoIP ::
    "(string \<Rightarrow> err + ('a, CityDb) reader) \<Rightarrow> (string \<Rightarrow> err + ('a, ASNDb) reader) \<Rightarrow> 'a GeoIP \<Rightarrow>
       GeoIPError option \<times> 'a GeoIP" where
  "LoadGeoIP openCity openASN g =
     (let ret = \<lparr>Errors = [], loaded = 0\<rparr>;
          (c, ret1) = loadDB openCity ''GeoLite2-City.mmdb'' (city g) ret;
          (a, ret2) = loadDB openASN ''GeoLite2-ASN.mmdb'' (asn g) ret1
      in (if length (Errors ret2) > 0 then Some ret2 else None, g\<lparr>city := c, asn := a\<rparr>))"

section \<open>Looking an address up\<close>

definition fill_city :: "CityDb \<Rightarrow> GeoIPRecord \<Rightarrow> GeoIPRecord" where
  "fill_city c ret =
     (let isoCode = ToUpper (country_IsoCode c);
          ret1 =
            (if isoCode = ''TWN'' \<or> isoCode = ''TPE'' \<or> isoCode = ''TW'' then
               ret\<lparr>geo_CountryCode := ''CN'', geo_Country := ''China''\<rparr>
             else if isoCode = ''HK'' \<or> isoCode = ''HKSAR'' \<or> isoCode = ''HKG'' then
               ret\<lparr>geo_CountryCode := ''CN'', geo_Country := ''China''\<rparr>
             else if isoCode = ''MO'' \<or> isoCode = ''MC'' \<or> isoCode = ''OMA'' then
               ret\<lparr>geo_CountryCode := ''CN'', geo_Country := ''China''\<rparr>
             else ret\<lparr>geo_CountryCode := isoCode, geo_Country := country_Name c\<rparr>)
      in ret1\<lparr>geo_ContinentCode := continent_Code c, geo_City := city_Name c,
              geo_Latitude := loc_Latitude c, geo_Longitude := loc_Longitude c\<rparr>)"

definition fill_asn :: "ASNDb \<Rightarrow> GeoIPRecord \<Rightarrow> GeoIPRecord" where
  "fill_asn a ret =
     ret\<lparr>geo_ASName := AutonomousSystemOrg a, geo_ASNum := AutonomousSystemNumber a\<rparr>"

text \<open>The database behind a \<open>*geoipDB\<close>, if both the pointer and its field are not nil.\<close>

definition open_db :: "('a, 'd) geoipDB option \<Rightarrow> ('a, 'd) reader option" where
  "open_db g = (case g of None \<Rightarrow> None | Some d \<Rightarrow> db_reader d)"

definition GetRecord :: "(string \<Rightarrow> 'a option) \<Rightarrow> 'a GeoIP \<Rightarrow> string \<Rightarrow> GeoIPRecord" where
  "GetRecord ParseIP g ip =
     (case ParseIP ip of
        None \<Rightarrow> empty_record
      | Some addr \<Rightarrow>
          (case (case open_db (city g) of
                   None \<Rightarrow> Some empty_record
                 | Some r \<Rightarrow> (case Lookup r addr of Inl e \<Rightarrow> None | Inr c \<Rightarrow> Some (fill_city c empty_record))) of
             None \<Rightarrow> empty_record
           | Some ret \<Rightarrow>
               (case open_db (asn g) of
                  None \<Rightarrow> ret
                | Some r \<Rightarrow> (case Lookup r addr of Inl e \<Rightarrow> empty_record | Inr a \<Rightarrow> fill_asn a ret))))"

definition IsIPv6 :: "string \<Rightarrow> bool" where
  "IsIPv6 ip = Contains ip '':''"

section \<open>Country lists\<close>

fun additional_loop :: "string \<Rightarrow> nat \<Rightarrow> string list \<Rightarrow> bool" where
  "additional_loop cc i [] = False"
| "additional_loop cc i (b # bs) = (if i > 0 \<and> b = cc then True else additional_loop cc (i + 1) bs)"

definition IsAdditionalCountry :: "GeoIPRecord \<Rightarrow> string list \<Rightarrow> bool" where
  "IsAdditionalCountry clientInfo list =
     (if \<not> geo_IsValid clientInfo then False else additional_loop (geo_CountryCode clientInfo) 0 list)"

definition IsPrimaryCountry :: "GeoIPRecord \<Rightarrow> string list \<Rightarrow> bool" where
  "IsPrimaryCountry clientInfo list =
     (if \<not> geo_IsValid clientInfo then False
      else if length list > 0 \<and> list ! 0 = geo_CountryCode clientInfo then True else False)"

section \<open>Lemmas\<close>

lemma additional_loop_pos: "i > 0 \<Longrightarrow> additional_loop cc i bs \<longleftrightarrow> cc \<in> set bs"
  by (induction bs arbitrary: i) auto

lemma IsAdditionalCountry_iff:
  "IsAdditionalCountry c list \<longleftrightarrow> geo_IsValid c \<and> geo_CountryCode c \<in> set (tl list)"
  by (cases list) (auto simp: IsAdditionalCountry_def additional_loop_pos)

lemma IsPrimaryCountry_iff:
  "IsPrimaryCountry c list \<longleftrightarrow> geo_IsValid c \<and> list \<noteq> [] \<and> hd list = geo_CountryCode c"
  by (cases list) (auto simp: IsPrimaryCountry_def)

lemma empty_record_invalid [simp]: "\<not> geo_IsValid empty_record"
  by (simp add: geo_IsValid_def empty_record_def)

definition folded_codes :: "string list" where
  "folded_codes = [''TWN'', ''TPE'', ''TW'', ''HK'', ''HKSAR'', ''HKG'', ''MO'', ''MC'', ''OMA'']"

lemma fill_city_country:
  "geo_CountryCode (fill_city c r) \<notin> set folded_codes \<and>
     ToUpper (geo_CountryCode (fill_city c r)) = geo_CountryCode (fill_city c r)"
proof -
  have "ToUpper ''CN'' = ''CN''" by (simp add: ToUpper_def upper_char_def)
  then show ?thesis by (simp add: fill_city_def Let_def folded_codes_def)
qed

lemma empty_not_folded: "'''' \<notin> set folded_codes"
  by (simp add: folded_codes_def)

lemma fill_asn_country [simp]: "geo_CountryCode (fill_asn a r) = geo_CountryCode r"
  by (simp add: fill_asn_def)

lemma GetRecord_origin:
  "GetRecord ParseIP g ip = empty_record \<or>
   (\<exists>r. geo_CountryCode (GetRecord ParseIP g ip) = geo_CountryCode r \<and>
        (r = empty_record \<or> (\<exists>c. r = fill_city c empty_record)))"
  by (auto simp: GetRecord_def split: option.splits sum.splits)

lemma loadDB_counts:
  assumes "loadDB op f d ge = (d', ge')"
  shows "loaded ge' = loaded ge + 1" "length (Errors ge') \<le> length (Errors ge) + 1"
    "length (Errors ge) \<le> length (Errors ge')" "d' \<noteq> None"
  using assms by (auto simp: loadDB_def Let_def split: sum.splits if_splits)


definition demo_city :: "nat GeoIP" where
  "demo_city =
     \<lparr>city = Some \<lparr>db_filename = ''c'', db_modTime = 1,
        db_reader = Some \<lparr>BuildEpoch = 0, Lookup = (\<lambda>_. Inr \<lparr>city_Name = ''Taipei'', country_IsoCode = ''tw'',
          country_Name = ''Taiwan'', continent_Code = ''AS'', loc_Latitude = 25, loc_Longitude = 121\<rparr>)\<rparr>\<rparr>,
      asn = None\<rparr>"


text \<open>
  Loading the databases reports an error exactly when an open failed, the error is fatal
  exactly when both failed, and a database that was loaded before stays loaded, whatever fails.
\<close>

theorem LoadGeoIP_errors:
  assumes "LoadGeoIP openCity openASN g = (e, g')"
  shows "(e = None \<longleftrightarrow> (\<exists>c a. openCity ''GeoLite2-City.mmdb'' = Inr c \<and> openASN ''GeoLite2-ASN.mmdb'' = Inr a)) \<and>
     ((\<exists>ge. e = Some ge \<and> IsFatal ge) \<longleftrightarrow>
        (\<exists>e1 e2. openCity ''GeoLite2-City.mmdb'' = Inl e1 \<and> openASN ''GeoLite2-ASN.mmdb'' = Inl e2)) \<and>
     (open_db (city g) \<noteq> None \<longrightarrow> open_db (city g') \<noteq> None) \<and>
     (open_db (asn g) \<noteq> None \<longrightarrow> open_db (asn g') \<noteq> None)"
  using assms
  by (auto simp: LoadGeoIP_def loadDB_def Let_def IsFatal_def open_db_def
      split: sum.splits if_splits option.splits)

theorem LoadGeoIP_errors_witness:
  "open_db (city (snd (LoadGeoIP (\<lambda>_. Inl (ErrMsg ''x'')) (\<lambda>_. Inl (ErrMsg ''y'')) demo_city))) \<noteq> None \<and>
   fst (LoadGeoIP (\<lambda>_. Inl (ErrMsg ''x'')) (\<lambda>_. Inl (ErrMsg ''y'')) demo_city) \<noteq> None"
proof -
  obtain e g' where l: "LoadGeoIP (\<lambda>_. Inl (ErrMsg ''x'')) (\<lambda>_. Inl (ErrMsg ''y'')) demo_city = (e, g')"
    by fastforce
  have "open_db (city demo_city) \<noteq> None" by (simp add: demo_city_def open_db_def)
  then show ?thesis using LoadGeoIP_errors [OF l] l by auto
qed

end
