(* ===== verification/Mirror.thy ===== *)
theory Mirror
  imports Geo
begin

text \<open>
  The data of \<^verbatim>\<open>filesystem/fileinfo.go\<close> and \<^verbatim>\<open>mirrors/mirrors.go\<close>: files, mirrors, the three
  orders mirrors are sorted by, the per-mirror redirect permission and the time format of the
  database.  Coordinates, distances and weights are reals, the three computed scores a triple.
\<close>

section \<open>Files\<close>

record FileInfo =
  Path :: string
  Size :: int
  ModTime :: gotime
  Sha1 :: string
  Sha256 :: string
  Sha256FileValue :: string
  Md5 :: string

definition NewFileInfo :: "string \<Rightarrow> FileInfo" where
  "NewFileInfo path =
     \<lparr>Path = path, Size = 0, ModTime = 0, Sha1 = '''', Sha256 = '''', Sha256FileValue = '''', Md5 = ''''\<rparr>"

section \<open>Mirrors\<close>

type_synonym Redirects = int

record Mirror =
  ID :: int
  Name :: string
  HttpURL :: string
  RsyncURL :: string
  FtpURL :: string
  SponsorName :: string
  SponsorURL :: string
  SponsorLogoURL :: string
  AdminName :: string
  AdminEmail :: string
  CustomData :: string
  ContinentOnly :: bool
  CountryOnly :: bool
  ASOnly :: bool
  Score :: int
  Latitude :: real
  Longitude :: real
  NetworkBandwidth :: int
  ContinentCode :: string
  CountryCodes :: string
  Country :: string
  ExcludedCountryCodes :: string
  Asnum :: nat
  Comment :: string
  Enabled :: bool
  Up :: bool
  ExcludeReason :: string
  StateSince :: gotime
  AllowRedirects :: Redirects
  TZOffset :: int
  Distance :: real
  CountryFields :: "string list"
  ExcludedCountryFields :: "string list"
  Filepath :: string
  Weight :: real
  ComputedScore :: "int \<times> int \<times> int"
  LastSync :: gotime
  LastSuccessfulSync :: gotime
  LastSuccessfulSyncProtocol :: ScannerType
  LastSuccessfulSyncPrecision :: Precision
  LastModTime :: gotime
  m_FileInfo :: "FileInfo option"

type_synonym Mirrors = "Mirror list"

text \<open>The zero value of the structure.\<close>

definition zero_mirror :: Mirror where
  "zero_mirror =
     \<lparr>ID = 0, Name = '''', HttpURL = '''', RsyncURL = '''', FtpURL = '''', SponsorName = '''',
      SponsorURL = '''', SponsorLogoURL = '''', AdminName = '''', AdminEmail = '''',
      CustomData = '''', ContinentOnly = False, CountryOnly = False, ASOnly = False, Score = 0,
      Latitude = 0, Longitude = 0, NetworkBandwidth = 0, ContinentCode = '''',
      CountryCodes = '''', Country = '''', ExcludedCountryCodes = '''', Asnum = 0, Comment = '''',
      Enabled = False, Up = False, ExcludeReason = '''', StateSince = 0, AllowRedirects = 0,
      TZOffset = 0, Distance = 0, CountryFields = [], ExcludedCountryFields = [], Filepath = '''',
      Weight = 0, ComputedScore = (0, 0, 0), LastSync = 0, LastSuccessfulSync = 0,
      LastSuccessfulSyncProtocol = RSYNC, LastSuccessfulSyncPrecision = 0, LastModTime = 0,
      m_FileInfo = None\<rparr>"

definition Prepare :: "Mirror \<Rightarrow> Mirror" where
  "Prepare m =
     m\<lparr>CountryFields := Fields (CountryCodes m),
       ExcludedCountryFields := Fields (ExcludedCountryCodes m)\<rparr>"

definition IsHTTPS :: "Mirror \<Rightarrow> bool" where
  "IsHTTPS m = HasPrefix (HttpURL m) ''https://''"

section \<open>Orders\<close>

text \<open>\<open>coin\<close> is the outcome of \<open>rand.Intn(2) == 0\<close>.\<close>

definition ByRank_Less :: "bool \<Rightarrow> GeoIPRecord \<Rightarrow> Mirror \<Rightarrow> Mirror \<Rightarrow> bool" where
  "ByRank_Less coin ClientInfo a b =
     (if geo_IsValid ClientInfo then
        if geo_ASNum ClientInfo = Asnum a \<and> Asnum a \<noteq> Asnum b then True
        else if geo_ASNum ClientInfo \<noteq> Asnum a \<and> geo_ASNum ClientInfo = Asnum b then False
        else if geo_CountryCode ClientInfo \<noteq> '''' \<and>
                IsInSlice (geo_CountryCode ClientInfo) (CountryFields a) \<and>
                \<not> IsInSlice (geo_CountryCode ClientInfo) (CountryFields b) then True
        else if geo_CountryCode ClientInfo \<noteq> '''' \<and>
                \<not> IsInSlice (geo_CountryCode ClientInfo) (CountryFields a) \<and>
                IsInSlice (geo_CountryCode ClientInfo) (CountryFields b) then False
        else if geo_ContinentCode ClientInfo \<noteq> '''' \<and>
                geo_ContinentCode ClientInfo = ContinentCode a \<and>
                geo_ContinentCode ClientInfo \<noteq> ContinentCode b then True
        else if geo_ContinentCode ClientInfo \<noteq> '''' \<and>
                geo_ContinentCode ClientInfo \<noteq> ContinentCode a \<and>
                geo_ContinentCode ClientInfo = ContinentCode b then False
        else Distance a < Distance b
      else coin)"

definition ByComputedScore_Less :: "Mirror \<Rightarrow> Mirror \<Rightarrow> bool" where
  "ByComputedScore_Less a b =
     (let (a0, a1, a2) = ComputedScore a; (b0, b1, b2) = ComputedScore b
      in if a0 > b0 then True else if a0 < b0 then False
         else if a1 > b1 then True else if a1 < b1 then False
         else a2 > b2)"

definition ByExcludeReason_Less :: "Mirror \<Rightarrow> Mirror \<Rightarrow> bool" where
  "ByExcludeReason_Less a b = (if ExcludeReason a < ExcludeReason b then True else False)"

section \<open>Redirects\<close>

definition Redirects_Allowed :: "Configuration \<Rightarrow> Redirects \<Rightarrow> bool" where
  "Redirects_Allowed cnf r =
     (if r = 1 then True else if r = 2 then False else DisallowRedirects cnf = False)"

definition Redirects_MarshalYAML :: "Redirects \<Rightarrow> bool option" where
  "Redirects_MarshalYAML r = (if r = 1 then Some True else if r = 2 then Some False else None)"

text \<open>\<open>unmarshal\<close> is the decoder's callback: an error or a value for the \<open>*bool\<close>.\<close>

definition Redirects_UnmarshalYAML :: "err + bool option \<Rightarrow> Redirects \<Rightarrow> err option \<times> Redirects" where
  "Redirects_UnmarshalYAML unmarshal r =
     (case unmarshal of
        Inl e \<Rightarrow> (Some e, r)
      | Inr b \<Rightarrow> (None, case b of None \<Rightarrow> 0 | Some v \<Rightarrow> if v = True then 1 else 2))"

section \<open>Times in the database\<close>

datatype scan_src = SrcInt int | SrcBytes string | SrcOther

definition Time_RedisArg :: "gotime \<Rightarrow> int" where
  "Time_RedisArg t = Unix t"

definition Time_RedisScan :: "scan_src \<Rightarrow> gotime \<Rightarrow> err option \<times> gotime" where
  "Time_RedisScan src t =
     (case src of
        SrcInt i \<Rightarrow> (None, time_Unix i)
      | SrcBytes b \<Rightarrow> (map_option ErrNum (snd (ParseInt b)), time_Unix (fst (ParseInt b)))
      | SrcOther \<Rightarrow> (Some (ErrMsg ''cannot convert''), t))"

section \<open>The orders are strict weak orders\<close>

lemma ByComputedScore_key:
  "ByComputedScore_Less a b \<longleftrightarrow>
     fst (ComputedScore b) < fst (ComputedScore a) \<or>
     fst (ComputedScore b) = fst (ComputedScore a) \<and>
       (fst (snd (ComputedScore b)) < fst (snd (ComputedScore a)) \<or>
        fst (snd (ComputedScore b)) = fst (snd (ComputedScore a)) \<and>
        snd (snd (ComputedScore b)) < snd (snd (ComputedScore a)))"
  by (cases "ComputedScore a"; cases "ComputedScore b") (auto simp: ByComputedScore_Less_def)

interpretation score: strict_weak_order ByComputedScore_Less
  by unfold_locales (auto simp: ByComputedScore_key)

interpretation reason: strict_weak_order ByExcludeReason_Less
proof -
  have eq: "ByExcludeReason_Less = (\<lambda>a b. ExcludeReason a < ExcludeReason b)"
    by (auto simp: ByExcludeReason_Less_def fun_eq_iff)
  show "strict_weak_order ByExcludeReason_Less" unfolding eq by (rule strict_weak_order_key)
qed

text \<open>With a located client the rank is a lexicographic order; without one it is a coin toss.\<close>

definition rank_as :: "GeoIPRecord \<Rightarrow> Mirror \<Rightarrow> bool" where
  "rank_as c m \<longleftrightarrow> geo_ASNum c = Asnum m"

definition rank_country :: "GeoIPRecord \<Rightarrow> Mirror \<Rightarrow> bool" where
  "rank_country c m \<longleftrightarrow> geo_CountryCode c \<in> set (CountryFields m)"

definition rank_continent :: "GeoIPRecord \<Rightarrow> Mirror \<Rightarrow> bool" where
  "rank_continent c m \<longleftrightarrow> geo_ContinentCode c \<noteq> '''' \<and> geo_ContinentCode c = ContinentCode m"

lemma ByRank_lex:
  assumes "geo_IsValid c"
  shows "ByRank_Less coin c =
    (\<lambda>a b. rank_as c a \<and> \<not> rank_as c b \<or> rank_as c a = rank_as c b \<and>
      (rank_country c a \<and> \<not> rank_country c b \<or> rank_country c a = rank_country c b \<and>
        (rank_continent c a \<and> \<not> rank_continent c b \<or> rank_continent c a = rank_continent c b \<and>
          Distance a < Distance b)))"
proof -
  have "geo_CountryCode c \<noteq> ''''" using assms by (simp add: geo_IsValid_def)
  with assms show ?thesis
    unfolding ByRank_Less_def rank_as_def rank_country_def rank_continent_def IsInSlice_iff
    apply (intro ext)
    subgoal for a b
      by (cases "geo_ASNum c = Asnum a"; cases "geo_ASNum c = Asnum b";
          cases "geo_CountryCode c \<in> set (CountryFields a)";
          cases "geo_CountryCode c \<in> set (CountryFields b)"; auto)
    done
qed

lemma ByRank_strict_weak_order: "geo_IsValid c \<Longrightarrow> strict_weak_order (ByRank_Less coin c)"
  by (simp only: ByRank_lex) (intro strict_weak_order_prefer strict_weak_order_key)

interpretation rank: strict_weak_order "ByRank_Less coin (c\<lparr>geo_CountryCode := x # xs\<rparr>)" for coin c x xs
  by (rule ByRank_strict_weak_order) (simp add: geo_IsValid_def)

lemma Time_RedisScan_int: "Time_RedisScan (SrcInt (Time_RedisArg t)) t0 = (None, Truncate t time_Second)"
  by (simp add: Time_RedisScan_def Time_RedisArg_def Unix_def time_Unix_def Truncate_def
      time_Second_def minus_mod_eq_div_mult [symmetric])

section \<open>Properties\<close>

text \<open>
  A mirror's redirect permission survives writing it as YAML and reading it back, for the
  three values the program uses, and only an explicit value overrides the configuration.
\<close>

theorem Redirects_roundtrip:
  assumes "r \<in> {0, 1, 2}"
  shows "Redirects_UnmarshalYAML (Inr (Redirects_MarshalYAML r)) r0 = (None, r) \<and>
     (Redirects_MarshalYAML r = None \<longleftrightarrow> Redirects_Allowed cnf r = (\<not> DisallowRedirects cnf) \<and> r = 0) \<and>
     (\<forall>b. Redirects_MarshalYAML r = Some b \<longrightarrow> Redirects_Allowed cnf r = b)"
  using assms
  by (auto simp: Redirects_UnmarshalYAML_def Redirects_MarshalYAML_def Redirects_Allowed_def)

theorem Redirects_roundtrip_witness:
  "Redirects_UnmarshalYAML (Inr (Redirects_MarshalYAML 2)) 0 = (None, 2) \<and>
     Redirects_Allowed (defaultConfig '''') 2 = False"
  using Redirects_roundtrip [of 2 0 "defaultConfig ''''"] by (auto simp: Redirects_MarshalYAML_def)

text \<open>
  a time written to the database and read back, as an integer or as the decimal bytes redis
  returns, is the time cut to whole seconds; bytes that are not a number set an error and leave a
  time of the parser's clamped value.
\<close>

theorem Time_RedisScan_roundtrip:
  assumes "in_int64 (Time_RedisArg t)"
  shows "Time_RedisScan (SrcBytes (Itoa (Time_RedisArg t))) t0 = (None, Truncate t time_Second) \<and>
     Time_RedisScan (SrcInt (Time_RedisArg t)) t0 = (None, Truncate t time_Second) \<and>
     fst (Time_RedisScan SrcOther t0) \<noteq> None"
proof -
  have "Time_RedisScan (SrcBytes (Itoa (Time_RedisArg t))) t0 = Time_RedisScan (SrcInt (Time_RedisArg t)) t0"
    by (simp add: Time_RedisScan_def ParseInt_Itoa [OF assms])
  then show ?thesis by (simp add: Time_RedisScan_int) (simp add: Time_RedisScan_def)
qed

theorem Time_RedisScan_roundtrip_witness:
  "Time_RedisScan (SrcBytes (Itoa (Time_RedisArg (time_Unix 1700000000 + 5)))) 0 =
     (None, Truncate (time_Unix 1700000000 + 5) time_Second)"
  using Time_RedisScan_roundtrip [of "time_Unix 1700000000 + 5" 0]
  by (simp add: Time_RedisArg_def Unix_def time_Unix_def time_Second_def in_int64_def unix_epoch_def)

end
