(* ===== verification/Selection.thy ===== *)
theory Selection
  imports Mirror
begin

text \<open>
  The request context of \<^verbatim>\<open>http/context.go\<close> and the mirror selection of \<^verbatim>\<open>http/selection.go\<close>.
  The selection filters its slice in place, so the loop works on the slice with its two indices;
  the lemmas then show that the result is a filter.  Random numbers are an argument: \<open>rnd i\<close> is
  the draw of the \<open>i\<close>th iteration, reduced to the range of \<open>rand.Intn\<close>.
\<close>

section \<open>Requests\<close>

datatype RequestType = STANDARD | MIRRORLIST | FILESTATS | MIRRORSTATS | CHECKSUM

text \<open>\<open>iota\<close> continues from the request types, so the options start at 5; an unset option is 0.\<close>

type_synonym SecureOption = int

definition UNDEFINED :: SecureOption where
  "UNDEFINED = 5"

definition WITHTLS :: SecureOption where
  "WITHTLS = 6"

definition WITHOUTTLS :: SecureOption where
  "WITHOUTTLS = 7"

record Context =
  ctx_v :: "string \<rightharpoonup> string list"
  ctx_typ :: RequestType
  isMirrorList :: bool
  isMirrorStats :: bool
  isFileStats :: bool
  isChecksum :: bool
  isPretty :: bool
  secureOption :: SecureOption

definition paramBool :: "(string \<rightharpoonup> string list) \<Rightarrow> string \<Rightarrow> bool" where
  "paramBool v key \<longleftrightarrow> v key \<noteq> None"

text \<open>The query values and the \<open>X-Forwarded-Proto\<close> header are what the context reads of a request.\<close>

definition set_type :: "(string \<rightharpoonup> string list) \<Rightarrow> Context \<Rightarrow> Context" where
  "set_type v c =
     (if paramBool v ''mirrorlist'' then c\<lparr>ctx_typ := MIRRORLIST, isMirrorList := True\<rparr>
      else if paramBool v ''stats'' then c\<lparr>ctx_typ := FILESTATS, isFileStats := True\<rparr>
      else if paramBool v ''mirrorstats'' then c\<lparr>ctx_typ := MIRRORSTATS, isMirrorStats := True\<rparr>
      else if paramBool v ''md5'' \<or> paramBool v ''sha1'' \<or> paramBool v ''sha256'' then
        c\<lparr>ctx_typ := CHECKSUM, isChecksum := True\<rparr>
      else c\<lparr>ctx_typ := STANDARD\<rparr>)"

definition query_secure :: "string list option \<Rightarrow> SecureOption \<Rightarrow> SecureOption gores" where
  "query_secure https s =
     (case https of
        None \<Rightarrow> Inr s
      | Some [] \<Rightarrow> Inl IndexOutOfRange
      | Some (a # _) \<Rightarrow> Inr (if a = ''1'' then WITHTLS else if a = ''0'' then WITHOUTTLS else s))"

definition NewContext :: "(string \<rightharpoonup> string list) \<Rightarrow> string \<Rightarrow> Context gores" where
  "NewContext v proto =
     (let c = \<lparr>ctx_v = v, ctx_typ = STANDARD, isMirrorList = False, isMirrorStats = False,
                isFileStats = False, isChecksum = False, isPretty = False, secureOption = 0\<rparr>;
          c1 = set_type v c;
          c2 = c1\<lparr>isPretty := paramBool v ''pretty''\<rparr>;
          s = (if ToLower proto = ''https'' then WITHTLS else 0)
      in case query_secure (v ''https'') s of
           Inl p \<Rightarrow> Inl p
         | Inr s' \<Rightarrow> Inr (c2\<lparr>secureOption := s'\<rparr>))"

definition QueryParam :: "Context \<Rightarrow> string \<Rightarrow> string" where
  "QueryParam c key = (case ctx_v c key of Some (a # _) \<Rightarrow> a | _ \<Rightarrow> '''')"

section \<open>Durations as text\<close>

text \<open>\<open>Duration.String\<close>: \<open>fmt_frac\<close> prints the fraction digits without trailing zeros.\<close>

fun pad_digits :: "nat \<Rightarrow> nat \<Rightarrow> string" where
  "pad_digits 0 n = []"
| "pad_digits (Suc k) n = pad_digits k (n div 10) @ [char_of (48 + n mod 10)]"

definition fmt_frac :: "nat \<Rightarrow> nat \<Rightarrow> string" where
  "fmt_frac prec u =
     (let f = TrimRight (pad_digits prec (u mod 10 ^ prec)) (CHR ''0'')
      in if f = [] then [] else CHR ''.'' # f)"

definition fmt_unit :: "nat \<Rightarrow> nat \<Rightarrow> string" where
  "fmt_unit prec u = nat_digits (u div 10 ^ prec) @ fmt_frac prec u"

definition Duration_String :: "duration \<Rightarrow> string" where
  "Duration_String d =
     (let u = nat \<bar>d\<bar>; sign = (if d < 0 then ''-'' else '''')
      in if u = 0 then ''0s''
         else if u < 1000 then sign @ fmt_unit 0 u @ ''ns''
         else if u < 1000000 then sign @ fmt_unit 3 u @ [CHR 0xC2, CHR 0xB5] @ ''s''
         else if u < 1000000000 then sign @ fmt_unit 6 u @ ''ms''
         else let secs = u div 1000000000; m = secs div 60; h = m div 60
              in sign @ (if h > 0 then nat_digits h @ ''h'' else '''') @
                 (if m > 0 then nat_digits (m mod 60) @ ''m'' else '''') @
                 nat_digits (secs mod 60) @ fmt_frac 9 u @ ''s'')"

text \<open>\<open>Time.Sub\<close> saturates at the limits of a duration.\<close>

definition time_Sub :: "gotime \<Rightarrow> gotime \<Rightarrow> duration" where
  "time_Sub t u = max (- (2 ^ 63)) (min (2 ^ 63 - 1) (t - u))"

section \<open>Filtering\<close>

definition mod_time_mismatch :: "Configuration \<Rightarrow> Mirror \<Rightarrow> gotime \<Rightarrow> gotime \<Rightarrow> duration option" where
  "mod_time_mismatch cnf m mt lt =
     (if IsZero mt then None
      else let mModTime = (if FixTimezoneOffsets cnf then mt + wrap64 (TZOffset m * time_Millisecond) else mt);
               mModTime' = Truncate mModTime (Precision_Duration (LastSuccessfulSyncPrecision m));
               lModTime = Truncate lt (Precision_Duration (LastSuccessfulSyncPrecision m))
           in if mModTime' \<noteq> lModTime then Some (time_Sub lModTime mModTime') else None)"

text \<open>
  The body of the loop up to the label \<open>discard\<close>: \<open>Some r\<close> when the mirror is discarded with
  the reason \<open>r\<close>.
\<close>

definition file_mismatch :: "Configuration \<Rightarrow> FileInfo \<Rightarrow> Mirror \<Rightarrow> string option" where
  "file_mismatch cnf fileInfo m =
     (case m_FileInfo m of
        None \<Rightarrow> None
      | Some fi \<Rightarrow>
          if Size fi \<noteq> Size fileInfo then Some ''File size mismatch''
          else (case mod_time_mismatch cnf m (ModTime fi) (ModTime fileInfo) of
                  None \<Rightarrow> None
                | Some d \<Rightarrow> Some (''Mod time mismatch (diff: '' @ Duration_String d @ '')'')))"

definition discard_reason ::
    "Context \<Rightarrow> FileInfo \<Rightarrow> GeoIPRecord \<Rightarrow> Configuration \<Rightarrow> Mirror \<Rightarrow> string option" where
  "discard_reason ctx fileInfo clientInfo cnf m =
     (if \<not> HasPrefix (HttpURL m) ''http://'' \<and> \<not> HasPrefix (HttpURL m) ''https://'' then Some ''Invalid URL''
      else if \<not> Enabled m then Some ''Disabled''
      else if \<not> Up m then Some (if ExcludeReason m = '''' then ''Down'' else ExcludeReason m)
      else if SchemaStrictMatch cnf \<and> secureOption ctx = WITHTLS \<and> \<not> IsHTTPS m then Some ''Not HTTPS''
      else if SchemaStrictMatch cnf \<and> secureOption ctx = WITHOUTTLS \<and> IsHTTPS m then Some ''Not HTTP''
      else (case file_mismatch cnf fileInfo m of
              Some r \<Rightarrow> Some r
            | None \<Rightarrow>
                if ContinentOnly m \<and> (\<not> geo_IsValid clientInfo \<or> geo_ContinentCode clientInfo \<noteq> ContinentCode m)
                then Some ''Continent only''
                else if CountryOnly m \<and>
                  (\<not> geo_IsValid clientInfo \<or> \<not> IsInSlice (geo_CountryCode clientInfo) (CountryFields m))
                then Some ''Country only''
                else if ASOnly m \<and> (\<not> geo_IsValid clientInfo \<or> geo_ASNum clientInfo \<noteq> Asnum m)
                then Some ''AS only''
                else if geo_IsValid clientInfo \<and> IsInSlice (geo_CountryCode clientInfo) (ExcludedCountryFields m)
                then Some (''User'' @ [CHR 0x27] @ ''s country restriction'')
                else None))"

record sel_state =
  sel_mlist :: Mirrors
  safeIndex :: nat
  sel_excluded :: Mirrors
  closestMirror :: real
  farthestMirror :: real

definition sel_step :: "(Mirror \<Rightarrow> string option) \<Rightarrow> nat \<Rightarrow> sel_state \<Rightarrow> sel_state" where
  "sel_step rej i st =
     (let m = sel_mlist st ! i
      in case rej m of
           Some r \<Rightarrow> st\<lparr>sel_excluded := sel_excluded st @ [m\<lparr>ExcludeReason := r\<rparr>]\<rparr>
         | None \<Rightarrow>
             st\<lparr>closestMirror :=
                  (if safeIndex st = 0 then Distance m
                   else if closestMirror st > Distance m then Distance m else closestMirror st),
                farthestMirror := (if Distance m > farthestMirror st then Distance m else farthestMirror st),
                sel_mlist := (sel_mlist st)[safeIndex st := m],
                safeIndex := safeIndex st + 1\<rparr>)"

definition sel_filter :: "(Mirror \<Rightarrow> string option) \<Rightarrow> Mirrors \<Rightarrow> sel_state" where
  "sel_filter rej pMirrors =
     fold (sel_step rej) [0..<length pMirrors]
       \<lparr>sel_mlist = pMirrors, safeIndex = 0, sel_excluded = [], closestMirror = 0, farthestMirror = 0\<rparr>"

section \<open>Ordering\<close>

definition swap :: "'a list \<Rightarrow> nat \<Rightarrow> nat \<Rightarrow> 'a list" where
  "swap xs i j = xs[i := xs ! j, j := xs ! i]"

definition shuffle_list :: "(nat \<Rightarrow> nat) \<Rightarrow> 'a list \<Rightarrow> 'a list" where
  "shuffle_list rnd xs = fold (\<lambda>i ys. swap ys i (rnd i mod (i + 1))) [0..<length xs] xs"

text \<open>Conversion of a float to \<open>int\<close> drops the fraction.\<close>

definition float_int :: "real \<Rightarrow> int" where
  "float_int r = (if r \<ge> 0 then \<lfloor>r\<rfloor> else - \<lfloor>- r\<rfloor>)"

definition compute_score :: "GeoIPRecord \<Rightarrow> int \<Rightarrow> Mirror \<Rightarrow> Mirror" where
  "compute_score clientInfo baseScore m =
     (let distanceScore = wrap64 (baseScore - float_int (Distance m) + 1);
          netRateScore = Score m;
          countryScore = (if IsPrimaryCountry clientInfo (CountryFields m) then 1 else 0)
      in m\<lparr>ComputedScore := (countryScore, netRateScore, distanceScore)\<rparr>)"

definition Selection ::
    "(nat \<Rightarrow> nat) \<Rightarrow> Context \<Rightarrow> FileInfo \<Rightarrow> GeoIPRecord \<Rightarrow> Mirrors \<Rightarrow> Configuration \<Rightarrow>
       Mirrors \<times> Mirrors \<times> err option" where
  "Selection rnd ctx fileInfo clientInfo pMirrors cnf =
     (let st = sel_filter (discard_reason ctx fileInfo clientInfo cnf) pMirrors;
          mlist = take (safeIndex st) (sel_mlist st);
          excluded = sel_excluded st
      in if \<not> geo_IsValid clientInfo then
           (let sh = shuffle_list rnd mlist
            in (if \<not> isMirrorList ctx then take (nat (utils_Min 5 (int (length sh)))) sh else sh,
                excluded, None))
         else
           (let baseScore = float_int (farthestMirror st);
                scored = map (compute_score clientInfo baseScore) mlist
            in (go_sort ByComputedScore_Less scored, excluded, None)))"

section \<open>The loop is a filter\<close>

definition accepted :: "(Mirror \<Rightarrow> string option) \<Rightarrow> Mirrors \<Rightarrow> Mirrors" where
  "accepted rej ms = filter (\<lambda>m. rej m = None) ms"

definition rejected :: "(Mirror \<Rightarrow> string option) \<Rightarrow> Mirrors \<Rightarrow> Mirrors" where
  "rejected rej ms = map (\<lambda>m. m\<lparr>ExcludeReason := the (rej m)\<rparr>) (filter (\<lambda>m. rej m \<noteq> None) ms)"

definition sel_inv :: "(Mirror \<Rightarrow> string option) \<Rightarrow> Mirrors \<Rightarrow> nat \<Rightarrow> sel_state \<Rightarrow> bool" where
  "sel_inv rej ms i st \<longleftrightarrow>
     length (sel_mlist st) = length ms \<and>
     safeIndex st = length (accepted rej (take i ms)) \<and>
     take (safeIndex st) (sel_mlist st) = accepted rej (take i ms) \<and>
     drop i (sel_mlist st) = drop i ms \<and>
     sel_excluded st = rejected rej (take i ms) \<and>
     farthestMirror st = fold max (map Distance (accepted rej (take i ms))) 0"

lemma accepted_snoc:
  "i < length ms \<Longrightarrow>
     accepted rej (take (Suc i) ms) = accepted rej (take i ms) @ (if rej (ms ! i) = None then [ms ! i] else [])"
  by (simp add: accepted_def take_Suc_conv_app_nth)

lemma rejected_snoc:
  "i < length ms \<Longrightarrow>
     rejected rej (take (Suc i) ms) = rejected rej (take i ms) @
       (case rej (ms ! i) of None \<Rightarrow> [] | Some r \<Rightarrow> [(ms ! i)\<lparr>ExcludeReason := r\<rparr>])"
  by (auto simp: rejected_def take_Suc_conv_app_nth split: option.splits)

lemma accepted_length_le: "length (accepted rej (take i ms)) \<le> i"
  unfolding accepted_def by (metis length_filter_le length_take min.bounded_iff le_trans)

lemma take_update_append: "j < length xs \<Longrightarrow> take (Suc j) (xs[j := x]) = take j xs @ [x]"
  by (simp add: take_Suc_conv_app_nth)

lemma sel_step_inv:
  assumes "sel_inv rej ms i st" and i: "i < length ms"
  shows "sel_inv rej ms (Suc i) (sel_step rej i st)"
proof -
  from assms have len: "length (sel_mlist st) = length ms" and s: "safeIndex st = length (accepted rej (take i ms))"
    and t: "take (safeIndex st) (sel_mlist st) = accepted rej (take i ms)"
    and d: "drop i (sel_mlist st) = drop i ms" and e: "sel_excluded st = rejected rej (take i ms)"
    and f: "farthestMirror st = fold max (map Distance (accepted rej (take i ms))) 0"
    unfolding sel_inv_def by blast+
  have m: "sel_mlist st ! i = ms ! i"
    using d i len by (metis hd_drop_conv_nth)
  have sle: "safeIndex st \<le> i" using s accepted_length_le by simp
  have d': "drop (Suc i) (sel_mlist st) = drop (Suc i) ms"
    using d i len by (metis Cons_nth_drop_Suc list.inject)
  show ?thesis
  proof (cases "rej (ms ! i)")
    case None
    have tu: "take (Suc (safeIndex st)) ((sel_mlist st)[safeIndex st := ms ! i]) =
        accepted rej (take i ms) @ [ms ! i]"
      using take_update_append [of "safeIndex st" "sel_mlist st" "ms ! i"] sle i len t by simp
    have du: "drop (Suc i) ((sel_mlist st)[safeIndex st := ms ! i]) = drop (Suc i) ms"
      using sle d' by simp
    show ?thesis
      using None i len s tu du e f
      by (simp add: sel_inv_def sel_step_def Let_def m accepted_snoc rejected_snoc max_def)
  next
    case (Some r)
    then show ?thesis
      using i len s t d' e f by (simp add: sel_inv_def sel_step_def Let_def m accepted_snoc rejected_snoc)
  qed
qed

lemma sel_filter_inv: "sel_inv rej ms (length ms) (sel_filter rej ms)"
proof -
  have "n \<le> length ms \<Longrightarrow> sel_inv rej ms n (fold (sel_step rej) [0..<n]
      \<lparr>sel_mlist = ms, safeIndex = 0, sel_excluded = [], closestMirror = 0, farthestMirror = 0\<rparr>)" for n
  proof (induction n)
    case 0
    show ?case by (simp add: sel_inv_def accepted_def rejected_def)
  next
    case (Suc n)
    then show ?case using sel_step_inv [of rej ms n] by simp
  qed
  then show ?thesis by (simp add: sel_filter_def)
qed

lemma sel_filter_accepted:
  "take (safeIndex (sel_filter rej ms)) (sel_mlist (sel_filter rej ms)) = accepted rej ms"
  using sel_filter_inv [of rej ms] unfolding sel_inv_def take_all [OF order_refl] by blast

lemma sel_filter_excluded: "sel_excluded (sel_filter rej ms) = rejected rej ms"
  using sel_filter_inv [of rej ms] by (simp add: sel_inv_def)

lemma sel_filter_farthest:
  "farthestMirror (sel_filter rej ms) = fold max (map Distance (accepted rej ms)) 0"
  using sel_filter_inv [of rej ms] by (simp add: sel_inv_def)

section \<open>Shuffling permutes\<close>

lemma mset_list_swap: "i < length xs \<Longrightarrow> j < length xs \<Longrightarrow> mset (swap xs i j) = mset xs"
  unfolding swap_def by (rule mset_swap)

lemma length_list_swap [simp]: "length (swap xs i j) = length xs"
  by (simp add: swap_def)

lemma mset_shuffle [simp]: "mset (shuffle_list rnd xs) = mset xs"
proof -
  have "mset (fold (\<lambda>i ys. swap ys i (rnd i mod (i + 1))) is ys) = mset ys"
    if "list_all (\<lambda>i. i < length ys) is" for "is" and ys :: "'a list"
    using that
  proof (induction "is" arbitrary: ys)
    case (Cons i "is")
    have "rnd i mod (i + 1) \<le> i" using mod_less_divisor [of "i + 1" "rnd i"] by linarith
    moreover have "i < length ys" using Cons.prems by simp
    ultimately have "mset (swap ys i (rnd i mod (i + 1))) = mset ys"
      by (intro mset_list_swap) linarith+
    with Cons show ?case by simp
  qed simp
  from this [of xs "[0..<length xs]"] show ?thesis by (simp add: shuffle_list_def list_all_iff)
qed

lemma length_shuffle [simp]: "length (shuffle_list rnd xs) = length xs"
  using mset_shuffle [of rnd xs] by (metis size_mset)

text \<open>Extending the list by one element adds one swap at the end.\<close>

lemma fold_swap_append:
  "list_all (\<lambda>i. i < length ys) is \<Longrightarrow>
     fold (\<lambda>i ys. swap ys i (rnd i mod (i + 1))) is (ys @ [x]) =
     fold (\<lambda>i ys. swap ys i (rnd i mod (i + 1))) is ys @ [x]"
proof (induction "is" arbitrary: ys)
  case (Cons i "is")
  have "rnd i mod (i + 1) \<le> i" using mod_less_divisor [of "i + 1" "rnd i"] by linarith
  moreover have "i < length ys" using Cons.prems by simp
  ultimately have "rnd i mod (i + 1) < length ys" by linarith
  with \<open>i < length ys\<close>
  have "swap (ys @ [x]) i (rnd i mod (i + 1)) = swap ys i (rnd i mod (i + 1)) @ [x]"
    by (simp add: swap_def nth_append list_update_append)
  then show ?case using Cons by simp
qed simp

lemma shuffle_snoc:
  "shuffle_list rnd (xs @ [x]) =
     swap (shuffle_list rnd xs @ [x]) (length xs) (rnd (length xs) mod (length xs + 1))"
  using fold_swap_append [of xs "[0..<length xs]" rnd x]
  by (simp add: shuffle_list_def list_all_iff)

lemma shuffle_cong: "(\<And>i. i < length xs \<Longrightarrow> f i = g i) \<Longrightarrow> shuffle_list f xs = shuffle_list g xs"
proof (induction xs rule: rev_induct)
  case (snoc x xs)
  then show ?case by (simp add: shuffle_snoc)
qed (simp add: shuffle_list_def)

lemma shuffle_reaches: "mset ys = mset xs \<Longrightarrow> \<exists>rnd. shuffle_list rnd xs = ys"
proof (induction xs arbitrary: ys rule: rev_induct)
  case Nil
  then show ?case by (auto simp: shuffle_list_def)
next
  case (snoc x xs)
  let ?n = "length xs"
  have len: "length ys = Suc ?n" using snoc.prems by (metis length_append_singleton size_mset)
  have "x \<in> set ys" using snoc.prems by (metis in_set_conv_decomp mset_eq_setD)
  then obtain j where j: "j < length ys" "ys ! j = x" by (auto simp: in_set_conv_nth)
  define zs where "zs = swap ys j ?n"
  have zl: "length zs = Suc ?n" "zs ! ?n = x" "mset zs = mset ys"
    using j len mset_list_swap [of j ys ?n] by (simp_all add: zs_def)
      (simp add: swap_def)
  have z: "zs = take ?n zs @ [x]"
    using zl take_Suc_conv_app_nth [of ?n zs] by simp
  have "mset (take ?n zs) = mset xs"
    using z zl(3) snoc.prems by (metis add_right_imp_eq mset_append)
  then obtain rnd where r: "shuffle_list rnd xs = take ?n zs" using snoc.IH by blast
  have undo: "swap zs ?n j = ys"
    using j len by (auto simp: zs_def swap_def nth_list_update list_eq_iff_nth_eq)
  have "shuffle_list (rnd(?n := j)) (xs @ [x]) = ys"
    using r z undo j len shuffle_cong [of xs "rnd(?n := j)" rnd] by (simp add: shuffle_snoc)
  then show ?case by blast
qed

section \<open>Eligible mirrors\<close>

text \<open>What the filter promises of a mirror it keeps, stated without the order of the tests.\<close>

definition eligible :: "Context \<Rightarrow> FileInfo \<Rightarrow> GeoIPRecord \<Rightarrow> Configuration \<Rightarrow> Mirror \<Rightarrow> bool" where
  "eligible ctx fi ci cnf m \<longleftrightarrow>
     (HasPrefix (HttpURL m) ''http://'' \<or> IsHTTPS m) \<and> Enabled m \<and> Up m \<and>
     (SchemaStrictMatch cnf \<longrightarrow> (secureOption ctx = WITHTLS \<longrightarrow> IsHTTPS m) \<and>
        (secureOption ctx = WITHOUTTLS \<longrightarrow> \<not> IsHTTPS m)) \<and>
     (case m_FileInfo m of None \<Rightarrow> True
        | Some f \<Rightarrow> Size f = Size fi \<and> mod_time_mismatch cnf m (ModTime f) (ModTime fi) = None) \<and>
     (ContinentOnly m \<longrightarrow> geo_IsValid ci \<and> geo_ContinentCode ci = ContinentCode m) \<and>
     (CountryOnly m \<longrightarrow> geo_IsValid ci \<and> geo_CountryCode ci \<in> set (CountryFields m)) \<and>
     (ASOnly m \<longrightarrow> geo_IsValid ci \<and> geo_ASNum ci = Asnum m) \<and>
     (geo_IsValid ci \<longrightarrow> geo_CountryCode ci \<notin> set (ExcludedCountryFields m))"

lemma file_mismatch_None:
  "file_mismatch cnf fi m = None \<longleftrightarrow>
     (case m_FileInfo m of None \<Rightarrow> True
        | Some f \<Rightarrow> Size f = Size fi \<and> mod_time_mismatch cnf m (ModTime f) (ModTime fi) = None)"
  by (auto simp: file_mismatch_def split: option.splits)

lemma discard_reason_None: "discard_reason ctx fi ci cnf m = None \<longleftrightarrow> eligible ctx fi ci cnf m"
  unfolding eligible_def file_mismatch_None [symmetric]
  by (cases "file_mismatch cnf fi m") (auto simp: discard_reason_def IsHTTPS_def)

lemma discard_reason_nonempty: "discard_reason ctx fi ci cnf m = Some r \<Longrightarrow> r \<noteq> ''''"
  by (auto simp: discard_reason_def file_mismatch_def split: if_splits option.splits)

lemma accepted_eligible:
  "accepted (discard_reason ctx fi ci cnf) ms = filter (eligible ctx fi ci cnf) ms"
  by (simp add: accepted_def discard_reason_None)

lemma Selection_unlocated:
  assumes "\<not> geo_IsValid ci"
  shows "Selection rnd ctx fi ci ms cnf =
    (let sh = shuffle_list rnd (filter (eligible ctx fi ci cnf) ms)
     in (if isMirrorList ctx then sh else take 5 sh, rejected (discard_reason ctx fi ci cnf) ms, None))"
proof -
  have "take (nat (min 5 (int (length xs)))) xs = take 5 xs" for xs :: Mirrors
    by (cases "length xs \<le> 5") (simp_all add: min_def)
  from this [of "shuffle_list rnd (filter (eligible ctx fi ci cnf) ms)"] assms show ?thesis
    by (simp add: Selection_def Let_def sel_filter_accepted sel_filter_excluded accepted_eligible)
qed

lemma Selection_located:
  assumes "geo_IsValid ci"
  shows "Selection rnd ctx fi ci ms cnf =
    (let el = filter (eligible ctx fi ci cnf) ms
     in (go_sort ByComputedScore_Less
           (map (compute_score ci (float_int (fold max (map Distance el) 0))) el),
         rejected (discard_reason ctx fi ci cnf) ms, None))"
  using assms
  by (simp add: Selection_def Let_def sel_filter_accepted sel_filter_excluded sel_filter_farthest
      accepted_eligible)

lemma compute_score_fields [simp]:
  "ID (compute_score ci b m) = ID m" "Score (compute_score ci b m) = Score m"
  "Distance (compute_score ci b m) = Distance m" "CountryFields (compute_score ci b m) = CountryFields m"
  by (simp_all add: compute_score_def Let_def)

lemma compute_score_eligible [simp]:
  "eligible ctx fi ci cnf (compute_score ci' b m) \<longleftrightarrow> eligible ctx fi ci cnf m"
  by (simp add: eligible_def compute_score_def Let_def IsHTTPS_def mod_time_mismatch_def
      split: option.split)

lemma rejected_IDs:
  "map ID (rejected rej ms) = map ID (filter (\<lambda>m. rej m \<noteq> None) ms)"
  by (simp add: rejected_def comp_def)

lemma partition_IDs:
  "mset (map ID (filter (eligible ctx fi ci cnf) ms)) +
     mset (map ID (rejected (discard_reason ctx fi ci cnf) ms)) = mset (map ID ms)"
proof -
  have "filter (\<lambda>m. discard_reason ctx fi ci cnf m \<noteq> None) ms = filter (\<lambda>m. \<not> eligible ctx fi ci cnf m) ms"
    by (simp only: discard_reason_None)
  then show ?thesis
    unfolding rejected_IDs by (simp add: image_mset_union [symmetric] multiset_partition [symmetric])
qed

lemma float_int_range: "0 \<le> r \<and> r \<le> of_int n \<Longrightarrow> 0 \<le> float_int r \<and> float_int r \<le> n"
  by (auto simp: float_int_def floor_le_iff)

lemma fold_max_range:
  "list_all (\<lambda>d. 0 \<le> d \<and> d \<le> b) ds \<Longrightarrow> 0 \<le> a \<and> a \<le> b \<Longrightarrow>
     0 \<le> fold max ds a \<and> fold max ds a \<le> (b :: real)"
proof (induction ds arbitrary: a)
  case (Cons d ds)
  have "0 \<le> max d a \<and> max d a \<le> b" using Cons.prems by (simp add: max_def)
  then show ?case using Cons by simp
qed simp

lemma compute_score_exact:
  assumes "0 \<le> base \<and> base \<le> 100000" and "0 \<le> Distance m \<and> Distance m \<le> 100000"
  shows "ComputedScore (compute_score ci base m) =
    (if IsPrimaryCountry ci (CountryFields m) then 1 else 0, Score m, base - float_int (Distance m) + 1)"
proof -
  have "0 \<le> float_int (Distance m) \<and> float_int (Distance m) \<le> 100000"
    using float_int_range [of "Distance m" 100000] assms(2) by simp
  with assms(1) have "in_int64 (base - float_int (Distance m) + 1)" by (simp add: in_int64_def)
  then show ?thesis by (simp add: compute_score_def Let_def)
qed

lemma Selection_eligible:
  assumes "Selection rnd ctx fi ci ms cnf = (sel, exc, e)"
  shows "(\<forall>m \<in> set sel. eligible ctx fi ci cnf m) \<and> e = None"
proof (cases "geo_IsValid ci")
  case True
  with assms show ?thesis by (auto simp: Selection_located Let_def)
next
  case False
  have "set (shuffle_list rnd (filter (eligible ctx fi ci cnf) ms)) = set (filter (eligible ctx fi ci cnf) ms)"
    by (rule mset_eq_setD) simp
  with False assms show ?thesis
    by (auto simp: Selection_unlocated Let_def split: if_splits dest!: in_set_takeD)
qed

section \<open>Properties\<close>

text \<open>
  C6: the selection returns only eligible mirrors, and rejects every other mirror it was given
  with a reason: the list of rejected mirrors is exactly the ineligible part of the input, in
  order, and each carries a reason that is not empty.
\<close>

theorem Selection_sound:
  assumes "Selection rnd ctx fi ci ms cnf = (sel, exc, e)"
  shows "(\<forall>m \<in> set sel. eligible ctx fi ci cnf m) \<and> e = None \<and>
     map ID exc = map ID (filter (\<lambda>m. \<not> eligible ctx fi ci cnf m) ms) \<and>
     (\<forall>m \<in> set exc. ExcludeReason m \<noteq> '''')"
proof -
  have exc: "exc = rejected (discard_reason ctx fi ci cnf) ms"
    using assms by (cases "geo_IsValid ci") (simp_all add: Selection_located Selection_unlocated Let_def)
  note el = Selection_eligible [OF assms]
  moreover have "\<forall>m \<in> set exc. ExcludeReason m \<noteq> ''''"
    unfolding exc rejected_def by (auto dest: discard_reason_nonempty)
  ultimately show ?thesis
    by (simp only: exc el rejected_IDs discard_reason_None simp_thms)
qed


subsection \<open>Witnesses\<close>

definition demo_ctx :: Context where
  "demo_ctx =
     \<lparr>ctx_v = Map.empty, ctx_typ = STANDARD, isMirrorList = False, isMirrorStats = False,
      isFileStats = False, isChecksum = False, isPretty = False, secureOption = 0\<rparr>"

definition demo_client :: GeoIPRecord where
  "demo_client = empty_record\<lparr>geo_CountryCode := ''FR'', geo_ContinentCode := ''EU''\<rparr>"

definition demo_mirror :: "int \<Rightarrow> bool \<Rightarrow> string list \<Rightarrow> int \<Rightarrow> Mirror" where
  "demo_mirror i up cc km =
     zero_mirror\<lparr>ID := i, HttpURL := ''http://m/'', Enabled := True, Up := up, CountryFields := cc,
                 Distance := of_int km\<rparr>"

definition demo_mirrors :: Mirrors where
  "demo_mirrors =
     [demo_mirror 1 True [''DE''] 20, demo_mirror 2 False [''FR''] 10, demo_mirror 3 True [''FR''] 30,
      demo_mirror 4 True [''DE''] 10]"

lemma demo_eligible:
  "eligible demo_ctx (NewFileInfo ''/f'') ci (defaultConfig '''') (demo_mirror i up cc d) \<longleftrightarrow> up"
  by (auto simp: eligible_def demo_ctx_def demo_mirror_def zero_mirror_def IsHTTPS_def HasPrefix_def
      WITHTLS_def WITHOUTTLS_def)

lemma demo_located:
  "map ID (fst (Selection id demo_ctx (NewFileInfo ''/f'') demo_client demo_mirrors (defaultConfig ''''))) =
     [3, 4, 1]"
proof -
  have v: "geo_IsValid demo_client" by (simp add: geo_IsValid_def demo_client_def)
  have p: "IsPrimaryCountry demo_client cc \<longleftrightarrow> cc \<noteq> [] \<and> hd cc = ''FR''" for cc
    using v by (simp add: IsPrimaryCountry_iff demo_client_def)
  have f: "Distance (demo_mirror i u cc d) = of_int d" "CountryFields (demo_mirror i u cc d) = cc"
    "Score (demo_mirror i u cc d) = 0" "ID (demo_mirror i u cc d) = i" for i u cc d
    by (simp_all add: demo_mirror_def zero_mirror_def)
  have cs: "ComputedScore (compute_score demo_client 30 (demo_mirror i u cc d)) =
      (if cc \<noteq> [] \<and> hd cc = ''FR'' then 1 else 0, 0, 31 - d)" if "0 \<le> d" "d \<le> 100000" for i u cc d
    using that compute_score_exact [of 30 "demo_mirror i u cc d" demo_client] by (simp add: f p float_int_def)
  have base: "float_int (fold max [20, 30, 10 :: real] 0) = 30" by (simp add: float_int_def)
  show ?thesis
    unfolding Selection_located [OF v] demo_mirrors_def
    using base by (simp add: demo_eligible Let_def go_sort_def f cs ByComputedScore_Less_def)
qed

theorem Selection_sound_witness:
  "list_all (eligible demo_ctx (NewFileInfo ''/f'') demo_client (defaultConfig ''''))
     (fst (Selection id demo_ctx (NewFileInfo ''/f'') demo_client demo_mirrors (defaultConfig ''''))) \<and>
   map ID (fst (snd (Selection id demo_ctx (NewFileInfo ''/f'') demo_client demo_mirrors (defaultConfig '''')))) = [2]"
proof -
  obtain sel exc e where
    s: "Selection id demo_ctx (NewFileInfo ''/f'') demo_client demo_mirrors (defaultConfig '''') = (sel, exc, e)"
    using prod_cases3 by blast
  show ?thesis using Selection_sound [OF s] s
    by (simp add: demo_mirrors_def demo_eligible list_all_iff) (simp add: demo_mirror_def zero_mirror_def)
qed


text \<open>
  C8: for a located client the answer is ordered: mirrors whose primary country is the
  client's come first, then the higher score, then the smaller distance in whole kilometres.
  Distances are assumed to be lengths on the earth, so that the score cannot overflow.
\<close>

theorem Selection_ordered:
  assumes "Selection rnd ctx fi ci ms cnf = (sel, exc, e)" and "geo_IsValid ci"
    and "\<forall>m \<in> set ms. 0 \<le> Distance m \<and> Distance m \<le> 100000"
  shows "sorted_wrt (\<lambda>a b.
       (IsPrimaryCountry ci (CountryFields a) \<and> \<not> IsPrimaryCountry ci (CountryFields b)) \<or>
       (IsPrimaryCountry ci (CountryFields a) = IsPrimaryCountry ci (CountryFields b) \<and>
         (Score b < Score a \<or>
          (Score b = Score a \<and> float_int (Distance a) \<le> float_int (Distance b))))) sel"
proof -
  let ?el = "filter (eligible ctx fi ci cnf) ms"
  define base where "base = float_int (fold max (map Distance ?el) 0)"
  have sel: "sel = go_sort ByComputedScore_Less (map (compute_score ci base) ?el)"
    using assms(1,2) by (simp add: Selection_located Let_def base_def)
  have so: "sorted_wrt (\<lambda>a b. \<not> ByComputedScore_Less b a) sel"
    unfolding sel by (rule score.go_sort_sorted)
  have "0 \<le> base \<and> base \<le> 100000"
    unfolding base_def
    by (rule float_int_range, rule fold_max_range) (use assms(3) in \<open>simp_all add: list_all_iff\<close>)
  then have cs: "ComputedScore m = (if IsPrimaryCountry ci (CountryFields m) then 1 else 0, Score m,
      base - float_int (Distance m) + 1)" if "m \<in> set sel" for m
    using that assms(3) compute_score_exact by (auto simp: sel simp del: mset_map)
  show ?thesis
    by (rule sorted_wrt_mono_rel [OF _ so]) (auto simp: ByComputedScore_key cs split: if_splits)
qed

theorem Selection_ordered_witness:
  "sorted_wrt (\<lambda>a b.
       (IsPrimaryCountry demo_client (CountryFields a) \<and> \<not> IsPrimaryCountry demo_client (CountryFields b)) \<or>
       (IsPrimaryCountry demo_client (CountryFields a) = IsPrimaryCountry demo_client (CountryFields b) \<and>
         (Score b < Score a \<or>
          (Score b = Score a \<and> float_int (Distance a) \<le> float_int (Distance b)))))
     (fst (Selection id demo_ctx (NewFileInfo ''/f'') demo_client demo_mirrors (defaultConfig ''''))) \<and>
   map ID (fst (Selection id demo_ctx (NewFileInfo ''/f'') demo_client demo_mirrors (defaultConfig ''''))) = [3, 4, 1]"
proof -
  have v: "geo_IsValid demo_client" by (simp add: geo_IsValid_def demo_client_def)
  obtain sel exc e where
    s: "Selection id demo_ctx (NewFileInfo ''/f'') demo_client demo_mirrors (defaultConfig '''') = (sel, exc, e)"
    using prod_cases3 by blast
  have "\<forall>m \<in> set demo_mirrors. 0 \<le> Distance m \<and> Distance m \<le> 100000"
    by (simp add: demo_mirrors_def demo_mirror_def)
  then show ?thesis using Selection_ordered [OF s v] s demo_located by simp
qed





end
