(* ===== verification/Filesystem.thy ===== *)
theory Filesystem
  imports Mirror
begin

text \<open>
  \<^verbatim>\<open>filesystem/fs.go\<close> and \<^verbatim>\<open>filesystem/hash.go\<close>: the check that a requested file lies in the repository
  and the hashes of a file.  The lexical part of \<open>path/filepath\<close> that the code calls is defined
  here, for the separator \<open>/\<close>; the operating system (working directory, symbolic links, file
  contents) and the digests are arguments.
\<close>

section \<open>Lexical paths\<close>

fun clean_elems :: "bool \<Rightarrow> string list \<Rightarrow> string list \<Rightarrow> string list" where
  "clean_elems rooted [] st = rev st"
| "clean_elems rooted (e # es) st =
     (if e = '''' \<or> e = ''.'' then clean_elems rooted es st
      else if e = ''..'' then
        (case st of
           [] \<Rightarrow> clean_elems rooted es (if rooted then [] else [''..''])
         | s # st' \<Rightarrow> if s = ''..'' then clean_elems rooted es (''..'' # st) else clean_elems rooted es st')
      else clean_elems rooted es (e # st))"

definition filepath_Clean :: "string \<Rightarrow> string" where
  "filepath_Clean path =
     (let rooted = HasPrefix path ''/'';
          out = Join (clean_elems rooted (Split path (CHR ''/'')) []) ''/''
      in if rooted then CHR ''/'' # out else if out = '''' then ''.'' else out)"

definition filepath_Abs_wd :: "err + string \<Rightarrow> string \<Rightarrow> err + string" where
  "filepath_Abs_wd wd path =
     (if HasPrefix path ''/'' then Inr (filepath_Clean path)
      else (case wd of
              Inl e \<Rightarrow> Inl e
            | Inr d \<Rightarrow> Inr (if d = '''' then (if path = '''' then '''' else filepath_Clean path)
                            else if path = '''' then filepath_Clean d
                            else filepath_Clean (d @ ''/'' @ path))))"

text \<open>The last element of a path, \<open>filepath.Base\<close>.\<close>

definition filepath_Base :: "string \<Rightarrow> string" where
  "filepath_Base path =
     (if path = '''' then ''.''
      else let p = TrimRight path (CHR ''/'') in if p = '''' then ''/'' else last (Split p (CHR ''/'')))"

section \<open>The repository\<close>

record os_env =
  os_Getwd :: "err + string"
  os_EvalSymlinks :: "string \<Rightarrow> err + string"

definition IsInRepository :: "string \<Rightarrow> string \<Rightarrow> bool" where
  "IsInRepository repository filePath \<longleftrightarrow>
     (if filePath = repository then True
      else if HasPrefix filePath (repository @ ''/'') then True
      else False)"

definition EvaluateFilePath :: "os_env \<Rightarrow> string \<Rightarrow> string \<Rightarrow> err + string" where
  "EvaluateFilePath os repository urlpath =
     (case filepath_Abs_wd (os_Getwd os) (repository @ urlpath) of
        Inl e \<Rightarrow> Inl e
      | Inr fpath \<Rightarrow>
          if \<not> IsInRepository repository fpath then Inl ErrOutsideRepo
          else (case os_EvalSymlinks os fpath of
                  Inl e \<Rightarrow> Inl e
                | Inr targetPath \<Rightarrow>
                    if targetPath \<noteq> fpath then
                      (case filepath_Abs_wd (os_Getwd os) targetPath of
                         Inl e \<Rightarrow> Inl e
                       | Inr targetPath' \<Rightarrow>
                           if \<not> IsInRepository repository targetPath' then Inl ErrOutsideRepo
                           else Inr (drop (length repository) targetPath'))
                    else Inr (drop (length repository) fpath)))"

section \<open>Hashes\<close>

text \<open>
  Opening a file fails or gives the bytes that can be read from it, and the error that ended the
  reading if it was not the end of the file.
\<close>

record hash_env =
  os_Open :: "string \<Rightarrow> err + (string \<times> err option)"
  sha1_Sum :: "string \<Rightarrow> string"
  sha256_Sum :: "string \<Rightarrow> string"
  md5_Sum :: "string \<Rightarrow> string"

definition hex_digit :: "nat \<Rightarrow> char" where
  "hex_digit n = char_of (if n < 10 then n + 48 else n + 87)"

definition hex_EncodeToString :: "string \<Rightarrow> string" where
  "hex_EncodeToString bs = concat (map (\<lambda>c. [hex_digit (of_char c div 16), hex_digit (of_char c mod 16)]) bs)"

definition hasher_Close :: "(string \<Rightarrow> string) \<Rightarrow> string \<Rightarrow> string" where
  "hasher_Close digest written = hex_EncodeToString (digest written)"

text \<open>The deferred calls of \<open>Close\<close> store the digests of what was copied, also after a read error.\<close>

definition HashFile :: "hash_env \<Rightarrow> string \<Rightarrow> Configuration \<Rightarrow> FileInfo \<times> err option" where
  "HashFile env path cnf =
     (let zero = NewFileInfo '''' in
      case os_Open env path of
        Inl e \<Rightarrow> (zero, Some e)
      | Inr (content, rerr) \<Rightarrow>
          (let h = Hashes cnf in
           if \<not> hash_SHA1 h \<and> \<not> hash_SHA256 h \<and> \<not> hash_MD5 h then (zero, None)
           else (zero\<lparr>Sha1 := if hash_SHA1 h then hasher_Close (sha1_Sum env) content else '''',
                      Sha256 := if hash_SHA256 h then hasher_Close (sha256_Sum env) content else '''',
                      Md5 := if hash_MD5 h then hasher_Close (md5_Sum env) content else ''''\<rparr>, rerr)))"

definition Sha256sum :: "hash_env \<Rightarrow> string \<Rightarrow> err + string" where
  "Sha256sum env path =
     (case os_Open env path of
        Inl e \<Rightarrow> Inl e
      | Inr (content, Some e) \<Rightarrow> Inl e
      | Inr (content, None) \<Rightarrow> Inr (sha256_Sum env content))"

section \<open>Paths cannot leave the repository\<close>

definition plain_elem :: "string \<Rightarrow> bool" where
  "plain_elem e \<longleftrightarrow> e \<noteq> '''' \<and> e \<noteq> ''.'' \<and> e \<noteq> ''..'' \<and> CHR ''/'' \<notin> set e"

definition path_of :: "string list \<Rightarrow> string" where
  "path_of es = concat (map (\<lambda>e. CHR ''/'' # e) es)"

text \<open>An absolute path without empty, dot and dot-dot elements.\<close>

definition canonical :: "string \<Rightarrow> bool" where
  "canonical p \<longleftrightarrow> p = ''/'' \<or> (\<exists>es. es \<noteq> [] \<and> list_all plain_elem es \<and> p = path_of es)"


lemma clean_elems_plain:
  "list_all (\<lambda>e. CHR ''/'' \<notin> set e) es \<Longrightarrow> list_all plain_elem st \<Longrightarrow> list_all plain_elem (clean_elems True es st)"
proof (induction es arbitrary: st)
  case (Cons e es)
  consider "e = '''' \<or> e = ''.''" | "e = ''..''" | "plain_elem e"
    using Cons.prems(1) by (auto simp: plain_elem_def)
  then show ?case
  proof cases
    case 2
    then show ?thesis using Cons by (cases st) (simp_all add: plain_elem_def)
  qed (use Cons in \<open>auto simp: plain_elem_def\<close>)
qed simp

lemma Join_path_of: "es \<noteq> [] \<Longrightarrow> CHR ''/'' # Join es ''/'' = path_of es"
  by (induction es "''/''" rule: Join.induct) (auto simp: path_of_def)

lemma Clean_canonical:
  assumes "HasPrefix path ''/''"
  shows "canonical (filepath_Clean path)"
proof -
  let ?es = "clean_elems True (Split path (CHR ''/'')) []"
  have "list_all plain_elem ?es"
    by (rule clean_elems_plain) (auto simp: list_all_iff dest: Split_no_sep)
  then show ?thesis
    using assms Join_path_of [of ?es] by (cases "?es = []") (auto simp: canonical_def filepath_Clean_def Let_def)
qed

definition wd_rooted :: "os_env \<Rightarrow> bool" where
  "wd_rooted os \<longleftrightarrow> (case os_Getwd os of Inl e \<Rightarrow> True | Inr d \<Rightarrow> HasPrefix d ''/'')"

lemma Abs_canonical:
  assumes "wd_rooted os" and "filepath_Abs_wd (os_Getwd os) path = Inr p"
  shows "canonical p"
proof (cases "HasPrefix path ''/''")
  case True
  then show ?thesis using assms Clean_canonical by (auto simp: filepath_Abs_wd_def)
next
  case False
  then obtain d where d: "os_Getwd os = Inr d" "HasPrefix d ''/''"
    using assms by (auto simp: filepath_Abs_wd_def wd_rooted_def split: sum.splits)
  then have "d \<noteq> []" "HasPrefix (d @ ''/'' @ path) ''/''" by (auto simp: HasPrefix_iff)
  then show ?thesis using assms(2) False d Clean_canonical by (auto simp: filepath_Abs_wd_def split: if_splits)
qed

lemma IsInRepository_iff: "IsInRepository repo p \<longleftrightarrow> (\<exists>r. p = repo @ r \<and> (r = '''' \<or> HasPrefix r ''/''))"
  by (auto simp: IsInRepository_def HasPrefix_iff)

lemma canonical_no_dotdot: "canonical p \<Longrightarrow> ''..'' \<notin> set (Split p (CHR ''/''))"
proof -
  assume "canonical p"
  then consider "p = ''/''" | es where "es \<noteq> []" "list_all plain_elem es" "p = path_of es"
    unfolding canonical_def by blast
  then show ?thesis
  proof cases
    case 2
    have "Split (CHR ''/'' # Join es ''/'') (CHR ''/'') = [] # es"
      using 2 by (simp add: Split_Join list_all_iff plain_elem_def)
    then show ?thesis using 2 by (auto simp: Join_path_of list_all_iff plain_elem_def)
  qed simp
qed

text \<open>
  C19: A request cannot reach outside the repository.  When \<open>EvaluateFilePath\<close> accepts a URL path it
  returns \<open>p\<close> such that the repository followed by \<open>p\<close> is a canonical absolute path, the
  repository itself or below it at a separator and without dot-dot elements, and it is where
  the symbolic links of the cleaned path lead.  When the cleaned path or the target of its links is
  outside, the answer is \<open>ErrOutsideRepo\<close>, in the first case without looking at the file system.
\<close>

theorem EvaluateFilePath_confined:
  assumes "wd_rooted os" and "filepath_Abs_wd (os_Getwd os) (repository @ urlpath) = Inr fpath"
  shows "case EvaluateFilePath os repository urlpath of
      Inr p \<Rightarrow>
        canonical (repository @ p) \<and> ''..'' \<notin> set (Split (repository @ p) (CHR ''/'')) \<and>
        (p = '''' \<or> HasPrefix p ''/'') \<and>
        (\<exists>target. os_EvalSymlinks os fpath = Inr target \<and>
           (if target = fpath then repository @ p = fpath
            else filepath_Abs_wd (os_Getwd os) target = Inr (repository @ p)))
    | Inl e \<Rightarrow>
        if \<not> IsInRepository repository fpath then e = ErrOutsideRepo
        else (case os_EvalSymlinks os fpath of
                Inl e' \<Rightarrow> e = e'
              | Inr target \<Rightarrow> target \<noteq> fpath \<and>
                  (case filepath_Abs_wd (os_Getwd os) target of
                     Inl e' \<Rightarrow> e = e' | Inr t \<Rightarrow> \<not> IsInRepository repository t \<and> e = ErrOutsideRepo))"
proof -
  have c: "canonical fpath" by (rule Abs_canonical [OF assms])
  have tgt: "canonical t" if "filepath_Abs_wd (os_Getwd os) target = Inr t" for target t
    by (rule Abs_canonical [OF assms(1) that])
  show ?thesis
    using assms(2) c tgt canonical_no_dotdot
    by (auto simp: EvaluateFilePath_def IsInRepository_iff split: sum.splits)
qed

definition demo_os :: os_env where
  "demo_os = \<lparr>os_Getwd = Inr ''/'', os_EvalSymlinks = (\<lambda>p. if p = ''/srv/repo/link'' then Inr ''/etc/passwd'' else Inr p)\<rparr>"

theorem EvaluateFilePath_confined_witness:
  "EvaluateFilePath demo_os ''/srv/repo'' ''/a/./b/../iso'' = Inr ''/a/iso'' \<and> canonical (''/srv/repo'' @ ''/a/iso'') \<and>
   EvaluateFilePath demo_os ''/srv/repo'' ''/../repo2/x'' = Inl ErrOutsideRepo \<and>
   EvaluateFilePath demo_os ''/srv/repo'' ''/link'' = Inl ErrOutsideRepo"
proof -
  have w: "wd_rooted demo_os" by (simp add: wd_rooted_def demo_os_def HasPrefix_def)
  have a: "filepath_Abs_wd (os_Getwd demo_os) (''/srv/repo'' @ ''/a/./b/../iso'') = Inr ''/srv/repo/a/iso''" by code_simp
  have r: "EvaluateFilePath demo_os ''/srv/repo'' ''/a/./b/../iso'' = Inr ''/a/iso''"
    "EvaluateFilePath demo_os ''/srv/repo'' ''/../repo2/x'' = Inl ErrOutsideRepo"
    "EvaluateFilePath demo_os ''/srv/repo'' ''/link'' = Inl ErrOutsideRepo" by code_simp+
  show ?thesis using EvaluateFilePath_confined [OF w a] r by simp
qed

end
