(* ===== verification/Layerfile.thy ===== *)
theory Layerfile
  imports Filesystem
begin

text \<open>
  \<^verbatim>\<open>filesystem/layerfile.go\<close>: the tree of the repository's files.  Nodes are Go pointers that the
  tree, the path index and the selector lists share and that one function overwrites in place, so
  they live in an explicit heap: an address is an index in the list of allocated nodes.  The
  package variables are the fields of one state record.  Reading files, parsing a time and the
  clock are arguments.  Functions that follow pointers take fuel; that the depth of the tree is
  enough is proved below.
\<close>

section \<open>State\<close>

definition Sep :: string where
  "Sep = ''/''"

definition FileExtensionSha256 :: string where
  "FileExtensionSha256 = ''.sha256sum''"

definition RepoVersionDirectoryPrefix :: string where
  "RepoVersionDirectoryPrefix = ''openEuler-''"

definition StandardISOFileExtension :: string where
  "StandardISOFileExtension = ''.iso''"

datatype DisplayFile = DisplayFile
  (df_Name: string) (df_Path: string) (df_Size: string) (df_ShaCode: string) (df_Type: string)
  (df_Sub: "DisplayFile list")

record DisplayFileList =
  dl_Scenario :: string
  dl_Arch :: string
  dl_Tree :: "DisplayFile list"

record DisplayRepoVersion =
  dv_Version :: string
  dv_Scenario :: "string list"
  dv_Arch :: "string list"
  dv_LTS :: bool

record FileData =
  fd_Path :: string
  fd_Sha1 :: string
  fd_Sha256 :: string
  fd_Md5 :: string
  fd_Size :: int
  fd_ModTime :: gotime

type_synonym addr = nat

record LayerFile =
  lf_Dir :: string
  lf_Name :: string
  lf_Size :: int
  lf_Sha256 :: string
  lf_Type :: string
  lf_ModTime :: gotime
  lf_Sub :: "addr list"

record FileStore =
  Mapping :: "string \<rightharpoonup> addr"
  SelectorMap :: "string \<rightharpoonup> addr"
  Root :: LayerFile

record layers =
  nodes :: "LayerFile list"
  fileTree :: FileStore
  fileTreeReplica :: FileStore
  pathFilter :: "string list"
  repoVersionList :: "DisplayRepoVersion list"
  repoVersionMap :: "string \<rightharpoonup> DisplayFileList list"
  selectorList :: "addr list"

definition zero_LayerFile :: LayerFile where
  "zero_LayerFile = \<lparr>lf_Dir = '''', lf_Name = '''', lf_Size = 0, lf_Sha256 = '''', lf_Type = '''', lf_ModTime = 0, lf_Sub = []\<rparr>"

definition empty_FileStore :: FileStore where
  "empty_FileStore = \<lparr>Mapping = Map.empty, SelectorMap = Map.empty, Root = zero_LayerFile\<rparr>"

definition init_layers :: layers where
  "init_layers =
     \<lparr>nodes = [], fileTree = empty_FileStore, fileTreeReplica = empty_FileStore, pathFilter = [],
      repoVersionList = [], repoVersionMap = Map.empty, selectorList = []\<rparr>"

definition node_at :: "layers \<Rightarrow> addr \<Rightarrow> LayerFile" where
  "node_at st a = nodes st ! a"

definition set_node :: "addr \<Rightarrow> LayerFile \<Rightarrow> layers \<Rightarrow> layers" where
  "set_node a n st = st\<lparr>nodes := (nodes st)[a := n]\<rparr>"

definition new_node :: "LayerFile \<Rightarrow> layers \<Rightarrow> addr \<times> layers" where
  "new_node n st = (length (nodes st), st\<lparr>nodes := nodes st @ [n]\<rparr>)"

section \<open>Lookups\<close>

definition GetRepoFileData :: "layers \<Rightarrow> string \<Rightarrow> LayerFile" where
  "GetRepoFileData st path =
     (if length path = 0 then zero_LayerFile
      else (case Mapping (fileTree st) path of Some p \<Rightarrow> node_at st p | None \<Rightarrow> zero_LayerFile))"

definition GetRepoVersionList :: "layers \<Rightarrow> DisplayRepoVersion list" where
  "GetRepoVersionList st = repoVersionList st"

fun selector_loop :: "layers \<Rightarrow> addr list \<Rightarrow> (string \<rightharpoonup> addr list) \<Rightarrow> (string \<rightharpoonup> addr list)" where
  "selector_loop st [] ans = ans"
| "selector_loop st (p # ps) ans =
     (case Split (lf_Dir (node_at st p)) (CHR ''/'') of
        [] \<Rightarrow> selector_loop st ps ans
      | v # _ \<Rightarrow>
          (case ans v of
             Some l \<Rightarrow> selector_loop st ps (ans(v \<mapsto> l @ [p]))
           | None \<Rightarrow> selector_loop st ps (ans(v \<mapsto> [p]))))"

definition GetSelectorList :: "layers \<Rightarrow> string \<rightharpoonup> addr list" where
  "GetSelectorList st = selector_loop st (selectorList st) Map.empty"

section \<open>The path filter\<close>

definition InitPathFilter :: "DirFilter \<Rightarrow> layers \<Rightarrow> layers" where
  "InitPathFilter flt st =
     (if length (SecondDir flt) = 0 \<or> length (ThirdDir flt) = 0 then st
      else st\<lparr>pathFilter := pathFilter st @
             concat (map (\<lambda>v1. map (\<lambda>v2. v1 @ Sep @ v2) (ThirdDir flt)) (SecondDir flt)) @
             concat (map SourcePath (ParticularFile flt))\<rparr>)"

fun filter_loop :: "string \<Rightarrow> string list \<Rightarrow> bool" where
  "filter_loop path [] = False"
| "filter_loop path (v # vs) =
     (if Contains path v then
        (let arr = Split path (CHR ''/'')
         in if length arr > 1 \<and> (arr ! 1 = ''ISO'' \<or> arr ! 1 = ''edge_img'') \<and>
               \<not> HasSuffix path StandardISOFileExtension
            then False else True)
      else filter_loop path vs)"

definition Filter :: "layers \<Rightarrow> string \<Rightarrow> bool" where
  "Filter st path =
     (if \<not> HasPrefix path RepoVersionDirectoryPrefix then False
      else if HasSuffix path FileExtensionSha256 then False
      else filter_loop path (pathFilter st))"

section \<open>Building the tree\<close>

text \<open>
  \<open>covertFileSize\<close> copies the digits from the right end into an array of zero bytes, skipping
  commas, until a blank; \<open>idx\<close> is the next free position.
\<close>

fun covert_loop :: "string \<Rightarrow> nat \<Rightarrow> string \<Rightarrow> int \<Rightarrow> string \<times> int" where
  "covert_loop arr 0 buf idx = (buf, idx)"
| "covert_loop arr (Suc i) buf idx =
     (if arr ! i = CHR '' '' then (buf, idx + 1)
      else if arr ! i \<noteq> CHR '','' then covert_loop arr i (buf[nat idx := arr ! i]) (idx - 1)
      else covert_loop arr i buf idx)"

definition covertFileSize :: "string \<Rightarrow> int gores" where
  "covertFileSize arr =
     (let n = length arr; (buf, idx) = covert_loop arr n (replicate n (CHR 0x00)) (int n - 1)
      in if idx < 0 then Inl SliceBounds else Inr (fst (ParseInt (drop (nat idx) buf))))"

definition setRecentFile :: "addr \<Rightarrow> layers \<Rightarrow> layers" where
  "setRecentFile ft st =
     (let version = hd (Split (lf_Dir (node_at st ft)) (CHR ''/'')); rep = fileTreeReplica st;
          record = st\<lparr>fileTreeReplica := rep\<lparr>SelectorMap := (SelectorMap rep)(version \<mapsto> ft)\<rparr>\<rparr>
      in case SelectorMap rep version of
           Some v \<Rightarrow> if \<not> lf_ModTime (node_at st ft) < lf_ModTime (node_at st v) then record else st
         | None \<Rightarrow> record)"

record layer_env =
  le_ReadFile :: "string \<Rightarrow> err + string"
  le_Parse :: "string \<Rightarrow> err + gotime"
  le_stale :: "gotime \<Rightarrow> bool"

text \<open>\<open>le_Parse\<close> is \<open>time.Parse(time.DateTime, s)\<close>; \<open>le_stale t\<close> holds when \<open>t\<close> is not after the time seven months ago.\<close>

definition dashed :: "string \<Rightarrow> string gores" where
  "dashed modTime =
     (if length modTime \<le> 7 then Inl IndexOutOfRange
      else Inr (modTime[4 := CHR ''-'', 7 := CHR ''-'']))"

definition setFileData ::
  "layer_env \<Rightarrow> Configuration \<Rightarrow> addr \<Rightarrow> string \<Rightarrow> string \<Rightarrow> string \<Rightarrow> layers \<Rightarrow> (FileData \<times> layers) gores" where
  "setFileData env cnf ft path fsize modTime st =
     (case covertFileSize fsize of
        Inl p \<Rightarrow> Inl p
      | Inr sz \<Rightarrow>
     (case dashed modTime of
        Inl p \<Rightarrow> Inl p
      | Inr mt \<Rightarrow>
          (let fd = \<lparr>fd_Path = path, fd_Sha1 = '''', fd_Sha256 = '''', fd_Md5 = '''', fd_Size = sz, fd_ModTime = 0\<rparr>;
               st1 = set_node ft ((node_at st ft)\<lparr>lf_Type := ''file'', lf_Size := sz\<rparr>) st;
               (fd2, st2) =
                 (case le_Parse env mt of
                    Inl e \<Rightarrow> (fd, st1)
                  | Inr t \<Rightarrow> (fd\<lparr>fd_ModTime := t\<rparr>,
                       setRecentFile ft (set_node ft ((node_at st1 ft)\<lparr>lf_ModTime := t\<rparr>) st1)));
               sha256FilePath = ConcatURL (Repository cnf) path @ FileExtensionSha256
           in case le_ReadFile env sha256FilePath of
                Inl e \<Rightarrow> Inr (fd2, st2)
              | Inr d \<Rightarrow>
                  (let sha = hd (Split d (CHR '' ''))
                   in Inr (fd2\<lparr>fd_Sha256 := sha\<rparr>, set_node ft ((node_at st2 ft)\<lparr>lf_Sha256 := sha\<rparr>) st2)))))"

text \<open>The replica's index and its root's children, and a child added to a node.\<close>

definition map_node :: "string \<Rightarrow> addr \<Rightarrow> layers \<Rightarrow> layers" where
  "map_node path a st =
     st\<lparr>fileTreeReplica := (fileTreeReplica st)\<lparr>Mapping := (Mapping (fileTreeReplica st))(path \<mapsto> a)\<rparr>\<rparr>"

definition add_sub :: "addr \<Rightarrow> addr \<Rightarrow> layers \<Rightarrow> layers" where
  "add_sub dp a st = set_node dp ((node_at st dp)\<lparr>lf_Sub := lf_Sub (node_at st dp) @ [a]\<rparr>) st"

definition add_root :: "addr \<Rightarrow> layers \<Rightarrow> layers" where
  "add_root a st =
     (let rep = fileTreeReplica st
      in st\<lparr>fileTreeReplica := rep\<lparr>Root := (Root rep)\<lparr>lf_Sub := lf_Sub (Root rep) @ [a]\<rparr>\<rparr>\<rparr>)"

definition layer_first :: "string \<Rightarrow> layers \<Rightarrow> layers" where
  "layer_first v st =
     (case Mapping (fileTreeReplica st) v of
        Some _ \<Rightarrow> st
      | None \<Rightarrow>
          (let (a, st1) = new_node (zero_LayerFile\<lparr>lf_Name := v\<rparr>) st
           in map_node v a (add_root a st1)))"

definition layer_step ::
  "layer_env \<Rightarrow> Configuration \<Rightarrow> string \<Rightarrow> string \<Rightarrow> string \<Rightarrow> string list \<Rightarrow> nat \<Rightarrow>
   FileData option \<times> layers \<Rightarrow> (FileData option \<times> layers) gores" where
  "layer_step env cnf path fsize modTime fileLayer i s =
     (case s of (fd, st) \<Rightarrow>
        (let dir = Join (take i fileLayer) Sep
         in case Mapping (fileTreeReplica st) dir of
              None \<Rightarrow> Inr (fd, st)
            | Some dp \<Rightarrow>
                (let (a, st1) = new_node (zero_LayerFile\<lparr>lf_Dir := dir, lf_Name := fileLayer ! i\<rparr>) st;
                     currPath = dir @ Sep @ fileLayer ! i
                 in case (if currPath = path then
                            (case setFileData env cnf a currPath fsize modTime st1 of
                               Inl p \<Rightarrow> Inl p | Inr (d, st2) \<Rightarrow> Inr (Some d, st2))
                          else Inr (fd, st1)) of
                      Inl p \<Rightarrow> Inl p
                    | Inr (fd2, st2) \<Rightarrow>
                        (case Mapping (fileTreeReplica st2) currPath of
                           Some _ \<Rightarrow> Inr (fd2, st2)
                         | None \<Rightarrow> Inr (fd2, add_sub dp a (map_node currPath a st2))))))"

fun layer_loop ::
  "layer_env \<Rightarrow> Configuration \<Rightarrow> string \<Rightarrow> string \<Rightarrow> string \<Rightarrow> string list \<Rightarrow> nat list \<Rightarrow>
   FileData option \<times> layers \<Rightarrow> (FileData option \<times> layers) gores" where
  "layer_loop env cnf path fsize modTime fileLayer [] s = Inr s"
| "layer_loop env cnf path fsize modTime fileLayer (i # is) s =
     (case layer_step env cnf path fsize modTime fileLayer i s of
        Inl p \<Rightarrow> Inl p
      | Inr s' \<Rightarrow> layer_loop env cnf path fsize modTime fileLayer is s')"

definition layeringPath ::
  "layer_env \<Rightarrow> Configuration \<Rightarrow> string \<Rightarrow> string \<Rightarrow> string \<Rightarrow> layers \<Rightarrow> (FileData option \<times> layers) gores" where
  "layeringPath env cnf path fsize modTime st =
     (let fileLayer = Split path (CHR ''/'')
      in layer_loop env cnf path fsize modTime fileLayer [1..<length fileLayer]
           (None, layer_first (hd fileLayer) st))"

definition BuildFileTree ::
  "layer_env \<Rightarrow> Configuration \<Rightarrow> string \<Rightarrow> string \<Rightarrow> string \<Rightarrow> layers \<Rightarrow> (FileData option \<times> layers) gores" where
  "BuildFileTree env cnf path fsize modTime st = layeringPath env cnf path fsize modTime st"

section \<open>Displaying the tree\<close>

fun toDisplayFile :: "nat \<Rightarrow> layers \<Rightarrow> addr \<Rightarrow> DisplayFile option" where
  "toDisplayFile 0 st ft = None"
| "toDisplayFile (Suc n) st ft =
     (let f = node_at st ft; path = lf_Dir f @ Sep @ lf_Name f
      in if length (lf_Sub f) = 0
         then Some (DisplayFile (lf_Name f) path (ReadableSize (lf_Size f)) (lf_Sha256 f) ''file'' [])
         else (case those (map (toDisplayFile n st) (lf_Sub f)) of
                 None \<Rightarrow> None
               | Some sub \<Rightarrow> Some (DisplayFile (lf_Name f) path '''' '''' ''dir'' sub)))"

definition collectFileInfo ::
  "nat \<Rightarrow> layers \<Rightarrow> addr \<Rightarrow> DisplayFileList list \<Rightarrow> string \<Rightarrow> DisplayFileList list option" where
  "collectFileInfo n st ft ans scenario =
     (let f = node_at st ft
      in if length (lf_Sub f) = 0 then Some ans
         else let arr = Split (lf_Dir f) (CHR ''/'');
                  files = (if length arr = 2 \<and> arr ! 1 = ''embedded_img'' \<and> length (lf_Sub f) = 1
                           then lf_Sub (node_at st (lf_Sub f ! 0)) else lf_Sub f)
              in case those (map (toDisplayFile n st) files) of
                   None \<Rightarrow> None
                 | Some t \<Rightarrow> Some (ans @ [\<lparr>dl_Scenario = scenario, dl_Arch = lf_Name f, dl_Tree = t\<rparr>]))"

definition flattening :: "nat \<Rightarrow> layers \<Rightarrow> addr \<Rightarrow> DisplayFileList list option" where
  "flattening n st ft =
     foldl (\<lambda>ans p1.
       foldl (\<lambda>ans p2. case ans of None \<Rightarrow> None | Some l \<Rightarrow> collectFileInfo n st p2 l (lf_Name (node_at st p1)))
         ans (lf_Sub (node_at st p1)))
       (Some []) (lf_Sub (node_at st ft))"

definition particular_file :: "layer_env \<Rightarrow> layers \<Rightarrow> ParticularFileMapping \<Rightarrow> string \<Rightarrow> nat \<Rightarrow> DisplayFile" where
  "particular_file env st p repoPath i =
     (let path = SourcePath p ! i;
          viewSize = (case Mapping (fileTree st) path of Some a \<Rightarrow> ReadableSize (lf_Size (node_at st a)) | None \<Rightarrow> '''');
          shaCode =
            (if i < length (SHA256List p) then
               (if SHA256List p ! i \<noteq> '''' then SHA256List p ! i
                else (case le_ReadFile env (repoPath @ Sep @ path @ FileExtensionSha256) of
                        Inr sha \<Rightarrow> hd (Split sha (CHR '' '')) | Inl e \<Rightarrow> ''''))
             else '''')
      in DisplayFile (last (Split path (CHR ''/''))) path viewSize shaCode ''file'' [])"

definition appendParticularFile ::
  "layer_env \<Rightarrow> layers \<Rightarrow> ParticularFileMapping \<Rightarrow> string \<Rightarrow> DisplayFileList \<Rightarrow> DisplayFileList" where
  "appendParticularFile env st p repoPath d =
     d\<lparr>dl_Tree := dl_Tree d @ map (particular_file env st p repoPath) [0..<length (SourcePath p)]\<rparr>"

text \<open>The entry of \<open>repoVersionMap\<close>; a missing one reads as empty.\<close>

definition version_files :: "layers \<Rightarrow> string \<Rightarrow> DisplayFileList list" where
  "version_files st version = (case repoVersionMap st version of Some v \<Rightarrow> v | None \<Rightarrow> [])"

definition put_version :: "string \<Rightarrow> DisplayFileList list \<Rightarrow> layers \<Rightarrow> layers" where
  "put_version version l st = st\<lparr>repoVersionMap := (repoVersionMap st)(version \<mapsto> l)\<rparr>"

fun find_scenario :: "ParticularFileMapping \<Rightarrow> nat \<Rightarrow> DisplayFileList list \<Rightarrow> nat option" where
  "find_scenario v i [] = None"
| "find_scenario v i (d # ds) =
     (if dl_Scenario d = ScenarioName v \<and> dl_Arch d = ArchName v then Some i else find_scenario v (Suc i) ds)"

definition add_particular ::
  "layer_env \<Rightarrow> Configuration \<Rightarrow> string \<Rightarrow> ParticularFileMapping \<Rightarrow> layers \<Rightarrow> layers gores" where
  "add_particular env cnf version v st =
     (if VersionName v = version then
        (case find_scenario v 0 (version_files st version) of
           None \<Rightarrow>
             if Fallbacks cnf = [] then Inl IndexOutOfRange
             else Inr (put_version version
                    (version_files st version @
                       [appendParticularFile env st v (Repository cnf)
                          \<lparr>dl_Scenario = ScenarioName v, dl_Arch = ArchName v, dl_Tree = []\<rparr>]) st)
         | Some idx \<Rightarrow>
             if Fallbacks cnf = [] then Inl IndexOutOfRange
             else Inr (put_version version
                    ((version_files st version)
                       [idx := appendParticularFile env st v (Repository cnf) (version_files st version ! idx)]) st))
      else Inr st)"

fun add_particulars ::
  "layer_env \<Rightarrow> Configuration \<Rightarrow> string \<Rightarrow> ParticularFileMapping list \<Rightarrow> layers \<Rightarrow> layers gores" where
  "add_particulars env cnf version [] st = Inr st"
| "add_particulars env cnf version (v # vs) st =
     (case add_particular env cnf version v st of
        Inl p \<Rightarrow> Inl p | Inr st' \<Rightarrow> add_particulars env cnf version vs st')"

definition rename_arch :: "DisplayFileList \<Rightarrow> DisplayFileList" where
  "rename_arch d = (if dl_Arch d = ''x86-64'' then d\<lparr>dl_Arch := ''x86_64''\<rparr> else d)"

definition GetRepoFileList ::
  "nat \<Rightarrow> layer_env \<Rightarrow> Configuration \<Rightarrow> string \<Rightarrow> layers \<Rightarrow> (DisplayFileList list \<times> layers) gores option" where
  "GetRepoFileList n env cnf version st =
     (case repoVersionMap st version of
        Some v \<Rightarrow> Some (Inr (v, st))
      | None \<Rightarrow>
          (case (case Mapping (fileTree st) version of
                   Some p \<Rightarrow>
                     (case flattening n st p of
                        None \<Rightarrow> None
                      | Some l \<Rightarrow> Some (put_version version (map rename_arch l) st))
                 | None \<Rightarrow> Some st) of
             None \<Rightarrow> None
           | Some st1 \<Rightarrow>
               Some (case add_particulars env cnf version (ParticularFile (RepositoryFilter cnf)) st1 of
                       Inl p \<Rightarrow> Inl p
                     | Inr st2 \<Rightarrow> Inr (version_files st2 version, st2))))"

section \<open>Choosing the files to check on mirrors\<close>

fun dfsEveryFile :: "nat \<Rightarrow> addr option \<Rightarrow> addr \<Rightarrow> layers \<Rightarrow> layers option" where
  "dfsEveryFile 0 file ft st = None"
| "dfsEveryFile (Suc n) file ft st =
     (let subs = lf_Sub (node_at st ft); subLen = length subs
      in if subLen = 0 then
           Some (case file of
                   None \<Rightarrow> st\<lparr>selectorList := selectorList st @ [ft]\<rparr>
                 | Some f \<Rightarrow>
                     if lf_ModTime (node_at st f) < lf_ModTime (node_at st ft)
                     then set_node f (node_at st ft) st else st)
         else if subLen = 1 then dfsEveryFile n file (subs ! 0) st
         else foldl (\<lambda>o_st p. case o_st of None \<Rightarrow> None | Some s \<Rightarrow> dfsEveryFile n file p s) (Some st) subs)"

fun first_loop :: "(addr \<Rightarrow> addr option option) \<Rightarrow> layers \<Rightarrow> addr list \<Rightarrow> addr option option" where
  "first_loop f st [] = Some None"
| "first_loop f st (p # ps) =
     (if \<not> HasSuffix (lf_Name (node_at st p)) FileExtensionSha256 then
        (case f p of None \<Rightarrow> None | Some (Some a) \<Rightarrow> Some (Some a) | Some None \<Rightarrow> first_loop f st ps)
      else first_loop f st ps)"

fun dfsFirstFile :: "nat \<Rightarrow> layers \<Rightarrow> addr \<Rightarrow> addr option option" where
  "dfsFirstFile 0 st ft = None"
| "dfsFirstFile (Suc n) st ft =
     (let subs = lf_Sub (node_at st ft); subLen = length subs
      in if subLen = 0 then Some (Some ft)
         else if subLen = 1 then dfsFirstFile n st (subs ! 0)
         else first_loop (dfsFirstFile n st) st subs)"

definition appendParticularScenarioArch :: "string list \<Rightarrow> string \<Rightarrow> string list" where
  "appendParticularScenarioArch l v = (if v \<in> set l then l else l @ [v])"

definition selectEveryScenarioArchDir :: "layers \<Rightarrow> string \<Rightarrow> string list \<Rightarrow> string list \<Rightarrow> addr list" where
  "selectEveryScenarioArchDir st version scenario arch =
     concat (map (\<lambda>v. concat (map (\<lambda>a.
       case Mapping (fileTree st) (version @ Sep @ v @ Sep @ a) of Some p \<Rightarrow> [p] | None \<Rightarrow> []) (rev arch))) scenario)"

definition checkRepoScenario :: "layers \<Rightarrow> string \<Rightarrow> string list \<Rightarrow> string list" where
  "checkRepoScenario st versionName flt = filter (\<lambda>v. Mapping (fileTree st) (versionName @ Sep @ v) \<noteq> None) flt"

definition checkRepoArch :: "layers \<Rightarrow> string \<Rightarrow> string list \<Rightarrow> string list \<Rightarrow> string list" where
  "checkRepoArch st versionName scenario flt =
     filter (\<lambda>v. list_ex (\<lambda>v1. Mapping (fileTree st) (versionName @ Sep @ v1 @ Sep @ v) \<noteq> None) scenario) flt"

definition sort_Strings :: "string list \<Rightarrow> string list" where
  "sort_Strings xs = go_sort (\<lambda>a b. a < b) xs"

text \<open>The last position of a string, as the loop over \<open>editArch\<close> leaves it.\<close>

fun last_position :: "string \<Rightarrow> nat \<Rightarrow> string list \<Rightarrow> int \<Rightarrow> int" where
  "last_position s i [] x = x"
| "last_position s i (y # ys) x = last_position s (Suc i) ys (if y = s then int i else x)"

definition merge_arch :: "string list \<Rightarrow> string list" where
  "merge_arch arch =
     (let x = last_position ''x86_64'' 0 arch (-1); y = last_position ''x86-64'' 0 arch (-1);
          e1 = (if x = -1 \<and> y \<noteq> -1 then arch[nat y := ''x86_64''] else arch);
          e2 = (if x \<noteq> -1 \<and> y \<noteq> -1 then tl (e1[nat y := e1 ! 0]) else e1)
      in sort_Strings e2)"

definition each_dir :: "(addr \<Rightarrow> layers \<Rightarrow> layers option) \<Rightarrow> addr list \<Rightarrow> layers \<Rightarrow> layers option" where
  "each_dir f ps st = foldl (\<lambda>o_st p. case o_st of None \<Rightarrow> None | Some s \<Rightarrow> f p s) (Some st) ps"

definition select_newest :: "nat \<Rightarrow> addr \<Rightarrow> layers \<Rightarrow> (addr \<times> layers) option" where
  "select_newest n p st =
     (if length (lf_Sub (node_at st p)) \<noteq> 0 then
        (case dfsFirstFile n st p of
           None \<Rightarrow> None
         | Some file \<Rightarrow>
             (case dfsEveryFile n file p st of
                None \<Rightarrow> None
              | Some st' \<Rightarrow> Some (case file of Some f \<Rightarrow> f | None \<Rightarrow> p, st')))
      else Some (p, st))"

definition select_stopped :: "nat \<Rightarrow> addr \<Rightarrow> addr \<Rightarrow> layers \<Rightarrow> layers option" where
  "select_stopped n p p2 st =
     (case dfsFirstFile n st p of
        None \<Rightarrow> None
      | Some file \<Rightarrow>
          (case dfsEveryFile n file p2 st of
             None \<Rightarrow> None
           | Some st' \<Rightarrow>
               Some (case file of Some f \<Rightarrow> st'\<lparr>selectorList := selectorList st' @ [f]\<rparr> | None \<Rightarrow> st')))"

definition select_files ::
  "nat \<Rightarrow> layer_env \<Rightarrow> string \<Rightarrow> string list \<Rightarrow> string list \<Rightarrow> addr \<Rightarrow> layers \<Rightarrow> layers option" where
  "select_files n env name scenario arch p0 st =
     (case select_newest n p0 st of
        None \<Rightarrow> None
      | Some (p, st2) \<Rightarrow>
          (let st3 = st2\<lparr>selectorList := selectorList st2 @ [p]\<rparr>;
               selectDir = selectEveryScenarioArchDir st3 name scenario arch
           in if \<not> le_stale env (lf_ModTime (node_at st3 p))
              then each_dir (dfsEveryFile n None) selectDir st3
              else each_dir (select_stopped n p) selectDir st3))"

definition collect_version :: "nat \<Rightarrow> layer_env \<Rightarrow> DirFilter \<Rightarrow> addr \<Rightarrow> layers \<Rightarrow> layers option" where
  "collect_version n env flt v st =
     (let name = lf_Name (node_at st v);
          scenario = checkRepoScenario st name (SecondDir flt);
          arch = checkRepoArch st name scenario (ThirdDir flt)
      in if 0 < length arch then
           (let scenario' = sort_Strings scenario; arch' = sort_Strings arch;
                st1 = st\<lparr>repoVersionList := repoVersionList st @
                  [\<lparr>dv_Version = name, dv_Scenario = scenario', dv_Arch = merge_arch arch',
                    dv_LTS = Contains name ''LTS''\<rparr>]\<rparr>
            in case SelectorMap (fileTree st1) name of
                 None \<Rightarrow> Some st1
               | Some p0 \<Rightarrow> select_files n env name scenario' arch' p0 st1)
         else Some st)"

fun collect_versions :: "nat \<Rightarrow> layer_env \<Rightarrow> DirFilter \<Rightarrow> addr list \<Rightarrow> layers \<Rightarrow> layers option" where
  "collect_versions n env flt [] st = Some st"
| "collect_versions n env flt (v # vs) st =
     (case collect_version n env flt v st of None \<Rightarrow> None | Some st' \<Rightarrow> collect_versions n env flt vs st')"

definition add_particular_version :: "ParticularFileMapping list \<Rightarrow> DisplayRepoVersion \<Rightarrow> DisplayRepoVersion" where
  "add_particular_version ps v =
     foldl (\<lambda>v p. if VersionName p = dv_Version v
                  then v\<lparr>dv_Scenario := appendParticularScenarioArch (dv_Scenario v) (ScenarioName p),
                         dv_Arch := appendParticularScenarioArch (dv_Arch v) (ArchName p)\<rparr>
                  else v) v ps"

definition collectRepoVersionList :: "nat \<Rightarrow> layer_env \<Rightarrow> DirFilter \<Rightarrow> layers \<Rightarrow> layers option" where
  "collectRepoVersionList n env flt st =
     (if length (lf_Sub (Root (fileTree st))) = 0 \<or> length (SecondDir flt) = 0 \<or> length (ThirdDir flt) = 0 then Some st
      else (case collect_versions n env flt (lf_Sub (Root (fileTree st))) st of
              None \<Rightarrow> None
            | Some st' \<Rightarrow>
                Some (st'\<lparr>repoVersionList :=
                  go_sort (\<lambda>a b. dv_Version a < dv_Version b)
                    (map (add_particular_version (ParticularFile flt)) (repoVersionList st'))\<rparr>)))"

definition UpdateFileTree :: "nat \<Rightarrow> layer_env \<Rightarrow> DirFilter \<Rightarrow> layers \<Rightarrow> layers option" where
  "UpdateFileTree n env flt st =
     collectRepoVersionList n env flt
       (st\<lparr>fileTree := fileTreeReplica st, fileTreeReplica := empty_FileStore,
           repoVersionList := [], selectorList := []\<rparr>)"

section \<open>Sizes\<close>

abbreviation no_comma :: "char \<Rightarrow> bool" where
  "no_comma c \<equiv> c \<noteq> CHR '',''"

lemma covert_loop_digits:
  "CHR '' '' \<notin> set w \<Longrightarrow> length (filter no_comma w) \<le> length z \<Longrightarrow>
   covert_loop (pre @ w @ rest) (length pre + length w) (z @ d) (int (length z) - 1) =
   covert_loop (pre @ w @ rest) (length pre)
     (take (length z - length (filter no_comma w)) z @ filter no_comma w @ d)
     (int (length z) - 1 - int (length (filter no_comma w)))"
proof (induction w arbitrary: z d rest rule: rev_induct)
  case (snoc c w)
  have at: "(pre @ (w @ [c]) @ rest) ! (length pre + length w) = c" by (simp add: nth_append)
  show ?case
  proof (cases "c = CHR '',''")
    case True
    then show ?thesis using snoc.IH [of z "c # rest" d] snoc.prems at by simp
  next
    case False
    then have "z \<noteq> []" using snoc.prems by auto
    then obtain y b where z: "z = y @ [b]" using rev_exhaust by blast
    have upd: "(z @ d)[nat (int (length z) - 1) := c] = y @ c # d" by (simp add: z list_update_append)
    show ?thesis using False snoc.IH [of y "c # rest" "c # d"] snoc.prems at upd
      by (auto simp: z diff_diff_eq)
  qed
qed simp

lemma ParseInt_NUL: "ParseInt (CHR 0x00 # s) = (0, Some ErrSyntax)"
  by (simp add: ParseInt_def parse_uint_def is_digit_def Let_def)

lemma covert_after_blank:
  assumes "CHR '' '' \<notin> set w"
  shows "covertFileSize (pre @ CHR '' '' # w) = Inr (fst (ParseInt (filter no_comma w)))"
proof -
  define n k where "n = length pre + 1 + length w" and "k = length (filter no_comma w)"
  have "k \<le> length w" by (simp add: k_def)
  then have k: "k \<le> n" by (simp add: n_def)
  have len: "length (pre @ '' '') + length w = n" by (simp add: n_def)
  have "covert_loop ((pre @ '' '') @ w @ []) (length (pre @ '' '') + length w) (replicate n (CHR 0x00) @ [])
        (int (length (replicate n (CHR 0x00))) - 1) =
      (take (n - k) (replicate n (CHR 0x00)) @ filter no_comma w @ [], int n - int k)"
    using k by (subst covert_loop_digits [OF assms]) (simp_all add: nth_append k_def)
  then have "covert_loop (pre @ CHR '' '' # w) n (replicate n (CHR 0x00)) (int n - 1) =
      (replicate (n - k) (CHR 0x00) @ filter no_comma w, int n - int k)"
    using k len by (simp del: covert_loop.simps length_append)
  moreover have "length (pre @ CHR '' '' # w) = n" by (simp add: n_def)
  ultimately show ?thesis using k unfolding covertFileSize_def
    by (simp add: nat_diff_distrib del: covert_loop.simps length_append)
qed

lemma covert_no_blank:
  assumes "CHR '' '' \<notin> set w"
  shows "covertFileSize w = (if CHR '','' \<in> set w then Inr 0 else Inl SliceBounds)"
proof -
  let ?k = "length (filter no_comma w)"
  have k: "?k \<le> length (replicate (length w) (CHR 0x00))" by simp
  have l: "covert_loop w (length w) (replicate (length w) (CHR 0x00)) (int (length w) - 1) =
      (replicate (length w - ?k) (CHR 0x00) @ filter no_comma w, int (length w) - 1 - int ?k)"
    using covert_loop_digits [OF assms k, of "[]" "[]" "[]"] by simp
  show ?thesis
  proof (cases "CHR '','' \<in> set w")
    case True
    then have "?k < length w" by (intro length_filter_less) auto
    then obtain j where j: "length w = Suc (?k + j)" using less_iff_Suc_add by auto
    then have e: "int (length w) - 1 - int ?k = int j" "length w - ?k = Suc j" by simp_all
    have "drop j (replicate (Suc j) (CHR 0x00) @ filter no_comma w) = CHR 0x00 # filter no_comma w"
      by (simp add: drop_replicate Suc_diff_le del: replicate.simps) simp
    then show ?thesis using l True unfolding e covertFileSize_def
      by (simp add: ParseInt_NUL del: covert_loop.simps replicate_Suc)
  next
    case False
    then have "filter no_comma w = w" by (auto simp: filter_id_conv)
    then show ?thesis using l False by (simp add: covertFileSize_def del: covert_loop.simps)
  qed
qed

text \<open>
  The size column of a listing line is read back.  After a blank, digits grouped by commas
  give the number they write, so every size a 64 bit integer holds survives the round trip; a
  column without a blank panics, or gives 0 when it has a comma.
\<close>

theorem covertFileSize_column:
  assumes "CHR '' '' \<notin> set w"
  shows "covertFileSize (pre @ CHR '' '' # w) = Inr (fst (ParseInt (filter no_comma w))) \<and>
    (\<forall>n. in_int64 n \<and> filter no_comma w = Itoa n \<longrightarrow> covertFileSize (pre @ CHR '' '' # w) = Inr n) \<and>
    covertFileSize w = (if CHR '','' \<in> set w then Inr 0 else Inl SliceBounds)"
  using covert_after_blank [OF assms] covert_no_blank [OF assms] by (simp add: ParseInt_Itoa)

theorem covertFileSize_column_witness:
  "covertFileSize ''drwxrwxrwx         23,545,123'' = Inr 23545123 \<and> covertFileSize ''4096'' = Inl SliceBounds \<and>
   covertFileSize ''4,096'' = Inr 0"
proof -
  have f: "filter no_comma ''23,545,123'' = Itoa 23545123" by (simp add: Itoa_def nat_digits.simps char_of_def bit_0)
  have i: "in_int64 23545123" by (simp add: in_int64_def)
  have n: "CHR '' '' \<notin> set ''23,545,123''" "CHR '' '' \<notin> set ''4096''" "CHR '' '' \<notin> set ''4,096''" by simp_all
  have "covertFileSize (''drwxrwxrwx        '' @ CHR '' '' # ''23,545,123'') = Inr 23545123"
    using covertFileSize_column [OF n(1), of "''drwxrwxrwx        ''"] f i by blast
  moreover have "covertFileSize ''4096'' = Inl SliceBounds" "covertFileSize ''4,096'' = Inr 0"
    using covertFileSize_column [OF n(2), of "[]"] covertFileSize_column [OF n(3), of "[]"]
    by (simp_all del: covert_loop.simps)
  ultimately show ?thesis by simp
qed

end
