(* ===== verification/Http_Render.thy ===== *)
theory Http_Render
  imports Selection Layerfile
begin

text \<open>
  The renderers of \<^verbatim>\<open>http/pagerenderer.go\<close>, their choice in \<open>handlerRes\<close> of \<^verbatim>\<open>http/http.go\<close> and the
  line of \<^verbatim>\<open>logs/logs.go\<close> that records a download.  A response is the sequence of calls that a
  handler makes on its \<open>ResponseWriter\<close>, directly or through the helpers of \<open>net/http\<close>.  The JSON
  encoder, the compiled templates, the text of an error and the formatting of a float are arguments.
\<close>

section \<open>Results and responses\<close>

record Results =
  r_FileInfo :: FileInfo
  r_FileTree :: "DisplayFileList list"
  r_RepoVersion :: "DisplayRepoVersion list"
  r_IP :: string
  r_ClientInfo :: GeoIPRecord
  r_MirrorList :: Mirrors
  r_ExcludedList :: Mirrors
  r_Fallback :: bool
  r_LocalJSPath :: string

definition zero_Results :: Results where
  "zero_Results =
     \<lparr>r_FileInfo = NewFileInfo '''', r_FileTree = [], r_RepoVersion = [], r_IP = '''', r_ClientInfo = empty_record,
      r_MirrorList = [], r_ExcludedList = [], r_Fallback = False, r_LocalJSPath = ''''\<rparr>"

datatype wcall =
    HeaderSet string string
  | HeaderAdd string string
  | WriteBody string
  | WriteHeader int
  | HttpError string int
  | HttpNotFound
  | HttpRedirect string int
  | Logged string

record render_env =
  MarshalIndent :: "Results \<Rightarrow> err + string"
  Encode :: "Results \<Rightarrow> string \<times> err option"
  tmpl_mirrorlist :: "(Results \<Rightarrow> err + string) option"
  err_Error :: "err \<Rightarrow> string"
  FormatFloat2 :: "real \<Rightarrow> string"
  dlogger :: bool

datatype resultsRenderer = JSONRenderer | RedirectRenderer | MirrorListRenderer

definition renderer_Type :: "resultsRenderer \<Rightarrow> string" where
  "renderer_Type w =
     (case w of JSONRenderer \<Rightarrow> ''JSON'' | RedirectRenderer \<Rightarrow> ''REDIRECT'' | MirrorListRenderer \<Rightarrow> ''MIRRORLIST'')"

section \<open>Rendering\<close>

definition JSONRenderer_Write :: "render_env \<Rightarrow> Context \<Rightarrow> Results \<Rightarrow> (int \<times> err option) \<times> wcall list" where
  "JSONRenderer_Write env ctx results =
     (if isPretty ctx then
        (case MarshalIndent env results of
           Inl e \<Rightarrow> ((500, Some e), [])
         | Inr output \<Rightarrow>
             ((200, None),
              [HeaderSet ''Content-Type'' ''application/json; charset=utf-8'',
               HeaderSet ''Content-Length'' (Itoa (int (length output))), WriteBody output]))
      else
        (case Encode env results of
           (output, e) \<Rightarrow>
             (if e = None then (200, None) else (500, e),
              [HeaderSet ''Content-Type'' ''application/json; charset=utf-8'', WriteBody output])))"

definition link_value :: "string \<Rightarrow> nat \<Rightarrow> Mirror \<Rightarrow> string" where
  "link_value path i m =
     (let countryCode = (case CountryFields m of [] \<Rightarrow> '''' | c # _ \<Rightarrow> ToLower c)
      in ''<'' @ HttpURL m @ path @ ''>; rel=duplicate; pri='' @ Itoa (int i + 1) @ ''; geo='' @ countryCode)"

fun link_headers :: "string \<Rightarrow> nat \<Rightarrow> Mirrors \<Rightarrow> wcall list" where
  "link_headers path i [] = []"
| "link_headers path i (m # ms) = HeaderAdd ''Link'' (link_value path i m) # link_headers path (Suc i) ms"

definition RedirectRenderer_Write :: "Configuration \<Rightarrow> Results \<Rightarrow> (int \<times> err option) \<times> wcall list" where
  "RedirectRenderer_Write cnf results =
     (case r_MirrorList results of
        [] \<Rightarrow> ((404, None), [HttpNotFound])
      | best # rest \<Rightarrow>
          (let path = TrimPrefix (Path (r_FileInfo results)) ''/'';
               mh0 = int (length (r_MirrorList results)); maxheaders = MaxLinkHeaders cnf;
               mh = (if mh0 > maxheaders + 1 then maxheaders + 1 else mh0);
               links = (if mh \<ge> 1 then link_headers path 0 (drop 1 (take (nat mh) (r_MirrorList results))) else [])
           in ((302, None),
               [HeaderSet ''Content-Type'' ''text/html; charset=utf-8''] @ links @
               [HttpRedirect (HttpURL best @ path) 302])))"

definition MirrorListRenderer_Write :: "render_env \<Rightarrow> Results \<Rightarrow> (int \<times> err option) \<times> wcall list" where
  "MirrorListRenderer_Write env results =
     (case tmpl_mirrorlist env of
        None \<Rightarrow> ((500, Some ErrTemplatesNotFound), [])
      | Some execute \<Rightarrow>
          (let results' = results\<lparr>r_ExcludedList := go_sort ByExcludeReason_Less (r_ExcludedList results)\<rparr>;
               ct = HeaderSet ''Content-Type'' ''text/html; charset=utf-8''
           in case execute results' of
                Inl e \<Rightarrow> ((500, Some e), [ct])
              | Inr page \<Rightarrow> ((200, None), [ct, WriteBody page])))"

definition renderer_Write ::
  "resultsRenderer \<Rightarrow> render_env \<Rightarrow> Configuration \<Rightarrow> Context \<Rightarrow> Results \<Rightarrow> (int \<times> err option) \<times> wcall list" where
  "renderer_Write w env cnf ctx results =
     (case w of
        JSONRenderer \<Rightarrow> JSONRenderer_Write env ctx results
      | RedirectRenderer \<Rightarrow> RedirectRenderer_Write cnf results
      | MirrorListRenderer \<Rightarrow> MirrorListRenderer_Write env results)"

section \<open>The download log\<close>

definition log_line :: "render_env \<Rightarrow> string \<Rightarrow> int \<Rightarrow> Results \<Rightarrow> err option \<Rightarrow> string" where
  "log_line env typ statuscode p e =
     (let errstr = (case e of Some x \<Rightarrow> err_Error env x | None \<Rightarrow> ''<unknown>'');
          q = [char_of (34 :: nat)] @ Path (r_FileInfo p) @ [char_of (34 :: nat)]
      in if (statuscode = 302 \<or> statuscode = 200) \<and> length (r_MirrorList p) > 0 then
           (let m = hd (r_MirrorList p);
                fallback = (if r_Fallback p then '' fallback:true'' else '''');
                sameASNum = (if Asnum m > 0 \<and> Asnum m = geo_ASNum (r_ClientInfo p) then ''same'' else '''')
            in typ @ '' '' @ Itoa statuscode @ '' '' @ q @ '' ip:'' @ r_IP p @ '' mirror:'' @ Name m @ fallback @ '' '' @
               sameASNum @ ''asn:'' @ Itoa (int (Asnum m)) @ '' distance:'' @ FormatFloat2 env (Distance m) @
               ''km countries:'' @ Join (CountryFields m) '','')
         else if statuscode = 404 then typ @ '' 404 '' @ q @ '' ip:'' @ r_IP p
         else if statuscode = 500 then
           typ @ '' 500 '' @ q @ '' ip:'' @ r_IP p @ '' mirror:'' @
           (case r_MirrorList p of [] \<Rightarrow> ''unknown'' | m # _ \<Rightarrow> Name m) @ '' error:'' @ errstr
         else typ @ '' '' @ Itoa statuscode @ '' '' @ q @ '' ip:'' @ r_IP p @ '' error:'' @ errstr)"

definition LogDownload :: "render_env \<Rightarrow> string \<Rightarrow> int \<Rightarrow> Results \<Rightarrow> err option \<Rightarrow> wcall list" where
  "LogDownload env typ statuscode p e = (if \<not> dlogger env then [] else [Logged (log_line env typ statuscode p e)])"

section \<open>Choosing the renderer\<close>

definition choose_renderer :: "Configuration \<Rightarrow> Context \<Rightarrow> string \<Rightarrow> resultsRenderer option" where
  "choose_renderer cnf ctx accept =
     (if isMirrorList ctx then Some MirrorListRenderer
      else if OutputMode cnf = ''json'' then Some JSONRenderer
      else if OutputMode cnf = ''redirect'' then Some RedirectRenderer
      else if OutputMode cnf = ''auto'' then
        (if Index accept ''application/json'' \<ge> 0 then Some JSONRenderer else Some RedirectRenderer)
      else None)"

definition handlerRes :: "render_env \<Rightarrow> Configuration \<Rightarrow> Context \<Rightarrow> string \<Rightarrow> Results \<Rightarrow> wcall list" where
  "handlerRes env cnf ctx accept results =
     (case choose_renderer cnf ctx accept of
        None \<Rightarrow> [HttpError ''No page renderer'' 500]
      | Some w \<Rightarrow>
          (let ((status, e), calls) = renderer_Write w env cnf ctx results
           in [HeaderSet ''Cache-Control'' ''private, no-cache''] @ calls @
              (case e of Some x \<Rightarrow> [HttpError (err_Error env x) status] | None \<Rightarrow> []) @
              (if \<not> isMirrorList ctx then LogDownload env (renderer_Type w) status results e else [])))"

section \<open>What a client is told\<close>

text \<open>The redirects and the alternative links of a response.\<close>

fun redirects :: "wcall list \<Rightarrow> string list" where
  "redirects [] = []"
| "redirects (HttpRedirect u c # cs) = u # redirects cs"
| "redirects (_ # cs) = redirects cs"

fun links :: "wcall list \<Rightarrow> string list" where
  "links [] = []"
| "links (HeaderAdd k v # cs) = (if k = ''Link'' then v # links cs else links cs)"
| "links (_ # cs) = links cs"

lemma redirects_append [simp]: "redirects (xs @ ys) = redirects xs @ redirects ys"
  by (induction xs rule: redirects.induct) auto

lemma links_append [simp]: "links (xs @ ys) = links xs @ links ys"
  by (induction xs rule: links.induct) auto

lemma link_headers_links: "links (link_headers path i ms) = map (\<lambda>(j, m). link_value path j m) (enumerate i ms)"
  by (induction ms arbitrary: i) (auto simp: enumerate_simps)

lemma link_headers_redirects [simp]: "redirects (link_headers path i ms) = []"
  by (induction ms arbitrary: i) auto

lemma Redirect_first:
  assumes "r_MirrorList results = best # rest" and "0 \<le> MaxLinkHeaders cnf"
  shows "RedirectRenderer_Write cnf results =
    ((302, None),
     [HeaderSet ''Content-Type'' ''text/html; charset=utf-8''] @
     link_headers (TrimPrefix (Path (r_FileInfo results)) ''/'') 0 (take (nat (MaxLinkHeaders cnf)) rest) @
     [HttpRedirect (HttpURL best @ TrimPrefix (Path (r_FileInfo results)) ''/'') 302])"
proof -
  define mh where "mh = (if int (length (r_MirrorList results)) > MaxLinkHeaders cnf + 1 then MaxLinkHeaders cnf + 1
    else int (length (r_MirrorList results)))"
  have "drop 1 (take (nat mh) (r_MirrorList results)) = take (nat (MaxLinkHeaders cnf)) rest" "mh \<ge> 1"
    using assms by (auto simp: mh_def nat_add_distrib)
  then show ?thesis
    unfolding RedirectRenderer_Write_def Let_def mh_def [symmetric] using assms(1) by simp
qed

lemma log_quiet [simp]: "redirects (LogDownload env t s p e) = []" "links (LogDownload env t s p e) = []"
  by (simp_all add: LogDownload_def)

text \<open>
  A redirected client is sent to the first mirror and told of the next ones.  In redirect mode, and in
  auto mode for a client that does not ask for JSON, a non-empty list of mirrors
  gives exactly one redirect, to the first mirror's URL followed by the path of the file, and one link
  for each of the next mirrors, as many as \<open>MaxLinkHeaders\<close> allows, numbered from 1 in order; with no
  mirror there is neither.
\<close>

theorem handlerRes_redirect:
  assumes "choose_renderer cnf ctx accept = Some RedirectRenderer" and "0 \<le> MaxLinkHeaders cnf"
  shows "redirects (handlerRes env cnf ctx accept results) =
      (case r_MirrorList results of
         [] \<Rightarrow> [] | best # _ \<Rightarrow> [HttpURL best @ TrimPrefix (Path (r_FileInfo results)) ''/'']) \<and>
    links (handlerRes env cnf ctx accept results) =
      map (\<lambda>(j, m). link_value (TrimPrefix (Path (r_FileInfo results)) ''/'') j m)
        (enumerate 0 (take (nat (MaxLinkHeaders cnf)) (tl (r_MirrorList results))))"
proof (cases "r_MirrorList results")
  case Nil
  then show ?thesis
    using assms by (simp add: handlerRes_def renderer_Write_def RedirectRenderer_Write_def)
next
  case (Cons best rest)
  then show ?thesis
    using assms by (simp add: handlerRes_def renderer_Write_def Redirect_first link_headers_links)
qed

definition demo_render :: render_env where
  "demo_render =
     \<lparr>MarshalIndent = (\<lambda>_. Inr ''{}''), Encode = (\<lambda>_. (''{}'', None)), tmpl_mirrorlist = None,
      err_Error = (\<lambda>_. ''error''), FormatFloat2 = (\<lambda>_. ''0.00''), dlogger = False\<rparr>"

definition demo_results :: Results where
  "demo_results = zero_Results
     \<lparr>r_FileInfo := NewFileInfo ''/a.iso'',
      r_MirrorList := [zero_mirror\<lparr>HttpURL := ''http://x/''\<rparr>, zero_mirror\<lparr>HttpURL := ''http://y/'', CountryFields := [''FR'']\<rparr>]\<rparr>"

theorem handlerRes_redirect_witness:
  "redirects (handlerRes demo_render (defaultConfig '''') demo_ctx '''' demo_results) = [''http://x/a.iso''] \<and>
   links (handlerRes demo_render (defaultConfig '''') demo_ctx '''' demo_results) =
     [''<http://y/a.iso>; rel=duplicate; pri=1; geo=fr'']"
proof -
  have c: "choose_renderer (defaultConfig '''') demo_ctx '''' = Some RedirectRenderer"
    by (simp add: choose_renderer_def demo_ctx_def defaultConfig_def Index_def)
  have m: "0 \<le> MaxLinkHeaders (defaultConfig '''')" by (simp add: defaultConfig_def)
  have i: "Itoa 1 = ''1''" "ToLower ''FR'' = ''fr''" "TrimPrefix ''/a.iso'' ''/'' = ''a.iso''" by code_simp+
  show ?thesis
    using handlerRes_redirect [OF c m, of demo_render demo_results] i
    by (simp add: demo_results_def NewFileInfo_def enumerate_simps defaultConfig_def link_value_def)
qed

end
