(* ===== verification/Calendar.thy ===== *)
theory Calendar
  imports Utils
begin

text \<open>
  The civil calendar of Go's time package in UTC, computed from the number of days since the
  zero time the way the package does: cycles of 400, 100, 4 and 1 years, then the month from the
  lengths of the months.  Dates are printed with the layout \<^verbatim>\<open>2006_01_02\<close>.
\<close>

definition day_of :: "gotime \<Rightarrow> int" where
  "day_of t = t div (86400 * time_Second)"

definition is_leap :: "int \<Rightarrow> bool" where
  "is_leap y \<longleftrightarrow> y mod 4 = 0 \<and> (y mod 100 \<noteq> 0 \<or> y mod 400 = 0)"

text \<open>The year and the day of the year (from 0) of a day counted from 1 January of year 1.\<close>

definition year_day :: "int \<Rightarrow> int \<times> int" where
  "year_day day =
     (let n400 = day div 146097; d1 = day mod 146097;
          n100 = min 3 (d1 div 36524); d2 = d1 - 36524 * n100;
          n4 = d2 div 1461; d3 = d2 mod 1461;
          n1 = min 3 (d3 div 365); d4 = d3 - 365 * n1
      in (400 * n400 + 100 * n100 + 4 * n4 + n1 + 1, d4))"

definition month_lengths :: "int \<Rightarrow> int list" where
  "month_lengths y = [31, if is_leap y then 29 else 28, 31, 30, 31, 30, 31, 31, 30, 31, 30, 31]"

fun month_of :: "int \<Rightarrow> int \<Rightarrow> int list \<Rightarrow> int \<times> int" where
  "month_of m d [] = (m, d + 1)"
| "month_of m d [l] = (m, d + 1)"
| "month_of m d (l # k # ls) = (if d < l then (m, d + 1) else month_of (m + 1) (d - l) (k # ls))"

definition civil :: "int \<Rightarrow> int \<times> int \<times> int" where
  "civil day = (let (y, d) = year_day day; (m, md) = month_of 1 d (month_lengths y) in (y, m, md))"

text \<open>Decimal numbers padded with zeros on the left.\<close>

definition pad_int :: "nat \<Rightarrow> int \<Rightarrow> string" where
  "pad_int w n =
     (if n < 0 then ''-'' else '''') @ replicate (w - length (nat_digits (nat \<bar>n\<bar>))) (CHR ''0'') @ nat_digits (nat \<bar>n\<bar>)"

definition date_parts :: "gotime \<Rightarrow> string list" where
  "date_parts t = (let (y, m, d) = civil (day_of t) in [pad_int 4 y, pad_int 2 m, pad_int 2 d])"

definition Format_date :: "gotime \<Rightarrow> string" where
  "Format_date t = Join (date_parts t) ''_''"

section \<open>Lemmas\<close>

lemma pad_int_chars: "c \<in> set (pad_int w n) \<Longrightarrow> is_digit c \<or> c = CHR ''-''"
  using nat_digits_are_digits [of "nat \<bar>n\<bar>"] by (auto simp: pad_int_def list_all_iff is_digit_def split: if_splits)

lemma pad_int_no_sep [simp]: "CHR ''_'' \<notin> set (pad_int w n)" "CHR ''|'' \<notin> set (pad_int w n)"
  by (auto dest!: pad_int_chars simp: is_digit_def)

lemma pad_int_nonempty [simp]: "pad_int w n \<noteq> []"
  by (simp add: pad_int_def)

lemma pad_int_hd: "is_digit (hd (pad_int w n)) \<or> hd (pad_int w n) = CHR ''-''"
  using pad_int_chars [of "hd (pad_int w n)" w n] by simp

lemma date_parts_three:
  obtains y m d where "date_parts t = [pad_int 4 y, pad_int 2 m, pad_int 2 d]"
  by (cases "civil (day_of t)") (auto simp: date_parts_def)

lemma Format_date_no_bar [simp]: "CHR ''|'' \<notin> set (Format_date t)"
  by (rule date_parts_three [of t]) (simp add: Format_date_def)

lemma civil_epoch: "civil 719162 = (1970, 1, 1)"
  by (simp add: civil_def year_day_def month_lengths_def is_leap_def)

lemma civil_leap: "civil 738944 = (2024, 2, 29)"
  by (simp add: civil_def year_day_def month_lengths_def is_leap_def)

end
