(* ===== verification/Lru.thy ===== *)
theory Lru
  imports Go_Sort
begin

text \<open>
  The LRU cache of \<^verbatim>\<open>mirrors/lru.go\<close>.  The doubly linked list of \<open>container/list\<close> is the
  list of its elements from front to back, each with its address; the table maps a key to the
  address of its element, as the Go map holds element pointers.  The size is a \<open>uint64\<close>, kept
  as a 64 bit word.  \<open>checkCapacity\<close> dereferences the last element without a test, so the
  operations that call it return a panic when the list is empty.
\<close>

section \<open>State\<close>

record 'v entry =
  e_key :: string
  e_value :: 'v
  e_size :: int
  timeAccessed :: gotime

type_synonym elem = nat

record 'v LRUCache =
  lru_list :: "(elem \<times> 'v entry) list"
  lru_table :: "string \<rightharpoonup> elem"
  lru_size :: "64 word"
  lru_capacity :: "64 word"
  lru_fresh :: elem

record 'v Item =
  item_key :: string
  item_value :: 'v

section \<open>The list package\<close>

definition list_Remove :: "elem \<Rightarrow> (elem \<times> 'e) list \<Rightarrow> (elem \<times> 'e) list" where
  "list_Remove el xs = filter (\<lambda>x. fst x \<noteq> el) xs"

definition list_MoveToFront :: "elem \<Rightarrow> (elem \<times> 'e) list \<Rightarrow> (elem \<times> 'e) list" where
  "list_MoveToFront el xs =
     (case map_of xs el of None \<Rightarrow> xs | Some e \<Rightarrow> (el, e) # list_Remove el xs)"

definition set_elem :: "elem \<Rightarrow> ('e \<Rightarrow> 'e) \<Rightarrow> (elem \<times> 'e) list \<Rightarrow> (elem \<times> 'e) list" where
  "set_elem el f xs = map (\<lambda>(p, e). (p, if p = el then f e else e)) xs"

section \<open>Operations\<close>

definition NewLRUCache :: "64 word \<Rightarrow> 'v LRUCache" where
  "NewLRUCache cap =
     \<lparr>lru_list = [], lru_table = Map.empty, lru_size = 0, lru_capacity = cap, lru_fresh = 0\<rparr>"

definition moveToFront :: "gotime \<Rightarrow> elem \<Rightarrow> 'v LRUCache \<Rightarrow> 'v LRUCache" where
  "moveToFront now el c =
     c\<lparr>lru_list := set_elem el (\<lambda>e. e\<lparr>timeAccessed := now\<rparr>) (list_MoveToFront el (lru_list c))\<rparr>"

function checkCapacity :: "'v LRUCache \<Rightarrow> 'v LRUCache gores" where
  "checkCapacity c =
     (if lru_size c > lru_capacity c then
        if lru_list c = [] then Inl NilDeref
        else let (el, e) = last (lru_list c)
             in checkCapacity
                  (c\<lparr>lru_list := list_Remove el (lru_list c),
                     lru_table := (lru_table c)(e_key e := None),
                     lru_size := lru_size c - word_of_int (e_size e)\<rparr>)
      else Inr c)"
  by pat_completeness auto

lemma length_list_Remove_last: "xs \<noteq> [] \<Longrightarrow> length (list_Remove (fst (last xs)) xs) < length xs"
  unfolding list_Remove_def by (rule length_filter_less [OF last_in_set]) auto

termination checkCapacity
  by (relation "measure (\<lambda>c. length (lru_list c))")
    (auto, metis fst_conv length_list_Remove_last)

declare checkCapacity.simps [simp del]

definition LRU_Get :: "gotime \<Rightarrow> string \<Rightarrow> 'v LRUCache \<Rightarrow> 'v option \<times> 'v LRUCache" where
  "LRU_Get now key c =
     (case lru_table c key of
        None \<Rightarrow> (None, c)
      | Some el \<Rightarrow>
          let c' = moveToFront now el c in (map_option e_value (map_of (lru_list c') el), c'))"

definition updateInplace ::
  "('v \<Rightarrow> int) \<Rightarrow> gotime \<Rightarrow> elem \<Rightarrow> 'v \<Rightarrow> 'v LRUCache \<Rightarrow> 'v LRUCache gores" where
  "updateInplace size_of now el v c =
     (case map_of (lru_list c) el of
        None \<Rightarrow> Inl NilDeref
      | Some e \<Rightarrow>
          let valueSize = size_of v;
              sizeDiff = wrap64 (valueSize - e_size e);
              c1 = c\<lparr>lru_list := set_elem el (\<lambda>e. e\<lparr>e_value := v, e_size := valueSize\<rparr>) (lru_list c),
                     lru_size := lru_size c + word_of_int sizeDiff\<rparr>
          in checkCapacity (moveToFront now el c1))"

definition addNew ::
  "('v \<Rightarrow> int) \<Rightarrow> gotime \<Rightarrow> string \<Rightarrow> 'v \<Rightarrow> 'v LRUCache \<Rightarrow> 'v LRUCache gores" where
  "addNew size_of now key v c =
     (let newEntry = \<lparr>e_key = key, e_value = v, e_size = size_of v, timeAccessed = now\<rparr>;
          el = lru_fresh c
      in checkCapacity
           (c\<lparr>lru_list := (el, newEntry) # lru_list c,
              lru_table := (lru_table c)(key \<mapsto> el),
              lru_size := lru_size c + word_of_int (e_size newEntry),
              lru_fresh := Suc el\<rparr>))"

definition LRU_Set ::
  "('v \<Rightarrow> int) \<Rightarrow> gotime \<Rightarrow> string \<Rightarrow> 'v \<Rightarrow> 'v LRUCache \<Rightarrow> 'v LRUCache gores" where
  "LRU_Set size_of now key v c =
     (case lru_table c key of
        Some el \<Rightarrow> updateInplace size_of now el v c
      | None \<Rightarrow> addNew size_of now key v c)"

definition LRU_SetIfAbsent ::
  "('v \<Rightarrow> int) \<Rightarrow> gotime \<Rightarrow> string \<Rightarrow> 'v \<Rightarrow> 'v LRUCache \<Rightarrow> 'v LRUCache gores" where
  "LRU_SetIfAbsent size_of now key v c =
     (case lru_table c key of
        Some el \<Rightarrow> Inr (moveToFront now el c)
      | None \<Rightarrow> addNew size_of now key v c)"

definition LRU_Delete :: "string \<Rightarrow> 'v LRUCache \<Rightarrow> bool \<times> 'v LRUCache" where
  "LRU_Delete key c =
     (case lru_table c key of
        None \<Rightarrow> (False, c)
      | Some el \<Rightarrow>
          (True,
           c\<lparr>lru_list := list_Remove el (lru_list c),
             lru_table := (lru_table c)(key := None),
             lru_size := lru_size c -
               (case map_of (lru_list c) el of None \<Rightarrow> 0 | Some e \<Rightarrow> word_of_int (e_size e))\<rparr>))"

definition LRU_Clear :: "'v LRUCache \<Rightarrow> 'v LRUCache" where
  "LRU_Clear c = c\<lparr>lru_list := [], lru_table := Map.empty, lru_size := 0\<rparr>"

definition LRU_SetCapacity :: "64 word \<Rightarrow> 'v LRUCache \<Rightarrow> 'v LRUCache gores" where
  "LRU_SetCapacity cap c = checkCapacity (c\<lparr>lru_capacity := cap\<rparr>)"

definition LRU_Stats :: "'v LRUCache \<Rightarrow> 64 word \<times> 64 word \<times> 64 word \<times> gotime" where
  "LRU_Stats c =
     (let oldest = (if lru_list c = [] then 0 else timeAccessed (snd (last (lru_list c))))
      in (of_nat (length (lru_list c)), lru_size c, lru_capacity c, oldest))"

definition LRU_Keys :: "'v LRUCache \<Rightarrow> string list" where
  "LRU_Keys c = map (\<lambda>(_, e). e_key e) (lru_list c)"

definition LRU_Items :: "'v LRUCache \<Rightarrow> 'v Item list" where
  "LRU_Items c = map (\<lambda>(_, e). \<lparr>item_key = e_key e, item_value = e_value e\<rparr>) (lru_list c)"

section \<open>Specification\<close>

text \<open>
  What the cache promises: an association list from the most to the least recently used
  key, cut to the longest prefix whose sizes fit the capacity.
\<close>

type_synonym 'v alru = "(string \<times> 'v) list"

definition lru_abs :: "'v LRUCache \<Rightarrow> 'v alru" where
  "lru_abs c = map (\<lambda>(_, e). (e_key e, e_value e)) (lru_list c)"

definition lru_lookup :: "'v LRUCache \<Rightarrow> string \<Rightarrow> 'v option" where
  "lru_lookup c = map_of (lru_abs c)"

fun fit :: "('a \<Rightarrow> int) \<Rightarrow> int \<Rightarrow> 'a list \<Rightarrow> 'a list" where
  "fit sz cap [] = []"
| "fit sz cap (x # xs) = (if sz x \<le> cap then x # fit sz (cap - sz x) xs else [])"

definition a_front :: "string \<Rightarrow> 'v \<Rightarrow> 'v alru \<Rightarrow> 'v alru" where
  "a_front k v xs = (k, v) # filter (\<lambda>x. fst x \<noteq> k) xs"

definition a_get :: "string \<Rightarrow> 'v alru \<Rightarrow> 'v option \<times> 'v alru" where
  "a_get k xs = (case map_of xs k of None \<Rightarrow> (None, xs) | Some v \<Rightarrow> (Some v, a_front k v xs))"

definition a_set :: "('v \<Rightarrow> int) \<Rightarrow> int \<Rightarrow> string \<Rightarrow> 'v \<Rightarrow> 'v alru \<Rightarrow> 'v alru" where
  "a_set size_of cap k v xs = fit (\<lambda>x. size_of (snd x)) cap (a_front k v xs)"

section \<open>Well-formedness\<close>

definition used :: "(elem \<times> 'v entry) list \<Rightarrow> int" where
  "used xs = sum_list (map (\<lambda>x. e_size (snd x)) xs)"

text \<open>The links between list, table and counter; \<open>lru_wf\<close> adds the capacity bound.\<close>

definition lru_links :: "('v \<Rightarrow> int) \<Rightarrow> 'v LRUCache \<Rightarrow> bool" where
  "lru_links size_of c \<longleftrightarrow>
     distinct (map fst (lru_list c)) \<and>
     (\<forall>x \<in> set (lru_list c). fst x < lru_fresh c \<and> lru_table c (e_key (snd x)) = Some (fst x) \<and>
        e_size (snd x) = size_of (e_value (snd x)) \<and> 0 \<le> e_size (snd x)) \<and>
     (\<forall>k p. lru_table c k = Some p \<longrightarrow> (\<exists>e. (p, e) \<in> set (lru_list c) \<and> e_key e = k)) \<and>
     lru_size c = word_of_int (used (lru_list c))"

definition lru_wf :: "('v \<Rightarrow> int) \<Rightarrow> 'v LRUCache \<Rightarrow> bool" where
  "lru_wf size_of c \<longleftrightarrow> lru_links size_of c \<and> used (lru_list c) \<le> uint (lru_capacity c)"

text \<open>A value the cache can take without overflowing its counter.\<close>

definition storable :: "('v \<Rightarrow> int) \<Rightarrow> 'v LRUCache \<Rightarrow> 'v \<Rightarrow> bool" where
  "storable size_of c v \<longleftrightarrow>
     0 \<le> size_of v \<and> uint (lru_capacity c) + size_of v < 2 ^ 63"

section \<open>List lemmas\<close>

lemma fit_all:
  "\<forall>x \<in> set xs. 0 \<le> sz x \<Longrightarrow> sum_list (map sz xs) \<le> cap \<Longrightarrow> fit sz cap xs = xs"
proof (induction xs arbitrary: cap)
  case (Cons x xs)
  then have "0 \<le> sum_list (map sz xs)" by (intro sum_list_nonneg) auto
  with Cons show ?case by auto
qed simp

lemma fit_snoc: "sum_list (map sz (xs @ [x])) > cap \<Longrightarrow> fit sz cap (xs @ [x]) = fit sz cap xs"
  by (induction xs arbitrary: cap) auto

lemma fit_prefix: "\<exists>n. fit sz cap xs = take n xs"
proof (induction xs arbitrary: cap)
  case (Cons x xs)
  then obtain n where "fit sz (cap - sz x) xs = take n xs" by blast
  then have "fit sz cap (x # xs) = (if sz x \<le> cap then take (Suc n) (x # xs) else take 0 (x # xs))"
    by simp
  then show ?case by metis
qed simp

lemma fit_bound: "0 \<le> cap \<Longrightarrow> sum_list (map sz (fit sz cap xs)) \<le> cap"
proof (induction xs arbitrary: cap)
  case (Cons x xs)
  then have "sz x \<le> cap \<Longrightarrow> sum_list (map sz (fit sz (cap - sz x) xs)) \<le> cap - sz x" by simp
  with Cons.prems show ?case by (cases "sz x \<le> cap") simp_all
qed simp

lemma list_Remove_other: "el \<notin> fst ` set xs \<Longrightarrow> list_Remove el xs = xs"
  by (induction xs) (auto simp: list_Remove_def)

lemma list_Remove_last:
  assumes "distinct (map fst xs)" "xs \<noteq> []"
  shows "list_Remove (fst (last xs)) xs = butlast xs"
  using assms
proof (induction xs rule: rev_induct)
  case (snoc x xs)
  then have "list_Remove (fst x) xs = xs" by (intro list_Remove_other) auto
  then show ?case by (simp add: list_Remove_def)
qed simp

lemma set_elem_fst [simp]: "map fst (set_elem el f xs) = map fst xs"
  by (induction xs) (auto simp: set_elem_def)

lemma set_elem_Remove [simp]: "set_elem el f (list_Remove el xs) = list_Remove el xs"
  by (induction xs) (auto simp: set_elem_def list_Remove_def)

lemma list_Remove_set_elem [simp]: "list_Remove el (set_elem el f xs) = list_Remove el xs"
  by (induction xs) (auto simp: set_elem_def list_Remove_def)

lemma map_of_set_elem: "map_of (set_elem el f xs) el = map_option f (map_of xs el)"
  by (induction xs) (auto simp: set_elem_def)

lemma distinct_list_Remove: "distinct (map fst xs) \<Longrightarrow> distinct (map fst (list_Remove el xs))"
  by (simp add: list_Remove_def distinct_map_filter)

lemma used_list_Remove:
  "distinct (map fst xs) \<Longrightarrow> map_of xs el = Some e \<Longrightarrow> used xs = e_size e + used (list_Remove el xs)"
proof (induction xs)
  case (Cons x xs)
  then show ?case
    using list_Remove_other [of "fst x" xs] by (cases x) (auto simp: used_def list_Remove_def)
qed simp

section \<open>Consequences of the links\<close>

lemma linksD:
  assumes "lru_links size_of c"
  shows "distinct (map fst (lru_list c))"
    and "x \<in> set (lru_list c) \<Longrightarrow> fst x < lru_fresh c"
    and "x \<in> set (lru_list c) \<Longrightarrow> lru_table c (e_key (snd x)) = Some (fst x)"
    and "x \<in> set (lru_list c) \<Longrightarrow> e_size (snd x) = size_of (e_value (snd x))"
    and "x \<in> set (lru_list c) \<Longrightarrow> 0 \<le> e_size (snd x)"
    and "lru_table c k = Some p \<Longrightarrow> \<exists>e. (p, e) \<in> set (lru_list c) \<and> e_key e = k"
    and "lru_size c = word_of_int (used (lru_list c))"
  using assms unfolding lru_links_def by blast+

lemma links_elem:
  assumes "lru_links size_of c" "lru_table c k = Some el"
  obtains e where "map_of (lru_list c) el = Some e" "e_key e = k" "(el, e) \<in> set (lru_list c)"
  using linksD(6) [OF assms] linksD(1) [OF assms(1)] by auto

lemma links_key_elem:
  assumes "lru_links size_of c" "lru_table c k = Some el" "x \<in> set (lru_list c)"
  shows "fst x = el \<longleftrightarrow> e_key (snd x) = k"
proof
  assume "fst x = el"
  from links_elem [OF assms(1,2)] obtain e where "map_of (lru_list c) el = Some e" "e_key e = k" .
  moreover have "map_of (lru_list c) (fst x) = Some (snd x)"
    using linksD(1) [OF assms(1)] assms(3) by (metis map_of_is_SomeI prod.collapse)
  ultimately show "e_key (snd x) = k" using \<open>fst x = el\<close> by simp
next
  assume "e_key (snd x) = k"
  with linksD(3) [OF assms(1,3)] assms(2) show "fst x = el" by simp
qed

lemma links_no_key:
  "lru_links size_of c \<Longrightarrow> lru_table c k = None \<Longrightarrow> x \<in> set (lru_list c) \<Longrightarrow> e_key (snd x) \<noteq> k"
  by (auto dest: linksD(3))

lemma used_nonneg: "lru_links size_of c \<Longrightarrow> 0 \<le> used (lru_list c)"
  unfolding used_def by (rule sum_list_nonneg) (auto dest: linksD(5))

lemma abs_list_Remove:
  assumes "lru_links size_of c" "lru_table c k = Some el"
  shows "map (\<lambda>(_, e). (e_key e, e_value e)) (list_Remove el (lru_list c)) =
    filter (\<lambda>x. fst x \<noteq> k) (lru_abs c)"
proof -
  have "filter (\<lambda>x. fst x \<noteq> el) (lru_list c) = filter (\<lambda>x. e_key (snd x) \<noteq> k) (lru_list c)"
    by (rule filter_cong) (auto simp: links_key_elem [OF assms])
  then show ?thesis by (simp add: list_Remove_def lru_abs_def filter_map o_def split_def)
qed

lemma abs_no_key:
  assumes "lru_links size_of c" "lru_table c k = None"
  shows "filter (\<lambda>x. fst x \<noteq> k) (lru_abs c) = lru_abs c"
proof (rule filter_True)
  show "\<forall>x \<in> set (lru_abs c). fst x \<noteq> k"
    using links_no_key [OF assms] by (fastforce simp: lru_abs_def)
qed

lemma lookup_table:
  assumes "lru_links size_of c"
  shows "lru_lookup c k =
    (case lru_table c k of None \<Rightarrow> None | Some el \<Rightarrow> map_option e_value (map_of (lru_list c) el))"
proof (cases "lru_table c k")
  case None
  then have "k \<notin> fst ` set (lru_abs c)"
    using links_no_key [OF assms None] by (fastforce simp: lru_abs_def)
  with None show ?thesis by (simp add: lru_lookup_def map_of_eq_None_iff)
next
  case (Some el)
  from links_elem [OF assms Some] obtain e where
    e: "map_of (lru_list c) el = Some e" "e_key e = k" "(el, e) \<in> set (lru_list c)" .
  have "map_of (map (\<lambda>(_, e). (e_key e, e_value e)) xs) k =
      map_option e_value (map_of xs el)" if "set xs \<subseteq> set (lru_list c)" for xs
    using that
  proof (induction xs)
    case (Cons x xs)
    then have "fst x = el \<longleftrightarrow> e_key (snd x) = k" by (intro links_key_elem [OF assms Some]) simp
    with Cons show ?case by (cases x) auto
  qed simp
  from this [of "lru_list c"] Some show ?thesis by (simp add: lru_lookup_def lru_abs_def)
qed

lemma distinct_abs:
  assumes "lru_links size_of c"
  shows "distinct (map fst (lru_abs c))"
proof -
  have "inj_on (\<lambda>x. e_key (snd x)) (set (lru_list c))"
  proof (rule inj_onI)
    fix x y assume xy: "x \<in> set (lru_list c)" "y \<in> set (lru_list c)" "e_key (snd x) = e_key (snd y)"
    then have "fst x = fst y" using linksD(3) [OF assms] by (metis option.inject)
    with xy linksD(1) [OF assms] show "x = y" by (metis eq_key_imp_eq_value prod.collapse)
  qed
  moreover have "distinct (lru_list c)" using linksD(1) [OF assms] by (simp add: distinct_map)
  ultimately show ?thesis by (simp add: lru_abs_def distinct_map o_def split_def)
qed

section \<open>Every operation keeps the links and refines the specification\<close>

lemma NewLRUCache_wf: "lru_wf size_of (NewLRUCache cap)"
  by (simp add: lru_wf_def lru_links_def NewLRUCache_def used_def)

lemma LRU_Clear_wf: "lru_wf size_of (LRU_Clear c)"
  by (simp add: lru_wf_def lru_links_def LRU_Clear_def used_def)

lemma LRU_Clear_abs [simp]: "lru_abs (LRU_Clear c) = []"
  by (simp add: LRU_Clear_def lru_abs_def)

text \<open>Dropping one element, with the table entry of its key and its share of the counter.\<close>

definition drop_elem :: "elem \<Rightarrow> 'v entry \<Rightarrow> 'v LRUCache \<Rightarrow> 'v LRUCache" where
  "drop_elem el e c =
     c\<lparr>lru_list := list_Remove el (lru_list c), lru_table := (lru_table c)(e_key e := None),
       lru_size := lru_size c - word_of_int (e_size e)\<rparr>"

lemma drop_elem_links:
  assumes "lru_links size_of c" "(el, e) \<in> set (lru_list c)"
  shows "lru_links size_of (drop_elem el e c)"
proof -
  have tab: "lru_table c (e_key e) = Some el" using linksD(3) [OF assms] by simp
  have e: "map_of (lru_list c) el = Some e" using assms(2) linksD(1) [OF assms(1)] by simp
  have mem: "x \<in> set (list_Remove el (lru_list c)) \<longleftrightarrow> x \<in> set (lru_list c) \<and> e_key (snd x) \<noteq> e_key e" for x
    using links_key_elem [OF assms(1) tab, of x] by (auto simp: list_Remove_def)
  have "lru_size c - word_of_int (e_size e) = word_of_int (used (list_Remove el (lru_list c)))"
    using linksD(7) [OF assms(1)] used_list_Remove [OF linksD(1) [OF assms(1)] e] by simp
  moreover have "\<exists>e'. (p, e') \<in> set (list_Remove el (lru_list c)) \<and> e_key e' = k"
    if "lru_table c k = Some p" "k \<noteq> e_key e" for k p
    using linksD(6) [OF assms(1) that(1)] that(2) by (auto simp: mem)
  ultimately show ?thesis
    using distinct_list_Remove [OF linksD(1) [OF assms(1)]] linksD(2-5) [OF assms(1)]
    by (auto simp: lru_links_def drop_elem_def mem)
qed

lemma drop_elem_abs:
  assumes "lru_links size_of c" "(el, e) \<in> set (lru_list c)"
  shows "lru_abs (drop_elem el e c) = filter (\<lambda>x. fst x \<noteq> e_key e) (lru_abs c)"
  using abs_list_Remove [OF assms(1) linksD(3) [OF assms, simplified]]
  by (simp add: lru_abs_def drop_elem_def)

lemma uint_word_of_int64: "0 \<le> i \<Longrightarrow> i < 2 ^ 64 \<Longrightarrow> uint (word_of_int i :: 64 word) = i"
  by (simp add: uint_word_of_int)

lemma checkCapacity_spec:
  assumes "lru_links size_of c" "used (lru_list c) < 2 ^ 64"
  shows "\<exists>c'. checkCapacity c = Inr c' \<and> lru_wf size_of c' \<and> lru_capacity c' = lru_capacity c \<and>
    lru_abs c' = fit (\<lambda>x. size_of (snd x)) (uint (lru_capacity c)) (lru_abs c)"
  using assms
proof (induction c rule: checkCapacity.induct)
  case (1 c)
  note links = 1(2)
  have sz: "uint (lru_size c) = used (lru_list c)"
    using linksD(7) [OF links] used_nonneg [OF links] 1(3) by (simp add: uint_word_of_int64)
  have abs_sz: "sum_list (map (\<lambda>x. size_of (snd x)) (lru_abs c)) = used (lru_list c)"
    unfolding used_def lru_abs_def
    by (auto intro!: arg_cong [where f = sum_list] simp: split_def linksD(4) [OF links])
  show ?case
  proof (cases "lru_size c > lru_capacity c")
    case True
    then have gt: "uint (lru_capacity c) < used (lru_list c)" by (simp add: word_less_def sz)
    with uint_ge_0 [of "lru_capacity c"] have ne: "lru_list c \<noteq> []" by (auto simp: used_def)
    obtain el e where last: "last (lru_list c) = (el, e)" by (cases "last (lru_list c)")
    then have mem: "(el, e) \<in> set (lru_list c)" using ne by (metis last_in_set)
    let ?d = "drop_elem el e c"
    have rm: "list_Remove el (lru_list c) = butlast (lru_list c)"
      using list_Remove_last [OF linksD(1) [OF links] ne] last by simp
    have split: "lru_abs c = lru_abs ?d @ [(e_key e, e_value e)]"
      using append_butlast_last_id [OF ne] last
      by (auto simp: lru_abs_def drop_elem_def rm split_def map_butlast)
        (metis (no_types, lifting) append_butlast_last_id list.map_disc_iff last_map ne prod.sel(2) snd_conv)
    have "used (lru_list ?d) \<le> used (lru_list c)"
      using used_list_Remove [OF linksD(1) [OF links], of el e] mem linksD(1,5) [OF links]
      by (force simp: drop_elem_def)
    then have "\<exists>c'. checkCapacity ?d = Inr c' \<and> lru_wf size_of c' \<and> lru_capacity c' = lru_capacity ?d \<and>
        lru_abs c' = fit (\<lambda>x. size_of (snd x)) (uint (lru_capacity ?d)) (lru_abs ?d)"
      using 1(1) [OF True ne last [symmetric] refl] drop_elem_links [OF links mem] 1(3)
      by (simp add: drop_elem_def)
    moreover have "checkCapacity c = checkCapacity ?d"
      using True ne last by (simp add: checkCapacity.simps [of c] drop_elem_def)
    moreover have "fit (\<lambda>x. size_of (snd x)) (uint (lru_capacity c)) (lru_abs c) =
        fit (\<lambda>x. size_of (snd x)) (uint (lru_capacity c)) (lru_abs ?d)"
      unfolding split by (rule fit_snoc) (use gt abs_sz split in simp)
    ultimately show ?thesis by (simp add: drop_elem_def)
  next
    case False
    then have le: "used (lru_list c) \<le> uint (lru_capacity c)" by (simp add: word_less_def sz)
    have "fit (\<lambda>x. size_of (snd x)) (uint (lru_capacity c)) (lru_abs c) = lru_abs c"
      by (rule fit_all) (use le abs_sz linksD(4,5) [OF links] in \<open>auto simp: lru_abs_def\<close>)
    with False le links show ?thesis by (simp add: checkCapacity.simps [of c] lru_wf_def)
  qed
qed

text \<open>Putting an element with a new key at the front: the inverse of \<open>drop_elem\<close>.\<close>

definition push_elem :: "elem \<Rightarrow> 'v entry \<Rightarrow> 'v LRUCache \<Rightarrow> 'v LRUCache" where
  "push_elem el e c =
     c\<lparr>lru_list := (el, e) # lru_list c, lru_table := (lru_table c)(e_key e \<mapsto> el),
       lru_size := lru_size c + word_of_int (e_size e), lru_fresh := max (Suc el) (lru_fresh c)\<rparr>"

lemma push_elem_links:
  assumes "lru_links size_of c" "lru_table c (e_key e) = None" "el \<notin> fst ` set (lru_list c)"
    and "e_size e = size_of (e_value e)" "0 \<le> e_size e"
  shows "lru_links size_of (push_elem el e c)"
proof -
  note other = links_no_key [OF assms(1,2)]
  have 1: "distinct (map fst (lru_list (push_elem el e c)))"
    using linksD(1) [OF assms(1)] assms(3) by (simp add: push_elem_def)
  have 2: "fst x < lru_fresh (push_elem el e c) \<and>
      lru_table (push_elem el e c) (e_key (snd x)) = Some (fst x) \<and>
      e_size (snd x) = size_of (e_value (snd x)) \<and> 0 \<le> e_size (snd x)"
    if "x \<in> set (lru_list (push_elem el e c))" for x
  proof (cases "x = (el, e)")
    case True
    with assms(4,5) show ?thesis by (simp add: push_elem_def)
  next
    case False
    with that have "x \<in> set (lru_list c)" by (simp add: push_elem_def)
    with linksD(2-5) [OF assms(1) this] other [OF this] show ?thesis by (simp add: push_elem_def)
  qed
  have 3: "\<exists>e'. (p, e') \<in> set (lru_list (push_elem el e c)) \<and> e_key e' = k"
    if "lru_table (push_elem el e c) k = Some p" for k p
    using that linksD(6) [OF assms(1), of k p] by (auto simp: push_elem_def split: if_splits)
  have "lru_size (push_elem el e c) = word_of_int (used (lru_list (push_elem el e c)))"
    using linksD(7) [OF assms(1)] by (simp add: push_elem_def used_def add.commute)
  with 1 2 3 show ?thesis unfolding lru_links_def by blast
qed

lemma push_elem_abs: "lru_abs (push_elem el e c) = (e_key e, e_value e) # lru_abs c"
  by (simp add: lru_abs_def push_elem_def)

text \<open>Taking an element out and putting another entry for its key in front.\<close>

lemma replace_elem:
  assumes "lru_links size_of c" "lru_table c k = Some el" "map_of (lru_list c) el = Some e"
    and "e_key e' = k" "e_size e' = size_of (e_value e')" "0 \<le> e_size e'"
  defines "c' \<equiv> push_elem el e' (drop_elem el e c)"
  shows "lru_links size_of c'" "lru_abs c' = a_front k (e_value e') (lru_abs c)"
    and "lru_list c' = (el, e') # list_Remove el (lru_list c)" "lru_table c' = lru_table c"
    and "lru_fresh c' = lru_fresh c" "lru_capacity c' = lru_capacity c"
    and "lru_size c' = lru_size c + word_of_int (e_size e' - e_size e)"
    and "used (lru_list c') = used (lru_list c) + (e_size e' - e_size e)"
proof -
  have mem: "(el, e) \<in> set (lru_list c)" using assms(3) by (rule map_of_SomeD)
  have key: "e_key e = k" using links_key_elem [OF assms(1,2) mem] by simp
  have "lru_links size_of (drop_elem el e c)" by (rule drop_elem_links [OF assms(1) mem])
  then show "lru_links size_of c'" unfolding c'_def
    by (rule push_elem_links)
      (use assms(4-6) key in \<open>auto simp: drop_elem_def list_Remove_def\<close>)
  show "lru_abs c' = a_front k (e_value e') (lru_abs c)"
    by (simp add: c'_def push_elem_abs drop_elem_abs [OF assms(1) mem] a_front_def key assms(4))
  show l: "lru_list c' = (el, e') # list_Remove el (lru_list c)"
    by (simp add: c'_def push_elem_def drop_elem_def)
  show "lru_table c' = lru_table c"
    using assms(2) by (simp add: c'_def push_elem_def drop_elem_def key assms(4) fun_upd_idem)
  show "lru_fresh c' = lru_fresh c"
    using linksD(2) [OF assms(1) mem] by (simp add: c'_def push_elem_def drop_elem_def)
  show "lru_capacity c' = lru_capacity c" by (simp add: c'_def push_elem_def drop_elem_def)
  show "lru_size c' = lru_size c + word_of_int (e_size e' - e_size e)"
    by (simp add: c'_def push_elem_def drop_elem_def)
  show "used (lru_list c') = used (lru_list c) + (e_size e' - e_size e)"
    unfolding l used_list_Remove [OF linksD(1) [OF assms(1)] assms(3)] by (simp add: used_def)
qed

lemma moveToFront_replace:
  assumes "lru_links size_of c" "lru_table c k = Some el" "map_of (lru_list c) el = Some e"
    and "e_key e' = k" "e_size e' = size_of (e_value e')" "0 \<le> e_size e'"
    and "map_of xs el = Some e0" "e' = e0\<lparr>timeAccessed := now\<rparr>"
    and "list_Remove el xs = list_Remove el (lru_list c)"
  shows "moveToFront now el
      (c\<lparr>lru_list := xs, lru_size := lru_size c + word_of_int (e_size e' - e_size e)\<rparr>) =
    push_elem el e' (drop_elem el e c)"
proof -
  have "set_elem el f ((el, x) # list_Remove el xs) = (el, f x) # list_Remove el xs" for f x
    using set_elem_Remove [of el f xs] by (simp add: set_elem_def)
  then show ?thesis
    using replace_elem [OF assms(1-6)] assms(7-9)
    by (simp add: moveToFront_def list_MoveToFront_def)
qed

lemma moveToFront_links:
  assumes "lru_links size_of c" "lru_table c k = Some el"
  shows "lru_links size_of (moveToFront now el c)"
    and "lru_capacity (moveToFront now el c) = lru_capacity c"
    and "used (lru_list (moveToFront now el c)) = used (lru_list c)"
    and "\<exists>v. lru_lookup c k = Some v \<and> lru_abs (moveToFront now el c) = a_front k v (lru_abs c) \<and>
           map_option e_value (map_of (lru_list (moveToFront now el c)) el) = Some v"
proof -
  from links_elem [OF assms] obtain e where
    e: "map_of (lru_list c) el = Some e" "e_key e = k" "(el, e) \<in> set (lru_list c)" .
  let ?e = "e\<lparr>timeAccessed := now\<rparr>"
  have sz: "e_size ?e = size_of (e_value ?e)" "0 \<le> e_size ?e" "e_key ?e = k"
    using linksD(4,5) [OF assms(1) e(3)] e(2) by simp_all
  have m: "moveToFront now el c = push_elem el ?e (drop_elem el e c)"
    using moveToFront_replace [OF assms e(1) sz(3,1,2) e(1) refl refl] by simp
  note r = replace_elem [OF assms e(1) sz(3,1,2)]
  show "lru_links size_of (moveToFront now el c)"
    and "lru_capacity (moveToFront now el c) = lru_capacity c"
    and "used (lru_list (moveToFront now el c)) = used (lru_list c)"
    unfolding m using r by simp_all
  have "lru_lookup c k = Some (e_value e)"
    by (simp add: lookup_table [OF assms(1)] assms(2) e(1))
  with r show "\<exists>v. lru_lookup c k = Some v \<and> lru_abs (moveToFront now el c) = a_front k v (lru_abs c) \<and>
      map_option e_value (map_of (lru_list (moveToFront now el c)) el) = Some v"
    unfolding m by simp
qed

lemma LRU_Get_refines:
  assumes "lru_wf size_of c"
  shows "lru_wf size_of (snd (LRU_Get now k c))"
    and "lru_capacity (snd (LRU_Get now k c)) = lru_capacity c"
    and "map_prod id lru_abs (LRU_Get now k c) = a_get k (lru_abs c)"
proof -
  from assms have links: "lru_links size_of c" and b: "used (lru_list c) \<le> uint (lru_capacity c)"
    by (simp_all add: lru_wf_def)
  have "lru_wf size_of (snd (LRU_Get now k c)) \<and> lru_capacity (snd (LRU_Get now k c)) = lru_capacity c \<and>
      map_prod id lru_abs (LRU_Get now k c) = a_get k (lru_abs c)"
  proof (cases "lru_table c k")
    case None
    with lookup_table [OF links, of k] assms show ?thesis
      by (simp add: LRU_Get_def a_get_def lru_lookup_def)
  next
    case (Some el)
    from moveToFront_links [OF links Some, of now] b show ?thesis
      by (auto simp: LRU_Get_def Some Let_def lru_wf_def a_get_def lru_lookup_def)
  qed
  then show "lru_wf size_of (snd (LRU_Get now k c))"
    and "lru_capacity (snd (LRU_Get now k c)) = lru_capacity c"
    and "map_prod id lru_abs (LRU_Get now k c) = a_get k (lru_abs c)" by simp_all
qed

lemma addNew_refines:
  assumes "lru_wf size_of c" "lru_table c k = None" "storable size_of c v"
  shows "\<exists>c'. addNew size_of now k v c = Inr c' \<and> lru_wf size_of c' \<and> lru_capacity c' = lru_capacity c \<and>
    lru_abs c' = a_set size_of (uint (lru_capacity c)) k v (lru_abs c)"
proof -
  from assms(1) have links: "lru_links size_of c" and b: "used (lru_list c) \<le> uint (lru_capacity c)"
    by (simp_all add: lru_wf_def)
  let ?e = "\<lparr>e_key = k, e_value = v, e_size = size_of v, timeAccessed = now\<rparr>"
  let ?c = "push_elem (lru_fresh c) ?e c"
  have "lru_links size_of ?c"
    using linksD(2) [OF links] assms(2,3)
    by (intro push_elem_links [OF links]) (fastforce simp: storable_def)+
  moreover have "used (lru_list ?c) < 2 ^ 64"
    using b assms(3) by (simp add: storable_def push_elem_def used_def)
  moreover have "lru_abs ?c = a_front k v (lru_abs c)"
    using abs_no_key [OF links assms(2)] by (simp add: push_elem_abs a_front_def)
  ultimately show ?thesis
    using checkCapacity_spec [of size_of ?c] by (simp add: addNew_def Let_def a_set_def push_elem_def)
qed

lemma updateInplace_refines:
  assumes "lru_wf size_of c" "lru_table c k = Some el" "storable size_of c v"
  shows "\<exists>c'. updateInplace size_of now el v c = Inr c' \<and> lru_wf size_of c' \<and>
    lru_capacity c' = lru_capacity c \<and>
    lru_abs c' = a_set size_of (uint (lru_capacity c)) k v (lru_abs c)"
proof -
  from assms(1) have links: "lru_links size_of c" and b: "used (lru_list c) \<le> uint (lru_capacity c)"
    by (simp_all add: lru_wf_def)
  from links_elem [OF links assms(2)] obtain e where
    e: "map_of (lru_list c) el = Some e" "e_key e = k" "(el, e) \<in> set (lru_list c)" .
  let ?f = "\<lambda>e. e\<lparr>e_value := v, e_size := size_of v\<rparr>"
  let ?e1 = "(?f e)\<lparr>timeAccessed := now\<rparr>"
  let ?c = "push_elem el ?e1 (drop_elem el e c)"
  have cap: "uint (lru_capacity c) + size_of v < 2 ^ 63" "0 \<le> size_of v"
    using assms(3) by (simp_all add: storable_def)
  with uint_ge_0 [of "lru_capacity c"] have sv: "size_of v < 2 ^ 63" by linarith
  have es: "0 \<le> e_size e" using linksD(5) [OF links e(3)] by simp
  have "0 \<le> used (list_Remove el (lru_list c))"
    using linksD(5) [OF links] by (auto simp: used_def list_Remove_def intro!: sum_list_nonneg)
  with used_list_Remove [OF linksD(1) [OF links] e(1)] b cap es
  have le: "e_size e \<le> uint (lru_capacity c)" by simp
  have w: "wrap64 (size_of v - e_size e) = size_of v - e_size e"
    using cap es le sv by (intro wrap64_id) (simp add: in_int64_def)
  note r = replace_elem [OF links assms(2) e(1), of ?e1]
  have "moveToFront now el
      (c\<lparr>lru_list := set_elem el ?f (lru_list c),
         lru_size := lru_size c + word_of_int (e_size ?e1 - e_size e)\<rparr>) = ?c"
    by (rule moveToFront_replace [OF links assms(2) e(1)])
      (use cap e in \<open>simp_all add: map_of_set_elem\<close>)
  then have "updateInplace size_of now el v c = checkCapacity ?c"
    by (simp add: updateInplace_def e(1) Let_def w)
  moreover have "used (lru_list ?c) < 2 ^ 64" using r b cap e es by simp
  ultimately show ?thesis
    using checkCapacity_spec [of size_of ?c] r cap e by (simp add: a_set_def)
qed

lemma LRU_Set_refines:
  assumes "lru_wf size_of c" "storable size_of c v"
  shows "\<exists>c'. LRU_Set size_of now k v c = Inr c' \<and> lru_wf size_of c' \<and> lru_capacity c' = lru_capacity c \<and>
    lru_abs c' = a_set size_of (uint (lru_capacity c)) k v (lru_abs c)"
  using addNew_refines [OF assms(1) _ assms(2)] updateInplace_refines [OF assms(1) _ assms(2)]
  by (simp add: LRU_Set_def split: option.split)

lemma LRU_Delete_refines:
  assumes "lru_wf size_of c"
  shows "lru_wf size_of (snd (LRU_Delete k c))"
    and "lru_capacity (snd (LRU_Delete k c)) = lru_capacity c"
    and "lru_abs (snd (LRU_Delete k c)) = filter (\<lambda>x. fst x \<noteq> k) (lru_abs c)"
    and "fst (LRU_Delete k c) \<longleftrightarrow> lru_lookup c k \<noteq> None"
proof -
  from assms have links: "lru_links size_of c" and b: "used (lru_list c) \<le> uint (lru_capacity c)"
    by (simp_all add: lru_wf_def)
  have "lru_wf size_of (snd (LRU_Delete k c)) \<and> lru_capacity (snd (LRU_Delete k c)) = lru_capacity c \<and>
      lru_abs (snd (LRU_Delete k c)) = filter (\<lambda>x. fst x \<noteq> k) (lru_abs c) \<and>
      (fst (LRU_Delete k c) \<longleftrightarrow> lru_lookup c k \<noteq> None)"
  proof (cases "lru_table c k")
    case None
    with assms show ?thesis
      by (simp add: LRU_Delete_def abs_no_key [OF links] lookup_table [OF links])
  next
    case (Some el)
    from links_elem [OF links Some] obtain e where
      e: "map_of (lru_list c) el = Some e" "e_key e = k" "(el, e) \<in> set (lru_list c)" .
    have d: "LRU_Delete k c = (True, drop_elem el e c)"
      using e by (simp add: LRU_Delete_def Some drop_elem_def)
    have "0 \<le> e_size e" using linksD(5) [OF links e(3)] by simp
    with b used_list_Remove [OF linksD(1) [OF links] e(1)] drop_elem_links [OF links e(3)]
    have "lru_wf size_of (drop_elem el e c)" by (simp add: lru_wf_def) (simp add: drop_elem_def)
    with drop_elem_abs [OF links e(3)] show ?thesis
      by (simp add: d e lookup_table [OF links] Some) (simp add: drop_elem_def)
  qed
  then show "lru_wf size_of (snd (LRU_Delete k c))"
    and "lru_capacity (snd (LRU_Delete k c)) = lru_capacity c"
    and "lru_abs (snd (LRU_Delete k c)) = filter (\<lambda>x. fst x \<noteq> k) (lru_abs c)"
    and "fst (LRU_Delete k c) \<longleftrightarrow> lru_lookup c k \<noteq> None" by simp_all
qed

lemma LRU_SetCapacity_refines:
  assumes "lru_wf size_of c"
  shows "\<exists>c'. LRU_SetCapacity cap c = Inr c' \<and> lru_wf size_of c' \<and> lru_capacity c' = cap \<and>
    lru_abs c' = fit (\<lambda>x. size_of (snd x)) (uint cap) (lru_abs c)"
proof -
  let ?c = "c\<lparr>lru_capacity := cap\<rparr>"
  have "lru_links size_of ?c" "used (lru_list ?c) < 2 ^ 64"
    using assms uint_lt2p [of "lru_capacity c"] by (auto simp: lru_wf_def lru_links_def)
  from checkCapacity_spec [OF this] show ?thesis
    by (simp add: LRU_SetCapacity_def lru_abs_def)
qed

lemma LRU_SetIfAbsent_refines:
  assumes "lru_wf size_of c" "storable size_of c v"
  shows "\<exists>c'. LRU_SetIfAbsent size_of now k v c = Inr c' \<and> lru_wf size_of c' \<and>
    lru_capacity c' = lru_capacity c \<and>
    lru_abs c' = (case lru_lookup c k of Some old \<Rightarrow> a_front k old (lru_abs c)
      | None \<Rightarrow> a_set size_of (uint (lru_capacity c)) k v (lru_abs c))"
proof -
  from assms have links: "lru_links size_of c" and b: "used (lru_list c) \<le> uint (lru_capacity c)"
    by (simp_all add: lru_wf_def)
  show ?thesis
  proof (cases "lru_table c k")
    case None
    with addNew_refines [OF assms(1) None assms(2)] show ?thesis
      by (simp add: LRU_SetIfAbsent_def lookup_table [OF links])
  next
    case (Some el)
    from moveToFront_links [OF links Some, of now] b show ?thesis
      by (auto simp: LRU_SetIfAbsent_def Some lru_wf_def)
  qed
qed

section \<open>The cache as a map that may forget\<close>

text \<open>
  What a client of the cache relies on: a lookup returns what is stored, a store may drop
  other keys but never changes them, a deletion removes its key.  The lemmas are the ones the
  caching layer of \<^verbatim>\<open>mirrors/cache.go\<close> needs to stay coherent with a source \<open>src\<close>.
\<close>

locale forgetful_map =
  fixes get :: "gotime \<Rightarrow> 'k \<Rightarrow> 'c \<Rightarrow> 'v option \<times> 'c"
    and put :: "gotime \<Rightarrow> 'k \<Rightarrow> 'v \<Rightarrow> 'c \<Rightarrow> 'c gores"
    and del :: "'k \<Rightarrow> 'c \<Rightarrow> bool \<times> 'c"
    and clear :: "'c \<Rightarrow> 'c"
    and lookup :: "'c \<Rightarrow> 'k \<rightharpoonup> 'v"
    and invar :: "'c \<Rightarrow> bool"
    and fits :: "'v \<Rightarrow> bool"
  assumes get_value: "invar c \<Longrightarrow> fst (get now k c) = lookup c k"
    and get_lookup: "invar c \<Longrightarrow> lookup (snd (get now k c)) = lookup c"
    and get_invar: "invar c \<Longrightarrow> invar (snd (get now k c))"
    and put_ok: "invar c \<Longrightarrow> fits v \<Longrightarrow>
      \<exists>c'. put now k v c = Inr c' \<and> invar c' \<and> lookup c' \<subseteq>\<^sub>m (lookup c)(k \<mapsto> v)"
    and del_lookup: "invar c \<Longrightarrow> lookup (snd (del k c)) = (lookup c)(k := None)"
    and del_invar: "invar c \<Longrightarrow> invar (snd (del k c))"
    and clear_lookup: "invar c \<Longrightarrow> lookup (clear c) = Map.empty"
    and clear_invar: "invar c \<Longrightarrow> invar (clear c)"
begin

lemma hit_coherent:
  assumes "invar c" "lookup c \<subseteq>\<^sub>m src" "get now k c = (Some v, c')"
  shows "src k = Some v" "invar c'" "lookup c' \<subseteq>\<^sub>m src"
proof -
  have "lookup c k = Some v" "lookup c' = lookup c" "invar c'"
    using assms get_value [of c now k] get_lookup [of c now k] get_invar [of c now k] by auto
  with assms(2) show "src k = Some v" "invar c'" "lookup c' \<subseteq>\<^sub>m src"
    by (auto simp: map_le_def) (metis domI)
qed

lemma miss_unchanged:
  assumes "invar c" "get now k c = (None, c')"
  shows "invar c'" "lookup c' = lookup c" "lookup c k = None"
  using assms get_value [of c now k] get_lookup [of c now k] get_invar [of c now k] by auto

lemma fill_coherent:
  assumes "invar c" "lookup c \<subseteq>\<^sub>m src" "src k = Some v" "fits v"
  shows "\<exists>c'. put now k v c = Inr c' \<and> invar c' \<and> lookup c' \<subseteq>\<^sub>m src"
proof -
  from put_ok [OF assms(1,4)] obtain c' where
    c': "put now k v c = Inr c'" "invar c'" "lookup c' \<subseteq>\<^sub>m (lookup c)(k \<mapsto> v)" by blast
  moreover have "(lookup c)(k \<mapsto> v) \<subseteq>\<^sub>m src"
    using assms(2,3) by (auto simp: map_le_def dom_def)
  ultimately show ?thesis by (blast intro: map_le_trans)
qed

lemma invalidate_coherent:
  "invar c \<Longrightarrow> lookup c \<subseteq>\<^sub>m src \<Longrightarrow> lookup (snd (del k c)) \<subseteq>\<^sub>m src(k := x)"
  by (auto simp: del_lookup map_le_def dom_def)

lemma clear_coherent: "invar c \<Longrightarrow> lookup (clear c) \<subseteq>\<^sub>m src"
  by (simp add: clear_lookup)

end

lemma map_of_take_le: "map_of (take n xs) \<subseteq>\<^sub>m map_of xs"
proof -
  have "map_of xs = map_of (drop n xs) ++ map_of (take n xs)"
    by (metis append_take_drop_id map_of_append)
  then show ?thesis by (simp add: map_le_map_add)
qed

lemma map_of_a_front: "map_of (a_front k v xs) = (map_of xs)(k \<mapsto> v)"
proof -
  have "map_of (filter (\<lambda>x. fst x \<noteq> k) xs) = (map_of xs)(k := None)"
    by (induction xs) (auto simp: fun_eq_iff)
  then show ?thesis by (simp add: a_front_def)
qed

lemma map_of_a_set_le: "map_of (a_set size_of cap k v xs) \<subseteq>\<^sub>m (map_of xs)(k \<mapsto> v)"
proof -
  obtain n where "a_set size_of cap k v xs = take n (a_front k v xs)"
    using fit_prefix [of _ cap "a_front k v xs"] unfolding a_set_def by blast
  then show ?thesis by (metis map_of_a_front map_of_take_le)
qed

lemma map_of_filter_key: "map_of (filter (\<lambda>x. fst x \<noteq> k) xs) = (map_of xs)(k := None)"
  by (induction xs) (auto simp: fun_eq_iff)

lemma LRU_Get_lookup:
  assumes "lru_wf size_of c"
  shows "fst (LRU_Get now k c) = lru_lookup c k" "lru_lookup (snd (LRU_Get now k c)) = lru_lookup c"
proof -
  have r: "fst (LRU_Get now k c) = fst (a_get k (lru_abs c))"
    "lru_abs (snd (LRU_Get now k c)) = snd (a_get k (lru_abs c))"
    using LRU_Get_refines(3) [OF assms, of now k] by (metis fst_map_prod id_apply, metis snd_map_prod)
  show "fst (LRU_Get now k c) = lru_lookup c k"
    by (simp add: r a_get_def lru_lookup_def split: option.split)
  show "lru_lookup (snd (LRU_Get now k c)) = lru_lookup c"
    by (auto simp: lru_lookup_def r a_get_def map_of_a_front fun_upd_idem split: option.split)
qed

definition lru_invar :: "('v \<Rightarrow> int) \<Rightarrow> 64 word \<Rightarrow> 'v LRUCache \<Rightarrow> bool" where
  "lru_invar size_of cap c \<longleftrightarrow> lru_wf size_of c \<and> lru_capacity c = cap"

definition lru_fits :: "('v \<Rightarrow> int) \<Rightarrow> 64 word \<Rightarrow> 'v \<Rightarrow> bool" where
  "lru_fits size_of cap v \<longleftrightarrow> 0 \<le> size_of v \<and> uint cap + size_of v < 2 ^ 63"

interpretation lru: forgetful_map LRU_Get "LRU_Set size_of" LRU_Delete LRU_Clear lru_lookup
  "lru_invar size_of cap" "lru_fits size_of cap" for size_of cap
proof unfold_locales
  fix c now k v
  assume c: "lru_invar size_of cap c"
  then have wf: "lru_wf size_of c" by (simp add: lru_invar_def)
  show "fst (LRU_Get now k c) = lru_lookup c k" "lru_lookup (snd (LRU_Get now k c)) = lru_lookup c"
    by (rule LRU_Get_lookup [OF wf])+
  show "lru_invar size_of cap (snd (LRU_Get now k c))"
    using LRU_Get_refines(1,2) [OF wf] c by (simp add: lru_invar_def)
  show "lru_lookup (snd (LRU_Delete k c)) = (lru_lookup c)(k := None)"
    by (simp add: lru_lookup_def LRU_Delete_refines(3) [OF wf] map_of_filter_key)
  show "lru_invar size_of cap (snd (LRU_Delete k c))"
    using LRU_Delete_refines(1,2) [OF wf] c by (simp add: lru_invar_def)
  show "lru_lookup (LRU_Clear c) = Map.empty" by (simp add: lru_lookup_def)
  show "lru_invar size_of cap (LRU_Clear c)"
    using c LRU_Clear_wf [of size_of c] by (simp add: lru_invar_def) (simp add: LRU_Clear_def)
  assume v: "lru_fits size_of cap v"
  then have "storable size_of c v"
    using c uint_ge_0 [of cap] unfolding lru_fits_def storable_def lru_invar_def by auto
  from LRU_Set_refines [OF wf this, of now k] show "\<exists>c'. LRU_Set size_of now k v c = Inr c' \<and>
      lru_invar size_of cap c' \<and> lru_lookup c' \<subseteq>\<^sub>m (lru_lookup c)(k \<mapsto> v)"
    using c by (auto simp: lru_invar_def lru_lookup_def map_of_a_set_le)
qed

section \<open>Sequences of operations\<close>

datatype 'v lru_op =
    OpGet gotime string
  | OpSet gotime string 'v
  | OpSetIfAbsent gotime string 'v
  | OpDelete string
  | OpClear
  | OpSetCapacity "64 word"

fun lru_step :: "('v \<Rightarrow> int) \<Rightarrow> 'v lru_op \<Rightarrow> 'v LRUCache \<Rightarrow> 'v LRUCache gores" where
  "lru_step size_of (OpGet now k) c = Inr (snd (LRU_Get now k c))"
| "lru_step size_of (OpSet now k v) c = LRU_Set size_of now k v c"
| "lru_step size_of (OpSetIfAbsent now k v) c = LRU_SetIfAbsent size_of now k v c"
| "lru_step size_of (OpDelete k) c = Inr (snd (LRU_Delete k c))"
| "lru_step size_of OpClear c = Inr (LRU_Clear c)"
| "lru_step size_of (OpSetCapacity cap) c = LRU_SetCapacity cap c"

fun lru_run :: "('v \<Rightarrow> int) \<Rightarrow> 'v lru_op list \<Rightarrow> 'v LRUCache \<Rightarrow> 'v LRUCache gores" where
  "lru_run size_of [] c = Inr c"
| "lru_run size_of (oper # opers) c =
     (case lru_step size_of oper c of Inl p \<Rightarrow> Inl p | Inr c' \<Rightarrow> lru_run size_of opers c')"

text \<open>The same operations on the specification: a capacity and a recency list.\<close>

fun a_step :: "('v \<Rightarrow> int) \<Rightarrow> 'v lru_op \<Rightarrow> int \<times> 'v alru \<Rightarrow> int \<times> 'v alru" where
  "a_step size_of (OpGet now k) (cap, xs) = (cap, snd (a_get k xs))"
| "a_step size_of (OpSet now k v) (cap, xs) = (cap, a_set size_of cap k v xs)"
| "a_step size_of (OpSetIfAbsent now k v) (cap, xs) =
     (cap, case map_of xs k of Some old \<Rightarrow> a_front k old xs | None \<Rightarrow> a_set size_of cap k v xs)"
| "a_step size_of (OpDelete k) (cap, xs) = (cap, filter (\<lambda>x. fst x \<noteq> k) xs)"
| "a_step size_of OpClear (cap, xs) = (cap, [])"
| "a_step size_of (OpSetCapacity cap') (cap, xs) =
     (uint cap', fit (\<lambda>x. size_of (snd x)) (uint cap') xs)"

fun op_ok :: "('v \<Rightarrow> int) \<Rightarrow> 'v lru_op \<Rightarrow> bool" where
  "op_ok size_of (OpSet now k v) \<longleftrightarrow> 0 \<le> size_of v \<and> size_of v < 2 ^ 62"
| "op_ok size_of (OpSetIfAbsent now k v) \<longleftrightarrow> 0 \<le> size_of v \<and> size_of v < 2 ^ 62"
| "op_ok size_of (OpSetCapacity cap) \<longleftrightarrow> uint cap < 2 ^ 62"
| "op_ok size_of _ \<longleftrightarrow> True"

lemma lru_step_refines:
  assumes "lru_wf size_of c" "op_ok size_of oper" "uint (lru_capacity c) < 2 ^ 62"
  shows "\<exists>c'. lru_step size_of oper c = Inr c' \<and> lru_wf size_of c' \<and> uint (lru_capacity c') < 2 ^ 62 \<and>
    (uint (lru_capacity c'), lru_abs c') = a_step size_of oper (uint (lru_capacity c), lru_abs c)"
proof (cases oper)
  case (OpGet now k)
  then show ?thesis
    using LRU_Get_refines [OF assms(1), of now k] assms(3) by (simp, metis snd_map_prod)
next
  case (OpSet now k v)
  then have "storable size_of c v" using assms(2,3) by (simp add: storable_def)
  with LRU_Set_refines [OF assms(1) this, of now k] OpSet assms(3) show ?thesis by auto
next
  case (OpSetIfAbsent now k v)
  then have "storable size_of c v" using assms(2,3) by (simp add: storable_def)
  with LRU_SetIfAbsent_refines [OF assms(1) this, of now k] OpSetIfAbsent assms(3) show ?thesis
    by (auto simp: lru_lookup_def)
next
  case (OpDelete k)
  then show ?thesis using LRU_Delete_refines [OF assms(1), of k] assms(3) by simp
next
  case OpClear
  then show ?thesis using LRU_Clear_wf [of size_of c] assms(3)
    by simp (simp add: LRU_Clear_def)
next
  case (OpSetCapacity cap)
  then show ?thesis using LRU_SetCapacity_refines [OF assms(1), of cap] assms(2) by auto
qed

lemma lru_run_refines_from:
  assumes "lru_wf size_of c" "list_all (op_ok size_of) opers" "uint (lru_capacity c) < 2 ^ 62"
  shows "\<exists>c'. lru_run size_of opers c = Inr c' \<and> lru_wf size_of c' \<and>
    (uint (lru_capacity c'), lru_abs c') = fold (a_step size_of) opers (uint (lru_capacity c), lru_abs c)"
  using assms
proof (induction opers arbitrary: c)
  case (Cons oper opers)
  from lru_step_refines [of size_of c oper] Cons.prems obtain c1 where
    c1: "lru_step size_of oper c = Inr c1" "lru_wf size_of c1" "uint (lru_capacity c1) < 2 ^ 62"
    "(uint (lru_capacity c1), lru_abs c1) = a_step size_of oper (uint (lru_capacity c), lru_abs c)"
    by auto
  from Cons.IH [OF c1(2) _ c1(3)] Cons.prems c1(1,4) show ?case by simp
qed simp





end
