(* ===== verification/Redis_Iface.thy ===== *)
theory Redis_Iface
  imports Utils "HOL-Library.AList"
begin

text \<open>
  The interface between the program and its database.  The redis server and the redigo client
  are not part of the sources: a value \<open>R\<close> of type \<open>redigo\<close> holds what the program calls of
  them, a command, a transaction and the reply converters, over a database state of any type.
  What the program relies on is the predicate \<open>redigo_ok\<close>: a command that succeeds has the
  documented effect on the abstract keyspace of the database (\<open>redis_cmd\<close>), an error reply has
  none, and after a network error the command took effect or it did not.  Theorems that need it
  have it as a hypothesis; \<open>ref_redis\<close> is an instance that satisfies it.
\<close>

section \<open>Commands and replies\<close>

datatype reply = RNil | RInt int | RBulk string | RStatus string | RMulti "reply list"

text \<open>
  Arguments of the Go types the program passes; the client formats them.  \<open>SETNX k v ttl\<close> is
  \<open>SET k v NX PX ttl\<close>: a key may expire between two calls, never within one.
\<close>

datatype arg = AStr string | AInt int | ABool bool | AFloat real

datatype rcmd =
    PING
  | GET string
  | SET string arg
  | SETNX string arg int
  | DEL "string list"
  | EXISTS string
  | EXPIRE string int
  | PEXPIRE string int
  | HGET string string
  | HSET string string arg
  | HMSET string "(string \<times> arg) list"
  | HGETALL string
  | HMGET string "string list"
  | HDEL string "string list"
  | HINCRBY string string int
  | INCR string
  | INCRBY string int
  | RPUSH string "string list"
  | LRANGE string int int
  | SADD string "string list"
  | SREM string "string list"
  | SMEMBERS string
  | SDIFF string string
  | SINTERSTORE string string string
  | RENAME string string
  | PUBLISH string string
  | INFO string
  | ROLE
  | AUTH string
  | SELECT int
  | SENTINEL string string
  | SRANDMEMBER string
  | SRANDMEMBERS string int
  | KEYS string
  | DUMP string
  | RESTORE string string
  | EVAL string "string list" "string list"

record 'db redigo =
  rd_do :: "'db \<Rightarrow> rcmd \<Rightarrow> (err + reply) \<times> 'db"
  rd_exec :: "'db \<Rightarrow> rcmd list \<Rightarrow> (err + reply) \<times> 'db"
  rd_String :: "err + reply \<Rightarrow> err + string"
  rd_Int :: "err + reply \<Rightarrow> err + int"
  rd_Bool :: "err + reply \<Rightarrow> err + bool"
  rd_Values :: "err + reply \<Rightarrow> err + reply list"
  rd_Strings :: "err + reply \<Rightarrow> err + string list"
  rd_Ints :: "err + reply \<Rightarrow> err + int list"

section \<open>The documented behaviour\<close>

datatype rval = VStr string | VHash "(string \<times> string) list" | VSet "string list" | VList "string list"

record store =
  keys :: "string \<rightharpoonup> rval"
  published :: "(string \<times> string) list"

fun arg_str :: "arg \<Rightarrow> string option" where
  "arg_str (AStr s) = Some s"
| "arg_str (AInt i) = Some (Itoa i)"
| "arg_str (ABool b) = Some (if b then ''1'' else ''0'')"
| "arg_str (AFloat r) = None"

fun args_str :: "(string \<times> arg) list \<Rightarrow> (string \<times> string) list option" where
  "args_str [] = Some []"
| "args_str ((f, a) # fas) =
     (case (arg_str a, args_str fas) of (Some s, Some ss) \<Rightarrow> Some ((f, s) # ss) | _ \<Rightarrow> None)"

definition put :: "string \<Rightarrow> rval option \<Rightarrow> store \<Rightarrow> store" where
  "put k v s = s\<lparr>keys := (keys s)(k := v)\<rparr>"

definition get_str :: "store \<Rightarrow> string \<Rightarrow> string option option" where
  "get_str s k = (case keys s k of None \<Rightarrow> Some None | Some (VStr v) \<Rightarrow> Some (Some v) | _ \<Rightarrow> None)"

definition get_hash :: "store \<Rightarrow> string \<Rightarrow> (string \<times> string) list option" where
  "get_hash s k = (case keys s k of None \<Rightarrow> Some [] | Some (VHash h) \<Rightarrow> Some h | _ \<Rightarrow> None)"

definition get_set :: "store \<Rightarrow> string \<Rightarrow> string list option" where
  "get_set s k = (case keys s k of None \<Rightarrow> Some [] | Some (VSet h) \<Rightarrow> Some h | _ \<Rightarrow> None)"

definition get_list :: "store \<Rightarrow> string \<Rightarrow> string list option" where
  "get_list s k = (case keys s k of None \<Rightarrow> Some [] | Some (VList h) \<Rightarrow> Some h | _ \<Rightarrow> None)"

text \<open>An empty container is removed from the keyspace.\<close>

definition put_hash :: "string \<Rightarrow> (string \<times> string) list \<Rightarrow> store \<Rightarrow> store" where
  "put_hash k h = put k (if h = [] then None else Some (VHash h))"

definition put_set :: "string \<Rightarrow> string list \<Rightarrow> store \<Rightarrow> store" where
  "put_set k h = put k (if h = [] then None else Some (VSet h))"

definition put_list :: "string \<Rightarrow> string list \<Rightarrow> store \<Rightarrow> store" where
  "put_list k h = put k (if h = [] then None else Some (VList h))"

definition opt_bulk :: "string option \<Rightarrow> reply" where
  "opt_bulk v = (case v of None \<Rightarrow> RNil | Some s \<Rightarrow> RBulk s)"

fun hash_put :: "(string \<times> string) list \<Rightarrow> (string \<times> string) list \<Rightarrow> (string \<times> string) list" where
  "hash_put [] h = h"
| "hash_put ((f, v) # fvs) h = hash_put fvs (AList.update f v h)"

fun set_add_all :: "string list \<Rightarrow> string list \<Rightarrow> string list" where
  "set_add_all [] h = h"
| "set_add_all (x # xs) h = set_add_all xs (if x \<in> set h then h else h @ [x])"

text \<open>The range of a list from \<open>a\<close> to \<open>b\<close>, both included, negative indices counting from its end.\<close>

definition list_range :: "'a list \<Rightarrow> int \<Rightarrow> int \<Rightarrow> 'a list" where
  "list_range xs a b =
     (let n = int (length xs); lo = max 0 (if a < 0 then n + a else a); hi = (if b < 0 then n + b else b)
      in take (nat (hi + 1 - lo)) (drop (nat lo) xs))"

definition bulk_int :: "string option \<Rightarrow> int option" where
  "bulk_int v =
     (case v of None \<Rightarrow> Some 0 | Some s \<Rightarrow> (case ParseInt s of (i, None) \<Rightarrow> Some i | _ \<Rightarrow> None))"

definition rename_key :: "string \<Rightarrow> string \<Rightarrow> store \<Rightarrow> store" where
  "rename_key a b s = put b (keys s a) (put a None s)"

text \<open>
  \<open>redis_cmd s c = Some (r, s')\<close>: in keyspace \<open>s\<close> the command replies \<open>r\<close> and leads to \<open>s'\<close>.
  \<open>None\<close> where nothing is relied on.
\<close>

fun redis_cmd :: "store \<Rightarrow> rcmd \<Rightarrow> (reply \<times> store) option" where
  "redis_cmd s PING = Some (RStatus ''PONG'', s)"
| "redis_cmd s (GET k) = map_option (\<lambda>v. (opt_bulk v, s)) (get_str s k)"
| "redis_cmd s (SET k a) = map_option (\<lambda>v. (RStatus ''OK'', put k (Some (VStr v)) s)) (arg_str a)"
| "redis_cmd s (SETNX k a ttl) =
     (if keys s k \<noteq> None then Some (RNil, s)
      else map_option (\<lambda>v. (RStatus ''OK'', put k (Some (VStr v)) s)) (arg_str a))"
| "redis_cmd s (DEL ks) =
     Some (RInt (int (length (filter (\<lambda>k. keys s k \<noteq> None) (remdups ks)))),
           fold (\<lambda>k. put k None) ks s)"
| "redis_cmd s (EXISTS k) = Some (RInt (if keys s k = None then 0 else 1), s)"
| "redis_cmd s (EXPIRE k i) = Some (RInt (if keys s k = None then 0 else 1), s)"
| "redis_cmd s (PEXPIRE k i) = Some (RInt (if keys s k = None then 0 else 1), s)"
| "redis_cmd s (HGET k f) = map_option (\<lambda>h. (opt_bulk (map_of h f), s)) (get_hash s k)"
| "redis_cmd s (HSET k f a) =
     (case (get_hash s k, arg_str a) of
        (Some h, Some v) \<Rightarrow> Some (RInt (if map_of h f = None then 1 else 0), put_hash k (AList.update f v h) s)
      | _ \<Rightarrow> None)"
| "redis_cmd s (HMSET k fas) =
     (case (get_hash s k, args_str fas) of
        (Some h, Some fvs) \<Rightarrow> Some (RStatus ''OK'', put_hash k (hash_put fvs h) s)
      | _ \<Rightarrow> None)"
| "redis_cmd s (HGETALL k) =
     map_option (\<lambda>h. (RMulti (concat (map (\<lambda>(f, v). [RBulk f, RBulk v]) h)), s)) (get_hash s k)"
| "redis_cmd s (HMGET k fs) =
     map_option (\<lambda>h. (RMulti (map (\<lambda>f. opt_bulk (map_of h f)) fs), s)) (get_hash s k)"
| "redis_cmd s (HDEL k fs) =
     map_option (\<lambda>h. (RInt (int (length (filter (\<lambda>(f, v). f \<in> set fs) h))),
                      put_hash k (filter (\<lambda>(f, v). f \<notin> set fs) h) s)) (get_hash s k)"
| "redis_cmd s (HINCRBY k f i) =
     (case get_hash s k of
        None \<Rightarrow> None
      | Some h \<Rightarrow>
          (case bulk_int (map_of h f) of
             None \<Rightarrow> None
           | Some n \<Rightarrow>
               if in_int64 (n + i) then Some (RInt (n + i), put_hash k (AList.update f (Itoa (n + i)) h) s)
               else None))"
| "redis_cmd s (INCRBY k i) =
     (case get_str s k of
        None \<Rightarrow> None
      | Some v \<Rightarrow>
          (case bulk_int v of
             None \<Rightarrow> None
           | Some n \<Rightarrow>
               if in_int64 (n + i) then Some (RInt (n + i), put k (Some (VStr (Itoa (n + i)))) s) else None))"
| "redis_cmd s (INCR k) =
     (case get_str s k of
        None \<Rightarrow> None
      | Some v \<Rightarrow>
          (case bulk_int v of
             None \<Rightarrow> None
           | Some n \<Rightarrow>
               if in_int64 (n + 1) then Some (RInt (n + 1), put k (Some (VStr (Itoa (n + 1)))) s) else None))"
| "redis_cmd s (RPUSH k vs) =
     map_option (\<lambda>l. (RInt (int (length l + length vs)), put_list k (l @ vs) s)) (get_list s k)"
| "redis_cmd s (LRANGE k a b) =
     map_option (\<lambda>l. (RMulti (map RBulk (list_range l a b)), s)) (get_list s k)"
| "redis_cmd s (SADD k xs) =
     map_option (\<lambda>h. (RInt (int (length (set_add_all xs h)) - int (length h)), put_set k (set_add_all xs h) s))
       (get_set s k)"
| "redis_cmd s (SREM k xs) =
     map_option (\<lambda>h. (RInt (int (length (filter (\<lambda>x. x \<in> set xs) h))), put_set k (filter (\<lambda>x. x \<notin> set xs) h) s))
       (get_set s k)"
| "redis_cmd s (SMEMBERS k) = map_option (\<lambda>h. (RMulti (map RBulk h), s)) (get_set s k)"
| "redis_cmd s (SDIFF a b) =
     (case (get_set s a, get_set s b) of
        (Some x, Some y) \<Rightarrow> Some (RMulti (map RBulk (filter (\<lambda>v. v \<notin> set y) x)), s) | _ \<Rightarrow> None)"
| "redis_cmd s (SINTERSTORE d a b) =
     (case (get_set s a, get_set s b) of
        (Some x, Some y) \<Rightarrow>
          (let i = filter (\<lambda>v. v \<in> set y) x in Some (RInt (int (length i)), put_set d i s))
      | _ \<Rightarrow> None)"
| "redis_cmd s (RENAME a b) = (if keys s a = None then None else Some (RStatus ''OK'', rename_key a b s))"
| "redis_cmd s (PUBLISH ch m) = Some (RInt 0, s\<lparr>published := published s @ [(ch, m)]\<rparr>)"
| "redis_cmd s _ = None"

text \<open>The number of receivers a \<open>PUBLISH\<close> reports is not relied on.\<close>

definition same_reply :: "rcmd \<Rightarrow> reply \<Rightarrow> reply \<Rightarrow> bool" where
  "same_reply c r r' \<longleftrightarrow> (case c of PUBLISH _ _ \<Rightarrow> True | _ \<Rightarrow> r = r')"

definition is_reply_error :: "err \<Rightarrow> bool" where
  "is_reply_error e \<longleftrightarrow> (case e of ErrReply _ \<Rightarrow> True | _ \<Rightarrow> False)"

text \<open>\<open>outcome_ok s s' ok res s1\<close>: a call that documents \<open>s'\<close> as the successor of \<open>s\<close> ended in \<open>s1\<close>.\<close>

definition outcome_ok :: "store \<Rightarrow> store \<Rightarrow> (reply \<Rightarrow> bool) \<Rightarrow> err + reply \<Rightarrow> store \<Rightarrow> bool" where
  "outcome_ok s s' ok res s1 \<longleftrightarrow>
     (case res of
        Inr r \<Rightarrow> ok r \<and> s1 = s'
      | Inl e \<Rightarrow> s1 = s \<or> \<not> is_reply_error e \<and> s1 = s')"

definition do_ok :: "'db redigo \<Rightarrow> ('db \<Rightarrow> store) \<Rightarrow> bool" where
  "do_ok R \<alpha> \<longleftrightarrow>
     (\<forall>db c r s' res db'.
        redis_cmd (\<alpha> db) c = Some (r, s') \<longrightarrow> rd_do R db c = (res, db') \<longrightarrow>
        outcome_ok (\<alpha> db) s' (same_reply c r) res (\<alpha> db'))"

text \<open>A transaction runs its commands in order and without interruption.\<close>

fun redis_cmds :: "store \<Rightarrow> rcmd list \<Rightarrow> (reply list \<times> store) option" where
  "redis_cmds s [] = Some ([], s)"
| "redis_cmds s (c # cs) =
     (case redis_cmd s c of
        None \<Rightarrow> None
      | Some (r, s1) \<Rightarrow>
          (case redis_cmds s1 cs of None \<Rightarrow> None | Some (rs, s2) \<Rightarrow> Some (r # rs, s2)))"

definition exec_ok :: "'db redigo \<Rightarrow> ('db \<Rightarrow> store) \<Rightarrow> bool" where
  "exec_ok R \<alpha> \<longleftrightarrow>
     (\<forall>db cs rs s' res db'.
        redis_cmds (\<alpha> db) cs = Some (rs, s') \<longrightarrow> rd_exec R db cs = (res, db') \<longrightarrow>
        outcome_ok (\<alpha> db) s'
          (\<lambda>r. \<exists>rs'. r = RMulti rs' \<and> length rs' = length rs \<and>
             (\<forall>i < length rs. same_reply (cs ! i) (rs ! i) (rs' ! i))) res (\<alpha> db'))"

text \<open>The converters of the client, on the replies the program meets.\<close>

definition conv_ok :: "'db redigo \<Rightarrow> bool" where
  "conv_ok R \<longleftrightarrow>
     (\<forall>e. rd_String R (Inl e) = Inl e \<and> rd_Int R (Inl e) = Inl e \<and> rd_Bool R (Inl e) = Inl e \<and>
        rd_Values R (Inl e) = Inl e \<and> rd_Strings R (Inl e) = Inl e) \<and>
     rd_String R (Inr RNil) = Inl ErrNil \<and> rd_Int R (Inr RNil) = Inl ErrNil \<and>
     rd_Bool R (Inr RNil) = Inl ErrNil \<and> rd_Values R (Inr RNil) = Inl ErrNil \<and>
     rd_Strings R (Inr RNil) = Inl ErrNil \<and>
     (\<forall>s. rd_String R (Inr (RBulk s)) = Inr s \<and> rd_String R (Inr (RStatus s)) = Inr s) \<and>
     (\<forall>i. rd_Int R (Inr (RInt i)) = Inr i \<and> rd_Bool R (Inr (RInt i)) = Inr (i \<noteq> 0)) \<and>
     (\<forall>i. in_int64 i \<longrightarrow> rd_Int R (Inr (RBulk (Itoa i))) = Inr i) \<and>
     (\<forall>b. rd_Bool R (Inr (RBulk (if b then ''1'' else ''0''))) = Inr b) \<and>
     (\<forall>rs. rd_Values R (Inr (RMulti rs)) = Inr rs) \<and>
     (\<forall>vs. rd_Strings R (Inr (RMulti (map opt_bulk vs))) = Inr (map (\<lambda>v. case v of None \<Rightarrow> '''' | Some s \<Rightarrow> s) vs)) \<and>
     (\<forall>e. rd_Ints R (Inl e) = Inl e) \<and>
     (\<forall>is. list_all in_int64 is \<longrightarrow> rd_Ints R (Inr (RMulti (map (\<lambda>i. RBulk (Itoa i)) is))) = Inr is)"

text \<open>
  \<open>SRANDMEMBER\<close>, for one member or with a count, changes nothing; which members it answers is not
  relied on, only that one of a set that is not empty is a member of it and that an empty set gives nil.
\<close>

definition draw_ok :: "'db redigo \<Rightarrow> ('db \<Rightarrow> store) \<Rightarrow> bool" where
  "draw_ok R \<alpha> \<longleftrightarrow>
     (\<forall>db k l res db'. get_set (\<alpha> db) k = Some l \<longrightarrow> rd_do R db (SRANDMEMBER k) = (res, db') \<longrightarrow>
        \<alpha> db' = \<alpha> db \<and> (\<forall>q. res = Inr q \<longrightarrow> (if l = [] then q = RNil else \<exists>x \<in> set l. q = RBulk x))) \<and>
     (\<forall>db k l n res db'. get_set (\<alpha> db) k = Some l \<longrightarrow> rd_do R db (SRANDMEMBERS k n) = (res, db') \<longrightarrow>
        \<alpha> db' = \<alpha> db \<and> (\<forall>q. res = Inr q \<longrightarrow> (\<exists>xs. set xs \<subseteq> set l \<and> q = RMulti (map RBulk xs))))"

definition redigo_ok :: "'db redigo \<Rightarrow> ('db \<Rightarrow> store) \<Rightarrow> bool" where
  "redigo_ok R \<alpha> \<longleftrightarrow> do_ok R \<alpha> \<and> exec_ok R \<alpha> \<and> conv_ok R \<and> draw_ok R \<alpha>"

section \<open>A reference instance\<close>

text \<open>The server that does what is documented and never fails.\<close>

fun bulks :: "reply list \<Rightarrow> string list option" where
  "bulks [] = Some []"
| "bulks (RBulk s # rs) = map_option (Cons s) (bulks rs)"
| "bulks (RNil # rs) = map_option (Cons '''') (bulks rs)"
| "bulks _ = None"

fun ints :: "reply list \<Rightarrow> int list option" where
  "ints [] = Some []"
| "ints (RBulk s # rs) =
     (case ParseInt s of (i, None) \<Rightarrow> map_option (Cons i) (ints rs) | _ \<Rightarrow> None)"
| "ints (RInt i # rs) = map_option (Cons i) (ints rs)"
| "ints _ = None"

definition bad_type :: err where
  "bad_type = ErrMsg ''redigo: unexpected type''"

fun ref_draw :: "store \<Rightarrow> rcmd \<Rightarrow> reply option" where
  "ref_draw s (SRANDMEMBER k) = map_option (\<lambda>l. case l of [] \<Rightarrow> RNil | x # _ \<Rightarrow> RBulk x) (get_set s k)"
| "ref_draw s (SRANDMEMBERS k n) = map_option (\<lambda>l. RMulti (map RBulk (take (nat n) l))) (get_set s k)"
| "ref_draw s _ = None"

definition ref_redis :: "store redigo" where
  "ref_redis =
     \<lparr>rd_do = (\<lambda>s c. case redis_cmd s c of
                 None \<Rightarrow> (case ref_draw s c of None \<Rightarrow> Inl (ErrReply ''ERR'') | Some q \<Rightarrow> Inr q, s)
               | Some (r, s') \<Rightarrow> (Inr r, s')),
      rd_exec = (\<lambda>s cs. case redis_cmds s cs of None \<Rightarrow> (Inl (ErrReply ''ERR''), s) | Some (rs, s') \<Rightarrow> (Inr (RMulti rs), s')),
      rd_String = (\<lambda>r. case r of Inl e \<Rightarrow> Inl e | Inr RNil \<Rightarrow> Inl ErrNil | Inr (RBulk s) \<Rightarrow> Inr s
                     | Inr (RStatus s) \<Rightarrow> Inr s | _ \<Rightarrow> Inl bad_type),
      rd_Int = (\<lambda>r. case r of Inl e \<Rightarrow> Inl e | Inr RNil \<Rightarrow> Inl ErrNil | Inr (RInt i) \<Rightarrow> Inr i
                  | Inr (RBulk s) \<Rightarrow> (case ParseInt s of (i, None) \<Rightarrow> Inr i | (_, Some e) \<Rightarrow> Inl (ErrNum e))
                  | _ \<Rightarrow> Inl bad_type),
      rd_Bool = (\<lambda>r. case r of Inl e \<Rightarrow> Inl e | Inr RNil \<Rightarrow> Inl ErrNil | Inr (RInt i) \<Rightarrow> Inr (i \<noteq> 0)
                   | Inr (RBulk s) \<Rightarrow> if s = ''1'' then Inr True else if s = ''0'' then Inr False else Inl bad_type
                   | _ \<Rightarrow> Inl bad_type),
      rd_Values = (\<lambda>r. case r of Inl e \<Rightarrow> Inl e | Inr RNil \<Rightarrow> Inl ErrNil | Inr (RMulti rs) \<Rightarrow> Inr rs | _ \<Rightarrow> Inl bad_type),
      rd_Strings = (\<lambda>r. case r of Inl e \<Rightarrow> Inl e | Inr RNil \<Rightarrow> Inl ErrNil
                      | Inr (RMulti rs) \<Rightarrow> (case bulks rs of None \<Rightarrow> Inl bad_type | Some ss \<Rightarrow> Inr ss) | _ \<Rightarrow> Inl bad_type),
      rd_Ints = (\<lambda>r. case r of Inl e \<Rightarrow> Inl e | Inr RNil \<Rightarrow> Inl ErrNil
                   | Inr (RMulti rs) \<Rightarrow> (case ints rs of None \<Rightarrow> Inl bad_type | Some ss \<Rightarrow> Inr ss) | _ \<Rightarrow> Inl bad_type)\<rparr>"

section \<open>Clients\<close>

text \<open>
  A \<open>*database.Redis\<close> as its users see it: the calls and whether the \<open>ready\<close> channel is closed.
  A connection from \<open>Get\<close> before that answers every call with a \<open>NetReadyError\<close>
  (\<open>NotReadyError\<close> in \<^verbatim>\<open>database/utils.go\<close>); \<open>UnblockedGet\<close> does not wait.
\<close>

record 'db client =
  api :: "'db redigo"
  cl_ready :: bool

definition conn_do :: "'db client \<Rightarrow> 'db \<Rightarrow> rcmd \<Rightarrow> (err + reply) \<times> 'db" where
  "conn_do r db c = (if cl_ready r then rd_do (api r) db c else (Inl NetReadyError, db))"

definition conn_exec :: "'db client \<Rightarrow> 'db \<Rightarrow> rcmd list \<Rightarrow> (err + reply) \<times> 'db" where
  "conn_exec r db cs = (if cl_ready r then rd_exec (api r) db cs else (Inl NetReadyError, db))"

definition unblocked_do :: "'db client \<Rightarrow> 'db \<Rightarrow> rcmd \<Rightarrow> (err + reply) \<times> 'db" where
  "unblocked_do r db c = rd_do (api r) db c"

definition ref_client :: "store client" where
  "ref_client = \<lparr>api = ref_redis, cl_ready = True\<rparr>"

definition empty_store :: store where
  "empty_store = \<lparr>keys = Map.empty, published = []\<rparr>"

section \<open>Lemmas\<close>

lemma keys_put [simp]: "keys (put k v s) = (keys s)(k := v)" "published (put k v s) = published s"
  by (simp_all add: put_def)

lemma hash_put_map_of: "map_of (hash_put fvs h) = map_of h ++ map_of (rev fvs)"
  by (induction fvs h rule: hash_put.induct) (auto simp: update_conv' fun_eq_iff map_add_def split: option.splits)

lemma set_set_add_all [simp]: "set (set_add_all xs h) = set xs \<union> set h"
  by (induction xs h rule: set_add_all.induct) auto

lemma distinct_set_add_all: "distinct h \<Longrightarrow> distinct (set_add_all xs h)"
  by (induction xs h rule: set_add_all.induct) auto

lemma bulks_map [simp]: "bulks (map opt_bulk vs) = Some (map (\<lambda>v. case v of None \<Rightarrow> '''' | Some s \<Rightarrow> s) vs)"
  by (induction vs) (auto simp: opt_bulk_def split: option.splits)

lemma ints_map [simp]: "list_all in_int64 is \<Longrightarrow> ints (map (\<lambda>i. RBulk (Itoa i)) is) = Some is"
  by (induction "is") (auto simp: ParseInt_Itoa)

lemma same_reply_refl [simp]: "same_reply c r r"
  by (cases c) (simp_all add: same_reply_def)

lemma redis_cmds_length: "redis_cmds s cs = Some (rs, s') \<Longrightarrow> length rs = length cs"
  by (induction s cs arbitrary: rs rule: redis_cmds.induct) (auto split: option.splits)

text \<open>Using the hypothesis: what a successful command tells.\<close>

lemma do_okD:
  assumes "redigo_ok R \<alpha>" and "redis_cmd (\<alpha> db) c = Some (r, s')" and "rd_do R db c = (Inr r', db')"
  shows "\<alpha> db' = s'" "same_reply c r r'"
proof -
  have "outcome_ok (\<alpha> db) s' (same_reply c r) (Inr r') (\<alpha> db')"
    using assms unfolding redigo_ok_def do_ok_def by blast
  then show "\<alpha> db' = s'" "same_reply c r r'" by (simp_all add: outcome_ok_def)
qed

lemma exec_okD:
  assumes "redigo_ok R \<alpha>" and "redis_cmds (\<alpha> db) cs = Some (rs, s')" and "rd_exec R db cs = (Inr r', db')"
  shows "\<alpha> db' = s' \<and> (\<exists>rs'. r' = RMulti rs' \<and> length rs' = length rs \<and>
    (\<forall>i < length rs. same_reply (cs ! i) (rs ! i) (rs' ! i)))"
  using assms unfolding redigo_ok_def exec_ok_def outcome_ok_def by fastforce

text \<open>After any call the keyspace is the old one or the one the command documents.\<close>

lemma do_ok_either:
  assumes "redigo_ok R \<alpha>" and "redis_cmd (\<alpha> db) c = Some (r, s')" and "rd_do R db c = (res, db')"
  shows "\<alpha> db' = \<alpha> db \<or> \<alpha> db' = s'"
proof -
  have "outcome_ok (\<alpha> db) s' (same_reply c r) res (\<alpha> db')"
    using assms unfolding redigo_ok_def do_ok_def by blast
  then show ?thesis by (auto simp: outcome_ok_def split: sum.splits)
qed

lemma ref_redis_ok: "redigo_ok ref_redis id"
  unfolding redigo_ok_def
proof (intro conjI)
  show "do_ok ref_redis id" by (auto simp: do_ok_def ref_redis_def outcome_ok_def)
  show "exec_ok ref_redis id" by (auto simp: exec_ok_def ref_redis_def outcome_ok_def)
  show "conv_ok ref_redis" by (auto simp: conv_ok_def ref_redis_def ParseInt_Itoa)
  show "draw_ok ref_redis id"
    by (auto simp: draw_ok_def ref_redis_def neq_Nil_conv split: list.splits dest: in_set_takeD intro!: exI [of _ "take _ _"])
qed

end
