(* ===== verification/Database.thy ===== *)
theory Database
  imports Redis_Iface Config
begin

text \<open>
  The database package: version checks, connecting through sentinels, locks, the format version
  and its upgrade, the list of mirrors, and publish/subscribe
  (\<^verbatim>\<open>database/redis.go\<close>, \<^verbatim>\<open>lock.go\<close>, \<^verbatim>\<open>upgrade.go\<close>, \<^verbatim>\<open>utils.go\<close>, \<^verbatim>\<open>pubsub.go\<close>).
\<close>

section \<open>Errors and versions\<close>

definition RedisIsLoading :: "err option \<Rightarrow> bool" where
  "RedisIsLoading e = (case e of Some (ErrReply m) \<Rightarrow> HasPrefix m ''LOADING'' | _ \<Rightarrow> False)"

text \<open>\<open>%02s\<close> pads a string with zeros on the left to two bytes.\<close>

definition pad2 :: "string \<Rightarrow> string" where
  "pad2 s = replicate (2 - length s) (CHR ''0'') @ s"

fun parseVersion_loop :: "string \<Rightarrow> string list \<Rightarrow> string" where
  "parseVersion_loop v [] = v"
| "parseVersion_loop v (s # ss) = parseVersion_loop (v @ pad2 s) ss"

definition parseVersion :: "string \<Rightarrow> int" where
  "parseVersion version =
     (case ParseInt (parseVersion_loop '''' (Split version (CHR ''.''))) of
        (r, None) \<Rightarrow> r | (r, Some e) \<Rightarrow> -1)"

text \<open>\<open>strings.Split(v, "\r\n")\<close>.\<close>

fun split_crlf :: "string \<Rightarrow> string \<Rightarrow> string list" where
  "split_crlf acc [] = [rev acc]"
| "split_crlf acc [c] = [rev (c # acc)]"
| "split_crlf acc (c # d # cs) =
     (if c = CHR 0x0D \<and> d = CHR 0x0A then rev acc # split_crlf [] cs else split_crlf (c # acc) (d # cs))"

fun parseInfo_loop :: "string list \<Rightarrow> (string \<rightharpoonup> string) \<Rightarrow> (string \<rightharpoonup> string)" where
  "parseInfo_loop [] m = m"
| "parseInfo_loop (l # ls) m =
     (if HasPrefix l ''#'' then parseInfo_loop ls m
      else (case SplitN l (CHR '':'') 2 of
              k # v # _ \<Rightarrow> parseInfo_loop ls (m(k \<mapsto> v))
            | _ \<Rightarrow> parseInfo_loop ls m))"

definition parseInfo :: "'db redigo \<Rightarrow> err + reply \<Rightarrow> err + (string \<rightharpoonup> string)" where
  "parseInfo R r =
     (case rd_String R r of
        Inl e \<Rightarrow> Inl e
      | Inr v \<Rightarrow> Inr (parseInfo_loop (split_crlf [] v) Map.empty))"

text \<open>A lookup of a missing key gives the empty string.\<close>

definition map_get :: "(string \<rightharpoonup> string) \<Rightarrow> string \<Rightarrow> string" where
  "map_get m k = (case m k of None \<Rightarrow> '''' | Some v \<Rightarrow> v)"

definition checkVersion :: "'db redigo \<Rightarrow> (err + reply) option \<Rightarrow> err option" where
  "checkVersion R conn_info =
     (case conn_info of
        None \<Rightarrow> Some ErrUnreachable
      | Some r \<Rightarrow>
          (case parseInfo R r of
             Inr info \<Rightarrow>
               if parseVersion (map_get info ''redis_version'') < parseVersion RedisMinimumVersion
               then Some ErrRedisUpgradeRequired else None
           | Inl e \<Rightarrow> Some e))"

section \<open>Connecting\<close>

text \<open>
  \<open>dial a\<close> connects to an address, \<open>ask c q\<close> is the reply of the peer of connection \<open>c\<close> to a
  command.  Connections are returned with the ones closed on the way.
\<close>

record 'c network =
  dial :: "string \<Rightarrow> err + 'c"
  ask :: "'c \<Rightarrow> rcmd \<Rightarrow> err + reply"

definition askRole :: "'db redigo \<Rightarrow> 'c network \<Rightarrow> 'c \<Rightarrow> (err + string) gores" where
  "askRole R net c =
     (case rd_Values R (ask net c ROLE) of
        Inl e \<Rightarrow> Inr (Inl e)
      | Inr [] \<Rightarrow> Inl IndexOutOfRange
      | Inr (r # _) \<Rightarrow> Inr (rd_String R (Inr r)))"

definition auth :: "Configuration \<Rightarrow> 'c network \<Rightarrow> 'c \<Rightarrow> err option" where
  "auth cnf net c =
     (if RedisPassword cnf \<noteq> ''''
      then (case ask net c (AUTH (RedisPassword cnf)) of Inl e \<Rightarrow> Some e | Inr _ \<Rightarrow> None) else None)"

definition selectDB :: "Configuration \<Rightarrow> 'c network \<Rightarrow> 'c \<Rightarrow> err option" where
  "selectDB cnf net c = (case ask net c (SELECT (RedisDB cnf)) of Inl e \<Rightarrow> Some e | Inr _ \<Rightarrow> None)"

text \<open>The outcome of one turn of the sentinel loop: go on, return, or a panic.\<close>

datatype 'c turn = Continue "'c list" | Return "err + 'c" "'c list"

definition try_master :: "'db redigo \<Rightarrow> Configuration \<Rightarrow> 'c network \<Rightarrow> 'c \<Rightarrow> string \<Rightarrow> 'c turn gores" where
  "try_master R cnf net c masterhost =
     (case dial net masterhost of
        Inl e \<Rightarrow> Inr (Continue [c])
      | Inr cm \<Rightarrow>
          if auth cnf net cm \<noteq> None then Inr (Continue [cm, c])
          else (case selectDB cnf net cm of
                  Some e \<Rightarrow> Inr (Return (Inl e) [c])
                | None \<Rightarrow>
                    (case askRole R net cm of
                       Inl p \<Rightarrow> Inl p
                     | Inr (Inl e) \<Rightarrow> Inr (Continue [cm, c])
                     | Inr (Inr role) \<Rightarrow>
                         if role \<noteq> ''master'' then Inr (Continue [cm, c]) else Inr (Return (Inr cm) [c]))))"

definition try_sentinel :: "'db redigo \<Rightarrow> Configuration \<Rightarrow> 'c network \<Rightarrow> sentinels \<Rightarrow> 'c turn gores" where
  "try_sentinel R cnf net s =
     (case dial net (sentinel_Host s) of
        Inl e \<Rightarrow> Inr (Continue [])
      | Inr c \<Rightarrow>
          (case askRole R net c of
             Inl p \<Rightarrow> Inl p
           | Inr (Inl e) \<Rightarrow> Inr (Continue [c])
           | Inr (Inr role) \<Rightarrow>
               if role \<noteq> ''sentinel'' then Inr (Continue [c])
               else (case rd_Strings R (ask net c (SENTINEL ''get-master-addr-by-name'' (RedisSentinelMasterName cnf))) of
                       Inl e \<Rightarrow> Inr (Continue [c])
                     | Inr (h # p # _) \<Rightarrow> try_master R cnf net c (h @ '':'' @ p)
                     | Inr _ \<Rightarrow> Inl IndexOutOfRange)))"

fun sentinel_loop ::
    "'db redigo \<Rightarrow> Configuration \<Rightarrow> 'c network \<Rightarrow> sentinels list \<Rightarrow> 'c list \<Rightarrow> 'c turn gores" where
  "sentinel_loop R cnf net [] cls = Inr (Continue cls)"
| "sentinel_loop R cnf net (s # ss) cls =
     (case try_sentinel R cnf net s of
        Inl p \<Rightarrow> Inl p
      | Inr (Return r cs) \<Rightarrow> Inr (Return r (cls @ cs))
      | Inr (Continue cs) \<Rightarrow> sentinel_loop R cnf net ss (cls @ cs))"

definition connect_single :: "'db redigo \<Rightarrow> Configuration \<Rightarrow> 'c network \<Rightarrow> 'c list \<Rightarrow> ((err + 'c) \<times> 'c list) gores" where
  "connect_single R cnf net cls =
     (if length (RedisAddress cnf) = 0 then Inr (Inl ErrUnreachable, cls)
      else (case dial net (RedisAddress cnf) of
              Inl e \<Rightarrow> Inr (Inl e, cls)
            | Inr c \<Rightarrow>
                (case auth cnf net c of
                   Some e \<Rightarrow> Inr (Inl e, cls @ [c])
                 | None \<Rightarrow>
                     (case selectDB cnf net c of
                        Some e \<Rightarrow> Inr (Inl e, cls @ [c])
                      | None \<Rightarrow>
                          (case askRole R net c of
                             Inl p \<Rightarrow> Inl p
                           | Inr (Inl e) \<Rightarrow> Inr (Inl ErrUnreachable, cls)
                           | Inr (Inr role) \<Rightarrow>
                               if role \<noteq> ''master'' then Inr (Inl ErrUnreachable, cls)
                               else Inr (Inr c, cls))))))"

definition Connect :: "'db redigo \<Rightarrow> Configuration \<Rightarrow> 'c network \<Rightarrow> ((err + 'c) \<times> 'c list) gores" where
  "Connect R cnf net =
     (if length (RedisSentinels cnf) > 0 \<and> length (RedisSentinelMasterName cnf) \<noteq> 0 then
        (case sentinel_loop R cnf net (RedisSentinels cnf) [] of
           Inl p \<Rightarrow> Inl p
         | Inr (Return r cls) \<Rightarrow> Inr (r, cls)
         | Inr (Continue cls) \<Rightarrow> connect_single R cnf net cls)
      else connect_single R cnf net [])"

section \<open>Failure state and the known master\<close>

record redis_state =
  failure :: bool
  knownMaster :: string

definition setFailureState :: "bool \<Rightarrow> redis_state \<Rightarrow> redis_state" where
  "setFailureState f st = st\<lparr>failure := f\<rparr>"

definition printConnectedMaster :: "bool \<Rightarrow> string \<Rightarrow> redis_state \<Rightarrow> redis_state" where
  "printConnectedMaster daemon address st =
     (if address \<noteq> knownMaster st \<and> daemon then st\<lparr>knownMaster := address\<rparr> else st)"

section \<open>Locks\<close>

record Lock =
  lock_name :: string
  lock_value :: string
  held :: bool

definition lock_key :: "string \<Rightarrow> string" where
  "lock_key name = ''LOCK_'' @ name"

text \<open>\<open>rnd\<close> is the draw of \<open>rand.Int()\<close>.\<close>

definition AcquireLock :: "'db client \<Rightarrow> int \<Rightarrow> 'db \<Rightarrow> string \<Rightarrow> (err + Lock) \<times> 'db" where
  "AcquireLock r rnd db name =
     (if length name = 0 then (Inl ErrInvalidLockName, db)
      else let l = \<lparr>lock_name = lock_key name, lock_value = Itoa rnd, held = True\<rparr>;
               (rep, db') = unblocked_do r db (SETNX (lock_name l) (AStr (lock_value l)) 5000)
           in case rd_String (api r) rep of
                Inl e \<Rightarrow> if e = ErrNil then (Inl ErrAlreadyLocked, db') else (Inl e, db')
              | Inr _ \<Rightarrow> (Inr l, db'))"

definition lock_isValid :: "'db client \<Rightarrow> Lock \<Rightarrow> 'db \<Rightarrow> (bool \<times> err option) \<times> 'db" where
  "lock_isValid r l db =
     (let (rep, db') = unblocked_do r db (GET (lock_name l))
      in case rd_String (api r) rep of
           Inl e \<Rightarrow> if e \<noteq> ErrNil then ((False, Some e), db')
                    else if '''' \<noteq> lock_value l then ((False, None), db') else ((True, None), db')
         | Inr v \<Rightarrow> if v \<noteq> lock_value l then ((False, None), db') else ((True, None), db'))"

text \<open>One turn of the keepalive loop: whether it goes on, the lock, the database.\<close>

definition keepalive_turn :: "'db client \<Rightarrow> Lock \<Rightarrow> 'db \<Rightarrow> (bool \<times> Lock) \<times> 'db" where
  "keepalive_turn r l db =
     (if held l = False then ((False, l), db)
      else let ((valid, e), db1) = lock_isValid r l db
           in if e \<noteq> None then ((True, l), db1)
              else if \<not> valid then ((False, l\<lparr>held := False\<rparr>), db1)
              else let (rep, db2) = unblocked_do r db1 (PEXPIRE (lock_name l) 5000)
                   in case rd_Bool (api r) rep of
                        Inl e \<Rightarrow> ((True, l), db2)
                      | Inr ok \<Rightarrow> if \<not> ok then ((False, l\<lparr>held := False\<rparr>), db2) else ((True, l), db2))"

text \<open>
  \<open>Release\<close> reads the key and deletes it in two calls, between which other nodes may run: the
  first part answers whether the second is due.
\<close>

definition release_check :: "'db client \<Rightarrow> Lock \<Rightarrow> 'db \<Rightarrow> (bool \<times> Lock) \<times> 'db" where
  "release_check r l db =
     (if held l = False then ((False, l), db)
      else let (rep, db1) = unblocked_do r db (GET (lock_name l));
               v = (case rd_String (api r) rep of Inl e \<Rightarrow> '''' | Inr v \<Rightarrow> v)
           in ((v = lock_value l, l\<lparr>held := False\<rparr>), db1))"

definition release_delete :: "'db client \<Rightarrow> Lock \<Rightarrow> 'db \<Rightarrow> 'db" where
  "release_delete r l db = snd (unblocked_do r db (DEL [lock_name l]))"

definition lock_Release :: "'db client \<Rightarrow> Lock \<Rightarrow> 'db \<Rightarrow> Lock \<times> 'db" where
  "lock_Release r l db =
     (case release_check r l db of
        ((due, l'), db1) \<Rightarrow> (l', if due then release_delete r l' db1 else db1))"

definition lock_Held :: "Lock \<Rightarrow> bool" where
  "lock_Held l = held l"

section \<open>The format version\<close>

text \<open>
  The \<open>goto again\<close> while redis loads its dataset is a loop without bound: \<open>fuel\<close> limits it, and
  \<open>None\<close> means that the server was still loading.
\<close>

fun GetDBFormatVersion :: "nat \<Rightarrow> 'db client \<Rightarrow> 'db \<Rightarrow> ((int \<times> err option) \<times> 'db) option" where
  "GetDBFormatVersion 0 r db = None"
| "GetDBFormatVersion (Suc fuel) r db =
     (let (rep, db1) = unblocked_do r db (GET DBVersionKey)
      in case rd_Int (api r) rep of
           Inl e \<Rightarrow>
             if RedisIsLoading (Some e) then GetDBFormatVersion fuel r db1
             else if e = ErrNil then
               (let (rep2, db2) = unblocked_do r db1 (EXISTS ''MIRRORS'')
                in case rd_Bool (api r) rep2 of
                     Inl e2 \<Rightarrow> Some ((-1, Some e2), db2)
                   | Inr found \<Rightarrow>
                       if found then Some ((0, None), db2)
                       else let (rep3, db3) = unblocked_do r db2 (SET DBVersionKey (AInt DBVersion))
                            in Some ((DBVersion, case rep3 of Inl e3 \<Rightarrow> Some e3 | Inr _ \<Rightarrow> None), db3))
             else Some ((-1, Some e), db1)
         | Inr version \<Rightarrow> Some ((version, None), db1))"

definition UpgradeNeeded :: "nat \<Rightarrow> 'db client \<Rightarrow> 'db \<Rightarrow> ((bool \<times> err option) \<times> 'db) option" where
  "UpgradeNeeded fuel r db =
     (case GetDBFormatVersion fuel r db of
        None \<Rightarrow> None
      | Some ((version, e), db') \<Rightarrow>
          Some (if e \<noteq> None then ((False, e), db')
                else if version > DBVersion then ((False, Some ErrUnsupportedVersion), db')
                else ((version \<noteq> DBVersion, None), db')))"

text \<open>\<open>upgraders i\<close> is the upgrader for version \<open>i\<close>, if there is one.\<close>

fun upgrade_loop :: "(int \<Rightarrow> ('db \<Rightarrow> err option \<times> 'db) option) \<Rightarrow> int list \<Rightarrow> 'db \<Rightarrow> err option \<times> 'db" where
  "upgrade_loop upgraders [] db = (None, db)"
| "upgrade_loop upgraders (i # is) db =
     (case upgraders i of
        None \<Rightarrow> upgrade_loop upgraders is db
      | Some u \<Rightarrow> (case u db of (Some e, db') \<Rightarrow> (Some e, db') | (None, db') \<Rightarrow> upgrade_loop upgraders is db'))"

definition Upgrade ::
    "nat \<Rightarrow> (int \<Rightarrow> ('db \<Rightarrow> err option \<times> 'db) option) \<Rightarrow> 'db client \<Rightarrow> int \<Rightarrow> 'db \<Rightarrow> (err option \<times> 'db) option" where
  "Upgrade fuel upgraders r rnd db =
     (case GetDBFormatVersion fuel r db of
        None \<Rightarrow> None
      | Some ((version, e), db1) \<Rightarrow>
          Some (if e \<noteq> None then (e, db1)
                else if version > DBVersion then (Some ErrUnsupportedVersion, db1)
                else if version = DBVersion then (None, db1)
                else (case AcquireLock r rnd db1 ''upgrade'' of
                        (Inl e, db2) \<Rightarrow> (Some e, db2)
                      | (Inr lock, db2) \<Rightarrow>
                          (let (e, db3) = upgrade_loop upgraders [version + 1..DBVersion] db2
                           in (e, snd (lock_Release r lock db3))))))"

section \<open>The list of mirrors\<close>

text \<open>
  The loop over the flat reply; \<open>[]byte\<close> values are bulk replies.  The connection is a new one,
  \<open>conn\<close> the error of opening it.
\<close>

fun mirrors_loop :: "reply list \<Rightarrow> (int \<rightharpoonup> string) \<Rightarrow> (err + (int \<rightharpoonup> string)) gores" where
  "mirrors_loop [] m = Inr (Inr m)"
| "mirrors_loop [k] m = Inl IndexOutOfRange"
| "mirrors_loop (RBulk k # RBulk v # rs) m =
     (case ParseInt k of
        (i, None) \<Rightarrow> mirrors_loop rs (m(i \<mapsto> v))
      | _ \<Rightarrow> Inr (Inl (ErrMsg ''invalid type for mirrors ID'')))"
| "mirrors_loop (_ # _ # rs) m = Inr (Inl (ErrMsg ''invalid type for mirrors key''))"

definition GetListOfMirrors :: "'db client \<Rightarrow> err option \<Rightarrow> 'db \<Rightarrow> (err + (int \<rightharpoonup> string)) gores \<times> 'db" where
  "GetListOfMirrors r conn db =
     (case conn of
        Some e \<Rightarrow> (Inr (Inl e), db)
      | None \<Rightarrow>
          (let (rep, db') = unblocked_do r db (HGETALL ''MIRRORS'')
           in (case rd_Values (api r) rep of
                 Inl e \<Rightarrow> Inr (Inl e)
               | Inr values \<Rightarrow> mirrors_loop values Map.empty, db')))"

section \<open>Publish and subscribe\<close>

definition CLUSTER :: string where "CLUSTER = ''_mirrorbits_cluster''"
definition FILE_UPDATE :: string where "FILE_UPDATE = ''_mirrorbits_file_update''"
definition MIRROR_UPDATE :: string where "MIRROR_UPDATE = ''_mirrorbits_mirror_update''"
definition MIRROR_FILE_UPDATE :: string where "MIRROR_FILE_UPDATE = ''_mirrorbits_mirror_file_update''"
definition PUBSUB_RECONNECTED :: string where "PUBSUB_RECONNECTED = ''_mirrorbits_pubsub_reconnected''"

definition Publish :: "'db client \<Rightarrow> 'db \<Rightarrow> string \<Rightarrow> string \<Rightarrow> err option \<times> 'db" where
  "Publish r db event message =
     (let (rep, db') = conn_do r db (PUBLISH event message)
      in (case rep of Inl e \<Rightarrow> Some e | Inr _ \<Rightarrow> None, db'))"

text \<open>A listener is a buffered channel of strings: its capacity and what waits in it.\<close>

record listener =
  lst_cap :: nat
  lst_buf :: "string list"

definition lst_send :: "string \<Rightarrow> listener \<Rightarrow> listener" where
  "lst_send data l = (if length (lst_buf l) < lst_cap l then l\<lparr>lst_buf := lst_buf l @ [data]\<rparr> else l)"

type_synonym pubsub = "string \<Rightarrow> listener list"

definition SubscribeEvent :: "string \<Rightarrow> listener \<Rightarrow> pubsub \<Rightarrow> pubsub" where
  "SubscribeEvent event channel p = p(event := p event @ [channel])"

definition handleMessage :: "string \<Rightarrow> string \<Rightarrow> pubsub \<Rightarrow> pubsub" where
  "handleMessage channel data p = p(channel := map (lst_send data) (p channel))"

text \<open>
  The loop of \<open>updateEvents\<close> as its reactions: a failed \<open>PING\<close>, a successful connection, a
  message, an error while receiving.  \<open>connected\<close> tells whether the inner loop runs.
\<close>

record pubsub_state =
  ps_listeners :: pubsub
  ps_disconnected :: bool
  ps_connected :: bool

datatype pubsub_event = PingFailed | PingOK | Message string string | Subscription | ReceiveError

definition updateEvents_step :: "pubsub_event \<Rightarrow> pubsub_state \<Rightarrow> pubsub_state" where
  "updateEvents_step ev st =
     (if ps_connected st then
        (case ev of
           Message channel data \<Rightarrow> st\<lparr>ps_listeners := handleMessage channel data (ps_listeners st)\<rparr>
         | ReceiveError \<Rightarrow> st\<lparr>ps_disconnected := True, ps_connected := False\<rparr>
         | _ \<Rightarrow> st)
      else
        (case ev of
           PingFailed \<Rightarrow> st\<lparr>ps_disconnected := True\<rparr>
         | PingOK \<Rightarrow>
             (if ps_disconnected st = True
              then st\<lparr>ps_disconnected := False, ps_connected := True,
                      ps_listeners := handleMessage PUBSUB_RECONNECTED '''' (ps_listeners st)\<rparr>
              else st\<lparr>ps_connected := True\<rparr>)
         | _ \<Rightarrow> st))"

section \<open>Versions compare by their numbers\<close>

definition version_str :: "nat \<Rightarrow> nat \<Rightarrow> nat \<Rightarrow> string" where
  "version_str a b c = nat_digits a @ ''.'' @ nat_digits b @ ''.'' @ nat_digits c"

lemma dot_not_digit: "CHR ''.'' \<notin> set (nat_digits n)"
  using nat_digits_are_digits [of n] by (auto simp: list_all_iff is_digit_def)

lemma parse_two:
  "n < 100 \<Longrightarrow> m < 10 ^ 15 \<Longrightarrow> parse_uint_loop m (pad2 (nat_digits n)) = Inr (m * 100 + n)"
proof (cases "n < 10")
  case True
  assume m: "m < 10 ^ 15"
  have "pad2 (nat_digits n) = [CHR ''0'', char_of (48 + n)]"
    using True by (simp add: pad2_def nat_digits.simps [of n] numeral_2_eq_2)
  moreover have "is_digit (CHR ''0'')" "of_char (CHR ''0'') = (48 :: nat)" by (simp_all add: is_digit_def)
  ultimately show ?thesis using True m by simp
next
  case False
  assume a: "n < 100" "m < 10 ^ 15"
  have d: "nat_digits n = [char_of (48 + n div 10), char_of (48 + n mod 10)]"
    using False a by (simp add: nat_digits.simps [of n] nat_digits.simps [of "n div 10"])
  have "n div 10 < 10" "n mod 10 < 10" using a by auto
  then show ?thesis using a by (simp add: pad2_def d is_digit_def Let_def)
qed

lemma pad2_digits: "pad2 (nat_digits n) \<noteq> []" "is_digit (hd (pad2 (nat_digits n)))"
  using nat_digits_hd [of n] by (auto simp: pad2_def is_digit_def hd_append)

lemma parse_uint_loop_app:
  "parse_uint_loop m xs = Inr k \<Longrightarrow> parse_uint_loop m (xs @ ys) = parse_uint_loop k ys"
  by (induction xs arbitrary: m) (auto simp: Let_def split: if_splits)

lemma parseVersion_value:
  assumes "a < 100" "b < 100" "c < 100"
  shows "parseVersion (version_str a b c) = int (a * 10000 + b * 100 + c)"
proof -
  let ?s = "pad2 (nat_digits a) @ pad2 (nat_digits b) @ pad2 (nat_digits c)"
  have "Split (version_str a b c) (CHR ''.'') = [nat_digits a, nat_digits b, nat_digits c]"
    using dot_not_digit by (simp add: version_str_def Split_append_sep Split_whole)
  then have s: "parseVersion_loop '''' (Split (version_str a b c) (CHR ''.'')) = ?s" by simp
  have "parse_uint_loop 0 (pad2 (nat_digits a)) = Inr a"
    using parse_two [of a 0] assms by simp
  moreover have "parse_uint_loop a (pad2 (nat_digits b)) = Inr (a * 100 + b)"
    using parse_two [of b a] assms by simp
  moreover have "parse_uint_loop (a * 100 + b) (pad2 (nat_digits c)) = Inr (a * 10000 + b * 100 + c)"
    using parse_two [of c "a * 100 + b"] assms by (simp add: algebra_simps)
  ultimately have p: "parse_uint_loop 0 ?s = Inr (a * 10000 + b * 100 + c)"
    by (simp add: parse_uint_loop_app)
  have h: "?s \<noteq> []" "hd ?s \<noteq> CHR ''-''" "hd ?s \<noteq> CHR ''+''"
    using pad2_digits [of a] digit_not_sign [of "hd (pad2 (nat_digits a))"] by (auto simp: hd_append)
  then have "ParseInt ?s = (int (a * 10000 + b * 100 + c), None)"
    using p assms by (simp add: ParseInt_def parse_uint_def Let_def)
  then show ?thesis unfolding parseVersion_def s by simp
qed

section \<open>Connections lead to a master\<close>

definition is_master :: "'db redigo \<Rightarrow> Configuration \<Rightarrow> 'c network \<Rightarrow> 'c \<Rightarrow> bool" where
  "is_master R cnf net c \<longleftrightarrow>
     askRole R net c = Inr (Inr ''master'') \<and> auth cnf net c = None \<and> selectDB cnf net c = None"

lemma try_master_master:
  "try_master R cnf net c h = Inr (Return (Inr cm) cs) \<Longrightarrow> is_master R cnf net cm"
  by (auto simp: try_master_def is_master_def split: sum.splits option.splits if_splits)

lemma try_sentinel_master:
  "try_sentinel R cnf net s = Inr (Return (Inr cm) cs) \<Longrightarrow> is_master R cnf net cm"
  by (auto simp: try_sentinel_def split: sum.splits list.splits if_splits dest: try_master_master)

lemma sentinel_loop_master:
  "sentinel_loop R cnf net ss cls = Inr (Return (Inr cm) cs) \<Longrightarrow> is_master R cnf net cm"
  by (induction R cnf net ss cls rule: sentinel_loop.induct)
    (auto split: sum.splits turn.splits dest: try_sentinel_master)

lemma connect_single_master:
  "connect_single R cnf net cls = Inr (Inr c, cs) \<Longrightarrow> is_master R cnf net c"
  by (auto simp: connect_single_def is_master_def split: sum.splits option.splits if_splits)

section \<open>Locks exclude each other\<close>

lemma SETNX_success:
  assumes ok: "redigo_ok (api r) \<alpha>" and d: "unblocked_do r db (SETNX k (AStr v) ttl) = (rep, db')"
    and s: "rd_String (api r) rep = Inr x"
  shows "keys (\<alpha> db) k = None" "keys (\<alpha> db') = (keys (\<alpha> db))(k \<mapsto> VStr v)"
proof -
  have conv: "rd_String (api r) (Inl e) = Inl e" "rd_String (api r) (Inr RNil) = Inl ErrNil" for e
    using ok by (simp_all add: redigo_ok_def conv_ok_def)
  obtain r' where r': "rep = Inr r'" "r' \<noteq> RNil" using s conv by (cases rep) force+
  have d': "rd_do (api r) db (SETNX k (AStr v) ttl) = (Inr r', db')"
    using d r' by (simp add: unblocked_do_def)
  show n: "keys (\<alpha> db) k = None"
  proof (rule ccontr)
    assume "keys (\<alpha> db) k \<noteq> None"
    then have "redis_cmd (\<alpha> db) (SETNX k (AStr v) ttl) = Some (RNil, \<alpha> db)" by simp
    from do_okD(2) [OF ok this d'] r' show False by (simp add: same_reply_def)
  qed
  then have "redis_cmd (\<alpha> db) (SETNX k (AStr v) ttl) = Some (RStatus ''OK'', put k (Some (VStr v)) (\<alpha> db))"
    by simp
  from do_okD(1) [OF ok this d'] show "keys (\<alpha> db') = (keys (\<alpha> db))(k \<mapsto> VStr v)" by simp
qed

text \<open>Reading, refreshing and a failed acquisition leave an existing key alone.\<close>

definition keeps :: "string \<Rightarrow> rcmd \<Rightarrow> bool" where
  "keeps k c \<longleftrightarrow> (\<exists>ttl v. c = SETNX k (AStr v) ttl) \<or> c = GET k \<or> (\<exists>ttl. c = PEXPIRE k ttl)"

lemma keeps_present:
  assumes ok: "redigo_ok (api r) \<alpha>" and c: "keeps k c" and d: "unblocked_do r db c = (rep, db')"
    and k: "keys (\<alpha> db) k = Some (VStr v)"
  shows "keys (\<alpha> db') k = Some (VStr v)"
proof -
  have "\<exists>q. redis_cmd (\<alpha> db) c = Some (q, \<alpha> db)"
    using c k by (auto simp: keeps_def get_str_def)
  then obtain q where "redis_cmd (\<alpha> db) c = Some (q, \<alpha> db)" by blast
  from do_ok_either [OF ok this] d have "\<alpha> db' = \<alpha> db" by (auto simp: unblocked_do_def)
  with k show ?thesis by simp
qed

text \<open>
  The nodes of a cluster running on one lock: each node has its lock, if it acquired it once, and
  may be about to delete the key.  No step lets the key expire.
\<close>

record 'db lock_system =
  sys_db :: 'db
  locks :: "nat \<Rightarrow> Lock option"
  deleting :: "nat set"

definition owner_of :: "'db lock_system \<Rightarrow> nat \<Rightarrow> bool" where
  "owner_of s p \<longleftrightarrow> p \<in> deleting s \<or> (\<exists>l. locks s p = Some l \<and> held l)"

inductive lock_step :: "'db client \<Rightarrow> string \<Rightarrow> 'db lock_system \<Rightarrow> 'db lock_system \<Rightarrow> bool"
  for r :: "'db client" and name :: string where
  acquire:
    "\<not> owner_of s p \<Longrightarrow> AcquireLock r rnd (sys_db s) name = (res, db') \<Longrightarrow>
       lock_step r name s
         (s\<lparr>sys_db := db', locks := (case res of Inl _ \<Rightarrow> locks s | Inr l \<Rightarrow> (locks s)(p \<mapsto> l))\<rparr>)"
| keepalive:
    "locks s p = Some l \<Longrightarrow> keepalive_turn r l (sys_db s) = ((b, l'), db') \<Longrightarrow>
       lock_step r name s (s\<lparr>sys_db := db', locks := (locks s)(p \<mapsto> l')\<rparr>)"
| check:
    "locks s p = Some l \<Longrightarrow> release_check r l (sys_db s) = ((due, l'), db') \<Longrightarrow>
       lock_step r name s
         (s\<lparr>sys_db := db', locks := (locks s)(p \<mapsto> l'),
            deleting := (if due then insert p (deleting s) else deleting s)\<rparr>)"
| delete:
    "p \<in> deleting s \<Longrightarrow> locks s p = Some l \<Longrightarrow>
       lock_step r name s (s\<lparr>sys_db := release_delete r l (sys_db s), deleting := deleting s - {p}\<rparr>)"

inductive_cases lock_stepE: "lock_step r name s s'"

definition key_present :: "('db \<Rightarrow> store) \<Rightarrow> string \<Rightarrow> 'db \<Rightarrow> bool" where
  "key_present \<alpha> name db \<longleftrightarrow> (\<exists>v. keys (\<alpha> db) (lock_key name) = Some (VStr v))"

definition lock_inv :: "('db \<Rightarrow> store) \<Rightarrow> string \<Rightarrow> 'db lock_system \<Rightarrow> bool" where
  "lock_inv \<alpha> name s \<longleftrightarrow>
     (\<forall>p q. owner_of s p \<longrightarrow> owner_of s q \<longrightarrow> p = q) \<and>
     (\<forall>p l. locks s p = Some l \<longrightarrow> lock_name l = lock_key name \<and> (p \<in> deleting s \<longrightarrow> \<not> held l)) \<and>
     (\<forall>p. owner_of s p \<longrightarrow> key_present \<alpha> name (sys_db s))"

lemma lock_invD:
  assumes "lock_inv \<alpha> name s"
  shows "owner_of s p \<Longrightarrow> owner_of s q \<Longrightarrow> p = q" "locks s p = Some l \<Longrightarrow> lock_name l = lock_key name"
    "locks s p = Some l \<Longrightarrow> p \<in> deleting s \<Longrightarrow> \<not> held l" "owner_of s p \<Longrightarrow> key_present \<alpha> name (sys_db s)"
  using assms by (auto simp: lock_inv_def)

text \<open>A step that makes no new owner and keeps the key keeps the invariant.\<close>

lemma lock_inv_shrink:
  assumes "lock_inv \<alpha> name s" and "\<And>q. owner_of s' q \<Longrightarrow> owner_of s q"
    and "\<And>p l. locks s' p = Some l \<Longrightarrow> lock_name l = lock_key name \<and> (p \<in> deleting s' \<longrightarrow> \<not> held l)"
    and "key_present \<alpha> name (sys_db s) \<Longrightarrow> key_present \<alpha> name (sys_db s')"
  shows "lock_inv \<alpha> name s'"
  unfolding lock_inv_def
proof (intro conjI allI impI)
  show "p = q" if "owner_of s' p" "owner_of s' q" for p q
    using lock_invD(1) [OF assms(1) assms(2) [OF that(1)] assms(2) [OF that(2)]] .
  show "key_present \<alpha> name (sys_db s')" if "owner_of s' p" for p
    using assms(4) [OF lock_invD(4) [OF assms(1) assms(2) [OF that]]] .
qed (use assms(3) in blast)+

lemma AcquireLock_cases:
  assumes "AcquireLock r rnd db name = (res, db')" and "redigo_ok (api r) \<alpha>"
  shows "(\<exists>l. res = Inr l \<and> held l \<and> lock_name l = lock_key name \<and>
            keys (\<alpha> db) (lock_key name) = None \<and>
            keys (\<alpha> db') = (keys (\<alpha> db))(lock_key name \<mapsto> VStr (lock_value l))) \<or>
         (\<exists>e. res = Inl e \<and>
            (\<forall>v. keys (\<alpha> db) (lock_key name) = Some (VStr v) \<longrightarrow>
                 keys (\<alpha> db') (lock_key name) = Some (VStr v)))"
proof (cases "length name = 0")
  case True
  with assms show ?thesis by (auto simp: AcquireLock_def)
next
  case False
  let ?k = "lock_key name" and ?c = "SETNX (lock_key name) (AStr (Itoa rnd)) 5000"
  obtain rep db1 where d: "unblocked_do r db ?c = (rep, db1)" by fastforce
  show ?thesis
  proof (cases "rd_String (api r) rep")
    case (Inl e)
    with False assms(1) d have "db' = db1" "\<exists>e. res = Inl e"
      by (auto simp: AcquireLock_def Let_def split: if_splits)
    moreover have "keeps ?k ?c" by (simp add: keeps_def)
    ultimately show ?thesis using keeps_present [OF assms(2) _ d] by blast
  next
    case (Inr x)
    with False assms(1) d SETNX_success [OF assms(2) d Inr] show ?thesis
      by (auto simp: AcquireLock_def Let_def)
  qed
qed

lemma lock_isValid_keeps:
  assumes "lock_isValid r l db = (res, db')" and "redigo_ok (api r) \<alpha>"
    and "keys (\<alpha> db) (lock_name l) = Some (VStr v)"
  shows "keys (\<alpha> db') (lock_name l) = Some (VStr v)"
proof -
  obtain rep db1 where d: "unblocked_do r db (GET (lock_name l)) = (rep, db1)" by fastforce
  with assms(1) have "db' = db1"
    by (auto simp: lock_isValid_def Let_def split: sum.splits if_splits)
  with keeps_present [OF assms(2) _ d assms(3)] show ?thesis by (simp add: keeps_def)
qed

lemma keepalive_keeps:
  assumes "keepalive_turn r l db = ((b, l'), db')" and "redigo_ok (api r) \<alpha>"
  shows "lock_name l' = lock_name l \<and> (held l' \<longrightarrow> held l) \<and>
    (keys (\<alpha> db) (lock_name l) = Some (VStr v) \<longrightarrow> keys (\<alpha> db') (lock_name l) = Some (VStr v))"
proof -
  obtain valid e db1 where v: "lock_isValid r l db = ((valid, e), db1)" by (metis surj_pair)
  obtain rep db2 where d: "unblocked_do r db1 (PEXPIRE (lock_name l) 5000) = (rep, db2)" by fastforce
  have "db' = db \<or> db' = db1 \<or> db' = db2" and "lock_name l' = lock_name l \<and> (held l' \<longrightarrow> held l)"
    using assms(1) v d by (auto simp: keepalive_turn_def split: if_splits sum.splits)
  moreover have "keys (\<alpha> db1) (lock_name l) = Some (VStr v)" "keys (\<alpha> db2) (lock_name l) = Some (VStr v)"
    if "keys (\<alpha> db) (lock_name l) = Some (VStr v)"
  proof -
    show k: "keys (\<alpha> db1) (lock_name l) = Some (VStr v)"
      using lock_isValid_keeps [OF v assms(2) that] .
    have "keeps (lock_name l) (PEXPIRE (lock_name l) 5000)" by (simp add: keeps_def)
    then show "keys (\<alpha> db2) (lock_name l) = Some (VStr v)"
      using keeps_present [OF assms(2) _ d k] by simp
  qed
  ultimately show ?thesis by auto
qed

lemma release_check_keeps:
  assumes "release_check r l db = ((due, l'), db')" and "redigo_ok (api r) \<alpha>"
  shows "lock_name l' = lock_name l \<and> \<not> held l' \<and> (due \<longrightarrow> held l) \<and>
    (keys (\<alpha> db) (lock_name l) = Some (VStr v) \<longrightarrow> keys (\<alpha> db') (lock_name l) = Some (VStr v))"
proof -
  obtain rep db1 where d: "unblocked_do r db (GET (lock_name l)) = (rep, db1)" by fastforce
  have "keeps (lock_name l) (GET (lock_name l))" by (simp add: keeps_def)
  with keeps_present [OF assms(2) _ d] assms(1) d show ?thesis
    by (auto simp: release_check_def Let_def split: if_splits)
qed

lemma lock_inv_step:
  assumes step: "lock_step r name s s'" and inv: "lock_inv \<alpha> name s" and ok: "redigo_ok (api r) \<alpha>"
  shows "lock_inv \<alpha> name s'"
  using step
proof cases
  case (acquire p rnd res db')
  note locked = lock_invD(2,3) [OF inv]
  show ?thesis
  proof (cases res)
    case (Inl e)
    then have s': "s' = s\<lparr>sys_db := db'\<rparr>" using acquire(1) by simp
    have "key_present \<alpha> name (sys_db s) \<Longrightarrow> key_present \<alpha> name db'"
      using AcquireLock_cases [OF acquire(3) ok] Inl by (auto simp: key_present_def)
    then show ?thesis
      by (intro lock_inv_shrink [OF inv]) (use locked in \<open>auto simp: s' owner_of_def\<close>)
  next
    case (Inr l)
    have none: "keys (\<alpha> (sys_db s)) (lock_key name) = None" and l: "lock_name l = lock_key name"
      and k: "key_present \<alpha> name db'"
      using AcquireLock_cases [OF acquire(3) ok] Inr by (auto simp: key_present_def)
    have s': "s' = s\<lparr>sys_db := db', locks := (locks s)(p \<mapsto> l)\<rparr>" using acquire(1) Inr by simp
    have no: "\<not> owner_of s q" for q using lock_invD(4) [OF inv, of q] none by (auto simp: key_present_def)
    then have only: "owner_of s' q \<Longrightarrow> q = p" for q
      unfolding s' owner_of_def by (auto split: if_splits)
    have "p \<notin> deleting s" using no [of p] by (simp add: owner_of_def)
    then have "lock_name l1 = lock_key name \<and> (q \<in> deleting s' \<longrightarrow> \<not> held l1)" if "locks s' q = Some l1" for q l1
      using that locked [of q l1] l by (cases "q = p") (auto simp: s')
    then show ?thesis
      unfolding lock_inv_def using only k s' by (metis lock_system.select_convs(1)
          lock_system.surjective lock_system.update_convs(1,2))
  qed
next
  case (keepalive p l b l' db')
  have n: "lock_name l = lock_key name" using lock_invD(2) [OF inv keepalive(2)] .
  note kk = keepalive_keeps [OF keepalive(3) ok]
  have h: "lock_name l' = lock_key name" "held l' \<Longrightarrow> held l" using kk [of undefined] n by auto
  have kp: "key_present \<alpha> name (sys_db s) \<Longrightarrow> key_present \<alpha> name db'" using kk n by (auto simp: key_present_def)
  show ?thesis
  proof (rule lock_inv_shrink [OF inv])
    show "owner_of s q" if "owner_of s' q" for q
      using that h keepalive(1,2) by (cases "q = p") (auto simp: owner_of_def)
    show "lock_name l1 = lock_key name \<and> (q \<in> deleting s' \<longrightarrow> \<not> held l1)" if "locks s' q = Some l1" for q l1
      using that h keepalive(1,2) lock_invD(2,3) [OF inv, of q] by (cases "q = p") auto
  qed (use kp keepalive(1) in simp)
next
  case (check p l due l' db')
  have n: "lock_name l = lock_key name" using lock_invD(2) [OF inv check(2)] .
  note kk = release_check_keeps [OF check(3) ok]
  have h: "lock_name l' = lock_key name" "\<not> held l'" "due \<Longrightarrow> held l" using kk [of undefined] n by auto
  have kp: "key_present \<alpha> name (sys_db s) \<Longrightarrow> key_present \<alpha> name db'" using kk n by (auto simp: key_present_def)
  show ?thesis
  proof (rule lock_inv_shrink [OF inv])
    show "owner_of s q" if "owner_of s' q" for q
      using that h check(1,2) by (cases "q = p") (auto simp: owner_of_def split: if_splits)
    show "lock_name l1 = lock_key name \<and> (q \<in> deleting s' \<longrightarrow> \<not> held l1)" if "locks s' q = Some l1" for q l1
      using that h check(1,2) lock_invD(2,3) [OF inv, of q] by (cases "q = p") (auto split: if_splits)
  qed (use kp check(1) in simp)
next
  case (delete p l)
  have p: "owner_of s p" using delete(2) by (simp add: owner_of_def)
  have none: "\<not> owner_of s' q" for q
  proof
    assume o: "owner_of s' q"
    then have "owner_of s q" using delete(1) by (auto simp: owner_of_def)
    then have "q = p" using lock_invD(1) [OF inv _ p] by blast
    with o delete(1,2,3) lock_invD(3) [OF inv delete(3,2)] show False by (simp add: owner_of_def)
  qed
  then show ?thesis unfolding lock_inv_def using delete(1) lock_invD(2,3) [OF inv] by auto
qed

inductive lock_reachable :: "'db client \<Rightarrow> string \<Rightarrow> 'db lock_system \<Rightarrow> bool"
  for r :: "'db client" and name :: string where
  start: "lock_reachable r name \<lparr>sys_db = db, locks = (\<lambda>_. None), deleting = {}\<rparr>"
| move: "lock_reachable r name s \<Longrightarrow> lock_step r name s s' \<Longrightarrow> lock_reachable r name s'"

lemma lock_reachable_inv:
  "lock_reachable r name s \<Longrightarrow> redigo_ok (api r) \<alpha> \<Longrightarrow> lock_inv \<alpha> name s"
proof (induction rule: lock_reachable.induct)
  case (start db)
  show ?case by (simp add: lock_inv_def owner_of_def)
next
  case (move s s')
  then show ?case using lock_inv_step by blast
qed

section \<open>Reading the list of mirrors\<close>

definition mirrors_hash :: "(int \<times> string) list \<Rightarrow> (string \<times> string) list" where
  "mirrors_hash ms = map (\<lambda>(i, n). (Itoa i, n)) ms"

lemma mirrors_loop_hash:
  "list_all (\<lambda>(i, n). in_int64 i) ms \<Longrightarrow>
     mirrors_loop (concat (map (\<lambda>(f, v). [RBulk f, RBulk v]) (mirrors_hash ms))) m =
       Inr (Inr (m ++ map_of (rev ms)))"
proof (induction ms arbitrary: m)
  case (Cons x ms)
  obtain i n where x: "x = (i, n)" by fastforce
  have "m(i \<mapsto> n) ++ map_of (rev ms) = m ++ map_of (rev (x # ms))"
    by (auto simp: x map_add_def fun_eq_iff split: option.splits)
  then show ?case using Cons by (simp add: x mirrors_hash_def ParseInt_Itoa)
qed (simp add: mirrors_hash_def)

lemma conv_okD:
  assumes "redigo_ok R \<alpha>"
  shows "rd_Values R (Inl e) = Inl e" "rd_Values R (Inr (RMulti rs)) = Inr rs"
    "rd_Int R (Inl e) = Inl e" "rd_Int R (Inr RNil) = Inl ErrNil" "rd_Int R (Inr (RInt i)) = Inr i"
    "in_int64 i \<Longrightarrow> rd_Int R (Inr (RBulk (Itoa i))) = Inr i" "rd_Bool R (Inr (RInt i)) = Inr (i \<noteq> 0)"
    "rd_Bool R (Inl e) = Inl e" "rd_String R (Inl e) = Inl e" "rd_String R (Inr RNil) = Inl ErrNil"
    "rd_String R (Inr (RBulk s)) = Inr s" "rd_String R (Inr (RStatus s)) = Inr s"
    "rd_Bool R (Inr RNil) = Inl ErrNil" "rd_Strings R (Inl e) = Inl e"
    "rd_Strings R (Inr (RMulti (map opt_bulk vs))) = Inr (map (\<lambda>v. case v of None \<Rightarrow> '''' | Some s \<Rightarrow> s) vs)"
    "rd_Ints R (Inl e) = Inl e"
    "list_all in_int64 is \<Longrightarrow> rd_Ints R (Inr (RMulti (map (\<lambda>i. RBulk (Itoa i)) is))) = Inr is"
    "rd_Bool R (Inr (RBulk (if b then ''1'' else ''0''))) = Inr b"
  using assms unfolding redigo_ok_def conv_ok_def by blast+

lemma do_reply:
  assumes "redigo_ok R \<alpha>" and "redis_cmd (\<alpha> db) c = Some (r, s')" and "rd_do R db c = (Inr r', db')"
    and "\<And>ch m. c \<noteq> PUBLISH ch m"
  shows "r' = r" "\<alpha> db' = s'"
  using do_okD [OF assms(1-3)] assms(4) by (auto simp: same_reply_def split: rcmd.splits)

section \<open>Properties\<close>

text \<open>
  C13: the database lock is exclusive.  As long as the key does not expire, whatever the
  interleaving of acquisitions, keepalives and both halves of releases, and whatever network
  errors the calls meet, at most one node believes that it holds the lock or is about to
  delete it.
\<close>

theorem lock_exclusive:
  assumes "redigo_ok (api r) \<alpha>" and "lock_reachable r name s"
    and "owner_of s p" and "owner_of s q"
  shows "p = q"
  using lock_invD(1) [OF lock_reachable_inv [OF assms(2,1)] assms(3,4)] .

theorem lock_exclusive_witness:
  "\<exists>s. lock_reachable ref_client ''upgrade'' s \<and> owner_of s 1 \<and> (\<forall>q. owner_of s q \<longrightarrow> q = 1)"
proof -
  let ?s0 = "\<lparr>sys_db = empty_store, locks = (\<lambda>_. None), deleting = {}\<rparr> :: store lock_system"
  have ok: "redigo_ok (api ref_client) id" by (simp add: ref_client_def ref_redis_ok)
  obtain l db' where a: "AcquireLock ref_client 42 empty_store ''upgrade'' = (Inr l, db')" "held l"
    by (auto simp: AcquireLock_def ref_client_def ref_redis_def unblocked_do_def empty_store_def)
  let ?s1 = "?s0\<lparr>sys_db := db', locks := (locks ?s0)(1 \<mapsto> l)\<rparr>"
  have "lock_reachable ref_client ''upgrade'' ?s0" by (rule lock_reachable.start)
  moreover have "lock_step ref_client ''upgrade'' ?s0 ?s1"
    using lock_step.acquire [of ?s0 1 ref_client 42 "''upgrade''" "Inr l" db'] a by (simp add: owner_of_def)
  ultimately have r: "lock_reachable ref_client ''upgrade'' ?s1" by (rule lock_reachable.move)
  have o: "owner_of ?s1 1" using a by (simp add: owner_of_def)
  show ?thesis using lock_exclusive [OF ok r _ o] r o by blast
qed

text \<open>
  Version numbers are compared number by number: for components below one hundred,
  \<open>parseVersion\<close> orders \<open>a.b.c\<close> lexicographically, so the minimum version test is right.
\<close>

theorem parseVersion_order:
  assumes "a < 100" "b < 100" "c < 100" "a' < 100" "b' < 100" "c' < 100"
  shows "parseVersion (version_str a b c) < parseVersion (version_str a' b' c') \<longleftrightarrow>
     a < a' \<or> (a = a' \<and> (b < b' \<or> (b = b' \<and> c < c')))"
  using assms by (simp add: parseVersion_value) linarith

theorem parseVersion_order_witness:
  "parseVersion (version_str 3 2 0) < parseVersion (version_str 3 10 1) \<and>
   version_str 3 2 0 = RedisMinimumVersion"
proof
  show "parseVersion (version_str 3 2 0) < parseVersion (version_str 3 10 1)"
    using parseVersion_order [of 3 2 0 3 10 1] by simp
  show "version_str 3 2 0 = RedisMinimumVersion"
    by code_simp
qed

text \<open>
  C14: a connection that \<open>Connect\<close> returns, directly or through a sentinel, is to a server that
  answered \<open>master\<close> to \<open>ROLE\<close>, accepted the password and selected the database.
\<close>

theorem Connect_master:
  assumes "Connect R cnf net = Inr (Inr c, cls)"
  shows "askRole R net c = Inr (Inr ''master'') \<and> auth cnf net c = None \<and> selectDB cnf net c = None"
proof -
  have "is_master R cnf net c"
    using assms by (auto simp: Connect_def split: if_splits sum.splits turn.splits
        dest: sentinel_loop_master connect_single_master)
  then show ?thesis by (simp add: is_master_def)
qed

definition demo_net :: "string network" where
  "demo_net =
     \<lparr>dial = (\<lambda>a. if a = ''down'' then Inl (ErrNetwork a) else Inr a),
      ask = (\<lambda>c q. case q of
               ROLE \<Rightarrow> Inr (RMulti [RBulk (if c = ''s1'' then ''sentinel'' else if c = ''h:1'' then ''slave'' else ''master'')])
             | SENTINEL _ _ \<Rightarrow> Inr (RMulti [RBulk ''h'', RBulk ''1''])
             | _ \<Rightarrow> Inr (RStatus ''OK''))\<rparr>"

theorem Connect_master_witness:
  "\<exists>c cls. Connect ref_redis
      ((defaultConfig '''')\<lparr>RedisSentinels := [\<lparr>sentinel_Host = ''down''\<rparr>, \<lparr>sentinel_Host = ''s1''\<rparr>],
                          RedisSentinelMasterName := ''m''\<rparr>) demo_net = Inr (Inr c, cls) \<and>
     askRole ref_redis demo_net c = Inr (Inr ''master'')"
proof -
  let ?cnf = "(defaultConfig '''')\<lparr>RedisSentinels := [\<lparr>sentinel_Host = ''down''\<rparr>, \<lparr>sentinel_Host = ''s1''\<rparr>],
    RedisSentinelMasterName := ''m''\<rparr>"
  have "Connect ref_redis ?cnf demo_net = Inr (Inr ''127.0.0.1:6379'', [''h:1'', ''s1''])"
    by (simp add: Connect_def demo_net_def defaultConfig_def try_sentinel_def askRole_def ref_redis_def
        try_master_def auth_def selectDB_def connect_single_def)
  with Connect_master [OF this] show ?thesis by blast
qed

text \<open>
  reading the list of mirrors never panics on what the program itself stores: the hash of
  decimal identifiers comes back as the map of its entries, or the call reports an error.
\<close>

theorem GetListOfMirrors_roundtrip:
  assumes "redigo_ok (api r) \<alpha>" and "keys (\<alpha> db) ''MIRRORS'' = Some (VHash (mirrors_hash ms))"
    and "list_all (\<lambda>(i, n). in_int64 i) ms" and "distinct (map fst ms)"
  shows "fst (GetListOfMirrors r None db) = Inr (Inr (map_of ms)) \<or>
     (\<exists>e. fst (GetListOfMirrors r None db) = Inr (Inl e))"
proof -
  obtain rep db' where d: "rd_do (api r) db (HGETALL ''MIRRORS'') = (rep, db')" by fastforce
  show ?thesis
  proof (cases rep)
    case (Inl e)
    then show ?thesis using d conv_okD(1) [OF assms(1)]
      by (simp add: GetListOfMirrors_def unblocked_do_def)
  next
    case (Inr q)
    let ?flat = "concat (map (\<lambda>(f, v). [RBulk f, RBulk v]) (mirrors_hash ms))"
    have "redis_cmd (\<alpha> db) (HGETALL ''MIRRORS'') = Some (RMulti ?flat, \<alpha> db)"
      by (simp add: get_hash_def assms(2))
    from do_reply [OF assms(1) this] d Inr have "q = RMulti ?flat" by simp
    moreover have "map_of (rev ms) = map_of ms"
      using assms(4) map_of_inject_set [of "rev ms" ms] by (simp add: rev_map [symmetric])
    ultimately show ?thesis
      using d Inr conv_okD(2) [OF assms(1)] mirrors_loop_hash [OF assms(3), of Map.empty]
      by (simp add: GetListOfMirrors_def unblocked_do_def)
  qed
qed

theorem GetListOfMirrors_roundtrip_witness:
  "fst (GetListOfMirrors ref_client None
      (put ''MIRRORS'' (Some (VHash (mirrors_hash [(1, ''a''), (7, ''b'')]))) empty_store)) =
     Inr (Inr (map_of [(1, ''a''), (7, ''b'')]))"
proof -
  have ok: "redigo_ok (api ref_client) id" by (simp add: ref_client_def ref_redis_ok)
  let ?db = "put ''MIRRORS'' (Some (VHash (mirrors_hash [(1, ''a''), (7, ''b'')]))) empty_store"
  have k: "keys (id ?db) ''MIRRORS'' = Some (VHash (mirrors_hash [(1, ''a''), (7, ''b'')]))" by simp
  have "\<not> (\<exists>e. fst (GetListOfMirrors ref_client None ?db) = Inr (Inl e))"
    by (simp add: GetListOfMirrors_def ref_client_def unblocked_do_def ref_redis_def get_hash_def
        mirrors_hash_def ParseInt_Itoa in_int64_def)
  then show ?thesis
    using GetListOfMirrors_roundtrip [of ref_client id ?db "[(1, ''a''), (7, ''b'')]"] ok k
    by (simp add: in_int64_def)
qed

text \<open>A server that answers every documented command.\<close>

definition calls_succeed :: "'db redigo \<Rightarrow> ('db \<Rightarrow> store) \<Rightarrow> bool" where
  "calls_succeed R \<alpha> \<longleftrightarrow>
     (\<forall>db c. redis_cmd (\<alpha> db) c \<noteq> None \<longrightarrow> (\<exists>q db'. rd_do R db c = (Inr q, db')))"

lemma ref_calls_succeed: "calls_succeed ref_redis id"
  by (auto simp: calls_succeed_def ref_redis_def)

lemma do_succeeds:
  assumes "redigo_ok (api r) \<alpha>" and "calls_succeed (api r) \<alpha>" and "redis_cmd (\<alpha> db) c = Some (q, s')"
    and "\<And>ch m. c \<noteq> PUBLISH ch m"
  shows "\<exists>db'. unblocked_do r db c = (Inr q, db') \<and> \<alpha> db' = s'"
proof -
  obtain q' db' where "rd_do (api r) db c = (Inr q', db')"
    using assms(2,3) unfolding calls_succeed_def by (metis option.distinct(1))
  with do_reply [OF assms(1,3) this assms(4)] show ?thesis by (simp add: unblocked_do_def)
qed

text \<open>
  The format version.  When the server is not loading one attempt settles it: a recorded
  version is returned; without one, an installation with mirrors counts as version 0 and is left
  alone, and an empty database is stamped with the current version.  Errors aside, a stamped
  database never needs an upgrade.
\<close>

theorem GetDBFormatVersion_settles:
  assumes "redigo_ok (api r) \<alpha>" and "calls_succeed (api r) \<alpha>" and "get_str (\<alpha> db) DBVersionKey = Some v"
    and "\<forall>s. v = Some s \<longrightarrow> (\<exists>i. in_int64 i \<and> s = Itoa i)"
  shows "\<exists>n db'. GetDBFormatVersion (Suc fuel) r db = Some ((n, None), db') \<and>
     (\<forall>i. in_int64 i \<and> v = Some (Itoa i) \<longrightarrow> n = i \<and> \<alpha> db' = \<alpha> db) \<and>
     (v = None \<and> keys (\<alpha> db) ''MIRRORS'' \<noteq> None \<longrightarrow> n = 0 \<and> \<alpha> db' = \<alpha> db) \<and>
     (v = None \<and> keys (\<alpha> db) ''MIRRORS'' = None \<longrightarrow>
        n = DBVersion \<and> keys (\<alpha> db') = (keys (\<alpha> db))(DBVersionKey \<mapsto> VStr (Itoa DBVersion)))"
proof -
  note conv = conv_okD [OF assms(1)]
  have "redis_cmd (\<alpha> db) (GET DBVersionKey) = Some (opt_bulk v, \<alpha> db)" using assms(3) by simp
  from do_succeeds [OF assms(1,2) this] obtain db1 where
    d1: "unblocked_do r db (GET DBVersionKey) = (Inr (opt_bulk v), db1)" "\<alpha> db1 = \<alpha> db" by auto
  show ?thesis
  proof (cases v)
    case (Some s)
    with assms(4) obtain i where i: "in_int64 i" "s = Itoa i" by blast
    then show ?thesis using Some d1 conv(6) [OF i(1)] by (simp add: opt_bulk_def)
  next
    case None
    have "redis_cmd (\<alpha> db1) (EXISTS ''MIRRORS'') = Some (RInt (if keys (\<alpha> db) ''MIRRORS'' = None then 0 else 1), \<alpha> db)"
      using d1 by simp
    from do_succeeds [OF assms(1,2) this] obtain db2 where
      d2: "unblocked_do r db1 (EXISTS ''MIRRORS'') = (Inr (RInt (if keys (\<alpha> db) ''MIRRORS'' = None then 0 else 1)), db2)"
      "\<alpha> db2 = \<alpha> db" by auto
    have "redis_cmd (\<alpha> db2) (SET DBVersionKey (AInt DBVersion)) =
        Some (RStatus ''OK'', put DBVersionKey (Some (VStr (Itoa DBVersion))) (\<alpha> db))" using d2 by simp
    from do_succeeds [OF assms(1,2) this] obtain db3 where
      d3: "unblocked_do r db2 (SET DBVersionKey (AInt DBVersion)) = (Inr (RStatus ''OK''), db3)"
      "\<alpha> db3 = put DBVersionKey (Some (VStr (Itoa DBVersion))) (\<alpha> db)" by auto
    have "\<not> RedisIsLoading (Some ErrNil)" by (simp add: RedisIsLoading_def)
    then show ?thesis using None d1 d2 d3 conv(4,7)
      by (cases "keys (\<alpha> db) ''MIRRORS''") (simp_all add: opt_bulk_def)
  qed
qed

theorem GetDBFormatVersion_settles_witness:
  "\<exists>n db'. GetDBFormatVersion 1 ref_client empty_store = Some ((n, None), db') \<and>
     n = DBVersion \<and> keys db' = [DBVersionKey \<mapsto> VStr (Itoa DBVersion)]"
proof -
  have "get_str (id empty_store) DBVersionKey = Some None" by (simp add: get_str_def empty_store_def)
  moreover have "redigo_ok (api ref_client) id" "calls_succeed (api ref_client) id"
    by (simp_all add: ref_client_def ref_redis_ok ref_calls_succeed)
  ultimately obtain n db' where "GetDBFormatVersion (Suc 0) ref_client empty_store = Some ((n, None), db')"
    "keys (id empty_store) ''MIRRORS'' = None \<longrightarrow>
      n = DBVersion \<and> keys (id db') = (keys (id empty_store))(DBVersionKey \<mapsto> VStr (Itoa DBVersion))"
    using GetDBFormatVersion_settles [of ref_client id empty_store None 0] by blast
  then show ?thesis by (simp add: empty_store_def)
qed

text \<open>
  After a lost connection the caches are told.  Whenever the subscriber loop has been
  disconnected and connects again, every listener of \<open>PUBSUB_RECONNECTED\<close> with room for a
  message receives one, and no other listener is touched; while it is connected a message goes to
  the listeners of its channel only.
\<close>

theorem pubsub_reconnect:
  assumes "\<not> ps_connected st" and "ps_disconnected st"
    and "st' = updateEvents_step PingOK st"
  shows "ps_connected st' \<and> \<not> ps_disconnected st' \<and>
     ps_listeners st' PUBSUB_RECONNECTED = map (lst_send '''') (ps_listeners st PUBSUB_RECONNECTED) \<and>
     (\<forall>ch. ch \<noteq> PUBSUB_RECONNECTED \<longrightarrow> ps_listeners st' ch = ps_listeners st ch) \<and>
     (\<forall>l \<in> set (ps_listeners st PUBSUB_RECONNECTED). length (lst_buf l) < lst_cap l \<longrightarrow>
        lst_send '''' l \<in> set (ps_listeners st' PUBSUB_RECONNECTED) \<and> lst_buf (lst_send '''' l) = lst_buf l @ [''''])"
  using assms by (auto simp: updateEvents_step_def handleMessage_def lst_send_def)

theorem pubsub_reconnect_witness:
  "let st = \<lparr>ps_listeners = SubscribeEvent PUBSUB_RECONNECTED \<lparr>lst_cap = 1, lst_buf = []\<rparr> (\<lambda>_. []),
             ps_disconnected = True, ps_connected = False\<rparr>
   in ps_listeners (updateEvents_step PingOK st) PUBSUB_RECONNECTED = [\<lparr>lst_cap = 1, lst_buf = ['''']\<rparr>]"
proof -
  let ?st = "\<lparr>ps_listeners = SubscribeEvent PUBSUB_RECONNECTED \<lparr>lst_cap = 1, lst_buf = []\<rparr> (\<lambda>_. []),
             ps_disconnected = True, ps_connected = False\<rparr>"
  show ?thesis
    using pubsub_reconnect [of ?st "updateEvents_step PingOK ?st"]
    by (simp add: SubscribeEvent_def lst_send_def)
qed

end
