(* ===== verification/Cache.thy ===== *)
theory Cache
  imports Lru Mirror Database
begin

text \<open>
  The four caches of \<^verbatim>\<open>mirrors/cache.go\<close> over the LRU of theory \<open>Lru\<close>.  Every operation reads
  the clock once (\<open>now\<close>); the decoder of redigo (\<open>ScanStruct\<close>) and the two time parsers are
  arguments.  The size of a value is what the Go code returns: the size of the structure in
  bytes, or the capacity of the slice, which for a decoded reply is its length.
\<close>

section \<open>State\<close>

record Cache =
  fiCache :: "FileInfo LRUCache"
  fmCache :: "int list LRUCache"
  mCache :: "Mirror LRUCache"
  fimCache :: "FileInfo LRUCache"
  invalidationEvent :: "string list"

record 'db cache_env =
  cl :: "'db client"
  ScanStruct :: "reply list \<Rightarrow> err + Mirror"
  Parse_RFC1123 :: "string \<Rightarrow> gotime"
  Parse_DateTime :: "string \<Rightarrow> gotime"

definition fileInfo_size :: "FileInfo \<Rightarrow> int" where
  "fileInfo_size f = 112"

definition fileMirror_size :: "int list \<Rightarrow> int" where
  "fileMirror_size v = int (length v)"

definition mirror_size :: "Mirror \<Rightarrow> int" where
  "mirror_size m = 552"

definition NewCache :: Cache where
  "NewCache =
     \<lparr>fiCache = NewLRUCache 1024000, fmCache = NewLRUCache 2048000, mCache = NewLRUCache 1024000,
      fimCache = NewLRUCache 4096000, invalidationEvent = []\<rparr>"

definition Cache_Clear :: "Cache \<Rightarrow> Cache" where
  "Cache_Clear c =
     c\<lparr>fiCache := LRU_Clear (fiCache c), fmCache := LRU_Clear (fmCache c),
       mCache := LRU_Clear (mCache c), fimCache := LRU_Clear (fimCache c)\<rparr>"

section \<open>Invalidation\<close>

datatype cache_event = MirrorUpdate string | FileUpdate string | MirrorFileUpdate string | Reconnected

definition cache_event_step :: "cache_event \<Rightarrow> Cache \<Rightarrow> Cache gores" where
  "cache_event_step ev c =
     (case ev of
        MirrorUpdate data \<Rightarrow>
          Inr (c\<lparr>mCache := snd (LRU_Delete data (mCache c)),
                 invalidationEvent := (if length (invalidationEvent c) < 10 then invalidationEvent c @ [data]
                                       else invalidationEvent c)\<rparr>)
      | FileUpdate data \<Rightarrow> Inr (c\<lparr>fiCache := snd (LRU_Delete data (fiCache c))\<rparr>)
      | MirrorFileUpdate data \<Rightarrow>
          (case SplitN data (CHR '' '') 2 of
             s0 # s1 # _ \<Rightarrow>
               Inr (c\<lparr>fmCache := snd (LRU_Delete s1 (fmCache c)),
                      fimCache := snd (LRU_Delete (s0 @ ''|'' @ s1) (fimCache c))\<rparr>)
           | _ \<Rightarrow> Inl IndexOutOfRange)
      | Reconnected \<Rightarrow> Inr (Cache_Clear c))"

section \<open>Files\<close>

type_synonym ('a, 'db) cache_res = "('a \<times> Cache \<times> 'db) gores"

definition file_key :: "string \<Rightarrow> string" where
  "file_key path = ''FILE_'' @ path"

definition fileinfo_key :: "int \<Rightarrow> string \<Rightarrow> string" where
  "fileinfo_key i path = ''FILEINFO_'' @ Itoa i @ ''_'' @ path"

definition filemirrors_key :: "string \<Rightarrow> string" where
  "filemirrors_key path = ''FILEMIRRORS_'' @ path"

definition mirror_key :: "int \<Rightarrow> string" where
  "mirror_key i = ''MIRROR_'' @ Itoa i"

text \<open>The key of the cache of a mirror's files.\<close>

definition fim_key :: "int \<Rightarrow> string \<Rightarrow> string" where
  "fim_key i path = Itoa i @ ''|'' @ path"

definition file_fields :: "string list" where
  "file_fields = [''size'', ''modTime'', ''sha256'']"

definition fetchFileInfo ::
    "'db cache_env \<Rightarrow> gotime \<Rightarrow> Cache \<Rightarrow> 'db \<Rightarrow> string \<Rightarrow> (FileInfo \<times> err option, 'db) cache_res" where
  "fetchFileInfo env now c db path =
     (let f = NewFileInfo path;
          (rep, db') = conn_do (cl env) db (HMGET (file_key path) file_fields)
      in case rd_Strings (api (cl env)) rep of
           Inl e \<Rightarrow> Inr ((f, Some e), c, db')
         | Inr (r0 # r1 # r2 # _) \<Rightarrow>
             (let f' = f\<lparr>Size := fst (ParseInt r0), ModTime := Parse_RFC1123 env r1, Sha256 := r2\<rparr>
              in case LRU_Set fileInfo_size now path f' (fiCache c) of
                   Inl p \<Rightarrow> Inl p
                 | Inr fc \<Rightarrow> Inr ((f', None), c\<lparr>fiCache := fc\<rparr>, db'))
         | Inr _ \<Rightarrow> Inl IndexOutOfRange)"

definition GetFileInfo ::
    "'db cache_env \<Rightarrow> gotime \<Rightarrow> Cache \<Rightarrow> 'db \<Rightarrow> string \<Rightarrow> (FileInfo \<times> err option, 'db) cache_res" where
  "GetFileInfo env now c db path =
     (case LRU_Get now path (fiCache c) of
        (Some v, fc) \<Rightarrow> Inr ((v, None), c\<lparr>fiCache := fc\<rparr>, db)
      | (None, fc) \<Rightarrow> fetchFileInfo env now (c\<lparr>fiCache := fc\<rparr>) db path)"

definition fetchFileInfoMirror ::
    "'db cache_env \<Rightarrow> gotime \<Rightarrow> Cache \<Rightarrow> 'db \<Rightarrow> int \<Rightarrow> string \<Rightarrow> (FileInfo \<times> err option, 'db) cache_res" where
  "fetchFileInfoMirror env now c db i path =
     (let f = NewFileInfo path;
          (rep, db') = conn_do (cl env) db (HMGET (fileinfo_key i path) file_fields)
      in case rd_Strings (api (cl env)) rep of
           Inl e \<Rightarrow> Inr ((f, Some e), c, db')
         | Inr (r0 # r1 # r2 # _) \<Rightarrow>
             (let f' = f\<lparr>Size := fst (ParseInt r0), ModTime := Parse_DateTime env r1, Sha256 := r2\<rparr>
              in case LRU_Set fileInfo_size now (fim_key i path) f' (fimCache c) of
                   Inl p \<Rightarrow> Inl p
                 | Inr fc \<Rightarrow> Inr ((f', None), c\<lparr>fimCache := fc\<rparr>, db'))
         | Inr _ \<Rightarrow> Inl IndexOutOfRange)"

definition GetFileInfoMirror ::
    "'db cache_env \<Rightarrow> gotime \<Rightarrow> Cache \<Rightarrow> 'db \<Rightarrow> int \<Rightarrow> string \<Rightarrow> (FileInfo \<times> err option, 'db) cache_res" where
  "GetFileInfoMirror env now c db i path =
     (case LRU_Get now (fim_key i path) (fimCache c) of
        (Some v, fc) \<Rightarrow> Inr ((v, None), c\<lparr>fimCache := fc\<rparr>, db)
      | (None, fc) \<Rightarrow> fetchFileInfoMirror env now (c\<lparr>fimCache := fc\<rparr>) db i path)"

section \<open>Mirrors\<close>

definition fetchMirror ::
    "'db cache_env \<Rightarrow> gotime \<Rightarrow> Cache \<Rightarrow> 'db \<Rightarrow> int \<Rightarrow> (Mirror \<times> err option, 'db) cache_res" where
  "fetchMirror env now c db i =
     (let (rep, db') = conn_do (cl env) db (HGETALL (mirror_key i))
      in case rd_Values (api (cl env)) rep of
           Inl e \<Rightarrow> Inr ((zero_mirror, Some e), c, db')
         | Inr reply \<Rightarrow>
             if length reply = 0 then Inr ((zero_mirror, Some ErrNil), c, db')
             else (case ScanStruct env reply of
                     Inl e \<Rightarrow> Inr ((zero_mirror, Some e), c, db')
                   | Inr m \<Rightarrow>
                       (case LRU_Set mirror_size now (Itoa i) (Prepare m) (mCache c) of
                          Inl p \<Rightarrow> Inl p
                        | Inr mc \<Rightarrow> Inr ((Prepare m, None), c\<lparr>mCache := mc\<rparr>, db'))))"

definition GetMirror ::
    "'db cache_env \<Rightarrow> gotime \<Rightarrow> Cache \<Rightarrow> 'db \<Rightarrow> int \<Rightarrow> (Mirror \<times> err option, 'db) cache_res" where
  "GetMirror env now c db i =
     (case LRU_Get now (Itoa i) (mCache c) of
        (Some v, mc) \<Rightarrow> Inr ((v, None), c\<lparr>mCache := mc\<rparr>, db)
      | (None, mc) \<Rightarrow> fetchMirror env now (c\<lparr>mCache := mc\<rparr>) db i)"

definition fetchFileMirrors ::
    "'db cache_env \<Rightarrow> gotime \<Rightarrow> Cache \<Rightarrow> 'db \<Rightarrow> string \<Rightarrow> (int list \<times> err option, 'db) cache_res" where
  "fetchFileMirrors env now c db path =
     (let (rep, db') = conn_do (cl env) db (SMEMBERS (filemirrors_key path))
      in case rd_Ints (api (cl env)) rep of
           Inl e \<Rightarrow> Inr (([], Some e), c, db')
         | Inr ids \<Rightarrow>
             (case LRU_Set fileMirror_size now path ids (fmCache c) of
                Inl p \<Rightarrow> Inl p
              | Inr fc \<Rightarrow> Inr ((ids, None), c\<lparr>fmCache := fc\<rparr>, db')))"

text \<open>
  One mirror of the loop of \<open>GetMirrors\<close>.  A negative size leaves the file pointer nil, and the
  assignment to its path panics.
\<close>

definition complete_mirror :: "GeoIPRecord \<Rightarrow> string \<Rightarrow> FileInfo \<Rightarrow> Mirror \<Rightarrow> Mirror gores" where
  "complete_mirror clientInfo path fileInfo mirror =
     (let m1 = (if Size fileInfo \<ge> 0 then mirror\<lparr>m_FileInfo := Some fileInfo\<rparr> else mirror)
      in case m_FileInfo m1 of
           None \<Rightarrow> Inl NilDeref
         | Some fi \<Rightarrow>
             Inr (m1\<lparr>m_FileInfo := Some (fi\<lparr>Path := path\<rparr>),
                     Distance := (if geo_IsValid clientInfo
                       then GetDistanceKm (geo_Latitude clientInfo) (geo_Longitude clientInfo) (Latitude m1) (Longitude m1)
                       else 0)\<rparr>))"

fun GetMirrors_loop ::
    "'db cache_env \<Rightarrow> gotime \<Rightarrow> string \<Rightarrow> GeoIPRecord \<Rightarrow> int list \<Rightarrow> Mirror list \<Rightarrow> Cache \<Rightarrow> 'db \<Rightarrow>
       (Mirror list \<times> err option, 'db) cache_res" where
  "GetMirrors_loop env now path ci [] acc c db = Inr ((acc, None), c, db)"
| "GetMirrors_loop env now path ci (i # is) acc c db =
     (case GetMirror env now c db i of
        Inl p \<Rightarrow> Inl p
      | Inr ((m, Some e), c1, db1) \<Rightarrow> Inr ((acc, Some e), c1, db1)
      | Inr ((m, None), c1, db1) \<Rightarrow>
          (case GetFileInfoMirror env now c1 db1 i path of
             Inl p \<Rightarrow> Inl p
           | Inr ((fi, Some e), c2, db2) \<Rightarrow> Inr ((acc, Some e), c2, db2)
           | Inr ((fi, None), c2, db2) \<Rightarrow>
               (case complete_mirror ci path fi m of
                  Inl p \<Rightarrow> Inl p
                | Inr m' \<Rightarrow> GetMirrors_loop env now path ci is (acc @ [m']) c2 db2)))"

definition GetMirrors ::
    "'db cache_env \<Rightarrow> gotime \<Rightarrow> Cache \<Rightarrow> 'db \<Rightarrow> string \<Rightarrow> GeoIPRecord \<Rightarrow> (Mirror list \<times> err option, 'db) cache_res" where
  "GetMirrors env now c db path clientInfo =
     (let (v, fc) = LRU_Get now path (fmCache c);
          c0 = c\<lparr>fmCache := fc\<rparr>;
          cached = (case v of None \<Rightarrow> [] | Some ids \<Rightarrow> ids)
      in if length cached = 0 then
           (case fetchFileMirrors env now c0 db path of
              Inl p \<Rightarrow> Inl p
            | Inr ((ids, Some e), c1, db1) \<Rightarrow> Inr (([], Some e), c1, db1)
            | Inr ((ids, None), c1, db1) \<Rightarrow> GetMirrors_loop env now path clientInfo ids [] c1 db1)
         else GetMirrors_loop env now path clientInfo cached [] c0 db)"

section \<open>What the caches stand for\<close>

text \<open>The objects the keyspace holds, as a fetch decodes them.\<close>

definition opt_str :: "string option \<Rightarrow> string" where
  "opt_str v = (case v of None \<Rightarrow> '''' | Some s \<Rightarrow> s)"

definition decode_file :: "(string \<Rightarrow> gotime) \<Rightarrow> store \<Rightarrow> string \<Rightarrow> string \<Rightarrow> FileInfo option" where
  "decode_file pt s key path =
     (case get_hash s key of
        None \<Rightarrow> None
      | Some h \<Rightarrow>
          Some ((NewFileInfo path)\<lparr>Size := fst (ParseInt (opt_str (map_of h ''size''))),
                  ModTime := pt (opt_str (map_of h ''modTime'')), Sha256 := opt_str (map_of h ''sha256'')\<rparr>))"

definition file_source :: "'db cache_env \<Rightarrow> store \<Rightarrow> string \<rightharpoonup> FileInfo" where
  "file_source env s path = decode_file (Parse_RFC1123 env) s (file_key path) path"

definition decode_mirror :: "'db cache_env \<Rightarrow> store \<Rightarrow> string \<Rightarrow> Mirror option" where
  "decode_mirror env s key =
     (case get_hash s key of
        None \<Rightarrow> None
      | Some h \<Rightarrow>
          if h = [] then None
          else (case ScanStruct env (concat (map (\<lambda>(f, v). [RBulk f, RBulk v]) h)) of
                  Inl _ \<Rightarrow> None | Inr m \<Rightarrow> Some (Prepare m)))"

text \<open>The mirror cache is keyed by the decimal identifier.\<close>

definition mirror_source :: "'db cache_env \<Rightarrow> store \<Rightarrow> string \<rightharpoonup> Mirror" where
  "mirror_source env s k = decode_mirror env s (''MIRROR_'' @ k)"

definition cache_wf :: "Cache \<Rightarrow> bool" where
  "cache_wf c \<longleftrightarrow>
     lru_invar fileInfo_size 1024000 (fiCache c) \<and> lru_invar fileMirror_size 2048000 (fmCache c) \<and>
     lru_invar mirror_size 1024000 (mCache c) \<and> lru_invar fileInfo_size 4096000 (fimCache c)"

definition coherent :: "'db cache_env \<Rightarrow> store \<Rightarrow> Cache \<Rightarrow> bool" where
  "coherent env s c \<longleftrightarrow>
     lru_lookup (fiCache c) \<subseteq>\<^sub>m file_source env s \<and> lru_lookup (mCache c) \<subseteq>\<^sub>m mirror_source env s"

section \<open>Lemmas\<close>

lemma fits_sizes:
  "lru_fits fileInfo_size 1024000 f" "lru_fits fileInfo_size 4096000 f" "lru_fits mirror_size 1024000 m"
  by (simp_all add: lru_fits_def fileInfo_size_def mirror_size_def)

text \<open>Reading commands leave the keyspace alone, whatever the outcome.\<close>

lemma conn_read:
  assumes "redigo_ok (api r) \<alpha>" and "redis_cmd (\<alpha> db) c = Some (q, \<alpha> db)" and "conn_do r db c = (rep, db')"
    and "\<And>ch m. c \<noteq> PUBLISH ch m"
  shows "\<alpha> db' = \<alpha> db" "rep = Inr q' \<Longrightarrow> q' = q"
proof -
  show "\<alpha> db' = \<alpha> db"
    using do_ok_either [OF assms(1,2)] assms(3) by (auto simp: conn_do_def split: if_splits)
  show "q' = q" if "rep = Inr q'"
    using do_reply(1) [OF assms(1,2)] assms(3,4) that by (auto simp: conn_do_def split: if_splits)
qed

lemma HMGET_file:
  assumes ok: "redigo_ok (api r) \<alpha>" and h: "get_hash (\<alpha> db) k = Some h"
    and d: "conn_do r db (HMGET k file_fields) = (rep, db')"
  shows "\<alpha> db' = \<alpha> db \<and>
    (rd_Strings (api r) rep =
       Inr [opt_str (map_of h ''size''), opt_str (map_of h ''modTime''), opt_str (map_of h ''sha256'')] \<or>
     (\<exists>e. rd_Strings (api r) rep = Inl e))"
proof -
  let ?vs = "map (map_of h) file_fields"
  have c: "redis_cmd (\<alpha> db) (HMGET k file_fields) = Some (RMulti (map opt_bulk ?vs), \<alpha> db)"
    using h by (simp add: comp_def)
  note r = conn_read [OF ok c d]
  have "rd_Strings (api r) (Inr (RMulti (map opt_bulk ?vs))) = Inr (map opt_str ?vs)"
    using conv_okD(15) [OF ok, of ?vs] by (simp add: opt_str_def)
  then show ?thesis
    using r conv_okD(14) [OF ok] by (cases rep) (auto simp: file_fields_def)
qed

lemma HGETALL_flat:
  assumes ok: "redigo_ok (api r) \<alpha>" and h: "get_hash (\<alpha> db) k = Some h"
    and d: "conn_do r db (HGETALL k) = (rep, db')"
  shows "\<alpha> db' = \<alpha> db \<and>
    (rd_Values (api r) rep = Inr (concat (map (\<lambda>(f, v). [RBulk f, RBulk v]) h)) \<or>
     (\<exists>e. rd_Values (api r) rep = Inl e))"
proof -
  have c: "redis_cmd (\<alpha> db) (HGETALL k) = Some (RMulti (concat (map (\<lambda>(f, v). [RBulk f, RBulk v]) h)), \<alpha> db)"
    using h by simp
  show ?thesis using conn_read [OF ok c d] conv_okD(1,2) [OF ok] by (cases rep) auto
qed

lemmas fi_hit = lru.hit_coherent [where size_of = fileInfo_size and cap = 1024000]
lemmas fi_miss = lru.miss_unchanged [where size_of = fileInfo_size and cap = 1024000]
lemmas fi_fill = lru.fill_coherent [where size_of = fileInfo_size and cap = 1024000]
lemmas m_hit = lru.hit_coherent [where size_of = mirror_size and cap = 1024000]
lemmas m_miss = lru.miss_unchanged [where size_of = mirror_size and cap = 1024000]
lemmas m_fill = lru.fill_coherent [where size_of = mirror_size and cap = 1024000]

lemma fetchFileInfo_coherent:
  assumes ok: "redigo_ok (api (cl env)) \<alpha>" and wf: "cache_wf c" and co: "coherent env (\<alpha> db) c"
    and f0: "file_source env (\<alpha> db) path = Some f0"
  shows "\<exists>f e c' db'. fetchFileInfo env now c db path = Inr ((f, e), c', db') \<and> \<alpha> db' = \<alpha> db \<and>
    cache_wf c' \<and> coherent env (\<alpha> db') c' \<and> (e = None \<longrightarrow> f = f0)"
proof -
  obtain h where h: "get_hash (\<alpha> db) (file_key path) = Some h"
    using f0 by (auto simp: file_source_def decode_file_def split: option.splits)
  obtain rep db' where d: "conn_do (cl env) db (HMGET (file_key path) file_fields) = (rep, db')" by fastforce
  note r = HMGET_file [OF ok h d]
  show ?thesis
  proof (cases "rd_Strings (api (cl env)) rep")
    case (Inl e)
    then show ?thesis using d r wf co by (simp add: fetchFileInfo_def)
  next
    case (Inr ss)
    let ?f = "(NewFileInfo path)\<lparr>Size := fst (ParseInt (opt_str (map_of h ''size''))),
      ModTime := Parse_RFC1123 env (opt_str (map_of h ''modTime'')), Sha256 := opt_str (map_of h ''sha256'')\<rparr>"
    have f: "?f = f0" using f0 h by (simp add: file_source_def decode_file_def)
    obtain fc where fc: "LRU_Set fileInfo_size now path f0 (fiCache c) = Inr fc"
      "lru_invar fileInfo_size 1024000 fc" "lru_lookup fc \<subseteq>\<^sub>m file_source env (\<alpha> db)"
      using fi_fill [of "fiCache c" "file_source env (\<alpha> db)" path f0 now] wf co f0 fits_sizes
      by (auto simp: cache_wf_def coherent_def)
    have "fetchFileInfo env now c db path = Inr ((f0, None), c\<lparr>fiCache := fc\<rparr>, db')"
      using d r Inr f fc(1) by (simp add: fetchFileInfo_def Let_def)
    then show ?thesis using r fc(2,3) wf co by (simp add: cache_wf_def coherent_def)
  qed
qed

lemma fetchMirror_coherent:
  assumes ok: "redigo_ok (api (cl env)) \<alpha>" and wf: "cache_wf c" and co: "coherent env (\<alpha> db) c"
    and h: "get_hash (\<alpha> db) (mirror_key i) = Some h"
  shows "\<exists>m e c' db'. fetchMirror env now c db i = Inr ((m, e), c', db') \<and> \<alpha> db' = \<alpha> db \<and>
    cache_wf c' \<and> coherent env (\<alpha> db') c' \<and>
    (e = None \<longrightarrow> mirror_source env (\<alpha> db) (Itoa i) = Some m)"
proof -
  obtain rep db' where d: "conn_do (cl env) db (HGETALL (mirror_key i)) = (rep, db')" by fastforce
  note r = HGETALL_flat [OF ok h d]
  show ?thesis
  proof (cases "rd_Values (api (cl env)) rep")
    case (Inl e)
    then show ?thesis using d r wf co by (simp add: fetchMirror_def)
  next
    case (Inr vs)
    then have vs: "vs = concat (map (\<lambda>(f, v). [RBulk f, RBulk v]) h)" using r by auto
    then have empty: "length vs = 0 \<longleftrightarrow> h = []" by (cases h) auto
    show ?thesis
    proof (cases "h = [] \<or> (\<exists>e. ScanStruct env vs = Inl e)")
      case True
      then show ?thesis using d r Inr empty wf co by (auto simp: fetchMirror_def)
    next
      case False
      then obtain m where m: "ScanStruct env vs = Inr m" by (cases "ScanStruct env vs") auto
      have src: "mirror_source env (\<alpha> db) (Itoa i) = Some (Prepare m)"
        using h m vs False by (simp add: mirror_source_def decode_mirror_def mirror_key_def)
      obtain mc where mc: "LRU_Set mirror_size now (Itoa i) (Prepare m) (mCache c) = Inr mc"
        "lru_invar mirror_size 1024000 mc" "lru_lookup mc \<subseteq>\<^sub>m mirror_source env (\<alpha> db)"
        using m_fill [of "mCache c" "mirror_source env (\<alpha> db)" "Itoa i" "Prepare m" now] wf co src fits_sizes
        by (auto simp: cache_wf_def coherent_def)
      have "fetchMirror env now c db i = Inr ((Prepare m, None), c\<lparr>mCache := mc\<rparr>, db')"
        using d Inr empty False m mc(1) by (simp add: fetchMirror_def)
      then show ?thesis using r mc(2,3) wf co src by (simp add: cache_wf_def coherent_def)
    qed
  qed
qed

lemma coherent_update:
  assumes "coherent env s c"
  shows "lru_lookup fc \<subseteq>\<^sub>m file_source env s \<Longrightarrow> coherent env s (c\<lparr>fiCache := fc\<rparr>)"
    "lru_lookup mc \<subseteq>\<^sub>m mirror_source env s \<Longrightarrow> coherent env s (c\<lparr>mCache := mc\<rparr>)"
  using assms by (simp_all add: coherent_def)

section \<open>Properties\<close>

text \<open>
  C15: reading a file through the cache is reading the database.  From a coherent cache
  \<open>GetFileInfo\<close> does not panic, changes nothing in the database, keeps the cache well formed and
  coherent, and when it reports no error its answer is what the database holds for the path.
\<close>

theorem GetFileInfo_coherent:
  assumes "redigo_ok (api (cl env)) \<alpha>" and "cache_wf c" and "coherent env (\<alpha> db) c"
    and "file_source env (\<alpha> db) path = Some f0"
  shows "\<exists>f e c' db'. GetFileInfo env now c db path = Inr ((f, e), c', db') \<and> \<alpha> db' = \<alpha> db \<and>
     cache_wf c' \<and> coherent env (\<alpha> db') c' \<and> (e = None \<longrightarrow> f = f0)"
proof (cases "LRU_Get now path (fiCache c)")
  case (Pair v fc)
  have inv: "lru_invar fileInfo_size 1024000 (fiCache c)" "lru_lookup (fiCache c) \<subseteq>\<^sub>m file_source env (\<alpha> db)"
    using assms(2,3) by (simp_all add: cache_wf_def coherent_def)
  show ?thesis
  proof (cases v)
    case (Some f)
    then show ?thesis
      using fi_hit [OF inv, of now path f fc] Pair assms
      by (simp add: GetFileInfo_def cache_wf_def coherent_update)
  next
    case None
    note miss = fi_miss [OF inv(1), of now path fc]
    have "cache_wf (c\<lparr>fiCache := fc\<rparr>)" "coherent env (\<alpha> db) (c\<lparr>fiCache := fc\<rparr>)"
      using miss Pair None assms(2,3) by (simp_all add: cache_wf_def coherent_def)
    from fetchFileInfo_coherent [OF assms(1) this assms(4), of now] show ?thesis
      using Pair None by (simp add: GetFileInfo_def)
  qed
qed

text \<open>
  the same for mirrors: an answer of \<open>GetMirror\<close> without error is the decoded and prepared
  mirror the database holds, and the cache stays coherent.
\<close>

theorem GetMirror_coherent:
  assumes "redigo_ok (api (cl env)) \<alpha>" and "cache_wf c" and "coherent env (\<alpha> db) c"
    and "get_hash (\<alpha> db) (mirror_key i) = Some h"
  shows "\<exists>m e c' db'. GetMirror env now c db i = Inr ((m, e), c', db') \<and> \<alpha> db' = \<alpha> db \<and>
     cache_wf c' \<and> coherent env (\<alpha> db') c' \<and>
     (e = None \<longrightarrow> mirror_source env (\<alpha> db) (Itoa i) = Some m)"
proof (cases "LRU_Get now (Itoa i) (mCache c)")
  case (Pair v mc)
  have inv: "lru_invar mirror_size 1024000 (mCache c)" "lru_lookup (mCache c) \<subseteq>\<^sub>m mirror_source env (\<alpha> db)"
    using assms(2,3) by (simp_all add: cache_wf_def coherent_def)
  show ?thesis
  proof (cases v)
    case (Some m)
    then show ?thesis
      using m_hit [OF inv, of now "Itoa i" m mc] Pair assms
      by (simp add: GetMirror_def cache_wf_def coherent_update)
  next
    case None
    note miss = m_miss [OF inv(1), of now "Itoa i" mc]
    have "cache_wf (c\<lparr>mCache := mc\<rparr>)" "coherent env (\<alpha> db) (c\<lparr>mCache := mc\<rparr>)"
      using miss Pair None assms(2,3) by (simp_all add: cache_wf_def coherent_def)
    from fetchMirror_coherent [OF assms(1) this assms(4), of now] show ?thesis
      using Pair None by (simp add: GetMirror_def)
  qed
qed

subsection \<open>Invalidation\<close>

lemma keys_cong: "keys s' k = keys s k \<Longrightarrow> get_hash s' k = get_hash s k"
  by (simp add: get_hash_def)

lemma file_source_cong:
  "keys s' (file_key q) = keys s (file_key q) \<Longrightarrow> file_source env s' q = file_source env s q"
  using keys_cong [of s' "file_key q" s] by (simp only: file_source_def decode_file_def)

lemma mirror_source_cong:
  "keys s' (''MIRROR_'' @ k) = keys s (''MIRROR_'' @ k) \<Longrightarrow> mirror_source env s' k = mirror_source env s k"
  using keys_cong [of s' "''MIRROR_'' @ k" s] by (simp only: mirror_source_def decode_mirror_def)

lemma cache_wf_events:
  assumes "cache_wf c"
  shows "cache_wf (c\<lparr>mCache := snd (LRU_Delete k (mCache c)), invalidationEvent := ev\<rparr>)"
    "cache_wf (c\<lparr>fiCache := snd (LRU_Delete k (fiCache c))\<rparr>)"
    "cache_wf (c\<lparr>fmCache := snd (LRU_Delete k (fmCache c)), fimCache := snd (LRU_Delete k' (fimCache c))\<rparr>)"
    "cache_wf (Cache_Clear c)"
  using assms by (simp_all add: cache_wf_def Cache_Clear_def lru.del_invar lru.clear_invar)

lemma SplitN_event: "SplitN (Itoa i @ CHR '' '' # path) (CHR '' '') 2 = [Itoa i, path]"
proof -
  have n: "\<forall>c \<in> set (Itoa i). c \<noteq> CHR '' ''" by (metis Itoa_not_in(3))
  have "takeWhile (\<lambda>c. c \<noteq> CHR '' '') (Itoa i @ CHR '' '' # path) = Itoa i"
    "dropWhile (\<lambda>c. c \<noteq> CHR '' '') (Itoa i @ CHR '' '' # path) = CHR '' '' # path"
    using n by (simp_all add: takeWhile_append2 dropWhile_append2)
  then show ?thesis by (simp add: numeral_2_eq_2)
qed


subsection \<open>Witnesses\<close>

definition demo_cenv :: "store cache_env" where
  "demo_cenv =
     \<lparr>cl = ref_client, ScanStruct = (\<lambda>rs. Inr (zero_mirror\<lparr>Name := ''m''\<rparr>)),
      Parse_RFC1123 = (\<lambda>_. 0), Parse_DateTime = (\<lambda>_. 0)\<rparr>"

definition demo_store :: store where
  "demo_store =
     empty_store\<lparr>keys := [''FILE_/a'' \<mapsto> VHash [(''size'', ''12'')], ''MIRROR_3'' \<mapsto> VHash [(''name'', ''m'')]]\<rparr>"

lemma NewCache_ok: "cache_wf NewCache" "coherent env s NewCache"
  by (simp_all add: cache_wf_def coherent_def NewCache_def lru_invar_def lru_wf_def lru_links_def
      NewLRUCache_def lru_lookup_def lru_abs_def used_def)

lemma demo_redigo: "redigo_ok (api (cl demo_cenv)) id"
  by (simp add: demo_cenv_def ref_client_def ref_redis_ok)

theorem GetFileInfo_coherent_witness:
  "\<exists>f e c' db'. GetFileInfo demo_cenv 5 NewCache demo_store ''/a'' = Inr ((f, e), c', db') \<and>
     (e = None \<longrightarrow> Size f = 12)"
proof -
  have "file_source demo_cenv (id demo_store) ''/a'' = Some ((NewFileInfo ''/a'')\<lparr>Size := 12\<rparr>)"
  proof -
    have "Itoa 12 = ''12''" by code_simp
    then have p: "fst (ParseInt ''12'') = 12"
      using ParseInt_Itoa [of 12] by (simp add: in_int64_def)
    show ?thesis
      by (simp add: file_source_def decode_file_def demo_store_def get_hash_def file_key_def opt_str_def
          demo_cenv_def NewFileInfo_def p)
  qed
  from GetFileInfo_coherent [OF demo_redigo NewCache_ok this, of 5] show ?thesis by force
qed

theorem GetMirror_coherent_witness:
  "\<exists>m e c' db'. GetMirror demo_cenv 5 NewCache demo_store 3 = Inr ((m, e), c', db') \<and>
     (e = None \<longrightarrow> mirror_source demo_cenv demo_store (Itoa 3) = Some m)"
proof -
  have "Itoa 3 = ''3''" by code_simp
  then have h: "get_hash (id demo_store) (mirror_key 3) = Some [(''name'', ''m'')]"
    by (simp add: get_hash_def demo_store_def mirror_key_def)
  from GetMirror_coherent [OF demo_redigo NewCache_ok h, of 5] show ?thesis by force
qed


text \<open>
  A mirror whose scanned size is negative makes \<open>GetMirrors\<close> panic: the file pointer stays nil
  and is dereferenced.
\<close>

theorem complete_mirror_panics:
  "complete_mirror ci path f m = Inl NilDeref \<longleftrightarrow> Size f < 0 \<and> m_FileInfo m = None"
  by (auto simp: complete_mirror_def Let_def split: option.splits)

end
