(* ===== verification/Mirror_Db.thy ===== *)
theory Mirror_Db
  imports Selection Cache
begin

text \<open>
  The mirror log of \<^verbatim>\<open>mirrors/logs.go\<close> and the state changes of \<^verbatim>\<open>mirrors/mirrors.go\<close> that write
  to the database.  The JSON codec and the formatting of a local time are arguments; \<open>now\<close> is the
  clock reading.
\<close>

section \<open>Log entries\<close>

text \<open>The structures embed the mirror identifier and a time stamp, in this order.\<close>

datatype LogAction =
    LogError int gotime string
  | LogAdded int gotime
  | LogEdited int gotime
  | LogEnabled int gotime
  | LogDisabled int gotime
  | LogStateChanged int gotime bool string
  | LogScanStarted int gotime ScannerType
  | LogScanCompleted int gotime int int int int

fun GetType :: "LogAction \<Rightarrow> int" where
  "GetType (LogError _ _ _) = 1"
| "GetType (LogAdded _ _) = 2"
| "GetType (LogEdited _ _) = 3"
| "GetType (LogEnabled _ _) = 4"
| "GetType (LogDisabled _ _) = 5"
| "GetType (LogStateChanged _ _ _ _) = 6"
| "GetType (LogScanStarted _ _ _) = 7"
| "GetType (LogScanCompleted _ _ _ _ _ _) = 8"

fun GetMirrorID :: "LogAction \<Rightarrow> int" where
  "GetMirrorID (LogError i _ _) = i"
| "GetMirrorID (LogAdded i _) = i"
| "GetMirrorID (LogEdited i _) = i"
| "GetMirrorID (LogEnabled i _) = i"
| "GetMirrorID (LogDisabled i _) = i"
| "GetMirrorID (LogStateChanged i _ _ _) = i"
| "GetMirrorID (LogScanStarted i _ _) = i"
| "GetMirrorID (LogScanCompleted i _ _ _ _ _) = i"

fun GetTimestamp :: "LogAction \<Rightarrow> gotime" where
  "GetTimestamp (LogError _ t _) = t"
| "GetTimestamp (LogAdded _ t) = t"
| "GetTimestamp (LogEdited _ t) = t"
| "GetTimestamp (LogEnabled _ t) = t"
| "GetTimestamp (LogDisabled _ t) = t"
| "GetTimestamp (LogStateChanged _ t _ _) = t"
| "GetTimestamp (LogScanStarted _ t _) = t"
| "GetTimestamp (LogScanCompleted _ t _ _ _ _) = t"

text \<open>An empty instance for a type number; \<open>None\<close> is nil.\<close>

definition typeToInstance :: "int \<Rightarrow> LogAction option" where
  "typeToInstance typ =
     (if typ = 1 then Some (LogError 0 0 '''')
      else if typ = 2 then Some (LogAdded 0 0)
      else if typ = 3 then Some (LogEdited 0 0)
      else if typ = 4 then Some (LogEnabled 0 0)
      else if typ = 5 then Some (LogDisabled 0 0)
      else if typ = 6 then Some (LogStateChanged 0 0 False '''')
      else if typ = 7 then Some (LogScanStarted 0 0 RSYNC)
      else if typ = 8 then Some (LogScanCompleted 0 0 0 0 0 0)
      else None)"

definition NewLogStateChanged :: "gotime \<Rightarrow> int \<Rightarrow> bool \<Rightarrow> string \<Rightarrow> LogAction" where
  "NewLogStateChanged now i up reason = LogStateChanged i now up reason"

definition NewLogEnabled :: "gotime \<Rightarrow> int \<Rightarrow> LogAction" where
  "NewLogEnabled now i = LogEnabled i now"

definition NewLogDisabled :: "gotime \<Rightarrow> int \<Rightarrow> LogAction" where
  "NewLogDisabled now i = LogDisabled i now"

definition NewLogAdded :: "gotime \<Rightarrow> int \<Rightarrow> LogAction" where
  "NewLogAdded now i = LogAdded i now"

definition NewLogEdited :: "gotime \<Rightarrow> int \<Rightarrow> LogAction" where
  "NewLogEdited now i = LogEdited i now"

definition NewLogError :: "gotime \<Rightarrow> int \<Rightarrow> string \<Rightarrow> LogAction" where
  "NewLogError now i e = LogError i now e"

definition NewLogScanStarted :: "gotime \<Rightarrow> int \<Rightarrow> ScannerType \<Rightarrow> LogAction" where
  "NewLogScanStarted now i typ = LogScanStarted i now typ"

definition NewLogScanCompleted :: "gotime \<Rightarrow> int \<Rightarrow> int \<Rightarrow> int \<Rightarrow> int \<Rightarrow> int \<Rightarrow> LogAction" where
  "NewLogScanCompleted now i files known removed tzoffset = LogScanCompleted i now files known removed tzoffset"

text \<open>\<open>time.ParseDuration\<close> of a number of milliseconds: 0 when it overflows.\<close>

definition parse_ms :: "int \<Rightarrow> duration" where
  "parse_ms n = (if in_int64 (n * 1000000) then n * 1000000 else 0)"

fun GetOutput :: "LogAction \<Rightarrow> string" where
  "GetOutput (LogError _ _ e) = ''Error: '' @ e"
| "GetOutput (LogAdded _ _) = ''Mirror added''"
| "GetOutput (LogEdited _ _) = ''Mirror edited''"
| "GetOutput (LogEnabled _ _) = ''Mirror enabled''"
| "GetOutput (LogDisabled _ _) = ''Mirror disabled''"
| "GetOutput (LogStateChanged _ _ up reason) =
     (if up = False then (if length reason = 0 then ''Mirror is down'' else ''Mirror is down: '' @ reason)
      else ''Mirror is up'')"
| "GetOutput (LogScanStarted _ _ typ) =
     (case typ of
        RSYNC \<Rightarrow> ''RSYNC scan started''
      | FTP \<Rightarrow> ''FTP scan started''
      | _ \<Rightarrow> ''Scan started using a unknown protocol'')"
| "GetOutput (LogScanCompleted _ _ files known removed tz) =
     ''Scan completed: '' @ Itoa files @ '' files ('' @ Itoa known @ '' known), '' @ Itoa removed @ '' removed'' @
     (if tz \<noteq> 0 then '' (corrected timezone offset: '' @ Duration_String (parse_ms tz) @ '')'' else '''')"

section \<open>Writing and reading the log\<close>

record json =
  Marshal :: "LogAction \<Rightarrow> err + string"
  Unmarshal_Type :: "string \<Rightarrow> err + real option"
  Unmarshal :: "LogAction \<Rightarrow> string \<Rightarrow> err + LogAction"
  FormatTime :: "gotime \<Rightarrow> string"

definition log_key :: "int \<Rightarrow> string" where
  "log_key i = ''MIRRORLOGS_'' @ Itoa i"

definition PushLog :: "json \<Rightarrow> 'db client \<Rightarrow> 'db \<Rightarrow> LogAction \<Rightarrow> err option \<times> 'db" where
  "PushLog J r db logAction =
     (case Marshal J logAction of
        Inl e \<Rightarrow> (Some e, db)
      | Inr v \<Rightarrow>
          (let (rep, db') = conn_do r db (RPUSH (log_key (GetMirrorID logAction)) [v])
           in (case rep of Inl e \<Rightarrow> Some e | Inr _ \<Rightarrow> None, db')))"

text \<open>One line of the loop: \<open>None\<close> when it is skipped.\<close>

definition read_line :: "json \<Rightarrow> string \<Rightarrow> string option" where
  "read_line J line =
     (case Unmarshal_Type J line of
        Inl e \<Rightarrow> None
      | Inr None \<Rightarrow> None
      | Inr (Some typf) \<Rightarrow>
          (case typeToInstance (float_int typf) of
             None \<Rightarrow> None
           | Some action \<Rightarrow>
               (case Unmarshal J action line of
                  Inl e \<Rightarrow> None
                | Inr a \<Rightarrow> Some (FormatTime J (GetTimestamp a) @ '': '' @ GetOutput a))))"

fun read_lines :: "json \<Rightarrow> string list \<Rightarrow> string list \<Rightarrow> string list" where
  "read_lines J outputs [] = outputs"
| "read_lines J outputs (l # ls) =
     (case read_line J l of None \<Rightarrow> read_lines J outputs ls | Some o' \<Rightarrow> read_lines J (outputs @ [o']) ls)"

definition ReadLogs :: "json \<Rightarrow> 'db client \<Rightarrow> 'db \<Rightarrow> int \<Rightarrow> int \<Rightarrow> (err + string list) \<times> 'db" where
  "ReadLogs J r db mirrorid mx =
     (let n = (if mx \<le> 0 then 500 else mx);
          (rep, db') = conn_do r db (LRANGE (log_key mirrorid) (n * -1) (-1))
      in (case rd_Strings (api r) rep of
            Inl e \<Rightarrow> Inl e
          | Inr lines \<Rightarrow> Inr (read_lines J [] lines), db'))"

section \<open>State changes\<close>

definition do_err :: "err + reply \<Rightarrow> err option" where
  "do_err rep = (case rep of Inl e \<Rightarrow> Some e | Inr _ \<Rightarrow> None)"

definition SetMirrorEnabled :: "json \<Rightarrow> 'db client \<Rightarrow> gotime \<Rightarrow> 'db \<Rightarrow> int \<Rightarrow> bool \<Rightarrow> err option \<times> 'db" where
  "SetMirrorEnabled J r now db i state =
     (let (rep, db1) = conn_do r db (HMSET (mirror_key i) [(''enabled'', ABool state)])
      in if do_err rep = None then
           (let db2 = snd (Publish r db1 MIRROR_UPDATE (Itoa i));
                db3 = snd (PushLog J r db2 (if state = True then NewLogEnabled now i else NewLogDisabled now i))
            in (None, db3))
         else (do_err rep, db1))"

definition EnableMirror :: "json \<Rightarrow> 'db client \<Rightarrow> gotime \<Rightarrow> 'db \<Rightarrow> int \<Rightarrow> err option \<times> 'db" where
  "EnableMirror J r now db i = SetMirrorEnabled J r now db i True"

definition DisableMirror :: "json \<Rightarrow> 'db client \<Rightarrow> gotime \<Rightarrow> 'db \<Rightarrow> int \<Rightarrow> err option \<times> 'db" where
  "DisableMirror J r now db i = SetMirrorEnabled J r now db i False"

text \<open>The part of \<open>SetMirrorState\<close> after the previous state is known.\<close>

definition write_state ::
    "json \<Rightarrow> 'db client \<Rightarrow> gotime \<Rightarrow> 'db \<Rightarrow> int \<Rightarrow> bool \<Rightarrow> string \<Rightarrow> bool \<Rightarrow> err option \<times> 'db" where
  "write_state J r now db i state reason previousState =
     (let args = [(''up'', ABool state), (''excludeReason'', AStr reason)] @
                 (if state \<noteq> previousState then [(''stateSince'', AInt (Unix now))] else []);
          (rep, db1) = conn_do r db (HMSET (mirror_key i) args)
      in if do_err rep = None then
           (let db2 = snd (Publish r db1 MIRROR_UPDATE (Itoa i));
                db3 = (if state \<noteq> previousState
                       then snd (PushLog J r db2 (NewLogStateChanged now i state reason)) else db2)
            in (None, db3))
         else (do_err rep, db1))"

definition SetMirrorState ::
    "json \<Rightarrow> 'db client \<Rightarrow> gotime \<Rightarrow> 'db \<Rightarrow> int \<Rightarrow> bool \<Rightarrow> string \<Rightarrow> err option \<times> 'db" where
  "SetMirrorState J r now db i state reason =
     (let (rep0, db0) = conn_do r db (HGET (mirror_key i) ''up'')
      in case rd_Bool (api r) rep0 of
           Inl e \<Rightarrow> if e \<noteq> ErrNil then (Some e, db0) else write_state J r now db0 i state reason False
         | Inr previousState \<Rightarrow> write_state J r now db0 i state reason previousState)"

definition MarkMirrorUp :: "json \<Rightarrow> 'db client \<Rightarrow> gotime \<Rightarrow> 'db \<Rightarrow> int \<Rightarrow> err option \<times> 'db" where
  "MarkMirrorUp J r now db i = SetMirrorState J r now db i True ''''"

definition MarkMirrorDown :: "json \<Rightarrow> 'db client \<Rightarrow> gotime \<Rightarrow> 'db \<Rightarrow> int \<Rightarrow> string \<Rightarrow> err option \<times> 'db" where
  "MarkMirrorDown J r now db i reason = SetMirrorState J r now db i False reason"

section \<open>Lemmas\<close>

lemma typeToInstance_type: "typeToInstance t = Some a \<Longrightarrow> GetType a = t"
  by (auto simp: typeToInstance_def split: if_splits)

lemma typeToInstance_total: "typeToInstance (GetType a) \<noteq> None"
  by (cases a) (simp_all add: typeToInstance_def)

lemma read_lines_filter:
  "read_lines J outputs ls = outputs @ map (\<lambda>l. the (read_line J l)) (filter (\<lambda>l. read_line J l \<noteq> None) ls)"
  by (induction J outputs ls rule: read_lines.induct) (auto split: option.splits)

lemma conn_succeeds:
  assumes "redigo_ok (api r) \<alpha>" and "calls_succeed (api r) \<alpha>" and "cl_ready r"
    and "redis_cmd (\<alpha> db) c = Some (q, s')"
  shows "\<exists>q' db'. conn_do r db c = (Inr q', db') \<and> \<alpha> db' = s' \<and> same_reply c q q'"
proof -
  obtain q' db' where d: "rd_do (api r) db c = (Inr q', db')"
    using assms(2,4) unfolding calls_succeed_def by (metis option.distinct(1))
  show ?thesis using do_okD [OF assms(1,4) d] d assms(3) by (simp add: conn_do_def)
qed

lemma Publish_effect:
  assumes "redigo_ok (api r) \<alpha>" and "calls_succeed (api r) \<alpha>" and "cl_ready r"
  shows "\<alpha> (snd (Publish r db ev msg)) = (\<alpha> db)\<lparr>published := published (\<alpha> db) @ [(ev, msg)]\<rparr>"
proof -
  have "redis_cmd (\<alpha> db) (PUBLISH ev msg) = Some (RInt 0, (\<alpha> db)\<lparr>published := published (\<alpha> db) @ [(ev, msg)]\<rparr>)"
    by simp
  from conn_succeeds [OF assms this] show ?thesis by (auto simp: Publish_def)
qed

lemma PushLog_effect:
  assumes "redigo_ok (api r) \<alpha>" and "calls_succeed (api r) \<alpha>" and "cl_ready r"
    and "Marshal J a = Inr line" and "get_list (\<alpha> db) (log_key (GetMirrorID a)) = Some l"
  shows "\<alpha> (snd (PushLog J r db a)) = put_list (log_key (GetMirrorID a)) (l @ [line]) (\<alpha> db)"
proof -
  have "redis_cmd (\<alpha> db) (RPUSH (log_key (GetMirrorID a)) [line]) =
      Some (RInt (int (length l + 1)), put_list (log_key (GetMirrorID a)) (l @ [line]) (\<alpha> db))"
    using assms(5) by simp
  from conn_succeeds [OF assms(1-3) this] show ?thesis using assms(4) by (auto simp: PushLog_def)
qed

text \<open>The fields of a mirror's hash after a state change.\<close>

definition state_fields :: "bool \<Rightarrow> string \<Rightarrow> bool \<Rightarrow> gotime \<Rightarrow> (string \<times> string) list" where
  "state_fields state reason changed now =
     [(''up'', if state then ''1'' else ''0''), (''excludeReason'', reason)] @
     (if changed then [(''stateSince'', Itoa (Unix now))] else [])"

definition up_field :: "(string \<times> string) list \<Rightarrow> bool option" where
  "up_field h =
     (case map_of h ''up'' of
        None \<Rightarrow> Some False
      | Some v \<Rightarrow> if v = ''1'' then Some True else if v = ''0'' then Some False else None)"

lemma get_list_other: "k \<noteq> k' \<Longrightarrow> get_list (put_hash k' h s) k = get_list s k"
  by (simp add: get_list_def put_hash_def)

lemma get_list_published [simp]: "get_list (s\<lparr>published := x\<rparr>) k = get_list s k"
  by (simp add: get_list_def)

lemma log_key_mirror_key: "log_key i \<noteq> mirror_key j"
  by (simp add: log_key_def mirror_key_def)

lemma write_state_effect:
  assumes R: "redigo_ok (api r) \<alpha>" "calls_succeed (api r) \<alpha>" "cl_ready r"
    and M: "Marshal J (LogStateChanged i now state reason) = Inr line"
    and h: "get_hash (\<alpha> db) (mirror_key i) = Some h" and l: "get_list (\<alpha> db) (log_key i) = Some l"
  shows "\<exists>db'. write_state J r now db i state reason prev = (None, db') \<and>
    keys (\<alpha> db') = (keys (\<alpha> db))(mirror_key i \<mapsto> VHash (hash_put (state_fields state reason (state \<noteq> prev) now) h),
        log_key i := (if state \<noteq> prev then Some (VList (l @ [line])) else keys (\<alpha> db) (log_key i))) \<and>
    published (\<alpha> db') = published (\<alpha> db) @ [(MIRROR_UPDATE, Itoa i)]"
proof -
  let ?args = "[(''up'', ABool state), (''excludeReason'', AStr reason)] @
    (if state \<noteq> prev then [(''stateSince'', AInt (Unix now))] else [])"
  let ?h = "hash_put (state_fields state reason (state \<noteq> prev) now) h"
  have "redis_cmd (\<alpha> db) (HMSET (mirror_key i) ?args) = Some (RStatus ''OK'', put_hash (mirror_key i) ?h (\<alpha> db))"
    using h by (simp add: state_fields_def)
  from conn_succeeds [OF R this] obtain q db1 where
    d1: "conn_do r db (HMSET (mirror_key i) ?args) = (Inr q, db1)" "\<alpha> db1 = put_hash (mirror_key i) ?h (\<alpha> db)"
    by blast
  define db2 where "db2 = snd (Publish r db1 MIRROR_UPDATE (Itoa i))"
  have a2: "\<alpha> db2 = (\<alpha> db1)\<lparr>published := published (\<alpha> db1) @ [(MIRROR_UPDATE, Itoa i)]\<rparr>"
    unfolding db2_def by (rule Publish_effect [OF R])
  have l2: "get_list (\<alpha> db2) (log_key i) = Some l"
    using l by (simp add: a2 d1 get_list_other log_key_mirror_key)
  define db3 where "db3 = snd (PushLog J r db2 (LogStateChanged i now state reason))"
  have a3: "\<alpha> db3 = put_list (log_key i) (l @ [line]) (\<alpha> db2)"
    unfolding db3_def using PushLog_effect [OF R M, of db2 l] l2 by simp
  have w: "write_state J r now db i state reason prev = (None, if state \<noteq> prev then db3 else db2)"
    using d1(1) by (simp add: write_state_def do_err_def db2_def db3_def NewLogStateChanged_def)
  have "?h \<noteq> []"
  proof
    assume "?h = []"
    then have "map_of ?h ''up'' = None" by simp
    then show False by (simp add: hash_put_map_of state_fields_def update_conv' map_add_def split: option.splits if_splits)
  qed
  then show ?thesis
    using a2 a3 d1(2) log_key_mirror_key [of i i] unfolding w
    by (auto simp: put_hash_def put_list_def fun_eq_iff)
qed

section \<open>Properties\<close>

lemma SetMirrorState_writes:
  assumes R: "redigo_ok (api r) \<alpha>" "calls_succeed (api r) \<alpha>" "cl_ready r"
    and M: "Marshal J (LogStateChanged i now state reason) = Inr line"
    and h: "get_hash (\<alpha> db) (mirror_key i) = Some h" and up: "up_field h = Some prev"
    and l: "get_list (\<alpha> db) (log_key i) = Some l"
  shows "\<exists>db' h'. SetMirrorState J r now db i state reason = (None, db') \<and>
     get_hash (\<alpha> db') (mirror_key i) = Some h' \<and> map_of h' ''up'' = Some (if state then ''1'' else ''0'') \<and>
     map_of h' ''excludeReason'' = Some reason \<and>
     map_of h' ''stateSince'' = (if state \<noteq> prev then Some (Itoa (Unix now)) else map_of h ''stateSince'') \<and>
     (\<forall>f. f \<notin> {''up'', ''excludeReason'', ''stateSince''} \<longrightarrow> map_of h' f = map_of h f) \<and>
     get_list (\<alpha> db') (log_key i) = Some (if state \<noteq> prev then l @ [line] else l) \<and>
     (\<forall>k. k \<noteq> mirror_key i \<longrightarrow> k \<noteq> log_key i \<longrightarrow> keys (\<alpha> db') k = keys (\<alpha> db) k) \<and>
     published (\<alpha> db') = published (\<alpha> db) @ [(MIRROR_UPDATE, Itoa i)]"
proof -
  have "redis_cmd (\<alpha> db) (HGET (mirror_key i) ''up'') = Some (opt_bulk (map_of h ''up''), \<alpha> db)"
    using h by simp
  from conn_succeeds [OF R this] obtain db0 where
    d0: "conn_do r db (HGET (mirror_key i) ''up'') = (Inr (opt_bulk (map_of h ''up'')), db0)" "\<alpha> db0 = \<alpha> db"
    by (auto simp: same_reply_def)
  have "rd_Bool (api r) (Inr (opt_bulk (map_of h ''up''))) = Inl ErrNil \<and> \<not> prev \<or>
      rd_Bool (api r) (Inr (opt_bulk (map_of h ''up''))) = Inr prev"
    using up conv_okD(13) [OF R(1)] conv_okD(18) [OF R(1), of True] conv_okD(18) [OF R(1), of False]
    by (auto simp: up_field_def opt_bulk_def split: option.splits if_splits)
  then have s: "SetMirrorState J r now db i state reason = write_state J r now db0 i state reason prev"
    using d0 by (auto simp: SetMirrorState_def)
  let ?h = "hash_put (state_fields state reason (state \<noteq> prev) now) h"
  obtain db' where w: "write_state J r now db0 i state reason prev = (None, db')"
    and k: "keys (\<alpha> db') = (keys (\<alpha> db))(mirror_key i \<mapsto> VHash ?h,
        log_key i := (if state \<noteq> prev then Some (VList (l @ [line])) else keys (\<alpha> db) (log_key i)))"
    and p: "published (\<alpha> db') = published (\<alpha> db) @ [(MIRROR_UPDATE, Itoa i)]"
    using write_state_effect [OF R M, of db0 h l prev] h l d0(2) by auto
  have ne: "mirror_key i \<noteq> log_key i" using log_key_mirror_key [of i i] by simp
  have hash: "get_hash (\<alpha> db') (mirror_key i) = Some ?h" using k ne by (simp add: get_hash_def)
  have m: "map_of ?h = (map_of h)(''up'' \<mapsto> (if state then ''1'' else ''0''), ''excludeReason'' \<mapsto> reason,
      ''stateSince'' := (if state \<noteq> prev then Some (Itoa (Unix now)) else map_of h ''stateSince''))"
    by (auto simp: state_fields_def update_conv' fun_eq_iff)
  have logs: "get_list (\<alpha> db') (log_key i) = Some (if state \<noteq> prev then l @ [line] else l)"
    using k l by (auto simp: get_list_def)
  show ?thesis
    by (rule exI [of _ db'], rule exI [of _ ?h]) (use s w hash m logs k p in auto)
qed

text \<open>
  C17: marking a mirror up or down.  With a working database the call succeeds, sets \<open>up\<close> and
  \<open>excludeReason\<close>, stamps \<open>stateSince\<close> and appends a log line exactly when the state really
  changed, keeps every other field of the mirror and every other key, and publishes one update
  for the mirror.
\<close>

theorem SetMirrorState_effect:
  assumes R: "redigo_ok (api r) \<alpha>" "calls_succeed (api r) \<alpha>" "cl_ready r"
    and M: "Marshal J (LogStateChanged i now state reason) = Inr line"
    and h: "get_hash (\<alpha> db) (mirror_key i) = Some h" and up: "up_field h = Some prev"
    and l: "get_list (\<alpha> db) (log_key i) = Some l"
  shows "\<exists>db' h'. SetMirrorState J r now db i state reason = (None, db') \<and>
     get_hash (\<alpha> db') (mirror_key i) = Some h' \<and> map_of h' ''up'' = Some (if state then ''1'' else ''0'') \<and>
     map_of h' ''excludeReason'' = Some reason \<and>
     map_of h' ''stateSince'' = (if state \<noteq> prev then Some (Itoa (Unix now)) else map_of h ''stateSince'') \<and>
     (\<forall>f. f \<notin> {''up'', ''excludeReason'', ''stateSince''} \<longrightarrow> map_of h' f = map_of h f) \<and>
     get_list (\<alpha> db') (log_key i) = Some (if state \<noteq> prev then l @ [line] else l) \<and>
     (\<forall>k. k \<noteq> mirror_key i \<longrightarrow> k \<noteq> log_key i \<longrightarrow> keys (\<alpha> db') k = keys (\<alpha> db) k) \<and>
     published (\<alpha> db') = published (\<alpha> db) @ [(MIRROR_UPDATE, Itoa i)]"
  using assms by (rule SetMirrorState_writes)

definition demo_json :: json where
  "demo_json =
     \<lparr>Marshal = (\<lambda>a. Inr (GetOutput a)), Unmarshal_Type = (\<lambda>_. Inr None), Unmarshal = (\<lambda>a _. Inr a),
      FormatTime = (\<lambda>_. '''')\<rparr>"

theorem SetMirrorState_effect_witness:
  "\<exists>db' h'. SetMirrorState demo_json ref_client 7 demo_store 3 True '''' = (None, db') \<and>
     get_hash db' (mirror_key 3) = Some h' \<and> map_of h' ''up'' = Some ''1'' \<and> map_of h' ''name'' = Some ''m''"
proof -
  have "Itoa 3 = ''3''" by code_simp
  then have h: "get_hash (id demo_store) (mirror_key 3) = Some [(''name'', ''m'')]"
    and l: "get_list (id demo_store) (log_key 3) = Some []"
    by (simp_all add: get_hash_def get_list_def demo_store_def empty_store_def mirror_key_def log_key_def)
  have "redigo_ok (api ref_client) id" "calls_succeed (api ref_client) id" "cl_ready ref_client"
    by (simp_all add: ref_client_def ref_redis_ok ref_calls_succeed)
  from SetMirrorState_effect [OF this, of demo_json 3 7 True "''''" "GetOutput (LogStateChanged 3 7 True '''')"
      demo_store "[(''name'', ''m'')]" False "[]"] h l
  show ?thesis by (force simp: demo_json_def up_field_def)
qed

text \<open>
  Reading the log returns the latest entries, 500 when no limit is given, in the order they
  were written, each printed or skipped on its own: the answer is the part of the requested lines
  that can be decoded, and every type the program writes has an instance to decode into.
\<close>

theorem ReadLogs_latest:
  assumes "redigo_ok (api r) \<alpha>" and "calls_succeed (api r) \<alpha>" and "cl_ready r"
    and "get_list (\<alpha> db) (log_key i) = Some l"
    and "n = (if mx \<le> 0 then 500 else nat mx)"
  shows "fst (ReadLogs J r db i mx) =
       Inr (map (\<lambda>x. the (read_line J x)) (filter (\<lambda>x. read_line J x \<noteq> None) (drop (length l - n) l))) \<and>
     typeToInstance (GetType a) \<noteq> None"
proof -
  let ?n = "(if mx \<le> 0 then 500 else mx)"
  have n: "int n = ?n" "n > 0" using assms(5) by auto
  have range: "list_range l (?n * -1) (-1) = drop (length l - n) l"
    using n by (auto simp: list_range_def Let_def nat_diff_distrib max_def)
  have "redis_cmd (\<alpha> db) (LRANGE (log_key i) (?n * -1) (-1)) =
      Some (RMulti (map opt_bulk (map Some (drop (length l - n) l))), \<alpha> db)"
    using assms(4) range by (simp add: opt_bulk_def comp_def)
  from conn_succeeds [OF assms(1-3) this] obtain db' where
    "conn_do r db (LRANGE (log_key i) (?n * -1) (-1)) =
      (Inr (RMulti (map opt_bulk (map Some (drop (length l - n) l)))), db')" by (auto simp: same_reply_def)
  then show ?thesis
    using conv_okD(15) [OF assms(1), of "map Some (drop (length l - n) l)"]
    by (simp add: ReadLogs_def read_lines_filter typeToInstance_total comp_def)
qed

theorem ReadLogs_latest_witness:
  "fst (ReadLogs (demo_json\<lparr>Unmarshal_Type := (\<lambda>_. Inr (Some 2))\<rparr>) ref_client
      (put (log_key 3) (Some (VList [''a'', ''b''])) empty_store) 3 1) = Inr ['': Mirror added'']"
proof -
  let ?J = "demo_json\<lparr>Unmarshal_Type := (\<lambda>_. Inr (Some 2))\<rparr>"
  let ?db = "put (log_key 3) (Some (VList [''a'', ''b''])) empty_store"
  have "redigo_ok (api ref_client) id" "calls_succeed (api ref_client) id" "cl_ready ref_client"
    by (simp_all add: ref_client_def ref_redis_ok ref_calls_succeed)
  moreover have "get_list (id ?db) (log_key 3) = Some [''a'', ''b'']" by (simp add: get_list_def)
  moreover have "read_line ?J x = Some '': Mirror added''" for x
    by (simp add: read_line_def demo_json_def typeToInstance_def float_int_def)
  ultimately show ?thesis
    using ReadLogs_latest [of ref_client id ?db 3 "[''a'', ''b'']" 1 1 ?J] by simp
qed

end
