(* ===== verification/Stats.thy ===== *)
theory Stats
  imports Calendar Mirror_Db
begin

text \<open>
  The download counters of \<^verbatim>\<open>http/stats.go\<close>.  The map of pending counts is an association list
  with distinct keys, its order the order in which Go happens to iterate.  Counting, flushing and
  termination are steps on the state; a flush is one transaction.
\<close>

section \<open>State\<close>

record countItem =
  ci_mirrorID :: int
  ci_filepath :: string
  ci_size :: int
  ci_time :: gotime

record Stats =
  countChan :: "countItem list"
  mapStats :: "(string \<times> int) list"
  downgraded :: bool

definition NewStats :: Stats where
  "NewStats = \<lparr>countChan = [], mapStats = [], downgraded = False\<rparr>"

text \<open>\<open>CountDownload\<close> puts an item in the channel; a full channel makes it wait.\<close>

definition CountDownload :: "gotime \<Rightarrow> Mirror \<Rightarrow> FileInfo \<Rightarrow> Stats \<Rightarrow> err option \<times> Stats" where
  "CountDownload now m fileinfo s =
     (if Name m = '''' then (Some ErrUnknownMirror, s)
      else if Path fileinfo = '''' then (Some ErrEmptyFile, s)
      else (None, s\<lparr>countChan := countChan s @
              [\<lparr>ci_mirrorID = ID m, ci_filepath = Path fileinfo, ci_size = Size fileinfo, ci_time = now\<rparr>]\<rparr>))"

definition stat_add :: "string \<Rightarrow> int \<Rightarrow> (string \<times> int) list \<Rightarrow> (string \<times> int) list" where
  "stat_add k v m = AList.update k (wrap64 ((case map_of m k of None \<Rightarrow> 0 | Some n \<Rightarrow> n) + v)) m"

definition count_item :: "countItem \<Rightarrow> (string \<times> int) list \<Rightarrow> (string \<times> int) list" where
  "count_item c m =
     (let date = Format_date (ci_time c) @ ''|''
      in stat_add (''s'' @ date @ Itoa (ci_mirrorID c)) (ci_size c)
           (stat_add (''m'' @ date @ Itoa (ci_mirrorID c)) 1
             (stat_add (''f'' @ date @ ci_filepath c) 1 m)))"

section \<open>Flushing\<close>

text \<open>The four keys of a date, from the day to all time: each is the previous one cut at its last underscore.\<close>

fun cut_keys :: "nat \<Rightarrow> string \<Rightarrow> string list gores" where
  "cut_keys 0 key = Inr []"
| "cut_keys (Suc n) key =
     (let i = LastIndex key (CHR ''_'')
      in if i < 0 then Inl SliceBounds
         else (case cut_keys n (take (nat i) key) of Inl p \<Rightarrow> Inl p | Inr ks \<Rightarrow> Inr (key # ks)))"

definition push_entry :: "string \<times> int \<Rightarrow> rcmd list gores" where
  "push_entry kv =
     (case kv of (k, v) \<Rightarrow>
        if v = 0 then Inr []
        else let separator = Index k ''|''
             in if separator \<le> 0 then Inr []
                else let typ = take 1 k; date = take (nat separator - 1) (drop 1 k);
                         object = drop (nat separator + 1) k
                     in if typ = ''f'' then
                          (case cut_keys 4 (''STATS_FILE_'' @ date) of
                             Inl p \<Rightarrow> Inl p
                           | Inr ks \<Rightarrow> Inr (map (\<lambda>key. HINCRBY key object v) ks @ [INCRBY ''STATS_TOTAL'' v]))
                        else if typ = ''m'' then
                          (case cut_keys 4 (''STATS_MIRROR_'' @ date) of
                             Inl p \<Rightarrow> Inl p | Inr ks \<Rightarrow> Inr (map (\<lambda>key. HINCRBY key object v) ks))
                        else if typ = ''s'' then
                          (case cut_keys 4 (''STATS_MIRROR_BYTES_'' @ date) of
                             Inl p \<Rightarrow> Inl p | Inr ks \<Rightarrow> Inr (map (\<lambda>key. HINCRBY key object v) ks))
                        else Inr [])"

fun push_entries :: "(string \<times> int) list \<Rightarrow> rcmd list gores" where
  "push_entries [] = Inr []"
| "push_entries (kv # kvs) =
     (case push_entry kv of
        Inl p \<Rightarrow> Inl p
      | Inr cs \<Rightarrow> (case push_entries kvs of Inl p \<Rightarrow> Inl p | Inr cs' \<Rightarrow> Inr (cs @ cs')))"

text \<open>\<open>conn_err\<close> is the error state of the connection, \<open>rconn.Err()\<close>.\<close>

definition pushStats :: "'db client \<Rightarrow> err option \<Rightarrow> 'db \<Rightarrow> Stats \<Rightarrow> (Stats \<times> 'db) gores" where
  "pushStats r conn_err db s =
     (if length (mapStats s) \<le> 0 then Inr (s, db)
      else if conn_err \<noteq> None \<or> \<not> cl_ready r then Inr (s\<lparr>downgraded := True\<rparr>, db)
      else (case push_entries (mapStats s) of
              Inl p \<Rightarrow> Inl p
            | Inr cmds \<Rightarrow>
                (let (rep, db') = conn_exec r db cmds
                 in if do_err rep \<noteq> None then Inr (s, db')
                    else Inr (s\<lparr>downgraded := False, mapStats := []\<rparr>, db'))))"

text \<open>The loop of \<open>processCountDownload\<close>: its three cases.\<close>

datatype stats_event = StatsCount | StatsTick "err option" | StatsStop "err option"

definition processCountDownload_step :: "'db client \<Rightarrow> stats_event \<Rightarrow> Stats \<Rightarrow> 'db \<Rightarrow> (Stats \<times> 'db) gores" where
  "processCountDownload_step r ev s db =
     (case ev of
        StatsCount \<Rightarrow>
          (case countChan s of
             [] \<Rightarrow> Inr (s, db)
           | c # cs \<Rightarrow> Inr (s\<lparr>countChan := cs, mapStats := count_item c (mapStats s)\<rparr>, db))
      | StatsTick e \<Rightarrow> pushStats r e db s
      | StatsStop e \<Rightarrow> pushStats r e db s)"

section \<open>The keys of a date\<close>

lemma LastIndex_append:
  "c \<notin> set w \<Longrightarrow> LastIndex (s @ c # w) c = int (length s)"
proof -
  assume "c \<notin> set w"
  then have "str_index (rev w @ c # rev s) [c] = Some (length w)"
  proof -
    assume a: "c \<notin> set w"
    have "c \<notin> set v \<Longrightarrow> str_index (v @ c # u) [c] = Some (length v)" for v u
      by (induction v) (auto simp: HasPrefix_def)
    from this [of "rev w" "rev s"] a show ?thesis by simp
  qed
  then show ?thesis by (simp add: LastIndex_def)
qed

lemma cut_key:
  "CHR ''_'' \<notin> set w \<Longrightarrow>
     cut_keys (Suc n) (s @ CHR ''_'' # w) =
       (case cut_keys n s of Inl p \<Rightarrow> Inl p | Inr ks \<Rightarrow> Inr ((s @ CHR ''_'' # w) # ks))"
  by (simp add: LastIndex_append)

definition date_keys :: "string \<Rightarrow> gotime \<Rightarrow> string list" where
  "date_keys base t =
     (case date_parts t of
        [y, m, d] \<Rightarrow> [base @ ''_'' @ y @ ''_'' @ m @ ''_'' @ d, base @ ''_'' @ y @ ''_'' @ m, base @ ''_'' @ y, base]
      | _ \<Rightarrow> [])"

lemma cut_date_keys:
  assumes "base = pre @ CHR ''_'' # w" and "CHR ''_'' \<notin> set w"
  shows "cut_keys 4 (base @ ''_'' @ Format_date t) = Inr (date_keys base t)"
proof (rule date_parts_three [of t])
  fix y m d assume p: "date_parts t = [pad_int 4 y, pad_int 2 m, pad_int 2 d]"
  let ?y = "pad_int 4 y" and ?m = "pad_int 2 m" and ?d = "pad_int 2 d"
  have "cut_keys (Suc 0) base = Inr [base]" using assms by (simp add: LastIndex_append)
  then have "cut_keys (Suc (Suc 0)) (base @ CHR ''_'' # ?y) = Inr [base @ CHR ''_'' # ?y, base]"
    by (subst cut_key) simp_all
  then have "cut_keys (Suc (Suc (Suc 0))) ((base @ CHR ''_'' # ?y) @ CHR ''_'' # ?m) =
      Inr [(base @ CHR ''_'' # ?y) @ CHR ''_'' # ?m, base @ CHR ''_'' # ?y, base]"
    by (subst cut_key) simp_all
  then have "cut_keys (Suc (Suc (Suc (Suc 0)))) (((base @ CHR ''_'' # ?y) @ CHR ''_'' # ?m) @ CHR ''_'' # ?d) =
      Inr [((base @ CHR ''_'' # ?y) @ CHR ''_'' # ?m) @ CHR ''_'' # ?d,
           (base @ CHR ''_'' # ?y) @ CHR ''_'' # ?m, base @ CHR ''_'' # ?y, base]"
    by (subst cut_key) simp_all
  then show ?thesis by (simp add: date_keys_def Format_date_def p numeral_eq_Suc del: cut_keys.simps)
qed

text \<open>The commands of one entry, by its type.\<close>

definition stat_base :: "char \<Rightarrow> string" where
  "stat_base c = (if c = CHR ''f'' then ''STATS_FILE'' else if c = CHR ''m'' then ''STATS_MIRROR'' else ''STATS_MIRROR_BYTES'')"

definition stat_key :: "char \<Rightarrow> gotime \<Rightarrow> string \<Rightarrow> string" where
  "stat_key c t obj = c # Format_date t @ CHR ''|'' # obj"

lemma str_index_bar: "CHR ''|'' \<notin> set w \<Longrightarrow> str_index (w @ CHR ''|'' # u) ''|'' = Some (length w)"
  by (induction w) (auto simp: HasPrefix_def)

lemma push_entry_stat:
  assumes "c \<in> {CHR ''f'', CHR ''m'', CHR ''s''}" and "v \<noteq> 0"
  shows "push_entry (stat_key c t obj, v) =
    Inr (map (\<lambda>key. HINCRBY key obj v) (date_keys (stat_base c) t) @
         (if c = CHR ''f'' then [INCRBY ''STATS_TOTAL'' v] else []))"
proof -
  have "CHR ''|'' \<notin> set (c # Format_date t)" using assms(1) by auto
  then have i: "Index (stat_key c t obj) ''|'' = int (Suc (length (Format_date t)))"
    using str_index_bar [of "c # Format_date t" obj] by (simp add: Index_def stat_key_def)
  have parts: "take 1 (stat_key c t obj) = [c]"
    "take (length (Format_date t)) (drop 1 (stat_key c t obj)) = Format_date t"
    "drop (length (Format_date t) + 2) (stat_key c t obj) = obj"
    by (simp_all add: stat_key_def)
  have cut: "cut_keys 4 (''STATS_FILE_'' @ Format_date t) = Inr (date_keys ''STATS_FILE'' t)"
    "cut_keys 4 (''STATS_MIRROR_'' @ Format_date t) = Inr (date_keys ''STATS_MIRROR'' t)"
    "cut_keys 4 (''STATS_MIRROR_BYTES_'' @ Format_date t) = Inr (date_keys ''STATS_MIRROR_BYTES'' t)"
    using cut_date_keys [of "''STATS_FILE''" "''STATS''" "''FILE''" t]
      cut_date_keys [of "''STATS_MIRROR''" "''STATS''" "''MIRROR''" t]
      cut_date_keys [of "''STATS_MIRROR_BYTES''" "''STATS_MIRROR''" "''BYTES''" t] by simp_all
  show ?thesis
    using assms parts cut
    by (auto simp: push_entry_def i Let_def stat_base_def nat_add_distrib simp del: cut_keys.simps)
qed

section \<open>What increments do to the keyspace\<close>

definition hash_int :: "store \<Rightarrow> string \<Rightarrow> string \<Rightarrow> int" where
  "hash_int s H f =
     (case get_hash s H of
        None \<Rightarrow> 0
      | Some h \<Rightarrow> (case bulk_int (map_of h f) of None \<Rightarrow> 0 | Some n \<Rightarrow> n))"

definition str_int :: "store \<Rightarrow> string \<Rightarrow> int" where
  "str_int s k =
     (case get_str s k of
        None \<Rightarrow> 0
      | Some v \<Rightarrow> (case bulk_int v of None \<Rightarrow> 0 | Some n \<Rightarrow> n))"

text \<open>Room for \<open>N\<close> more in every counter.\<close>

definition is_counter :: "int \<Rightarrow> string option \<Rightarrow> bool" where
  "is_counter N v \<longleftrightarrow> (case bulk_int v of None \<Rightarrow> False | Some n \<Rightarrow> 0 \<le> n \<and> n + N < 2 ^ 63)"

definition counters_ok :: "int \<Rightarrow> store \<Rightarrow> bool" where
  "counters_ok N s \<longleftrightarrow>
     0 \<le> N \<and>
     (\<forall>H. H \<noteq> ''STATS_TOTAL'' \<longrightarrow> HasPrefix H ''STATS_'' \<longrightarrow>
        (\<exists>h. get_hash s H = Some h \<and> (\<forall>f. is_counter N (map_of h f)))) \<and>
     (\<exists>v. get_str s ''STATS_TOTAL'' = Some v \<and> is_counter N v)"

fun stat_cmd :: "rcmd \<Rightarrow> bool" where
  "stat_cmd (HINCRBY k f i) \<longleftrightarrow> k \<noteq> ''STATS_TOTAL'' \<and> HasPrefix k ''STATS_'' \<and> 0 \<le> i"
| "stat_cmd (INCRBY k i) \<longleftrightarrow> k = ''STATS_TOTAL'' \<and> 0 \<le> i"
| "stat_cmd _ \<longleftrightarrow> False"

fun cmd_amount :: "rcmd \<Rightarrow> int" where
  "cmd_amount (HINCRBY k f i) = i"
| "cmd_amount (INCRBY k i) = i"
| "cmd_amount _ = 0"

fun hash_inc :: "string \<Rightarrow> string \<Rightarrow> rcmd \<Rightarrow> int" where
  "hash_inc H f (HINCRBY k g i) = (if k = H \<and> g = f then i else 0)"
| "hash_inc H f _ = 0"

fun str_inc :: "string \<Rightarrow> rcmd \<Rightarrow> int" where
  "str_inc H (INCRBY k i) = (if k = H then i else 0)"
| "str_inc H _ = 0"

lemma bulk_int_Itoa [simp]: "in_int64 n \<Longrightarrow> bulk_int (Some (Itoa n)) = Some n"
  by (simp add: bulk_int_def ParseInt_Itoa)

lemma get_hash_put_hash [simp]: "get_hash (put_hash k h s) H = (if H = k then Some h else get_hash s H)"
  by (simp add: get_hash_def put_hash_def put_def)

lemma get_str_put_hash: "H \<noteq> k \<Longrightarrow> get_str (put_hash k h s) H = get_str s H"
  by (simp add: get_str_def put_hash_def put_def)

lemma get_str_put [simp]: "get_str (put k (Some (VStr v)) s) H = (if H = k then Some (Some v) else get_str s H)"
  by (simp add: get_str_def put_def)

lemma get_hash_put_str: "H \<noteq> k \<Longrightarrow> get_hash (put k v s) H = get_hash s H"
  by (simp add: get_hash_def put_def)

lemma is_counterE:
  assumes "is_counter N v" obtains n where "bulk_int v = Some n" "0 \<le> n" "n + N < 2 ^ 63"
  using assms by (auto simp: is_counter_def split: option.splits)

lemma is_counter_mono: "is_counter N v \<Longrightarrow> M \<le> N \<Longrightarrow> is_counter M v"
  by (auto simp: is_counter_def split: option.splits)

lemma is_counter_Itoa: "0 \<le> n \<Longrightarrow> n + N < 2 ^ 63 \<Longrightarrow> 0 \<le> N \<Longrightarrow> is_counter N (Some (Itoa n))"
  by (simp add: is_counter_def in_int64_def)

lemma counters_hash:
  assumes "counters_ok N s" and "H \<noteq> ''STATS_TOTAL''" and "HasPrefix H ''STATS_''"
  obtains h where "get_hash s H = Some h" "\<And>f. is_counter N (map_of h f)"
  using assms unfolding counters_ok_def by blast

lemma counters_total:
  assumes "counters_ok N s"
  obtains v where "get_str s ''STATS_TOTAL'' = Some v" "is_counter N v"
  using assms unfolding counters_ok_def by blast

lemma counters_ok_mono: "counters_ok N s \<Longrightarrow> 0 \<le> M \<Longrightarrow> M \<le> N \<Longrightarrow> counters_ok M s"
proof -
  assume a: "counters_ok N s" "0 \<le> M" "M \<le> N"
  note mono = is_counter_mono [OF _ a(3)]
  obtain v where "get_str s ''STATS_TOTAL'' = Some v" "is_counter N v" by (rule counters_total [OF a(1)])
  moreover have "\<exists>h. get_hash s H = Some h \<and> (\<forall>f. is_counter M (map_of h f))"
    if "H \<noteq> ''STATS_TOTAL''" "HasPrefix H ''STATS_''" for H
    by (rule counters_hash [OF a(1) that]) (simp add: mono)
  ultimately show ?thesis using a(2) mono by (simp add: counters_ok_def)
qed

text \<open>A counting command succeeds when there is room, and adds to its own counter only.\<close>

definition counts :: "store \<Rightarrow> rcmd \<Rightarrow> store \<Rightarrow> bool" where
  "counts s c s' \<longleftrightarrow>
     (\<forall>H f. hash_int s' H f = hash_int s H f + hash_inc H f c) \<and>
     str_int s' ''STATS_TOTAL'' = str_int s ''STATS_TOTAL'' + str_inc ''STATS_TOTAL'' c"

lemma stat_cmd_HINCRBY:
  assumes "counters_ok N s" and "k \<noteq> ''STATS_TOTAL''" "HasPrefix k ''STATS_''" "0 \<le> i" "i \<le> N"
  shows "\<exists>r s'. redis_cmd s (HINCRBY k f i) = Some (r, s') \<and> counters_ok (N - i) s' \<and> counts s (HINCRBY k f i) s'"
proof -
  obtain h where h: "get_hash s k = Some h" "\<And>f. is_counter N (map_of h f)"
    using assms counters_hash by blast
  obtain n where n: "bulk_int (map_of h f) = Some n" "0 \<le> n" "n + N < 2 ^ 63"
    using h(2) is_counterE by blast
  have i64: "in_int64 (n + i)" using n assms by (simp add: in_int64_def)
  define s' where "s' = put_hash k (AList.update f (Itoa (n + i)) h) s"
  have r: "redis_cmd s (HINCRBY k f i) = Some (RInt (n + i), s')"
    using h(1) n(1) i64 by (simp add: s'_def)
  have tot: "get_str s' ''STATS_TOTAL'' = get_str s ''STATS_TOTAL''"
    using assms(2) by (simp add: s'_def get_str_put_hash)
  have cell: "is_counter (N - i) (map_of (AList.update f (Itoa (n + i)) h) g)" for g
    using is_counter_mono [OF h(2), of "N - i"] assms is_counter_Itoa [of "n + i" "N - i"] n
    by (simp add: update_conv')
  have "counters_ok (N - i) s'"
    unfolding counters_ok_def
  proof (intro conjI allI impI)
    show "0 \<le> N - i" using assms by simp
    show "\<exists>v. get_str s' ''STATS_TOTAL'' = Some v \<and> is_counter (N - i) v"
    proof (rule counters_total [OF assms(1)])
      fix v assume "get_str s ''STATS_TOTAL'' = Some v" "is_counter N v"
      then show ?thesis using is_counter_mono [of N v "N - i"] assms(4) tot by simp
    qed
  next
    fix H assume H: "H \<noteq> ''STATS_TOTAL''" "HasPrefix H ''STATS_''"
    obtain h' where h': "get_hash s H = Some h'" "\<And>f. is_counter N (map_of h' f)"
      using counters_hash [OF assms(1) H] by blast
    show "\<exists>h. get_hash s' H = Some h \<and> (\<forall>f. is_counter (N - i) (map_of h f))"
      using h' cell is_counter_mono [OF h'(2), of "N - i"] assms by (simp add: s'_def)
  qed
  moreover have "counts s (HINCRBY k f i) s'"
    using tot h(1) n i64 by (auto simp: counts_def str_int_def hash_int_def s'_def update_conv')
  ultimately show ?thesis using r by blast
qed

lemma stat_cmd_INCRBY:
  assumes "counters_ok N s" and "0 \<le> i" "i \<le> N"
  shows "\<exists>r s'. redis_cmd s (INCRBY ''STATS_TOTAL'' i) = Some (r, s') \<and> counters_ok (N - i) s' \<and>
           counts s (INCRBY ''STATS_TOTAL'' i) s'"
proof -
  obtain v where v: "get_str s ''STATS_TOTAL'' = Some v" "is_counter N v" by (rule counters_total [OF assms(1)])
  obtain n where n: "bulk_int v = Some n" "0 \<le> n" "n + N < 2 ^ 63" by (rule is_counterE [OF v(2)])
  have i64: "in_int64 (n + i)" using n assms by (simp add: in_int64_def)
  define s' where "s' = put ''STATS_TOTAL'' (Some (VStr (Itoa (n + i)))) s"
  have r: "redis_cmd s (INCRBY ''STATS_TOTAL'' i) = Some (RInt (n + i), s')"
    using v(1) n(1) i64 by (simp add: s'_def)
  have other: "H \<noteq> ''STATS_TOTAL'' \<Longrightarrow> get_hash s' H = get_hash s H" for H
    by (simp add: s'_def get_hash_put_str)
  have tot: "get_str s' ''STATS_TOTAL'' = Some (Some (Itoa (n + i)))" by (simp add: s'_def)
  have "counters_ok (N - i) s'"
    unfolding counters_ok_def
  proof (intro conjI allI impI)
    show "0 \<le> N - i" using assms by simp
    show "\<exists>v. get_str s' ''STATS_TOTAL'' = Some v \<and> is_counter (N - i) v"
      using is_counter_Itoa [of "n + i" "N - i"] n assms tot by simp
  next
    fix H assume H: "H \<noteq> ''STATS_TOTAL''" "HasPrefix H ''STATS_''"
    obtain h' where h': "get_hash s H = Some h'" "\<And>f. is_counter N (map_of h' f)"
      using counters_hash [OF assms(1) H] by blast
    then show "\<exists>h. get_hash s' H = Some h \<and> (\<forall>f. is_counter (N - i) (map_of h f))"
      using is_counter_mono [OF h'(2), of "N - i"] assms other [OF H(1)] by simp
  qed
  moreover have "counts s (INCRBY ''STATS_TOTAL'' i) s'"
  proof -
    have "hash_int s' H f = hash_int s H f" for H f
    proof (cases "H = ''STATS_TOTAL''")
      case True
      then show ?thesis using v(1)
        by (auto simp: hash_int_def get_hash_def get_str_def s'_def put_def bulk_int_def
            split: option.splits rval.splits)
    qed (simp add: hash_int_def other)
    then show ?thesis using tot i64 v(1) n(1) by (simp add: counts_def str_int_def)
  qed
  ultimately show ?thesis using r by blast
qed

lemma stat_cmd_counts:
  assumes "stat_cmd c" and "counters_ok N s" and "cmd_amount c \<le> N"
  shows "\<exists>r s'. redis_cmd s c = Some (r, s') \<and> counters_ok (N - cmd_amount c) s' \<and> counts s c s'"
  using assms stat_cmd_HINCRBY stat_cmd_INCRBY by (cases c) (simp_all del: redis_cmd.simps)

lemma stat_cmds_count:
  "list_all stat_cmd cs \<Longrightarrow> counters_ok N s \<Longrightarrow> sum_list (map cmd_amount cs) \<le> N \<Longrightarrow>
     \<exists>rs s'. redis_cmds s cs = Some (rs, s') \<and> counters_ok (N - sum_list (map cmd_amount cs)) s' \<and>
       (\<forall>H f. hash_int s' H f = hash_int s H f + sum_list (map (hash_inc H f) cs)) \<and>
       str_int s' ''STATS_TOTAL'' = str_int s ''STATS_TOTAL'' + sum_list (map (str_inc ''STATS_TOTAL'') cs)"
proof (induction cs arbitrary: N s)
  case (Cons c cs)
  have "0 \<le> cmd_amount x" if "stat_cmd x" for x using that by (cases x) simp_all
  then have "0 \<le> sum_list (map cmd_amount cs)"
    using Cons.prems(1) by (intro sum_list_nonneg) (auto simp: list_all_iff)
  then obtain r s1 where c: "redis_cmd s c = Some (r, s1)" "counters_ok (N - cmd_amount c) s1" "counts s c s1"
    using stat_cmd_counts [of c N s] Cons.prems by auto
  from Cons.IH [OF _ c(2)] Cons.prems obtain rs s2 where
    "redis_cmds s1 cs = Some (rs, s2)" "counters_ok (N - cmd_amount c - sum_list (map cmd_amount cs)) s2"
    "\<forall>H f. hash_int s2 H f = hash_int s1 H f + sum_list (map (hash_inc H f) cs)"
    "str_int s2 ''STATS_TOTAL'' = str_int s1 ''STATS_TOTAL'' + sum_list (map (str_inc ''STATS_TOTAL'') cs)"
    by auto
  then show ?case using c by (simp add: counts_def algebra_simps)
qed simp

section \<open>What a pending map is worth\<close>

definition worth :: "(string \<Rightarrow> int) \<Rightarrow> (string \<times> int) list \<Rightarrow> int" where
  "worth g m = (\<Sum>(k, v)\<leftarrow>m. g k * v)"

lemma worth_update:
  "worth g (AList.update k ((case map_of m k of None \<Rightarrow> 0 | Some n \<Rightarrow> n) + d) m) = worth g m + g k * d"
  by (induction m) (auto simp: worth_def algebra_simps split: option.splits)

definition stat_entry :: "string \<times> int \<Rightarrow> bool" where
  "stat_entry kv \<longleftrightarrow>
     (\<exists>c t obj. c \<in> {CHR ''f'', CHR ''m'', CHR ''s''} \<and> fst kv = stat_key c t obj) \<and> 0 \<le> snd kv"

definition entry_cmds :: "string \<Rightarrow> rcmd list" where
  "entry_cmds k = (case push_entry (k, 1) of Inl _ \<Rightarrow> [] | Inr cs \<Rightarrow> cs)"

definition hash_weight :: "string \<Rightarrow> string \<Rightarrow> string \<Rightarrow> int" where
  "hash_weight H f k = sum_list (map (hash_inc H f) (entry_cmds k))"

definition total_weight :: "string \<Rightarrow> int" where
  "total_weight k = sum_list (map (str_inc ''STATS_TOTAL'') (entry_cmds k))"

lemma date_keys_ok:
  "c \<in> {CHR ''f'', CHR ''m'', CHR ''s''} \<Longrightarrow> k \<in> set (date_keys (stat_base c) t) \<Longrightarrow>
     k \<noteq> ''STATS_TOTAL'' \<and> HasPrefix k ''STATS_''"
  by (rule date_parts_three [of t]) (auto simp: date_keys_def stat_base_def HasPrefix_def)

lemma date_keys_distinct: "distinct (date_keys base t)" "length (date_keys base t) = 4"
  by (rule date_parts_three [of t], simp add: date_keys_def)+

lemma entry_cmds_stat:
  "c \<in> {CHR ''f'', CHR ''m'', CHR ''s''} \<Longrightarrow>
     entry_cmds (stat_key c t obj) =
       map (\<lambda>key. HINCRBY key obj 1) (date_keys (stat_base c) t) @
       (if c = CHR ''f'' then [INCRBY ''STATS_TOTAL'' 1] else [])"
  by (simp add: entry_cmds_def push_entry_stat)

lemma hash_incs_keys:
  "distinct ks \<Longrightarrow>
     sum_list (map (hash_inc H f) (map (\<lambda>key. HINCRBY key obj v) ks)) = (if H \<in> set ks \<and> obj = f then v else 0)"
  by (induction ks) auto

lemma str_incs_keys: "sum_list (map (str_inc H) (map (\<lambda>key. HINCRBY key obj v) ks)) = 0"
  by (induction ks) auto

lemma amount_keys: "sum_list (map cmd_amount (map (\<lambda>key. HINCRBY key obj v) ks)) = int (length ks) * v"
  by (induction ks) (auto simp: algebra_simps)

lemma hash_weight_stat:
  "c \<in> {CHR ''f'', CHR ''m'', CHR ''s''} \<Longrightarrow>
     hash_weight H f (stat_key c t obj) = (if H \<in> set (date_keys (stat_base c) t) \<and> obj = f then 1 else 0)"
  unfolding hash_weight_def entry_cmds_stat map_append sum_list_append
  by (subst hash_incs_keys) (simp_all add: date_keys_distinct)

lemma total_weight_stat:
  "c \<in> {CHR ''f'', CHR ''m'', CHR ''s''} \<Longrightarrow>
     total_weight (stat_key c t obj) = (if c = CHR ''f'' then 1 else 0)"
  unfolding total_weight_def entry_cmds_stat map_append sum_list_append str_incs_keys by simp

text \<open>The commands of an entry are counting commands that add its value where its key is worth something.\<close>

lemma push_entry_worth:
  assumes "stat_entry (k, v)"
  shows "\<exists>cs. push_entry (k, v) = Inr cs \<and> list_all stat_cmd cs \<and> sum_list (map cmd_amount cs) \<le> 5 * v \<and>
    (\<forall>H f. sum_list (map (hash_inc H f) cs) = hash_weight H f k * v) \<and>
    sum_list (map (str_inc ''STATS_TOTAL'') cs) = total_weight k * v"
proof (cases "v = 0")
  case True then show ?thesis by (simp add: push_entry_def)
next
  case False
  obtain c t obj where k: "c \<in> {CHR ''f'', CHR ''m'', CHR ''s''}" "k = stat_key c t obj" "0 \<le> v"
    using assms by (auto simp: stat_entry_def)
  let ?hs = "map (\<lambda>key. HINCRBY key obj v) (date_keys (stat_base c) t)"
    and ?t = "if c = CHR ''f'' then [INCRBY ''STATS_TOTAL'' v] else []"
  have "list_all stat_cmd (?hs @ ?t)"
    using date_keys_ok [OF k(1)] k(3) by (auto simp: list_all_iff)
  moreover have "sum_list (map cmd_amount (?hs @ ?t)) \<le> 5 * v"
    unfolding map_append sum_list_append amount_keys using k(3) by (simp add: date_keys_distinct)
  moreover have "sum_list (map (hash_inc H f) (?hs @ ?t)) = hash_weight H f k * v" for H f
    unfolding map_append sum_list_append hash_incs_keys [OF date_keys_distinct(1)] k(2) hash_weight_stat [OF k(1)]
    by simp
  moreover have "sum_list (map (str_inc ''STATS_TOTAL'') (?hs @ ?t)) = total_weight k * v"
    unfolding map_append sum_list_append str_incs_keys k(2) total_weight_stat [OF k(1)] by simp
  ultimately show ?thesis using push_entry_stat [OF k(1) False] k(2) by metis
qed

lemma push_entries_worth:
  "list_all stat_entry m \<Longrightarrow>
     \<exists>cs. push_entries m = Inr cs \<and> list_all stat_cmd cs \<and> sum_list (map cmd_amount cs) \<le> 5 * worth (\<lambda>_. 1) m \<and>
       (\<forall>H f. sum_list (map (hash_inc H f) cs) = worth (hash_weight H f) m) \<and>
       sum_list (map (str_inc ''STATS_TOTAL'') cs) = worth total_weight m"
proof (induction m)
  case (Cons kv m)
  obtain k v where kv: "kv = (k, v)" by (cases kv)
  from Cons.prems kv push_entry_worth [of k v] obtain cs where
    "push_entry (k, v) = Inr cs" "list_all stat_cmd cs" "sum_list (map cmd_amount cs) \<le> 5 * v"
    "\<forall>H f. sum_list (map (hash_inc H f) cs) = hash_weight H f k * v"
    "sum_list (map (str_inc ''STATS_TOTAL'') cs) = total_weight k * v" by auto
  with Cons show ?case by (auto simp: kv worth_def)
qed (simp add: worth_def)

section \<open>No download is lost or counted twice\<close>

text \<open>What one counted download adds to field \<open>f\<close> of the hash \<open>H\<close>.\<close>

definition item_counts :: "string \<Rightarrow> string \<Rightarrow> countItem \<Rightarrow> int" where
  "item_counts H f c =
     (if H \<in> set (date_keys ''STATS_FILE'' (ci_time c)) \<and> f = ci_filepath c then 1 else 0) +
     (if H \<in> set (date_keys ''STATS_MIRROR'' (ci_time c)) \<and> f = Itoa (ci_mirrorID c) then 1 else 0) +
     (if H \<in> set (date_keys ''STATS_MIRROR_BYTES'' (ci_time c)) \<and> f = Itoa (ci_mirrorID c) then ci_size c else 0)"

definition pending :: "Stats \<Rightarrow> int" where
  "pending s = worth (\<lambda>_. 1) (mapStats s) + (\<Sum>c\<leftarrow>countChan s. 2 + ci_size c)"

definition stats_wf :: "Stats \<Rightarrow> bool" where
  "stats_wf s \<longleftrightarrow>
     list_all stat_entry (mapStats s) \<and> list_all (\<lambda>c. 0 \<le> ci_size c) (countChan s) \<and> pending s < 2 ^ 63"

definition owed :: "string \<Rightarrow> string \<Rightarrow> Stats \<Rightarrow> int" where
  "owed H f s = worth (hash_weight H f) (mapStats s) + (\<Sum>c\<leftarrow>countChan s. item_counts H f c)"

definition owed_total :: "Stats \<Rightarrow> int" where
  "owed_total s = worth total_weight (mapStats s) + int (length (countChan s))"

lemma worth_nonneg: "list_all stat_entry m \<Longrightarrow> 0 \<le> worth (\<lambda>_. 1) m"
  unfolding worth_def by (intro sum_list_nonneg) (auto simp: list_all_iff stat_entry_def)

lemma worth_Cons [simp]: "worth g (kv # m) = g (fst kv) * snd kv + worth g m"
  by (simp add: worth_def case_prod_beta)

lemma stat_entry_le_worth: "list_all stat_entry m \<Longrightarrow> map_of m k = Some v \<Longrightarrow> 0 \<le> v \<and> v \<le> worth (\<lambda>_. 1) m"
proof (induction m)
  case (Cons kv m)
  have "0 \<le> worth (\<lambda>_. 1) m" "0 \<le> snd kv" using Cons.prems(1) worth_nonneg [of m] by (simp_all, simp add: stat_entry_def)
  with Cons show ?case by (cases "fst kv = k") auto
qed simp

lemma stat_entries_update:
  "list_all stat_entry m \<Longrightarrow> stat_entry (k, v) \<Longrightarrow> list_all stat_entry (AList.update k v m)"
  by (induction m) auto

lemma stat_add_worth:
  assumes "list_all stat_entry m" and "0 \<le> d" and "worth (\<lambda>_. 1) m + d < 2 ^ 63"
    and "c \<in> {CHR ''f'', CHR ''m'', CHR ''s''}" and "k = stat_key c t obj"
  shows "list_all stat_entry (stat_add k d m)" "worth g (stat_add k d m) = worth g m + g k * d"
proof -
  define n where "n = (case map_of m k of None \<Rightarrow> 0 | Some i \<Rightarrow> i)"
  have o: "0 \<le> n" "n \<le> worth (\<lambda>_. 1) m"
    using stat_entry_le_worth [OF assms(1), of k] worth_nonneg [OF assms(1)]
    by (auto simp: n_def split: option.split)
  then have "in_int64 (n + d)" using assms by (simp add: in_int64_def)
  then have e: "stat_add k d m = AList.update k (n + d) m" by (simp add: stat_add_def n_def)
  have "stat_entry (k, n + d)"
    unfolding stat_entry_def fst_conv snd_conv
  proof (intro conjI exI)
    show "c \<in> {CHR ''f'', CHR ''m'', CHR ''s''}" "k = stat_key c t obj" by fact+
    show "0 \<le> n + d" using o(1) assms(2) by simp
  qed
  then show "list_all stat_entry (stat_add k d m)" unfolding e by (rule stat_entries_update [OF assms(1)])
  show "worth g (stat_add k d m) = worth g m + g k * d" unfolding e n_def by (rule worth_update)
qed

lemma count_item_worth:
  assumes "list_all stat_entry m" and "0 \<le> ci_size c" and "worth (\<lambda>_. 1) m + 2 + ci_size c < 2 ^ 63"
  shows "list_all stat_entry (count_item c m)"
    and "worth g (count_item c m) = worth g m + g (stat_key (CHR ''f'') (ci_time c) (ci_filepath c)) +
      g (stat_key (CHR ''m'') (ci_time c) (Itoa (ci_mirrorID c))) +
      g (stat_key (CHR ''s'') (ci_time c) (Itoa (ci_mirrorID c))) * ci_size c"
proof -
  let ?f = "stat_key (CHR ''f'') (ci_time c) (ci_filepath c)"
    and ?m = "stat_key (CHR ''m'') (ci_time c) (Itoa (ci_mirrorID c))"
    and ?s = "stat_key (CHR ''s'') (ci_time c) (Itoa (ci_mirrorID c))"
  have e: "count_item c m = stat_add ?s (ci_size c) (stat_add ?m 1 (stat_add ?f 1 m))"
    by (simp add: count_item_def stat_key_def)
  have f: "list_all stat_entry (stat_add ?f 1 m)" "worth h (stat_add ?f 1 m) = worth h m + h ?f" for h
    using stat_add_worth [OF assms(1), of 1 "CHR ''f''" ?f "ci_time c" "ci_filepath c"] assms by simp_all
  have m: "list_all stat_entry (stat_add ?m 1 (stat_add ?f 1 m))"
    "worth h (stat_add ?m 1 (stat_add ?f 1 m)) = worth h m + h ?f + h ?m" for h
    using stat_add_worth [OF f(1), of 1 "CHR ''m''" ?m "ci_time c" "Itoa (ci_mirrorID c)"] assms
    by (simp_all add: f(2))
  note s = stat_add_worth [OF m(1), of "ci_size c" "CHR ''s''" ?s "ci_time c" "Itoa (ci_mirrorID c)"]
  show "list_all stat_entry (count_item c m)" unfolding e using s assms by (simp add: m(2))
  show "worth g (count_item c m) = worth g m + g ?f + g ?m + g ?s * ci_size c"
    unfolding e using s assms by (simp add: m(2))
qed

lemma item_counts_worth:
  "item_counts H f c =
     hash_weight H f (stat_key (CHR ''f'') (ci_time c) (ci_filepath c)) +
     hash_weight H f (stat_key (CHR ''m'') (ci_time c) (Itoa (ci_mirrorID c))) +
     hash_weight H f (stat_key (CHR ''s'') (ci_time c) (Itoa (ci_mirrorID c))) * ci_size c"
  by (auto simp: item_counts_def hash_weight_stat stat_base_def)

definition books :: "Stats \<Rightarrow> store \<Rightarrow> Stats \<Rightarrow> store \<Rightarrow> bool" where
  "books s st s' st' \<longleftrightarrow>
     stats_wf s' \<and> counters_ok (5 * pending s') st' \<and>
     (\<forall>H f. hash_int st' H f + owed H f s' = hash_int st H f + owed H f s) \<and>
     str_int st' ''STATS_TOTAL'' + owed_total s' = str_int st ''STATS_TOTAL'' + owed_total s"

lemma books_refl: "stats_wf s \<Longrightarrow> counters_ok (5 * pending s) st \<Longrightarrow> books s st s st"
  by (simp add: books_def)

lemma books_trans: "books s st s1 st1 \<Longrightarrow> books s1 st1 s2 st2 \<Longrightarrow> books s st s2 st2"
  by (simp add: books_def)

lemma books_count:
  assumes "stats_wf s" "counters_ok (5 * pending s) st" "countChan s = c # cs"
  shows "books s st (s\<lparr>countChan := cs, mapStats := count_item c (mapStats s)\<rparr>) st"
proof -
  have q: "0 \<le> (\<Sum>c\<leftarrow>cs. 2 + ci_size c)"
    using assms(1,3) by (intro sum_list_nonneg) (auto simp: stats_wf_def list_all_iff)
  have a: "list_all stat_entry (mapStats s)" "0 \<le> ci_size c" "worth (\<lambda>_. 1) (mapStats s) + 2 + ci_size c < 2 ^ 63"
    using assms q by (auto simp: stats_wf_def pending_def)
  note w = count_item_worth [OF a]
  have p: "pending (s\<lparr>countChan := cs, mapStats := count_item c (mapStats s)\<rparr>) = pending s"
    using assms(3) by (simp add: pending_def w(2))
  have t: "owed_total (s\<lparr>countChan := cs, mapStats := count_item c (mapStats s)\<rparr>) = owed_total s"
    using assms(3) by (simp add: owed_total_def w(2) total_weight_stat)
  have "owed H f (s\<lparr>countChan := cs, mapStats := count_item c (mapStats s)\<rparr>) = owed H f s" for H f
    using assms(3) by (simp add: owed_def w(2) item_counts_worth)
  then show ?thesis using assms p t w(1) by (simp add: books_def stats_wf_def)
qed

lemma books_push:
  assumes ok: "redigo_ok (api r) \<alpha>" and def: "\<And>db cs e db'. rd_exec (api r) db cs = (Inl e, db') \<Longrightarrow> is_reply_error e"
    and s: "stats_wf s" "counters_ok (5 * pending s) (\<alpha> db)"
  shows "\<exists>s' db'. pushStats r e db s = Inr (s', db') \<and> books s (\<alpha> db) s' (\<alpha> db') \<and> countChan s' = countChan s"
proof -
  obtain cs where cs: "push_entries (mapStats s) = Inr cs" "list_all stat_cmd cs"
    "sum_list (map cmd_amount cs) \<le> 5 * worth (\<lambda>_. 1) (mapStats s)"
    "\<And>H f. sum_list (map (hash_inc H f) cs) = worth (hash_weight H f) (mapStats s)"
    "sum_list (map (str_inc ''STATS_TOTAL'') cs) = worth total_weight (mapStats s)"
    using push_entries_worth s(1) unfolding stats_wf_def by blast
  have q: "0 \<le> (\<Sum>c\<leftarrow>countChan s. 2 + ci_size c)"
    using s(1) by (intro sum_list_nonneg) (auto simp: stats_wf_def list_all_iff)
  let ?p = "5 * pending s - sum_list (map cmd_amount cs)"
  obtain rs st' where st: "redis_cmds (\<alpha> db) cs = Some (rs, st')" "counters_ok ?p st'"
    "\<And>H f. hash_int st' H f = hash_int (\<alpha> db) H f + worth (hash_weight H f) (mapStats s)"
    "str_int st' ''STATS_TOTAL'' = str_int (\<alpha> db) ''STATS_TOTAL'' + worth total_weight (mapStats s)"
    using stat_cmds_count [OF cs(2) s(2)] cs(3,4,5) q unfolding pending_def by auto
  obtain rep db' where ex: "rd_exec (api r) db cs = (rep, db')" by fastforce
  have out: "outcome_ok (\<alpha> db) st' (\<lambda>r. \<exists>rs'. r = RMulti rs' \<and> length rs' = length rs \<and>
             (\<forall>i < length rs. same_reply (cs ! i) (rs ! i) (rs' ! i))) rep (\<alpha> db')"
    using ok st(1) ex unfolding redigo_ok_def exec_ok_def by blast
  have room: "counters_ok (5 * pending s1) st'" if "pending s1 = (\<Sum>c\<leftarrow>countChan s. 2 + ci_size c)" for s1
    using counters_ok_mono [OF st(2), of "5 * pending s1"] cs(3) q that unfolding pending_def by simp
  show ?thesis
  proof (cases rep)
    case (Inl e')
    then have "\<alpha> db' = \<alpha> db" using out def [of db cs e' db'] ex by (simp add: outcome_ok_def)
    moreover have "books s (\<alpha> db) (s\<lparr>downgraded := True\<rparr>) (\<alpha> db)"
      using s by (simp add: books_def stats_wf_def owed_def owed_total_def pending_def)
    ultimately show ?thesis using s cs(1) ex Inl
      by (simp add: pushStats_def conn_exec_def do_err_def books_refl)
  next
    case (Inr rp)
    then have db': "\<alpha> db' = st'" using out by (simp add: outcome_ok_def)
    let ?s = "s\<lparr>downgraded := False, mapStats := []\<rparr>"
    have "books s (\<alpha> db) ?s (\<alpha> db')"
      using s(1) st(3,4) q worth_nonneg [of "mapStats s"] room [of ?s]
      by (simp add: books_def db' stats_wf_def owed_def owed_total_def pending_def worth_def [where m = "[]"])
    moreover have "books s (\<alpha> db) (s\<lparr>downgraded := True\<rparr>) (\<alpha> db)"
      using s by (simp add: books_def stats_wf_def owed_def owed_total_def pending_def)
    ultimately show ?thesis using s cs(1) ex Inr
      by (simp add: pushStats_def conn_exec_def do_err_def books_refl)
  qed
qed

text \<open>The loop of \<open>processCountDownload\<close> over the cases its \<open>select\<close> takes; it ends with the first stop.\<close>

fun processCountDownload :: "'db client \<Rightarrow> stats_event list \<Rightarrow> Stats \<Rightarrow> 'db \<Rightarrow> (Stats \<times> 'db) gores" where
  "processCountDownload r [] s db = Inr (s, db)"
| "processCountDownload r (ev # evs) s db =
     (case processCountDownload_step r ev s db of
        Inl p \<Rightarrow> Inl p
      | Inr (s1, db1) \<Rightarrow>
          (case ev of StatsStop _ \<Rightarrow> Inr (s1, db1) | _ \<Rightarrow> processCountDownload r evs s1 db1))"

definition definite_exec :: "'db redigo \<Rightarrow> bool" where
  "definite_exec R \<longleftrightarrow> (\<forall>db cs e db'. rd_exec R db cs = (Inl e, db') \<longrightarrow> is_reply_error e)"

lemma books_step:
  assumes "redigo_ok (api r) \<alpha>" and "definite_exec (api r)" and "stats_wf s" "counters_ok (5 * pending s) (\<alpha> db)"
  shows "\<exists>s' db'. processCountDownload_step r ev s db = Inr (s', db') \<and> books s (\<alpha> db) s' (\<alpha> db')"
proof -
  have push: "\<exists>s' db'. pushStats r e db s = Inr (s', db') \<and> books s (\<alpha> db) s' (\<alpha> db')" for e
    using books_push [OF assms(1) _ assms(3,4)] assms(2) unfolding definite_exec_def by blast
  show ?thesis
    using push books_refl [OF assms(3,4)] books_count [OF assms(3,4)]
    by (cases ev) (auto simp: processCountDownload_step_def split: list.split)
qed

lemma books_run:
  assumes "redigo_ok (api r) \<alpha>" and "definite_exec (api r)"
  shows "stats_wf s \<Longrightarrow> counters_ok (5 * pending s) (\<alpha> db) \<Longrightarrow>
    \<exists>s' db'. processCountDownload r evs s db = Inr (s', db') \<and> books s (\<alpha> db) s' (\<alpha> db')"
proof (induction evs arbitrary: s db)
  case Nil then show ?case by (simp add: books_refl)
next
  case (Cons ev evs)
  obtain s1 db1 where 1: "processCountDownload_step r ev s db = Inr (s1, db1)" "books s (\<alpha> db) s1 (\<alpha> db1)"
    using books_step [OF assms Cons.prems] by blast
  then obtain s2 db2 where 2: "processCountDownload r evs s1 db1 = Inr (s2, db2)" "books s1 (\<alpha> db1) s2 (\<alpha> db2)"
    using Cons.IH [of s1 db1] unfolding books_def by blast
  show ?case using 1 2 books_trans [OF 1(2) 2(2)] by (cases ev) simp_all
qed


definition demo_item :: countItem where
  "demo_item = \<lparr>ci_mirrorID = 7, ci_filepath = ''/f'', ci_size = 12, ci_time = unix_epoch * time_Second\<rparr>"

definition demo_stats :: Stats where
  "demo_stats = NewStats\<lparr>countChan := [demo_item]\<rparr>"

lemma ref_push_clears:
  assumes "stats_wf s" "counters_ok (5 * pending s) db"
  shows "\<exists>s' db'. pushStats ref_client None db s = Inr (s', db') \<and> mapStats s' = [] \<and> countChan s' = countChan s"
proof -
  obtain cs where cs: "push_entries (mapStats s) = Inr cs" "list_all stat_cmd cs"
    "sum_list (map cmd_amount cs) \<le> 5 * worth (\<lambda>_. 1) (mapStats s)"
    using push_entries_worth assms(1) unfolding stats_wf_def by blast
  have "0 \<le> (\<Sum>c\<leftarrow>countChan s. 2 + ci_size c)"
    using assms(1) by (intro sum_list_nonneg) (auto simp: stats_wf_def list_all_iff)
  then obtain rs st' where "redis_cmds db cs = Some (rs, st')"
    using stat_cmds_count [OF cs(2) assms(2)] cs(3) unfolding pending_def by auto
  then show ?thesis using cs(1)
    by (simp add: pushStats_def conn_exec_def ref_client_def ref_redis_def do_err_def)
qed

lemma counters_ok_empty: "0 \<le> N \<Longrightarrow> N < 2 ^ 63 \<Longrightarrow> counters_ok N empty_store"
  by (simp add: counters_ok_def empty_store_def get_hash_def get_str_def is_counter_def bulk_int_def)

lemma demo_wf: "stats_wf demo_stats" "pending demo_stats = 14"
  by (simp_all add: stats_wf_def demo_stats_def NewStats_def pending_def worth_def demo_item_def)

lemma ref_definite: "definite_exec (api ref_client)"
  by (auto simp: definite_exec_def ref_client_def ref_redis_def is_reply_error_def split: option.splits)

lemma ref_client_ok: "redigo_ok (api ref_client) id"
  using ref_redis_ok by (simp add: ref_client_def)

lemma demo_flush:
  "\<exists>s' db'. processCountDownload ref_client [StatsCount, StatsStop None] demo_stats empty_store = Inr (s', db') \<and>
     mapStats s' = [] \<and> countChan s' = []"
proof -
  have c: "countChan demo_stats = [demo_item]" by (simp add: demo_stats_def)
  let ?s = "demo_stats\<lparr>countChan := [], mapStats := count_item demo_item (mapStats demo_stats)\<rparr>"
  have "books demo_stats empty_store ?s empty_store"
    using books_count [OF demo_wf(1) _ c] counters_ok_empty demo_wf(2) by simp
  then obtain s' db' where "pushStats ref_client None empty_store ?s = Inr (s', db')" "mapStats s' = []" "countChan s' = []"
    using ref_push_clears [of ?s empty_store] unfolding books_def by auto
  then show ?thesis using c by (simp add: processCountDownload_step_def)
qed


end
