(* ===== verification/Http.thy ===== *)
theory Http
  imports Http_Render Stats "HOL-Library.Sublist"
begin

text \<open>
  The request handlers of \<^verbatim>\<open>http/http.go\<close>.  A handler is a function of the request and of the server's
  state (cache, database, pending statistics, file tree) to the calls it makes on its response
  and the new state, or a panic; \<open>None\<close> stands for fuel running out in a traversal of the file
  tree, which its invariant excludes.  The file system, the GeoIP readers, random numbers and the
  clock are arguments.
\<close>

section \<open>State and environment\<close>

record 'db http_state =
  h_cache :: Cache
  h_db :: 'db
  h_stats :: Stats
  h_layers :: layers

record ('db, 'a) http_env =
  e_cnf :: Configuration
  e_cache :: "'db cache_env"
  e_os :: os_env
  e_Stat :: "string \<Rightarrow> err option"
  e_layer :: layer_env
  e_render :: render_env
  e_geoip :: "'a GeoIP"
  e_ParseIP :: "string \<Rightarrow> 'a option"
  e_rnd :: "nat \<Rightarrow> nat"
  e_coin :: "nat \<Rightarrow> nat \<Rightarrow> bool"
  e_now :: gotime
  e_zone :: duration

record request =
  rq_Path :: string
  rq_XForwardedFor :: string
  rq_RemoteAddr :: string
  rq_Accept :: string

type_synonym 'db handled = "(wcall list \<times> 'db http_state) gores option"

section \<open>Mirrors for a request\<close>

text \<open>
  The map of \<open>GetSelectorList\<close> is empty exactly when the list of selected files is.
\<close>

definition mirrorSelector ::
  "('db, 'a) http_env \<Rightarrow> Context \<Rightarrow> FileInfo \<Rightarrow> GeoIPRecord \<Rightarrow> 'db http_state \<Rightarrow>
   ((Mirrors \<times> Mirrors \<times> err option) \<times> 'db http_state) gores" where
  "mirrorSelector env ctx fileInfo clientInfo h =
     (case filepath_Abs_wd (os_Getwd (e_os env)) (Repository (e_cnf env) @ Path fileInfo) of
        Inl e \<Rightarrow> Inr (([], [], Some e), h)
      | Inr relPath \<Rightarrow>
     (case e_Stat env relPath of
        Some e \<Rightarrow> Inr (([], [], Some e), h)
      | None \<Rightarrow>
          if selectorList (h_layers h) = [] then Inr (([], [], None), h)
          else if length (Path fileInfo) < 1 then Inl SliceBounds
          else (case GetSelectorList (h_layers h) (drop 1 (Path fileInfo)) of
                  None \<Rightarrow> Inr (([], [], None), h)
                | Some [] \<Rightarrow> Inr (([], [], None), h)
                | Some (p # _) \<Rightarrow>
                    (let f = node_at (h_layers h) p in
                     case GetMirrors (e_cache env) (e_now env) (h_cache h) (h_db h) (lf_Dir f @ Sep @ lf_Name f) clientInfo of
                       Inl pn \<Rightarrow> Inl pn
                     | Inr ((ms, Some e), c, db) \<Rightarrow> Inr (([], [], Some e), h\<lparr>h_cache := c, h_db := db\<rparr>)
                     | Inr ((ms, None), c, db) \<Rightarrow>
                         (let h' = h\<lparr>h_cache := c, h_db := db\<rparr> in
                          case ms of
                            [] \<Rightarrow> Inr (([], [], Some (ErrMsg ''neither of mirrors have requested file(s)'')), h')
                          | m # _ \<Rightarrow>
                              (case m_FileInfo m of
                                 None \<Rightarrow> Inl NilDeref
                               | Some fi \<Rightarrow>
                                   (case Selection (e_rnd env) ctx fi clientInfo ms (e_cnf env) of
                                      (mList, mExcluded, Some e) \<Rightarrow> Inr (([], [], Some e), h')
                                    | (mList, mExcluded, None) \<Rightarrow> Inr ((mList, mExcluded, None), h'))))))))"

text \<open>
  A \<open>net.Error\<close>.  The error of an unready database is not one: its methods have pointer receivers
  and the value returned is not a pointer.
\<close>

definition is_net_error :: "err option \<Rightarrow> bool" where
  "is_net_error e \<longleftrightarrow> (case e of Some (ErrNetwork _) \<Rightarrow> True | _ \<Rightarrow> False)"

definition fallback_mirror :: "nat \<Rightarrow> Fallback \<Rightarrow> Mirror" where
  "fallback_mirror i f =
     zero_mirror
       \<lparr>ID := int i * -1, Name := fb_Name f, HttpURL := fb_URL f,
        CountryCodes := ToUpper (fb_CountryCode f),
        Country := (if ToUpper (fb_CountryCode f) = ''CN'' \<or> ToUpper (fb_CountryCode f) = ''CHINA'' then ''China'' else ''''),
        CountryFields := [ToUpper (fb_CountryCode f)],
        NetworkBandwidth := fb_NetworkBandwidth f,
        ContinentCode := ToUpper (fb_ContinentCode f)\<rparr>"

definition fallback_list :: "Configuration \<Rightarrow> Mirrors" where
  "fallback_list cnf = map (\<lambda>(i, f). fallback_mirror i f) (enumerate 0 (Fallbacks cnf))"

text \<open>
  \<open>sort.Sort(ByRank)\<close>: for a client without a location every comparison of the insertion sort is a coin;
  \<open>coin i j\<close> is the \<open>j\<close>th one drawn for the \<open>i\<close>th element.
\<close>

definition sift_coin :: "(nat \<Rightarrow> bool) \<Rightarrow> 'a \<Rightarrow> 'a list \<Rightarrow> 'a list" where
  "sift_coin c x ys = (let k = length (takeWhile c [0..<length ys]) in take k ys @ x # drop k ys)"

definition coin_sort :: "(nat \<Rightarrow> nat \<Rightarrow> bool) \<Rightarrow> 'a list \<Rightarrow> 'a list" where
  "coin_sort coin xs = rev (fold (\<lambda>(i, x). sift_coin (coin i) x) (enumerate 0 xs) [])"

definition sort_ByRank :: "(nat \<Rightarrow> nat \<Rightarrow> bool) \<Rightarrow> GeoIPRecord \<Rightarrow> Mirrors \<Rightarrow> Mirrors" where
  "sort_ByRank coin clientInfo ms =
     (if geo_IsValid clientInfo then go_sort (ByRank_Less False clientInfo) ms else coin_sort coin ms)"

definition fold_country :: "Mirror \<Rightarrow> Mirror" where
  "fold_country m =
     (if CountryCodes m = ''TWN'' \<or> CountryCodes m = ''TPE'' \<or> CountryCodes m = ''TW'' then
        m\<lparr>CountryCodes := ''CN'', Country := ''China''\<rparr>
      else if CountryCodes m = ''HK'' \<or> CountryCodes m = ''HKSAR'' \<or> CountryCodes m = ''HKG'' then
        m\<lparr>CountryCodes := ''CN'', Country := ''China''\<rparr>
      else if CountryCodes m = ''MO'' \<or> CountryCodes m = ''MC'' \<or> CountryCodes m = ''OMA'' then
        m\<lparr>CountryCodes := ''CN'', Country := ''China''\<rparr>
      else m)"

definition edit_path :: "string \<Rightarrow> string" where
  "edit_path p = (if HasSuffix p ''/ISO/'' then take (length p - 5) p else p)"

definition remote_ip :: "('db, 'a) http_env \<Rightarrow> Context \<Rightarrow> request \<Rightarrow> string gores" where
  "remote_ip env ctx rq =
     (let ip = ExtractRemoteIP (rq_XForwardedFor rq)
      in case (if length ip = 0 then RemoteIPFromAddr (rq_RemoteAddr rq) else Inr ip) of
           Inl p \<Rightarrow> Inl p
         | Inr ip1 \<Rightarrow>
             Inr (if isMirrorList ctx \<and> e_ParseIP env (QueryParam ctx ''fromip'') \<noteq> None
                  then QueryParam ctx ''fromip'' else ip1))"

text \<open>The answer when the mirrors are known: \<open>mlist\<close> is the whole list, already folded.\<close>

definition answer_mirrors ::
  "('db, 'a) http_env \<Rightarrow> Context \<Rightarrow> request \<Rightarrow> string \<Rightarrow> string \<Rightarrow> GeoIPRecord \<Rightarrow> Mirrors \<Rightarrow> Mirrors \<Rightarrow> bool \<Rightarrow>
   'db http_state \<Rightarrow> 'db handled" where
  "answer_mirrors env ctx rq urlPath remoteIP clientInfo mlist excluded fallback h =
     (if length urlPath < 1 then Some (Inl SliceBounds)
      else (case GetRepoFileList (length (nodes (h_layers h))) (e_layer env) (e_cnf env) (drop 1 urlPath) (h_layers h) of
              None \<Rightarrow> None
            | Some (Inl p) \<Rightarrow> Some (Inl p)
            | Some (Inr (tree, l)) \<Rightarrow>
                (let fileInfo = NewFileInfo urlPath;
                     results = \<lparr>r_FileInfo = fileInfo, r_FileTree = tree, r_RepoVersion = [], r_IP = remoteIP,
                       r_ClientInfo = clientInfo, r_MirrorList = take 5 mlist, r_ExcludedList = excluded,
                       r_Fallback = fallback, r_LocalJSPath = cfg_LocalJSPath (e_cnf env)\<rparr>;
                     calls = handlerRes (e_render env) (e_cnf env) ctx (rq_Accept rq) results;
                     stats = (if \<not> isMirrorList ctx \<and> length mlist > 0
                              then snd (CountDownload (e_now env) (hd mlist) fileInfo (h_stats h)) else h_stats h)
                 in Some (Inr (calls, h\<lparr>h_layers := l, h_stats := stats\<rparr>)))))"

definition mirrorHandler :: "('db, 'a) http_env \<Rightarrow> Context \<Rightarrow> request \<Rightarrow> 'db http_state \<Rightarrow> 'db handled" where
  "mirrorHandler env ctx rq h =
     (let cnf = e_cnf env in
      if length (rq_Path rq) \<le> 1 then
        Some (Inr (handlerRes (e_render env) cnf ctx (rq_Accept rq)
                     (zero_Results\<lparr>r_RepoVersion := GetRepoVersionList (h_layers h)\<rparr>), h))
      else
        (case EvaluateFilePath (e_os env) (Repository cnf) (edit_path (rq_Path rq)) of
           Inl e \<Rightarrow> Some (Inr ([if e = ErrOutsideRepo then HttpError ''Forbidden'' 403 else HttpError ''Not Found'' 404], h))
         | Inr urlPath \<Rightarrow>
             (case remote_ip env ctx rq of
                Inl p \<Rightarrow> Some (Inl p)
              | Inr remoteIP \<Rightarrow>
                  (let fileInfo = NewFileInfo urlPath; clientInfo = GetRecord (e_ParseIP env) (e_geoip env) remoteIP in
                   case mirrorSelector env ctx fileInfo clientInfo h of
                     Inl p \<Rightarrow> Some (Inl p)
                   | Inr ((mlist, excluded, e), h1) \<Rightarrow>
                       if is_net_error e \<or> length mlist = 0 then
                         (if length (Fallbacks cnf) > 0 then
                            answer_mirrors env ctx rq urlPath remoteIP clientInfo
                              (map fold_country (sort_ByRank (e_coin env) clientInfo (mlist @ fallback_list cnf)))
                              excluded True h1
                          else Some (Inr ([HttpError ''Service Unavailable'' 503], h1)))
                       else if e \<noteq> None then
                         Some (Inr ([HttpError (case e of Some x \<Rightarrow> err_Error (e_render env) x | None \<Rightarrow> '''') 500], h1))
                       else answer_mirrors env ctx rq urlPath remoteIP clientInfo (map fold_country mlist) excluded False h1))))"

section \<open>Statistics of a file\<close>

record StatsFileNow =
  Today :: int
  Month :: int
  Year :: int
  Total :: int

record StatsFilePeriod =
  Period :: string
  Downloads :: int

record stats_json =
  json_now :: "StatsFileNow \<Rightarrow> string"
  json_period :: "StatsFilePeriod \<Rightarrow> string"

definition reply_int :: "'db client \<Rightarrow> reply \<Rightarrow> int" where
  "reply_int r v = (case rd_Int (api r) (Inr v) of Inr i \<Rightarrow> i | Inl _ \<Rightarrow> 0)"

definition file_stats_now :: "('db, 'a) http_env \<Rightarrow> stats_json \<Rightarrow> request \<Rightarrow> 'db http_state \<Rightarrow> (wcall list \<times> 'db http_state) gores" where
  "file_stats_now env js rq h =
     (case cut_keys 4 (''STATS_FILE_'' @ Format_date (e_now env + e_zone env)) of
        Inl p \<Rightarrow> Inl p
      | Inr ks \<Rightarrow>
          (let r = cl (e_cache env);
               (rep, db) = conn_exec r (h_db h) (map (\<lambda>k. HGET k (rq_Path rq)) ks);
               h' = h\<lparr>h_db := db\<rparr>
           in case rd_Values (api r) rep of
                Inl e \<Rightarrow>
                  if e \<noteq> ErrNil then Inr ([HttpError (err_Error (e_render env) e) 500], h')
                  else Inl IndexOutOfRange
              | Inr (a # b # c # d # _) \<Rightarrow>
                  Inr ([WriteBody (json_now js \<lparr>Today = reply_int r a, Month = reply_int r b,
                                               Year = reply_int r c, Total = reply_int r d\<rparr>)], h')
              | Inr _ \<Rightarrow> Inl IndexOutOfRange))"

definition period_key :: "string list \<Rightarrow> string" where
  "period_key req = butlast (''STATS_FILE_'' @ concat (map (\<lambda>e. e @ ''_'') req))"

definition file_stats_period ::
  "('db, 'a) http_env \<Rightarrow> stats_json \<Rightarrow> Context \<Rightarrow> request \<Rightarrow> string list \<Rightarrow> 'db http_state \<Rightarrow> (wcall list \<times> 'db http_state) gores" where
  "file_stats_period env js ctx rq req h =
     (let r = cl (e_cache env);
          (rep, db) = conn_do r (h_db h) (HGET (period_key req) (rq_Path rq));
          h' = h\<lparr>h_db := db\<rparr>
      in case rd_Int (api r) rep of
           Inl e \<Rightarrow>
             if e \<noteq> ErrNil then Inr ([HttpError (err_Error (e_render env) e) 500], h')
             else Inr ([WriteBody (json_period js \<lparr>Period = QueryParam ctx ''stats'', Downloads = 0\<rparr>)], h')
         | Inr v \<Rightarrow> Inr ([WriteBody (json_period js \<lparr>Period = QueryParam ctx ''stats'', Downloads = v\<rparr>)], h'))"

definition fileStatsHandler ::
  "('db, 'a) http_env \<Rightarrow> stats_json \<Rightarrow> Context \<Rightarrow> request \<Rightarrow> 'db http_state \<Rightarrow> (wcall list \<times> 'db http_state) gores" where
  "fileStatsHandler env js ctx rq h =
     (let req = SplitN (QueryParam ctx ''stats'') (CHR ''-'') 3
      in if list_ex (\<lambda>e. e \<noteq> '''' \<and> snd (ParseInt e) \<noteq> None) req then Inr ([HttpError ''Invalid period'' 400], h)
         else if length req = 0 \<or> req ! 0 = '''' then file_stats_now env js rq h
         else file_stats_period env js ctx rq req h)"

section \<open>Checksums\<close>

definition checksumHandler :: "('db, 'a) http_env \<Rightarrow> Context \<Rightarrow> request \<Rightarrow> 'db http_state \<Rightarrow> (wcall list \<times> 'db http_state) gores" where
  "checksumHandler env ctx rq h =
     (case EvaluateFilePath (e_os env) (Repository (e_cnf env)) (rq_Path rq) of
        Inl e \<Rightarrow> Inr ([if e = ErrOutsideRepo then HttpError ''Forbidden'' 403 else HttpError ''Not Found'' 404], h)
      | Inr urlPath \<Rightarrow>
          (case GetFileInfo (e_cache env) (e_now env) (h_cache h) (h_db h) urlPath of
             Inl p \<Rightarrow> Inl p
           | Inr ((fileInfo, e), c, db) \<Rightarrow>
               (let h' = h\<lparr>h_cache := c, h_db := db\<rparr>
                in if e = Some ErrNil then Inr ([HttpNotFound], h')
                   else if e \<noteq> None then Inr ([HttpError ''Service Unavailable'' 503], h')
                   else let hash = (if paramBool (ctx_v ctx) ''md5'' then Md5 fileInfo
                                    else if paramBool (ctx_v ctx) ''sha1'' then Sha1 fileInfo
                                    else if paramBool (ctx_v ctx) ''sha256'' then Sha256 fileInfo else '''')
                        in if length hash = 0 then Inr ([HttpError ''Hash type not supported'' 404], h')
                           else Inr ([HeaderSet ''Content-Type'' ''text/plain; charset=UTF-8'',
                                      WriteBody (hash @ ''  '' @ filepath_Base (Path fileInfo))], h'))))"

section \<open>Statistics of the mirrors\<close>

record SyncOffset =
  so_Valid :: bool
  so_Value :: int
  so_HumanReadable :: string

text \<open>A percentage is \<open>None\<close> where the division by zero gives no number.\<close>

record MirrorStats =
  ms_ID :: int
  ms_Name :: string
  ms_Downloads :: int
  ms_Bytes :: int
  ms_PercentD :: "real option"
  ms_PercentB :: "real option"
  ms_SyncOffset :: SyncOffset
  ms_TZOffset :: duration

record MirrorStatsExtended =
  mx_Mirror :: Mirror
  mx_Stats :: MirrorStats

record MirrorStatsPage =
  mp_List :: "MirrorStats list"
  mp_MirrorList :: Mirrors
  mp_LocalJSPath :: string
  mp_HasTZAdjustement :: bool

definition byDownloadNumbers_Less :: "MirrorStats \<Rightarrow> MirrorStats \<Rightarrow> bool" where
  "byDownloadNumbers_Less a b = (if ms_Downloads a > ms_Downloads b then True else False)"

text \<open>\<open>redis.String\<close> of a reply, then \<open>strconv.ParseInt\<close>; both errors are dropped.\<close>

definition stat_value :: "'db client \<Rightarrow> reply \<Rightarrow> int" where
  "stat_value r v =
     (case rd_String (api r) (Inr v) of
        Inl _ \<Rightarrow> 0 | Inr s \<Rightarrow> if s \<noteq> '''' then fst (ParseInt s) else 0)"

definition tz_duration :: "int \<Rightarrow> duration" where
  "tz_duration ms = (if in_int64 (ms * time_Millisecond) then ms * time_Millisecond else 0)"

definition mirror_stats :: "gotime \<Rightarrow> int \<Rightarrow> Mirror \<Rightarrow> int \<Rightarrow> int \<Rightarrow> MirrorStats" where
  "mirror_stats now i mirror downloads bytes =
     (let elapsed = time_Sub now (LastModTime mirror)
      in \<lparr>ms_ID = i, ms_Name = Name mirror, ms_Downloads = downloads, ms_Bytes = bytes,
          ms_PercentD = Some 0, ms_PercentB = Some 0,
          ms_SyncOffset = \<lparr>so_Valid = \<not> IsZero (LastModTime mirror),
            so_Value = go_div elapsed (3600 * time_Second), so_HumanReadable = FuzzyTimeStr elapsed\<rparr>,
          ms_TZOffset = tz_duration (TZOffset mirror)\<rparr>)"

record stats_acc =
  sa_max :: "int \<times> int"
  sa_tz :: bool
  sa_results :: "MirrorStats list"
  sa_json :: "MirrorStatsExtended list"
  sa_mlist :: Mirrors

text \<open>
  The loop over the mirrors: \<open>index\<close> is the position in the replies of the transaction, and it moves
  only past a mirror that was found.
\<close>

fun mirror_stats_loop ::
  "'db cache_env \<Rightarrow> gotime \<Rightarrow> reply list \<Rightarrow> int list \<Rightarrow> nat \<Rightarrow> stats_acc \<Rightarrow> Cache \<Rightarrow> 'db \<Rightarrow>
   (stats_acc \<times> Cache \<times> 'db) gores" where
  "mirror_stats_loop env now stats [] index acc c db = Inr (acc, c, db)"
| "mirror_stats_loop env now stats (i # is) index acc c db =
     (case GetMirror env now c db i of
        Inl p \<Rightarrow> Inl p
      | Inr ((mirror, Some e), c1, db1) \<Rightarrow> mirror_stats_loop env now stats is index acc c1 db1
      | Inr ((mirror, None), c1, db1) \<Rightarrow>
          if length stats \<le> index + 1 then Inl IndexOutOfRange
          else let downloads = stat_value (cl env) (stats ! index);
                   bytes = stat_value (cl env) (stats ! (index + 1));
                   s = mirror_stats now i mirror downloads bytes;
                   acc' = acc\<lparr>sa_max := (max (fst (sa_max acc)) downloads, max (snd (sa_max acc)) bytes),
                     sa_tz := sa_tz acc \<or> ms_TZOffset s \<noteq> 0,
                     sa_results := sa_results acc @ [s],
                     sa_json := sa_json acc @ [\<lparr>mx_Mirror = fold_country mirror, mx_Stats = s\<rparr>],
                     sa_mlist := sa_mlist acc @ [mirror]\<rparr>
               in mirror_stats_loop env now stats is (index + 2) acc' c1 db1)"

definition percent :: "int \<Rightarrow> int \<Rightarrow> real option" where
  "percent n mx = (if mx = 0 then None else Some (of_int n * 100 / of_int mx))"

definition set_percents :: "int \<times> int \<Rightarrow> MirrorStats \<Rightarrow> MirrorStats" where
  "set_percents mx s =
     s\<lparr>ms_PercentD := percent (ms_Downloads s) (fst mx), ms_PercentB := percent (ms_Bytes s) (snd mx)\<rparr>"

record stats_page_env =
  Encode_json :: "MirrorStatsExtended list \<Rightarrow> string \<times> err option"
  tmpl_mirrorstats :: "MirrorStatsPage \<Rightarrow> string \<times> err option"

definition mirror_stats_cmds :: "string \<Rightarrow> int list \<Rightarrow> rcmd list" where
  "mirror_stats_cmds today ids =
     concat (map (\<lambda>i. [HGET (''STATS_MIRROR_'' @ today) (Itoa i), HGET (''STATS_MIRROR_BYTES_'' @ today) (Itoa i)]) ids)"

text \<open>\<open>order m\<close> is the order in which Go iterates over the map \<open>m\<close>; \<open>conn_err\<close> is the error state of the connection.\<close>

definition mirrorStatsHandler ::
  "('db, 'a) http_env \<Rightarrow> stats_page_env \<Rightarrow> ((int \<rightharpoonup> string) \<Rightarrow> int list) \<Rightarrow> err option \<Rightarrow> request \<Rightarrow> 'db http_state \<Rightarrow>
   (wcall list \<times> 'db http_state) gores" where
  "mirrorStatsHandler env pg order conn_err rq h =
     (let r = cl (e_cache env); (res, db0) = GetListOfMirrors r conn_err (h_db h); h0 = h\<lparr>h_db := db0\<rparr> in
      case res of
        Inl p \<Rightarrow> Inl p
      | Inr (Inl e) \<Rightarrow> Inr ([HttpError ''Cannot fetch the list of mirrors'' 500], h0)
      | Inr (Inr mirrorsMap) \<Rightarrow>
          (let ids = order mirrorsMap;
               (rep, db1) = conn_exec r db0 (mirror_stats_cmds (Format_date (e_now env)) ids);
               h1 = h0\<lparr>h_db := db1\<rparr>
           in case rd_Values (api r) rep of
                Inl e \<Rightarrow> Inr ([HttpError ''Cannot fetch stats'' 500], h1)
              | Inr stats \<Rightarrow>
                  (case mirror_stats_loop (e_cache env) (e_now env) stats ids 0
                          \<lparr>sa_max = (0, 0), sa_tz = False, sa_results = [], sa_json = [], sa_mlist = []\<rparr> (h_cache h) db1 of
                     Inl p \<Rightarrow> Inl p
                   | Inr (acc, c, db2) \<Rightarrow>
                       (let h2 = h1\<lparr>h_cache := c, h_db := db2\<rparr>;
                            results = map (set_percents (sa_max acc)) (go_sort byDownloadNumbers_Less (sa_results acc));
                            page = \<lparr>mp_List = results, mp_MirrorList = sa_mlist acc,
                              mp_LocalJSPath = cfg_LocalJSPath (e_cnf env), mp_HasTZAdjustement = sa_tz acc\<rparr>
                        in if OutputMode (e_cnf env) = ''json'' \<or> Index (rq_Accept rq) ''application/json'' \<ge> 0 then
                             (case Encode_json pg (sa_json acc) of
                                (out, e) \<Rightarrow>
                                  Inr ([HeaderSet ''Content-Type'' ''application/json; charset=utf-8'', WriteBody out] @
                                       (case e of Some x \<Rightarrow> [HttpError (err_Error (e_render env) x) 500] | None \<Rightarrow> []), h2))
                           else
                             (case tmpl_mirrorstats pg page of
                                (out, e) \<Rightarrow>
                                  Inr ([HeaderSet ''Content-Type'' ''text/html; charset=utf-8'', WriteBody out] @
                                       (case e of Some x \<Rightarrow> [HttpError (err_Error (e_render env) x) 500] | None \<Rightarrow> []), h2))))))"

section \<open>Dispatching\<close>

definition requestDispatcher ::
  "('db, 'a) http_env \<Rightarrow> stats_json \<Rightarrow> stats_page_env \<Rightarrow> ((int \<rightharpoonup> string) \<Rightarrow> int list) \<Rightarrow> err option \<Rightarrow> string \<Rightarrow>
   (string \<rightharpoonup> string list) \<Rightarrow> string \<Rightarrow> request \<Rightarrow> 'db http_state \<Rightarrow> 'db handled" where
  "requestDispatcher env js pg order conn_err version query proto rq h =
     (case NewContext query proto of
        Inl p \<Rightarrow> Some (Inl p)
      | Inr ctx \<Rightarrow>
          map_option (\<lambda>res. case res of
              Inl p \<Rightarrow> Inl p
            | Inr (calls, h') \<Rightarrow> Inr (HeaderSet ''Server'' (''Mirrorbits/'' @ version) # calls, h'))
            (case ctx_typ ctx of
               MIRRORLIST \<Rightarrow> mirrorHandler env ctx rq h
             | STANDARD \<Rightarrow> mirrorHandler env ctx rq h
             | MIRRORSTATS \<Rightarrow> Some (mirrorStatsHandler env pg order conn_err rq h)
             | FILESTATS \<Rightarrow> Some (fileStatsHandler env js ctx rq h)
             | CHECKSUM \<Rightarrow> Some (checksumHandler env ctx rq h)))"

section \<open>What a request is answered\<close>

lemma mirrorSelector_sound:
  assumes "mirrorSelector env ctx fileInfo ci h = Inr ((mlist, excluded, e), h')"
  shows "h_stats h' = h_stats h" "h_layers h' = h_layers h" "mlist \<noteq> [] \<Longrightarrow> e = None"
    "\<exists>fi. \<forall>m \<in> set mlist. eligible ctx fi ci (e_cnf env) m"
proof -
  have "h_stats h' = h_stats h \<and> h_layers h' = h_layers h \<and> (mlist \<noteq> [] \<longrightarrow> e = None) \<and>
      (\<exists>fi. \<forall>m \<in> set mlist. eligible ctx fi ci (e_cnf env) m)"
    using assms Selection_eligible
    by (auto simp: mirrorSelector_def Let_def split: sum.splits option.splits if_splits list.splits prod.splits; blast)
  then show "h_stats h' = h_stats h" "h_layers h' = h_layers h" "mlist \<noteq> [] \<Longrightarrow> e = None"
    "\<exists>fi. \<forall>m \<in> set mlist. eligible ctx fi ci (e_cnf env) m" by blast+
qed

lemma mset_coin_sort: "mset (coin_sort coin xs) = mset xs"
proof -
  have s: "mset (sift_coin c x ys) = add_mset x (mset ys)" for c and x :: 'a and ys
  proof -
    have "mset (take k ys @ x # drop k ys) = add_mset x (mset ys)" for k
      by (metis append_take_drop_id mset.simps(2) mset_append union_mset_add_mset_right)
    then show ?thesis by (simp add: sift_coin_def Let_def)
  qed
  have "mset (fold (\<lambda>(i, x). sift_coin (coin i) x) ixs acc) = mset (map snd ixs) + mset acc" for ixs and acc :: "'a list"
    by (induction ixs arbitrary: acc) (auto simp: s)
  from this [of "enumerate 0 xs" "[]"] show ?thesis by (simp add: coin_sort_def)
qed

lemma sort_ByRank_perm: "mset (sort_ByRank coin ci ms) = mset ms"
  by (simp add: sort_ByRank_def mset_coin_sort)

lemma answer_mirrors_results:
  assumes "answer_mirrors env ctx rq urlPath ip ci mlist excluded fb h = Some (Inr (calls, h'))"
  shows "\<exists>results. calls = handlerRes (e_render env) (e_cnf env) ctx (rq_Accept rq) results \<and>
      r_MirrorList results = take 5 mlist \<and> r_Fallback results = fb \<and> r_ClientInfo results = ci \<and>
      r_FileInfo results = NewFileInfo urlPath \<and> r_ExcludedList results = excluded"
    and "h_stats h' = (if \<not> isMirrorList ctx \<and> mlist \<noteq> [] then snd (CountDownload (e_now env) (hd mlist) (NewFileInfo urlPath) (h_stats h)) else h_stats h)"
  using assms by (auto simp: answer_mirrors_def Let_def split: if_splits option.splits sum.splits prod.splits)

text \<open>
  C22: A file request is answered by at most five mirrors that qualify.  When the handler does not
  panic, the answer to a path longer than the root is forbidden, not found, or unavailable (the latter only without fallbacks),
  or the rendering of between one and five mirrors: the first of the selected ones, each of them
  eligible for this client, or, flagged as such and only when there is no selected one, of the
  configured fallbacks in a permutation.  The branch that reports an internal error is never taken.
\<close>

theorem mirrorHandler_answers:
  assumes "mirrorHandler env ctx rq h = Some (Inr (calls, h'))" and "1 < length (rq_Path rq)"
  shows "calls \<in> {[HttpError ''Forbidden'' 403], [HttpError ''Not Found'' 404]} \<or>
    calls = [HttpError ''Service Unavailable'' 503] \<and> Fallbacks (e_cnf env) = [] \<or>
    (\<exists>results mlist. calls = handlerRes (e_render env) (e_cnf env) ctx (rq_Accept rq) results \<and>
       r_MirrorList results = map fold_country (take 5 mlist) \<and> mlist \<noteq> [] \<and>
       (if r_Fallback results then mset mlist = mset (fallback_list (e_cnf env))
        else \<exists>fi. \<forall>m \<in> set mlist. eligible ctx fi (r_ClientInfo results) (e_cnf env) m))"
proof (cases "EvaluateFilePath (e_os env) (Repository (e_cnf env)) (edit_path (rq_Path rq))")
  case (Inl e)
  then have "calls \<in> {[HttpError ''Forbidden'' 403], [HttpError ''Not Found'' 404]}"
    using assms by (cases "e = ErrOutsideRepo") (simp_all add: mirrorHandler_def)
  then show ?thesis by blast
next
  case (Inr urlPath)
  obtain ip where ip: "remote_ip env ctx rq = Inr ip"
    using assms Inr by (auto simp: mirrorHandler_def Let_def split: sum.splits)
  let ?ci = "GetRecord (e_ParseIP env) (e_geoip env) ip"
  obtain mlist excluded e h1 where m: "mirrorSelector env ctx (NewFileInfo urlPath) ?ci h = Inr ((mlist, excluded, e), h1)"
    using assms Inr ip by (auto simp: mirrorHandler_def Let_def split: sum.splits)
  note s = mirrorSelector_sound [OF m]
  show ?thesis
  proof (cases "mlist = []")
    case False
    then have "answer_mirrors env ctx rq urlPath ip ?ci (map fold_country mlist) excluded False h1 = Some (Inr (calls, h'))"
      using assms Inr ip m s(3) by (simp add: mirrorHandler_def is_net_error_def)
    from answer_mirrors_results(1) [OF this] obtain results where
      "calls = handlerRes (e_render env) (e_cnf env) ctx (rq_Accept rq) results"
      "r_MirrorList results = map fold_country (take 5 mlist)" "\<not> r_Fallback results" "r_ClientInfo results = ?ci"
      by (auto simp: take_map)
    then show ?thesis using s(4) False by (intro disjI2 exI [of _ results] exI [of _ mlist]) simp
  next
    case True
    show ?thesis
    proof (cases "Fallbacks (e_cnf env) = []")
      case False
      let ?l = "sort_ByRank (e_coin env) ?ci (fallback_list (e_cnf env))"
      have "answer_mirrors env ctx rq urlPath ip ?ci (map fold_country ?l) excluded True h1 = Some (Inr (calls, h'))"
        using assms Inr ip m True False by (simp add: mirrorHandler_def Let_def)
      from answer_mirrors_results(1) [OF this] obtain results where
        "calls = handlerRes (e_render env) (e_cnf env) ctx (rq_Accept rq) results"
        "r_MirrorList results = map fold_country (take 5 ?l)" "r_Fallback results"
        by (auto simp: take_map)
      moreover have "mset ?l = mset (fallback_list (e_cnf env))" "?l \<noteq> []"
        using sort_ByRank_perm [of "e_coin env" ?ci "fallback_list (e_cnf env)"] False
        by (auto simp: fallback_list_def enumerate_eq_zip)
      ultimately show ?thesis by (intro disjI2 exI [of _ results] exI [of _ ?l]) simp
    qed (use assms Inr ip m True in \<open>simp add: mirrorHandler_def\<close>)
  qed
qed

definition demo_henv :: "(store, string) http_env" where
  "demo_henv =
     \<lparr>e_cnf = (defaultConfig '''')\<lparr>Repository := ''/srv'', Fallbacks :=
        [\<lparr>fb_URL = ''http://f/'', fb_CountryCode = ''fr'', fb_ContinentCode = ''eu'', fb_Name = ''f'', fb_NetworkBandwidth = 0\<rparr>]\<rparr>,
      e_cache = demo_cenv, e_os = demo_os, e_Stat = (\<lambda>_. None),
      e_layer = \<lparr>le_ReadFile = (\<lambda>_. Inl (ErrMsg ''missing'')), le_Parse = (\<lambda>_. Inr 0), le_stale = (\<lambda>_. False)\<rparr>,
      e_render = demo_render, e_geoip = NewGeoIP, e_ParseIP = (\<lambda>_. None), e_rnd = id, e_coin = (\<lambda>_ _. False),
      e_now = 5, e_zone = 0\<rparr>"

definition demo_request :: "string \<Rightarrow> request" where
  "demo_request path = \<lparr>rq_Path = path, rq_XForwardedFor = ''10.0.0.1'', rq_RemoteAddr = ''10.0.0.1:80'', rq_Accept = ''''\<rparr>"

definition demo_hstate :: "store http_state" where
  "demo_hstate = \<lparr>h_cache = NewCache, h_db = demo_store, h_stats = NewStats, h_layers = init_layers\<rparr>"

lemma demo_answer:
  "\<exists>results h'. mirrorHandler demo_henv demo_ctx (demo_request ''/a.iso'') demo_hstate =
       Some (Inr (handlerRes demo_render (e_cnf demo_henv) demo_ctx '''' results, h')) \<and>
     r_FileInfo results = NewFileInfo ''/a.iso'' \<and>
     map HttpURL (r_MirrorList results) = [''http://f/''] \<and> r_Fallback results \<and>
     countChan (h_stats h') = [\<lparr>ci_mirrorID = 0, ci_filepath = ''/a.iso'', ci_size = 0, ci_time = 5\<rparr>]"
proof -
  have cfg: "Repository (e_cnf demo_henv) = ''/srv''" "cfg_LocalJSPath (e_cnf demo_henv) = ''''"
    "ParticularFile (RepositoryFilter (e_cnf demo_henv)) = []" "e_os demo_henv = demo_os"
    by (simp_all add: demo_henv_def defaultConfig_def)
  have e: "EvaluateFilePath demo_os ''/srv'' (edit_path ''/a.iso'') = Inr ''/a.iso''" by code_simp
  have ip: "remote_ip demo_henv demo_ctx (demo_request ''/a.iso'') = Inr ''10.0.0.1''"
  proof -
    have "ExtractRemoteIP ''10.0.0.1'' = ''10.0.0.1''" by code_simp
    then show ?thesis by (simp add: remote_ip_def demo_request_def demo_ctx_def)
  qed
  have abs: "filepath_Abs_wd (os_Getwd demo_os) ''/srv/a.iso'' = Inr ''/srv/a.iso''" by code_simp
  have m: "mirrorSelector demo_henv demo_ctx (NewFileInfo ''/a.iso'') ci demo_hstate = Inr (([], [], None), demo_hstate)" for ci
  proof -
    have "selectorList (h_layers demo_hstate) = []" "e_Stat demo_henv = (\<lambda>_. None)"
      by (simp_all add: demo_hstate_def init_layers_def demo_henv_def)
    then show ?thesis unfolding mirrorSelector_def cfg using abs by (simp add: NewFileInfo_def)
  qed
  have v: "GetRecord (e_ParseIP demo_henv) (e_geoip demo_henv) ip = empty_record" for ip
    by (simp add: GetRecord_def demo_henv_def)
  have g: "GetRepoFileList n lenv (e_cnf demo_henv) ver init_layers = Some (Inr ([], init_layers))" for n lenv ver
    by (simp add: GetRepoFileList_def init_layers_def empty_FileStore_def cfg version_files_def)
  have f: "sort_ByRank (e_coin demo_henv) empty_record (fallback_list (e_cnf demo_henv)) =
      [fallback_mirror 0 \<lparr>fb_URL = ''http://f/'', fb_CountryCode = ''fr'', fb_ContinentCode = ''eu'', fb_Name = ''f'', fb_NetworkBandwidth = 0\<rparr>]"
    by (simp add: sort_ByRank_def geo_IsValid_def empty_record_def fallback_list_def demo_henv_def coin_sort_def
        sift_coin_def enumerate_simps)
  have u: "ToUpper ''fr'' = ''FR''" by code_simp
  have s: "Fallbacks (e_cnf demo_henv) \<noteq> []" "e_now demo_henv = 5" "e_render demo_henv = demo_render"
    "rq_Path (demo_request p) = p" "rq_Accept (demo_request p) = ''''" "\<not> isMirrorList demo_ctx"
    "h_layers demo_hstate = init_layers" "countChan (h_stats demo_hstate) = []" for p
    by (simp_all add: demo_henv_def demo_request_def demo_ctx_def demo_hstate_def NewStats_def)
  let ?fb = "fallback_mirror 0 \<lparr>fb_URL = ''http://f/'', fb_CountryCode = ''fr'', fb_ContinentCode = ''eu'', fb_Name = ''f'', fb_NetworkBandwidth = 0\<rparr>"
  have "mirrorHandler demo_henv demo_ctx (demo_request ''/a.iso'') demo_hstate =
      answer_mirrors demo_henv demo_ctx (demo_request ''/a.iso'') ''/a.iso'' ''10.0.0.1'' empty_record [fold_country ?fb] [] True demo_hstate"
    by (simp add: mirrorHandler_def Let_def cfg e ip m v f s is_net_error_def)
  moreover have "HttpURL (fold_country ?fb) = ''http://f/''" "Name (fold_country ?fb) = ''f''" "ID (fold_country ?fb) = 0"
    by (simp_all add: fold_country_def fallback_mirror_def u zero_mirror_def)
  ultimately show ?thesis
    by (intro exI [of _ "\<lparr>r_FileInfo = NewFileInfo ''/a.iso'', r_FileTree = [], r_RepoVersion = [], r_IP = ''10.0.0.1'',
          r_ClientInfo = empty_record, r_MirrorList = [fold_country ?fb], r_ExcludedList = [], r_Fallback = True, r_LocalJSPath = ''''\<rparr>"]
        exI [of _ "demo_hstate\<lparr>h_layers := init_layers, h_stats := (h_stats demo_hstate)
          \<lparr>countChan := [\<lparr>ci_mirrorID = 0, ci_filepath = ''/a.iso'', ci_size = 0, ci_time = 5\<rparr>]\<rparr>\<rparr>"])
      (simp add: answer_mirrors_def Let_def g s cfg CountDownload_def NewFileInfo_def)
qed

theorem mirrorHandler_answers_witness:
  "\<exists>calls h'. mirrorHandler demo_henv demo_ctx (demo_request ''/a.iso'') demo_hstate = Some (Inr (calls, h')) \<and>
     (\<exists>results mlist. calls = handlerRes demo_render (e_cnf demo_henv) demo_ctx '''' results \<and>
        r_MirrorList results = map fold_country (take 5 mlist) \<and> mlist \<noteq> []) \<and>
     redirects calls = [''http://f/a.iso'']"
proof -
  obtain results h' where r: "mirrorHandler demo_henv demo_ctx (demo_request ''/a.iso'') demo_hstate =
       Some (Inr (handlerRes demo_render (e_cnf demo_henv) demo_ctx '''' results, h'))"
    "r_FileInfo results = NewFileInfo ''/a.iso''" "map HttpURL (r_MirrorList results) = [''http://f/'']"
    using demo_answer by metis
  have n: "1 < length (rq_Path (demo_request ''/a.iso''))" "rq_Accept (demo_request ''/a.iso'') = ''''"
    "e_render demo_henv = demo_render" by (simp_all add: demo_request_def demo_henv_def)
  obtain m where m: "r_MirrorList results = [m]" "HttpURL m = ''http://f/''"
    using r(3) by (cases "r_MirrorList results") auto
  have c: "choose_renderer (e_cnf demo_henv) demo_ctx '''' = Some RedirectRenderer"
    by (simp add: choose_renderer_def demo_ctx_def demo_henv_def defaultConfig_def Index_def)
  have t: "TrimPrefix ''/a.iso'' ''/'' = ''a.iso''" "0 \<le> MaxLinkHeaders (e_cnf demo_henv)"
    by (simp_all add: TrimPrefix_def HasPrefix_def demo_henv_def defaultConfig_def)
  have d: "redirects (handlerRes demo_render (e_cnf demo_henv) demo_ctx '''' results) = [''http://f/a.iso'']"
    using c m r(2) t by (simp add: handlerRes_def renderer_Write_def Redirect_first NewFileInfo_def)
  then have "handlerRes demo_render (e_cnf demo_henv) demo_ctx '''' results \<noteq> [HttpError x k]" for x k by auto
  then show ?thesis using mirrorHandler_answers [OF r(1) n(1)] r(1) d unfolding n(2,3) by auto
qed

lemma CountDownload_first:
  "p \<noteq> '''' \<Longrightarrow> snd (CountDownload now m (NewFileInfo p) s) =
     (if Name m = '''' then s
      else s\<lparr>countChan := countChan s @ [\<lparr>ci_mirrorID = ID m, ci_filepath = p, ci_size = 0, ci_time = now\<rparr>]\<rparr>)"
  by (simp add: CountDownload_def NewFileInfo_def)

lemma answer_mirrors_counts:
  assumes "answer_mirrors env ctx rq urlPath ip ci mlist excluded fb h = Some (Inr (calls, h'))" and "h_stats h = s"
  shows "\<exists>results. calls = handlerRes (e_render env) (e_cnf env) ctx (rq_Accept rq) results \<and>
    h_stats h' =
      (if isMirrorList ctx \<or> r_MirrorList results = [] \<or> Name (hd (r_MirrorList results)) = '''' then s
       else s\<lparr>countChan := countChan s @
         [\<lparr>ci_mirrorID = ID (hd (r_MirrorList results)), ci_filepath = Path (r_FileInfo results), ci_size = 0, ci_time = e_now env\<rparr>]\<rparr>)"
proof -
  have u: "urlPath \<noteq> ''''" using assms(1) by (auto simp: answer_mirrors_def)
  obtain results where r: "calls = handlerRes (e_render env) (e_cnf env) ctx (rq_Accept rq) results"
    "r_MirrorList results = take 5 mlist" "r_FileInfo results = NewFileInfo urlPath"
    using answer_mirrors_results(1) [OF assms(1)] by blast
  have "hd (take 5 mlist) = hd mlist" by (cases mlist) simp_all
  then show ?thesis
    using answer_mirrors_results(2) [OF assms(1)] r assms(2) CountDownload_first [OF u]
    by (intro exI [of _ results]) (auto simp: NewFileInfo_def)
qed

text \<open>
  C23: Every answered download is queued once for the statistics, with a size of zero.  An answer
  to a file request that renders mirrors queues exactly one item, for the first mirror and the
  path, unless the page is the list of mirrors or the mirror has no name; an error answer
  queues nothing.  The size of the item is always 0, since the file information is built from the
  path alone: the byte counters never grow.
\<close>

theorem mirrorHandler_counts:
  assumes "mirrorHandler env ctx rq h = Some (Inr (calls, h'))" and "1 < length (rq_Path rq)"
  shows "(\<exists>results. calls = handlerRes (e_render env) (e_cnf env) ctx (rq_Accept rq) results \<and>
      h_stats h' =
        (if isMirrorList ctx \<or> r_MirrorList results = [] \<or> Name (hd (r_MirrorList results)) = '''' then h_stats h
         else (h_stats h)\<lparr>countChan := countChan (h_stats h) @
           [\<lparr>ci_mirrorID = ID (hd (r_MirrorList results)), ci_filepath = Path (r_FileInfo results), ci_size = 0, ci_time = e_now env\<rparr>]\<rparr>)) \<or>
    h_stats h' = h_stats h \<and> (\<exists>msg code. calls = [HttpError msg code])"
proof (cases "EvaluateFilePath (e_os env) (Repository (e_cnf env)) (edit_path (rq_Path rq))")
  case (Inl e)
  then show ?thesis using assms by (cases "e = ErrOutsideRepo") (auto simp: mirrorHandler_def)
next
  case (Inr urlPath)
  obtain ip where ip: "remote_ip env ctx rq = Inr ip"
    using assms Inr by (auto simp: mirrorHandler_def Let_def split: sum.splits)
  obtain mlist excluded e h1 where
    m: "mirrorSelector env ctx (NewFileInfo urlPath) (GetRecord (e_ParseIP env) (e_geoip env) ip) h = Inr ((mlist, excluded, e), h1)"
    using assms Inr ip by (auto simp: mirrorHandler_def Let_def split: sum.splits)
  note s = mirrorSelector_sound(1) [OF m]
  have "(\<exists>ml fb. answer_mirrors env ctx rq urlPath ip (GetRecord (e_ParseIP env) (e_geoip env) ip) ml excluded fb h1 =
        Some (Inr (calls, h'))) \<or> h' = h1 \<and> (\<exists>msg code. calls = [HttpError msg code])"
    using assms Inr ip m by (auto simp: mirrorHandler_def Let_def split: if_splits)
  then show ?thesis using answer_mirrors_counts [OF _ s] s by blast
qed

theorem mirrorHandler_counts_witness:
  "\<exists>calls h'. mirrorHandler demo_henv demo_ctx (demo_request ''/a.iso'') demo_hstate = Some (Inr (calls, h')) \<and>
     (\<exists>results. calls = handlerRes demo_render (e_cnf demo_henv) demo_ctx '''' results) \<and>
     map ci_size (countChan (h_stats h')) = [0]"
proof -
  obtain results h' where r: "mirrorHandler demo_henv demo_ctx (demo_request ''/a.iso'') demo_hstate =
       Some (Inr (handlerRes demo_render (e_cnf demo_henv) demo_ctx '''' results, h'))"
    "countChan (h_stats h') = [\<lparr>ci_mirrorID = 0, ci_filepath = ''/a.iso'', ci_size = 0, ci_time = 5\<rparr>]"
    using demo_answer by metis
  have n: "1 < length (rq_Path (demo_request ''/a.iso''))" by (simp add: demo_request_def)
  have "countChan (h_stats demo_hstate) = []" by (simp add: demo_hstate_def NewStats_def)
  then show ?thesis using mirrorHandler_counts [OF r(1) n] r by auto
qed

text \<open>
  C24: A request for \<^verbatim>\<open>/ISO/\<close> panics.  The suffix is cut off, what is left is the repository itself, and its
  path relative to the repository is empty; slicing off the leading slash is then out of bounds, in the
  selection or when the fallbacks are rendered.
\<close>

theorem mirrorHandler_ISO_panics:
  assumes "rq_Path rq = ''/ISO/''" and "remote_ip env ctx rq = Inr ip" and "Fallbacks (e_cnf env) \<noteq> []"
    and "filepath_Abs_wd (os_Getwd (e_os env)) (Repository (e_cnf env)) = Inr (Repository (e_cnf env))"
    and "os_EvalSymlinks (e_os env) (Repository (e_cnf env)) = Inr (Repository (e_cnf env))"
  shows "mirrorHandler env ctx rq h = Some (Inl SliceBounds)"
proof -
  have "edit_path ''/ISO/'' = ''''" by (simp add: edit_path_def HasSuffix_def)
  then have e: "EvaluateFilePath (e_os env) (Repository (e_cnf env)) (edit_path (rq_Path rq)) = Inr ''''"
    using assms by (simp add: EvaluateFilePath_def IsInRepository_def)
  let ?sel = "mirrorSelector env ctx (NewFileInfo '''') (GetRecord (e_ParseIP env) (e_geoip env) ip) h"
  have "?sel = Inl SliceBounds \<or> (\<exists>x. ?sel = Inr (([], [], x), h))"
    using assms(4) by (auto simp: mirrorSelector_def NewFileInfo_def split: option.splits)
  then show ?thesis
    using e assms(1-3) by (auto simp: mirrorHandler_def Let_def answer_mirrors_def)
qed

theorem mirrorHandler_ISO_panics_witness:
  "mirrorHandler demo_henv demo_ctx (demo_request ''/ISO/'') demo_hstate = Some (Inl SliceBounds)"
proof (rule mirrorHandler_ISO_panics)
  have "ExtractRemoteIP ''10.0.0.1'' = ''10.0.0.1''" by code_simp
  then show "remote_ip demo_henv demo_ctx (demo_request ''/ISO/'') = Inr ''10.0.0.1''"
    by (simp add: remote_ip_def demo_request_def demo_ctx_def)
  have "filepath_Abs_wd (os_Getwd demo_os) ''/srv'' = Inr ''/srv''" by code_simp
  then show "filepath_Abs_wd (os_Getwd (e_os demo_henv)) (Repository (e_cnf demo_henv)) = Inr (Repository (e_cnf demo_henv))"
    by (simp add: demo_henv_def)
qed (simp_all add: demo_request_def demo_henv_def demo_os_def)

lemma mirror_stats_sel [simp]:
  "ms_ID (mirror_stats now i m d b) = i" "ms_Downloads (mirror_stats now i m d b) = d" "ms_Bytes (mirror_stats now i m d b) = b"
  by (simp_all add: mirror_stats_def Let_def)

lemma mirror_stats_loop_found:
  "mirror_stats_loop env now stats ids index acc c db = Inr (acc', c', db') \<Longrightarrow>
     \<exists>new. sa_results acc' = sa_results acc @ new \<and> subseq (map ms_ID new) ids \<and>
       (\<forall>k < length new. ms_Downloads (new ! k) = stat_value (cl env) (stats ! (index + 2 * k)) \<and>
                         ms_Bytes (new ! k) = stat_value (cl env) (stats ! (index + 2 * k + 1)))"
proof (induction ids arbitrary: index acc c db)
  case Nil then show ?case by simp
next
  case (Cons i ids)
  obtain mirror e c1 db1 where g: "GetMirror env now c db i = Inr ((mirror, e), c1, db1)"
    using Cons.prems by (cases "GetMirror env now c db i") auto
  show ?case
  proof (cases e)
    case (Some x)
    then show ?thesis using Cons.IH [of index acc c1 db1] Cons.prems g by (auto intro: subseq_Cons2_iff [THEN iffD2])
  next
    case None
    define s where "s = mirror_stats now i mirror (stat_value (cl env) (stats ! index)) (stat_value (cl env) (stats ! (index + 1)))"
    define acc1 where "acc1 = acc\<lparr>sa_max := (max (fst (sa_max acc)) (ms_Downloads s), max (snd (sa_max acc)) (ms_Bytes s)),
      sa_tz := sa_tz acc \<or> ms_TZOffset s \<noteq> 0, sa_results := sa_results acc @ [s],
      sa_json := sa_json acc @ [\<lparr>mx_Mirror = fold_country mirror, mx_Stats = s\<rparr>], sa_mlist := sa_mlist acc @ [mirror]\<rparr>"
    have d: "ms_ID s = i" "ms_Downloads s = stat_value (cl env) (stats ! index)"
      "ms_Bytes s = stat_value (cl env) (stats ! (index + 1))" by (simp_all add: s_def)
    have "mirror_stats_loop env now stats ids (index + 2) acc1 c1 db1 = Inr (acc', c', db')"
      using Cons.prems g None by (simp add: Let_def acc1_def s_def split: if_splits)
    from Cons.IH [OF this] obtain new where
      n: "sa_results acc' = sa_results acc1 @ new" "subseq (map ms_ID new) ids"
        "\<forall>k < length new. ms_Downloads (new ! k) = stat_value (cl env) (stats ! (index + 2 + 2 * k)) \<and>
                          ms_Bytes (new ! k) = stat_value (cl env) (stats ! (index + 2 + 2 * k + 1))" by blast
    have "ms_Downloads ((s # new) ! k) = stat_value (cl env) (stats ! (index + 2 * k)) \<and>
        ms_Bytes ((s # new) ! k) = stat_value (cl env) (stats ! (index + 2 * k + 1))" if "k < length (s # new)" for k
      using that n(3) d by (cases k) auto
    then show ?thesis using n(1,2) d(1) by (intro exI [of _ "s # new"]) (auto simp: acc1_def)
  qed
qed

lemma mirror_stats_cmds_nth:
  "k < length ids \<Longrightarrow> mirror_stats_cmds today ids ! (2 * k) = HGET (''STATS_MIRROR_'' @ today) (Itoa (ids ! k)) \<and>
     mirror_stats_cmds today ids ! (2 * k + 1) = HGET (''STATS_MIRROR_BYTES_'' @ today) (Itoa (ids ! k))"
proof (induction ids arbitrary: k)
  case (Cons i ids)
  then show ?case by (cases k) (auto simp: mirror_stats_cmds_def)
qed simp

text \<open>
  The statistics page shows each mirror its own counters as long as every mirror is found.  The
  transaction asks for the downloads and bytes of the mirrors in order, and when the loop finds
  all of them, the row of the \<open>k\<close>th mirror has the \<open>k\<close>th pair of replies.  In general the rows are the mirrors that
  were found, in order, with the first pairs of replies: after a mirror that was not found, every
  row has the counters of another mirror.
\<close>

theorem mirror_stats_rows:
  assumes "mirror_stats_loop env now stats ids 0 acc c db = Inr (acc', c', db')" and "sa_results acc = []"
  shows "subseq (map ms_ID (sa_results acc')) ids \<and>
    list_all (\<lambda>k. ms_Downloads (sa_results acc' ! k) = stat_value (cl env) (stats ! (2 * k)) \<and>
                  ms_Bytes (sa_results acc' ! k) = stat_value (cl env) (stats ! (2 * k + 1))) [0..<length (sa_results acc')] \<and>
    (length (sa_results acc') = length ids \<longrightarrow>
      map ms_ID (sa_results acc') = ids \<and>
      list_all (\<lambda>k. mirror_stats_cmds today ids ! (2 * k) = HGET (''STATS_MIRROR_'' @ today) (Itoa (ms_ID (sa_results acc' ! k))) \<and>
          mirror_stats_cmds today ids ! (2 * k + 1) = HGET (''STATS_MIRROR_BYTES_'' @ today) (Itoa (ms_ID (sa_results acc' ! k))))
        [0..<length ids])"
proof -
  obtain new where n: "sa_results acc' = new" "subseq (map ms_ID new) ids"
    "\<forall>k < length new. ms_Downloads (new ! k) = stat_value (cl env) (stats ! (2 * k)) \<and>
                      ms_Bytes (new ! k) = stat_value (cl env) (stats ! (2 * k + 1))"
    using mirror_stats_loop_found [OF assms(1)] assms(2) by auto
  have "map ms_ID new = ids" if "length new = length ids"
    using subseq_same_length [OF n(2)] that by simp
  moreover have "list_all (\<lambda>k. mirror_stats_cmds today ids ! (2 * k) = HGET (''STATS_MIRROR_'' @ today) (Itoa (ms_ID (new ! k))) \<and>
          mirror_stats_cmds today ids ! (2 * k + 1) = HGET (''STATS_MIRROR_BYTES_'' @ today) (Itoa (ms_ID (new ! k)))) [0..<length ids]"
    if "map ms_ID new = ids"
    unfolding list_all_iff
  proof
    fix k assume "k \<in> set [0..<length ids]"
    then have k: "k < length new" using arg_cong [OF that, of length] by simp
    then have "ids ! k = ms_ID (new ! k)" using nth_map [OF k, of ms_ID] that by simp
    moreover have "k < length ids" using k arg_cong [OF that, of length] by simp
    ultimately show "mirror_stats_cmds today ids ! (2 * k) = HGET (''STATS_MIRROR_'' @ today) (Itoa (ms_ID (new ! k))) \<and>
        mirror_stats_cmds today ids ! (2 * k + 1) = HGET (''STATS_MIRROR_BYTES_'' @ today) (Itoa (ms_ID (new ! k)))"
      using mirror_stats_cmds_nth [of k ids today] by simp
  qed
  moreover have "list_all (\<lambda>k. ms_Downloads (new ! k) = stat_value (cl env) (stats ! (2 * k)) \<and>
      ms_Bytes (new ! k) = stat_value (cl env) (stats ! (2 * k + 1))) [0..<length new]"
    using n(3) by (simp add: list_all_iff)
  ultimately show ?thesis unfolding n(1) using n(2) by blast
qed

lemma demo_missing: "GetMirror demo_cenv 5 NewCache demo_store 9 = Inr ((zero_mirror, Some ErrNil), NewCache, demo_store)"
proof -
  have "Itoa 9 = ''9''" by code_simp
  then show ?thesis
    by (simp add: GetMirror_def fetchMirror_def LRU_Get_def NewCache_def NewLRUCache_def demo_cenv_def ref_client_def conn_do_def
        ref_redis_def mirror_key_def get_hash_def demo_store_def empty_store_def)
qed

lemma demo_found: "\<exists>m c'. GetMirror demo_cenv 5 NewCache demo_store 3 = Inr ((m, None), c', demo_store)"
proof -
  have i: "Itoa 3 = ''3''" by code_simp
  have l: "LRU_Get 5 ''3'' (NewLRUCache 1024000) = (None, NewLRUCache 1024000)" "mCache NewCache = NewLRUCache 1024000"
    by (simp_all add: LRU_Get_def NewCache_def NewLRUCache_def)
  have g: "get_hash demo_store (mirror_key 3) = Some [(''name'', ''m'')]"
    by (simp add: get_hash_def demo_store_def mirror_key_def i)
  obtain mc where mc: "LRU_Set mirror_size 5 ''3'' (Prepare (zero_mirror\<lparr>Name := ''m''\<rparr>)) (NewLRUCache 1024000) = Inr mc"
    by (simp add: LRU_Set_def NewLRUCache_def addNew_def mirror_size_def checkCapacity.simps)
  show ?thesis
    by (simp add: GetMirror_def fetchMirror_def i l mc conn_do_def) (simp add: demo_cenv_def ref_client_def ref_redis_def g mc i)
qed

theorem mirror_stats_rows_witness:
  "\<exists>acc' c' db'. mirror_stats_loop demo_cenv 5 [RBulk ''1'', RBulk ''2'', RBulk ''3'', RBulk ''4''] [9, 3] 0
       \<lparr>sa_max = (0, 0), sa_tz = False, sa_results = [], sa_json = [], sa_mlist = []\<rparr> NewCache demo_store = Inr (acc', c', db') \<and>
     map ms_ID (sa_results acc') = [3] \<and> ms_Downloads (sa_results acc' ! 0) = stat_value ref_client (RBulk ''1'')"
proof -
  let ?acc = "\<lparr>sa_max = (0, 0), sa_tz = False, sa_results = [], sa_json = [], sa_mlist = []\<rparr>"
  let ?stats = "[RBulk ''1'', RBulk ''2'', RBulk ''3'', RBulk ''4'']"
  obtain acc' c' where r: "mirror_stats_loop demo_cenv 5 ?stats [9, 3] 0 ?acc NewCache demo_store = Inr (acc', c', demo_store)"
    "length (sa_results acc') = 1" "map ms_ID (sa_results acc') = [3]"
    using demo_missing demo_found by (auto simp: Let_def)
  have e: "sa_results ?acc = []" "cl demo_cenv = ref_client" by (simp_all add: demo_cenv_def)
  show ?thesis using mirror_stats_rows [OF r(1) e(1)] r e(2) by (auto simp: upt_rec)
qed

end
