(* ===== verification/Http_Server.thy ===== *)
theory Http_Server
  imports Http
begin

text \<open>
  The life of the HTTP server in \<^verbatim>\<open>http/http.go\<close>: starting, reloading, stopping, and the compression
  wrapper of \<^verbatim>\<open>http/gzip.go\<close>.  Parsing templates is an argument; \<open>log.Fatal\<close> ends the process.
\<close>

section \<open>Templates\<close>

datatype 'a or_exit = Exit string | Alive 'a

definition template_files :: "Configuration \<Rightarrow> string \<Rightarrow> string list" where
  "template_files cnf name =
     [filepath_Clean (cfg_Templates cnf @ ''/base.html''), filepath_Clean (cfg_Templates cnf @ ''/'' @ name @ ''.html'')]"

text \<open>
  A parse error is a \<open>PathError\<close> with its path and message, or another error; both are fatal.
\<close>

datatype parse_error = PathError string string | OtherError string

definition LoadTemplates ::
  "(string list \<Rightarrow> parse_error + 't) \<Rightarrow> Configuration \<Rightarrow> string \<Rightarrow> 't or_exit" where
  "LoadTemplates ParseFiles cnf name =
     (case ParseFiles (template_files cnf name) of
        Inl (PathError p e) \<Rightarrow> Exit (''Cannot load template '' @ p @ '': '' @ e)
      | Inl (OtherError e) \<Rightarrow> Exit e
      | Inr t \<Rightarrow> Alive t)"

record ('t, 'a) server =
  srv_geoip :: "'a GeoIP"
  srv_mirrorlist :: 't
  srv_mirrorstats :: 't
  srv_stopped :: bool
  srv_Stop :: "duration list"

section \<open>Starting\<close>

text \<open>What the constructor does with the outcome of loading the GeoIP databases.\<close>

datatype geo_start = GeoFatal | GeoFallbackOnly | GeoDegraded | GeoReady

definition geoip_start :: "Configuration \<Rightarrow> GeoIPError option \<Rightarrow> geo_start" where
  "geoip_start cnf e =
     (case e of
        None \<Rightarrow> GeoReady
      | Some gerr \<Rightarrow>
          if IsFatal gerr then (if length (Fallbacks cnf) = 0 then GeoFatal else GeoFallbackOnly)
          else GeoDegraded)"

definition HTTPServer ::
  "(string list \<Rightarrow> parse_error + 't) \<Rightarrow> (string \<Rightarrow> err + ('a, CityDb) reader) \<Rightarrow> (string \<Rightarrow> err + ('a, ASNDb) reader) \<Rightarrow>
   Configuration \<Rightarrow> ('t, 'a) server or_exit" where
  "HTTPServer ParseFiles openCity openASN cnf =
     (case LoadTemplates ParseFiles cnf ''mirrorlist'' of
        Exit m \<Rightarrow> Exit m
      | Alive ml \<Rightarrow>
          (case LoadTemplates ParseFiles cnf ''mirrorstats'' of
             Exit m \<Rightarrow> Exit m
           | Alive ms \<Rightarrow>
               (let (e, g) = LoadGeoIP openCity openASN NewGeoIP
                in if geoip_start cnf e = GeoFatal
                   then Exit ''Can't load the GeoIP databases, please set a valid path in the mirrorbits configuration''
                   else Alive \<lparr>srv_geoip = g, srv_mirrorlist = ml, srv_mirrorstats = ms, srv_stopped = False, srv_Stop = []\<rparr>)))"

section \<open>Reloading and stopping\<close>

text \<open>The branches of \<open>Reload\<close> that log an error are not reached: \<open>LoadTemplates\<close> returns no error.\<close>

definition Reload ::
  "(string list \<Rightarrow> parse_error + 't) \<Rightarrow> (string \<Rightarrow> err + ('a, CityDb) reader) \<Rightarrow> (string \<Rightarrow> err + ('a, ASNDb) reader) \<Rightarrow>
   Configuration \<Rightarrow> ('t, 'a) server \<Rightarrow> ('t, 'a) server or_exit" where
  "Reload ParseFiles openCity openASN cnf s =
     (let (e, g) = LoadGeoIP openCity openASN (srv_geoip s); s1 = s\<lparr>srv_geoip := g\<rparr> in
      case LoadTemplates ParseFiles cnf ''mirrorlist'' of
        Exit m \<Rightarrow> Exit m
      | Alive ml \<Rightarrow>
          (case LoadTemplates ParseFiles cnf ''mirrorstats'' of
             Exit m \<Rightarrow> Exit m
           | Alive ms \<Rightarrow> Alive (s1\<lparr>srv_mirrorlist := ml, srv_mirrorstats := ms\<rparr>)))"

definition HTTP_Stop :: "duration \<Rightarrow> ('t, 'a) server \<Rightarrow> ('t, 'a) server" where
  "HTTP_Stop timeout s =
     (if srv_stopped s then s else s\<lparr>srv_stopped := True, srv_Stop := srv_Stop s @ [timeout]\<rparr>)"

section \<open>Compression\<close>

text \<open>The content type set on the first write through the compressing writer, if none is set.\<close>

record gzipResponseWriter =
  gz_typeGuessed :: bool
  gz_ContentType :: string
  gz_out :: string

definition gzip_Write :: "(string \<Rightarrow> string) \<Rightarrow> string \<Rightarrow> gzipResponseWriter \<Rightarrow> gzipResponseWriter" where
  "gzip_Write DetectContentType b w =
     (if \<not> gz_typeGuessed w then
        w\<lparr>gz_ContentType := (if gz_ContentType w = '''' then DetectContentType b else gz_ContentType w),
          gz_typeGuessed := True, gz_out := gz_out w @ b\<rparr>
      else w\<lparr>gz_out := gz_out w @ b\<rparr>)"

definition use_gzip :: "Configuration \<Rightarrow> string \<Rightarrow> bool" where
  "use_gzip cnf accept_encoding \<longleftrightarrow> \<not> (\<not> cfg_Gzip cnf \<or> \<not> Contains accept_encoding ''gzip'')"

section \<open>Lemmas\<close>

lemma Stop_once: "fold HTTP_Stop ts s = (if ts = [] then s else HTTP_Stop (hd ts) s)"
proof (cases ts)
  case (Cons t us)
  have "fold HTTP_Stop us v = v" if "srv_stopped v" for us and v :: "('a, 'b) server"
    using that by (induction us) (simp_all add: HTTP_Stop_def)
  from this [of "HTTP_Stop t s" us] show ?thesis using Cons by (simp add: HTTP_Stop_def)
qed simp

text \<open>A server that starts without databases has fallbacks to serve.\<close>

lemma HTTPServer_serves:
  assumes "HTTPServer ParseFiles openCity openASN cnf = Alive s" "LoadGeoIP openCity openASN NewGeoIP = (Some gerr, g)" "IsFatal gerr"
  shows "Fallbacks cnf \<noteq> []"
  using assms by (auto simp: HTTPServer_def geoip_start_def split: or_exit.splits if_splits)

lemma gzip_first_write:
  "gz_ContentType (fold (gzip_Write D) (b # bs) w) =
     (if gz_typeGuessed w \<or> gz_ContentType w \<noteq> '''' then gz_ContentType w else D b)"
proof -
  have "gz_ContentType (fold (gzip_Write D) bs v) = gz_ContentType v" if "gz_typeGuessed v" for bs v
    using that by (induction bs arbitrary: v) (simp_all add: gzip_Write_def)
  from this [of "gzip_Write D b w" bs] show ?thesis by (simp add: gzip_Write_def)
qed

end
