(* ===== verification/Cluster.thy ===== *)
theory Cluster
  imports Utils
begin

text \<open>
  The cluster agent of \<^verbatim>\<open>daemon/cluster.go\<close>: the list of live nodes, the sorted index of mirror
  identifiers and the rule by which a node decides whether it handles a mirror.  Each reading of
  the clock is a value of \<open>now\<close>, numbered in the order of the readings.  The quotient in
  \<open>IsHandled\<close> is exact here; \<open>float32\<close> gives the same integer part while there are fewer than
  four million mirrors.
\<close>

section \<open>State\<close>

record node =
  node_ID :: string
  LastAnnounce :: int

definition byNodeID_Less :: "node \<Rightarrow> node \<Rightarrow> bool" where
  "byNodeID_Less a b \<longleftrightarrow> node_ID a < node_ID b"

record cluster =
  nodeID :: string
  nodes :: "node list"
  nodeIndex :: nat
  nodeTotal :: nat
  mirrorsIndex :: "int list"
  stop_closed :: bool
  cl_running :: bool
  announceText :: string

definition clusterAnnouncePrefix :: string where
  "clusterAnnouncePrefix = ''HELLO''"

text \<open>\<open>%05d\<close> pads with zeros to five digits.\<close>

definition pad5 :: "nat \<Rightarrow> string" where
  "pad5 n = replicate (5 - length (nat_digits n)) (CHR ''0'') @ nat_digits n"

definition NewCluster :: "string \<Rightarrow> nat \<Rightarrow> int \<Rightarrow> cluster" where
  "NewCluster host rnd redisDB =
     (let hostname = (if length host = 0 then ''unknown'' else host)
      in \<lparr>nodeID = hostname @ ''-'' @ pad5 (rnd mod 32000), nodes = [], nodeIndex = 0, nodeTotal = 0,
          mirrorsIndex = [], stop_closed = False, cl_running = False,
          announceText = clusterAnnouncePrefix @ Itoa redisDB\<rparr>)"

section \<open>The node list\<close>

function expire_loop ::
    "(nat \<Rightarrow> gotime) \<Rightarrow> string \<Rightarrow> string \<Rightarrow> nat \<Rightarrow> nat \<Rightarrow> bool \<Rightarrow> node list \<Rightarrow> nat \<times> bool \<times> node list" where
  "expire_loop now nid self k i found ns =
     (if i < length ns then
        if ElapsedSec (now k) (LastAnnounce (ns ! i)) 5 \<and> node_ID (ns ! i) \<noteq> nid \<and> node_ID (ns ! i) \<noteq> self
        then expire_loop now nid self (k + 1) i found (take i ns @ drop (i + 1) ns)
        else if node_ID (ns ! i) = nid
        then expire_loop now nid self (k + 2) (i + 1) True (ns[i := (ns ! i)\<lparr>LastAnnounce := Unix (now (k + 1))\<rparr>])
        else expire_loop now nid self (k + 1) (i + 1) found ns
      else (k, found, ns))"
  by pat_completeness auto
termination
  by (relation "measure (\<lambda>(now, nid, self, k, i, found, ns). length ns - i)") auto

declare expire_loop.simps [simp del]

fun node_index_loop :: "string \<Rightarrow> nat \<Rightarrow> node list \<Rightarrow> nat option" where
  "node_index_loop self i [] = None"
| "node_index_loop self i (n # ns) = (if node_ID n = self then Some i else node_index_loop self (i + 1) ns)"

definition refreshNodeList :: "(nat \<Rightarrow> gotime) \<Rightarrow> string \<Rightarrow> string \<Rightarrow> cluster \<Rightarrow> cluster" where
  "refreshNodeList now nid self c =
     (let (k, found, ns) = expire_loop now nid self 0 0 False (nodes c);
          ns' = (if \<not> found
                 then go_sort byNodeID_Less (ns @ [\<lparr>node_ID = nid, LastAnnounce = Unix (now k)\<rparr>])
                 else ns)
      in c\<lparr>nodes := ns', nodeTotal := length ns',
           nodeIndex := (case node_index_loop self 0 ns' of None \<Rightarrow> nodeIndex c | Some i \<Rightarrow> i)\<rparr>)"

section \<open>The mirror index\<close>

definition removeMirrorIDFromSlice :: "int list \<Rightarrow> int \<Rightarrow> int list" where
  "removeMirrorIDFromSlice sl mirrorID =
     (let idx = SearchInts sl mirrorID
      in if idx < length sl \<and> sl ! idx = mirrorID then take idx sl @ drop (idx + 1) sl
         else sl)"

definition addMirrorIDToSlice :: "int list \<Rightarrow> int \<Rightarrow> int list" where
  "addMirrorIDToSlice sl mirrorID =
     (let idx = SearchInts sl mirrorID
      in if idx \<ge> length sl \<or> sl ! idx \<noteq> mirrorID
         then take idx sl @ [mirrorID] @ drop idx sl
         else sl)"

definition cluster_AddMirror :: "cluster \<Rightarrow> int \<Rightarrow> cluster" where
  "cluster_AddMirror c i = c\<lparr>mirrorsIndex := addMirrorIDToSlice (mirrorsIndex c) i\<rparr>"

definition cluster_RemoveMirror :: "cluster \<Rightarrow> int \<Rightarrow> cluster" where
  "cluster_RemoveMirror c i = c\<lparr>mirrorsIndex := removeMirrorIDFromSlice (mirrorsIndex c) i\<rparr>"

definition RemoveMirrorID :: "cluster \<Rightarrow> int \<Rightarrow> cluster" where
  "RemoveMirrorID c i = c\<lparr>mirrorsIndex := removeMirrorIDFromSlice (mirrorsIndex c) i\<rparr>"

text \<open>
  \<open>int(float32(n)/float32(t) + 0.5)\<close>.  With no node the quotient is not finite and the
  conversion has no specified value: \<open>None\<close>.
\<close>

definition mirror_range :: "nat \<Rightarrow> nat \<Rightarrow> nat option" where
  "mirror_range n t = (if t = 0 then None else Some ((2 * n + t) div (2 * t)))"

definition IsHandled :: "cluster \<Rightarrow> int \<Rightarrow> bool option" where
  "IsHandled c mirrorID =
     (let index = SearchInts (mirrorsIndex c) mirrorID
      in case mirror_range (length (mirrorsIndex c)) (nodeTotal c) of
           None \<Rightarrow> None
         | Some mRange \<Rightarrow>
             (let start = mRange * nodeIndex c
              in Some (if index \<ge> start \<and> (index < start + mRange \<or> int (nodeIndex c) = int (nodeTotal c) - 1)
                       then True else False)))"

section \<open>Starting, stopping and the event loop\<close>

definition cluster_Start :: "cluster \<Rightarrow> cluster" where
  "cluster_Start c = (if cl_running c = True then c else c\<lparr>cl_running := True, stop_closed := False\<rparr>)"

definition cluster_Stop :: "cluster \<Rightarrow> cluster" where
  "cluster_Stop c = (if stop_closed c then c else c\<lparr>stop_closed := True, cl_running := False\<rparr>)"

definition announce :: "cluster \<Rightarrow> string" where
  "announce c = announceText c @ '' '' @ nodeID c"

text \<open>
  The events of the loop with the clock readings their handling makes; the second component
  collects the messages published on the cluster channel.
\<close>

datatype cluster_event = AnnounceTick | ClusterData "nat \<Rightarrow> gotime" string

definition cluster_event_step :: "cluster_event \<Rightarrow> cluster \<times> string list \<Rightarrow> cluster \<times> string list" where
  "cluster_event_step ev s =
     (case s of (c, out) \<Rightarrow>
        (case ev of
           AnnounceTick \<Rightarrow> (c, out @ [announce c])
         | ClusterData now data \<Rightarrow>
             if \<not> HasPrefix data (announceText c @ '' '') then (c, out)
             else (refreshNodeList now (drop (length (announceText c) + 1) data) (nodeID c) c, out)))"

definition clusterLoop :: "(nat \<Rightarrow> gotime) \<Rightarrow> cluster_event list \<Rightarrow> cluster \<Rightarrow> cluster \<times> string list" where
  "clusterLoop now evs c = fold cluster_event_step evs (refreshNodeList now (nodeID c) (nodeID c) c, [])"

section \<open>The interface of an identifier index\<close>

locale id_index =
  fixes add :: "'s \<Rightarrow> int \<Rightarrow> 's" and remove :: "'s \<Rightarrow> int \<Rightarrow> 's"
    and ids :: "'s \<Rightarrow> int set" and invar :: "'s \<Rightarrow> bool"
  assumes ids_add: "invar s \<Longrightarrow> ids (add s x) = insert x (ids s)"
    and ids_remove: "invar s \<Longrightarrow> ids (remove s x) = ids s - {x}"
    and invar_add: "invar s \<Longrightarrow> invar (add s x)"
    and invar_remove: "invar s \<Longrightarrow> invar (remove s x)"
begin

fun run :: "(bool \<times> int) list \<Rightarrow> 's \<Rightarrow> 's" where
  "run [] s = s"
| "run ((True, x) # ops) s = run ops (add s x)"
| "run ((False, x) # ops) s = run ops (remove s x)"

lemma run_invar: "invar s \<Longrightarrow> invar (run ops s)"
  by (induction ops s rule: run.induct) (simp_all add: invar_add invar_remove)

text \<open>An identifier is in the index iff the last operation on it was an addition.\<close>

lemma run_ids:
  "invar s \<Longrightarrow>
     x \<in> ids (run ops s) \<longleftrightarrow>
       (case map_of (rev (map (\<lambda>(b, y). (y, b)) ops)) x of None \<Rightarrow> x \<in> ids s | Some b \<Rightarrow> b)"
proof (induction ops s rule: run.induct)
  case (2 y ops s)
  then show ?case
    by (cases "map_of (rev (map (\<lambda>(b, y). (y, b)) ops)) x")
      (auto simp: invar_add ids_add map_add_def map_of_append split: option.splits)
next
  case (3 y ops s)
  then show ?case
    by (cases "map_of (rev (map (\<lambda>(b, y). (y, b)) ops)) x")
      (auto simp: invar_remove ids_remove map_add_def map_of_append split: option.splits)
qed simp

lemma add_idem: "invar s \<Longrightarrow> ids (add (add s x) x) = ids (add s x)"
  by (simp add: ids_add invar_add)

lemma remove_add: "invar s \<Longrightarrow> x \<notin> ids s \<Longrightarrow> ids (remove (add s x) x) = ids s"
  by (auto simp: ids_add ids_remove invar_add)

end

definition index_ok :: "int list \<Rightarrow> bool" where
  "index_ok xs \<longleftrightarrow> sorted_wrt (<) xs"

lemma index_ok_sorted: "index_ok xs \<Longrightarrow> sorted xs"
  by (simp add: index_ok_def strict_sorted_imp_sorted)

lemma take_less_drop:
  assumes "index_ok xs"
  shows "\<forall>y \<in> set (take (SearchInts xs x) xs). y < x" "\<forall>y \<in> set (drop (SearchInts xs x) xs). x \<le> y"
proof -
  show "\<forall>y \<in> set (take (SearchInts xs x) xs). y < x"
    using SearchInts_spec(2) [OF index_ok_sorted [OF assms], of _ x] by (auto simp: in_set_conv_nth)
  show "\<forall>y \<in> set (drop (SearchInts xs x) xs). x \<le> y"
    using SearchInts_spec(3) [OF index_ok_sorted [OF assms], of x] by (auto simp: in_set_conv_nth)
qed

lemma split_at_search: "xs = take (SearchInts xs x) xs @ drop (SearchInts xs x) xs"
  by simp

lemma index_ok_add: "index_ok xs \<Longrightarrow> index_ok (addMirrorIDToSlice xs x)"
proof (cases "x \<in> set xs")
  case True
  assume ok: "index_ok xs"
  with True show ?thesis
    using SearchInts_mem [OF index_ok_sorted [OF ok], of x] by (simp add: addMirrorIDToSlice_def Let_def)
next
  case False
  assume ok: "index_ok xs"
  have "sorted_wrt (<) (take (SearchInts xs x) xs @ drop (SearchInts xs x) xs)"
    using ok by (simp add: index_ok_def)
  moreover have "\<forall>y \<in> set (drop (SearchInts xs x) xs). x < y"
    using take_less_drop(2) [OF ok, of x] False by (metis in_set_dropD order_le_less)
  ultimately show ?thesis
    using take_less_drop(1) [OF ok, of x] ok
    unfolding addMirrorIDToSlice_def Let_def index_ok_def
    by (auto simp: sorted_wrt_append simp del: append_take_drop_id)
qed

lemma set_add: "index_ok xs \<Longrightarrow> set (addMirrorIDToSlice xs x) = insert x (set xs)"
proof -
  have "set (take i xs @ [x] @ drop i xs) = insert x (set xs)" for i
    using set_append [of "take i xs" "drop i xs"] by (simp del: set_append) (auto simp: set_append)
  moreover assume "index_ok xs"
  then have "x \<in> set xs" if "SearchInts xs x < length xs" "xs ! SearchInts xs x = x"
    using that by (metis nth_mem)
  ultimately show ?thesis by (auto simp: addMirrorIDToSlice_def Let_def insert_absorb not_le simp del: set_append)
qed

lemma sorted_wrt_delete: "sorted_wrt P xs \<Longrightarrow> sorted_wrt P (take i xs @ drop (i + 1) xs)"
proof -
  assume s: "sorted_wrt P xs"
  then have "sorted_wrt P (take i xs @ drop i xs)" by simp
  then have "\<forall>a \<in> set (take i xs). \<forall>b \<in> set (drop i xs). P a b" unfolding sorted_wrt_append by blast
  moreover have "set (drop (i + 1) xs) \<subseteq> set (drop i xs)" by (simp add: set_drop_subset_set_drop)
  ultimately show ?thesis using s by (auto simp: sorted_wrt_append sorted_wrt_take sorted_wrt_drop)
qed

lemma index_ok_remove: "index_ok xs \<Longrightarrow> index_ok (removeMirrorIDFromSlice xs x)"
  using sorted_wrt_delete [of "(<)" xs "SearchInts xs x"]
  by (simp add: removeMirrorIDFromSlice_def Let_def index_ok_def)

lemma set_remove: "index_ok xs \<Longrightarrow> set (removeMirrorIDFromSlice xs x) = set xs - {x}"
proof -
  assume ok: "index_ok xs"
  let ?i = "SearchInts xs x"
  show ?thesis
  proof (cases "x \<in> set xs")
    case True
    then have i: "?i < length xs" "xs ! ?i = x" using SearchInts_mem [OF index_ok_sorted [OF ok]] by auto
    have "distinct xs" using ok by (simp add: index_ok_def strict_sorted_iff)
    moreover have eq: "take ?i xs @ x # drop (?i + 1) xs = xs"
      using i by (metis Suc_eq_plus1 id_take_nth_drop)
    ultimately have "distinct (take ?i xs @ x # drop (?i + 1) xs)" by (simp only:)
    moreover have "set xs = set (take ?i xs @ x # drop (?i + 1) xs)" by (simp only: eq)
    ultimately have "set (take ?i xs @ drop (?i + 1) xs) = set xs - {x}" by auto
    with i show ?thesis by (simp add: removeMirrorIDFromSlice_def Let_def)
  next
    case False
    then have "\<not> (?i < length xs \<and> xs ! ?i = x)" by (metis nth_mem)
    then have "removeMirrorIDFromSlice xs x = xs"
      unfolding removeMirrorIDFromSlice_def Let_def by (simp only: if_False)
    with False show ?thesis by simp
  qed
qed

interpretation mindex: id_index addMirrorIDToSlice removeMirrorIDFromSlice set index_ok
  by unfold_locales (simp_all add: set_add set_remove index_ok_add index_ok_remove)

section \<open>The node list stays sorted, and the node keeps its own place\<close>

interpretation node_order: strict_weak_order byNodeID_Less
proof -
  have eq: "byNodeID_Less = (\<lambda>a b. node_ID a < node_ID b)"
    by (auto simp: byNodeID_Less_def fun_eq_iff)
  show "strict_weak_order byNodeID_Less" unfolding eq by (rule strict_weak_order_key)
qed

definition node_ids :: "node list \<Rightarrow> string list" where
  "node_ids ns = map node_ID ns"

lemma length_node_ids [simp]: "length (node_ids ns) = length ns"
  by (simp add: node_ids_def)

lemma node_ids_update [simp]: "node_ids (ns[i := (ns ! i)\<lparr>LastAnnounce := t\<rparr>]) = node_ids ns"
proof (cases "i < length ns")
  case True
  then have "node_ids ns ! i = node_ID (ns ! i)" by (simp add: node_ids_def)
  then show ?thesis using list_update_id [of "node_ids ns" i] by (simp add: node_ids_def map_update)
qed (simp add: list_update_beyond)

lemma node_ids_delete [simp]:
  "node_ids (take i ns @ drop (Suc i) ns) = take i (node_ids ns) @ drop (Suc i) (node_ids ns)"
  by (simp add: node_ids_def take_map drop_map)

lemma delete_other:
  "i < length xs \<Longrightarrow> x \<noteq> xs ! i \<Longrightarrow> x \<in> set xs \<Longrightarrow> x \<in> set (take i xs @ drop (i + 1) xs)"
  by (metis (no_types, lifting) Suc_eq_plus1 id_take_nth_drop in_set_conv_decomp set_ConsD set_append Un_iff)

text \<open>Nodes leave one by one; the sender and the node itself never do.\<close>

lemma expire_loop_ids:
  assumes "expire_loop now nid self k i found ns = (k', found', ns')"
    and "sorted_wrt (<) (node_ids ns)"
  shows "sorted_wrt (<) (node_ids ns')"
    "x \<in> set (node_ids ns) \<Longrightarrow> x = nid \<or> x = self \<Longrightarrow> x \<in> set (node_ids ns')"
    "found' \<longleftrightarrow> found \<or> nid \<in> set (drop i (node_ids ns))"
  using assms
proof (induction now nid self k i found ns rule: expire_loop.induct)
  case (1 now nid self k i found ns)
  note eq = expire_loop.simps [of now nid self k i found ns]
  let ?gone = "ElapsedSec (now k) (LastAnnounce (ns ! i)) 5 \<and> node_ID (ns ! i) \<noteq> nid \<and> node_ID (ns ! i) \<noteq> self"
  have nth: "node_ids ns ! i = node_ID (ns ! i)" "length (node_ids ns) = length ns" if "i < length ns"
    using that by (simp_all add: node_ids_def)
  have beyond: "drop i (node_ids ns) = []" if "\<not> i < length ns"
    using that by (simp add: node_ids_def)
  have drop_i: "drop i (node_ids ns) = node_ID (ns ! i) # drop (i + 1) (node_ids ns)" if "i < length ns"
    using that nth by (metis Cons_nth_drop_Suc Suc_eq_plus1)
  {
    case 1
    then show ?case
      using eq "1.IH"(1,4,7) sorted_wrt_delete [of "(<)" "node_ids ns" i]
      by (auto split: if_splits)
  next
    case 2
    then show ?case
      using eq "1.IH"(2,5,8) sorted_wrt_delete [of "(<)" "node_ids ns" i]
        delete_other [of i "node_ids ns" x] nth
      by (auto split: if_splits)
  next
    case 3
    then show ?case
      using eq "1.IH"(3,6,9) sorted_wrt_delete [of "(<)" "node_ids ns" i] drop_i
      by (auto simp: nth beyond split: if_splits)
  }
qed

lemma expire_loop_subset:
  "expire_loop now nid self k i found ns = (k', found', ns') \<Longrightarrow> set (node_ids ns') \<subseteq> set (node_ids ns)"
proof (induction now nid self k i found ns rule: expire_loop.induct)
  case (1 now nid self k i found ns)
  have "set (take i (node_ids ns) @ drop (Suc i) (node_ids ns)) \<subseteq> set (node_ids ns)"
    by (auto dest: in_set_takeD in_set_dropD)
  with 1 expire_loop.simps [of now nid self k i found ns] show ?case
    by (fastforce split: if_splits)
qed

definition cluster_wf :: "cluster \<Rightarrow> bool" where
  "cluster_wf c \<longleftrightarrow>
     sorted_wrt (<) (node_ids (nodes c)) \<and> index_ok (mirrorsIndex c) \<and>
     nodeTotal c = length (nodes c) \<and> nodeIndex c < length (nodes c) \<and>
     node_ids (nodes c) ! nodeIndex c = nodeID c"

lemma node_index_loop_found:
  "self \<in> set (node_ids ns) \<Longrightarrow>
     \<exists>j < length ns. node_index_loop self i ns = Some (i + j) \<and> node_ids ns ! j = self"
proof (induction ns arbitrary: i)
  case (Cons n ns)
  show ?case
  proof (cases "node_ID n = self")
    case True
    then show ?thesis by (intro exI [of _ 0]) (simp add: node_ids_def)
  next
    case False
    with Cons.prems have "self \<in> set (node_ids ns)" by (auto simp: node_ids_def)
    from Cons.IH [OF this, of "i + 1"] obtain j where
      "j < length ns" "node_index_loop self (i + 1) ns = Some (i + 1 + j)" "node_ids ns ! j = self" by blast
    with False show ?thesis by (intro exI [of _ "Suc j"]) (simp add: node_ids_def)
  qed
qed (simp add: node_ids_def)

lemma sorted_ids_go_sort:
  assumes "distinct (node_ids ns)"
  shows "sorted_wrt (<) (node_ids (go_sort byNodeID_Less ns))"
proof -
  have "sorted (node_ids (go_sort byNodeID_Less ns))"
    using node_order.go_sort_sorted [of ns] by (simp add: node_ids_def sorted_map byNodeID_Less_def not_less)
  moreover have "mset (node_ids (go_sort byNodeID_Less ns)) = mset (node_ids ns)"
    by (simp add: node_ids_def)
  then have "distinct (node_ids (go_sort byNodeID_Less ns))"
    using assms mset_eq_imp_distinct_iff by blast
  ultimately show ?thesis by (simp add: strict_sorted_iff)
qed

lemma refreshNodeList_nodes:
  fixes now :: "nat \<Rightarrow> gotime" and nid self :: string and c :: cluster
  assumes "sorted_wrt (<) (node_ids (nodes c))"
  defines "c' \<equiv> refreshNodeList now nid self c"
  shows "sorted_wrt (<) (node_ids (nodes c'))" "nid \<in> set (node_ids (nodes c'))"
    "self \<in> set (node_ids (nodes c)) \<Longrightarrow> self \<in> set (node_ids (nodes c'))"
proof -
  obtain k found ns where e: "expire_loop now nid self 0 0 False (nodes c) = (k, found, ns)"
    using prod_cases3 by blast
  note x = expire_loop_ids [OF e assms(1)]
  let ?n = "\<lparr>node_ID = nid, LastAnnounce = Unix (now k)\<rparr>"
  have nc: "nodes c' = (if found then ns else go_sort byNodeID_Less (ns @ [?n]))"
    by (simp add: c'_def refreshNodeList_def e Let_def)
  have sub: "nid \<notin> set (node_ids ns)" if "\<not> found"
  proof -
    have "set (node_ids ns) \<subseteq> set (node_ids (nodes c))" by (rule expire_loop_subset [OF e])
    then show ?thesis using x(3) that by auto
  qed
  have d: "distinct (node_ids (ns @ [?n]))" if "\<not> found"
    using x(1) sub [OF that] by (simp add: node_ids_def strict_sorted_iff)
  show "sorted_wrt (<) (node_ids (nodes c'))"
    using x(1) sorted_ids_go_sort [OF d] by (simp add: nc)
  show "nid \<in> set (node_ids (nodes c'))"
    using x(2) [of nid] x(3) by (auto simp: nc node_ids_def)
  show "self \<in> set (node_ids (nodes c'))" if "self \<in> set (node_ids (nodes c))"
    using x(2) [OF that] by (auto simp: nc node_ids_def)
qed

lemma refreshNodeList_fields [simp]:
  "nodeID (refreshNodeList now nid self c) = nodeID c"
  "mirrorsIndex (refreshNodeList now nid self c) = mirrorsIndex c"
  "announceText (refreshNodeList now nid self c) = announceText c"
  "nodeTotal (refreshNodeList now nid self c) = length (nodes (refreshNodeList now nid self c))"
  by (simp_all add: refreshNodeList_def Let_def split: prod.split)

lemma refreshNodeList_index:
  "nodeIndex (refreshNodeList now nid self c) =
     (case node_index_loop self 0 (nodes (refreshNodeList now nid self c)) of
        None \<Rightarrow> nodeIndex c | Some i \<Rightarrow> i)"
  by (simp add: refreshNodeList_def Let_def split: prod.split)

lemma refresh_wf:
  assumes s: "sorted_wrt (<) (node_ids (nodes c))" and m: "index_ok (mirrorsIndex c)"
    and self: "nid = nodeID c \<or> nodeID c \<in> set (node_ids (nodes c))"
  shows "cluster_wf (refreshNodeList now nid (nodeID c) c)"
proof -
  let ?c = "refreshNodeList now nid (nodeID c) c"
  have "nodeID c \<in> set (node_ids (nodes ?c))"
    using self refreshNodeList_nodes(2,3) [OF s] by blast
  from node_index_loop_found [OF this, of 0] obtain j where
    "j < length (nodes ?c)" "nodeIndex ?c = j" "node_ids (nodes ?c) ! j = nodeID c"
    by (auto simp: refreshNodeList_index)
  then show ?thesis
    using refreshNodeList_nodes(1) [OF s] m by (simp add: cluster_wf_def)
qed

lemma cluster_wf_refresh:
  "cluster_wf c \<Longrightarrow> cluster_wf (refreshNodeList now nid (nodeID c) c)"
proof (rule refresh_wf)
  assume w: "cluster_wf c"
  then have "node_ids (nodes c) ! nodeIndex c \<in> set (node_ids (nodes c))"
    by (intro nth_mem) (simp add: cluster_wf_def node_ids_def)
  with w show "nid = nodeID c \<or> nodeID c \<in> set (node_ids (nodes c))"
    by (simp add: cluster_wf_def)
qed (simp_all add: cluster_wf_def)

lemma cluster_wf_step:
  "cluster_wf (fst s) \<Longrightarrow> cluster_wf (fst (cluster_event_step ev s))"
  by (cases s; cases ev) (auto simp: cluster_event_step_def cluster_wf_refresh)

section \<open>Every mirror has one node\<close>

text \<open>The view of node number \<open>i\<close>: all nodes share the index and the node count.\<close>

definition view :: "cluster \<Rightarrow> nat \<Rightarrow> cluster" where
  "view c i = c\<lparr>nodeIndex := i\<rparr>"

lemma IsHandled_view:
  assumes "nodeTotal c > 0"
  shows "IsHandled (view c i) m = Some (
    (let r = (2 * length (mirrorsIndex c) + nodeTotal c) div (2 * nodeTotal c)
     in r * i \<le> SearchInts (mirrorsIndex c) m \<and>
        (SearchInts (mirrorsIndex c) m < r * i + r \<or> i + 1 = nodeTotal c)))"
  using assms by (auto simp: IsHandled_def view_def mirror_range_def Let_def)

text \<open>Which node owns a position: the quotient, cut at the last node.\<close>

definition owner :: "nat \<Rightarrow> nat \<Rightarrow> nat \<Rightarrow> nat" where
  "owner r t index = (if r = 0 then t - 1 else min (index div r) (t - 1))"

lemma owner_unique:
  assumes "t > 0" and "i < t"
  shows "(r * i \<le> index \<and> (index < r * i + r \<or> i + 1 = t)) \<longleftrightarrow> i = owner r t index"
proof (cases "r = 0")
  case True
  then show ?thesis using assms by (auto simp: owner_def)
next
  case False
  have "r * i \<le> index \<longleftrightarrow> i \<le> index div r"
    using False by (metis less_eq_div_iff_mult_less_eq mult.commute neq0_conv)
  moreover have "index < r * i + r \<longleftrightarrow> index div r < i + 1"
    using False by (simp add: div_less_iff_less_mult algebra_simps)
  ultimately show ?thesis using assms False by (auto simp: owner_def min_def)
qed

lemma owner_less: "t > 0 \<Longrightarrow> owner r t index < t"
  by (auto simp: owner_def)

section \<open>Properties\<close>

text \<open>
  C11: in a cluster whose nodes agree on the node count and on the mirrors, every mirror is
  handled by exactly one node.
\<close>

theorem IsHandled_exactly_one:
  assumes "nodeTotal c > 0"
  shows "\<exists>!i. i < nodeTotal c \<and> IsHandled (view c i) m = Some True"
proof -
  let ?r = "(2 * length (mirrorsIndex c) + nodeTotal c) div (2 * nodeTotal c)"
  have "i < nodeTotal c \<and> IsHandled (view c i) m = Some True \<longleftrightarrow>
      i = owner ?r (nodeTotal c) (SearchInts (mirrorsIndex c) m)" for i
    using owner_unique [OF assms, of i ?r "SearchInts (mirrorsIndex c) m"] owner_less [OF assms]
    by (cases "i < nodeTotal c") (auto simp: IsHandled_view [OF assms] Let_def)
  then show ?thesis by simp
qed

definition demo_cluster :: "int list \<Rightarrow> nat \<Rightarrow> cluster" where
  "demo_cluster ms t = (NewCluster ''h'' 7 0)\<lparr>mirrorsIndex := ms, nodeTotal := t\<rparr>"

theorem IsHandled_exactly_one_witness:
  "\<exists>!i. i < 3 \<and> IsHandled (view (demo_cluster [2, 4, 9, 11] 3) i) 9 = Some True"
  using IsHandled_exactly_one [of "demo_cluster [2, 4, 9, 11] 3" 9] by (simp add: demo_cluster_def)

text \<open>
  C12: the cluster state stays well formed under every sequence of events of the loop: the node
  list is strictly sorted by identifier, the node finds itself at its own index, the count is the
  length of the list.
\<close>

theorem clusterLoop_wf:
  assumes "nodes c = []" and "index_ok (mirrorsIndex c)"
  shows "cluster_wf (fst (clusterLoop now evs c))"
proof -
  have "cluster_wf (refreshNodeList now (nodeID c) (nodeID c) c)"
    by (rule refresh_wf) (use assms in \<open>simp_all add: node_ids_def\<close>)
  then have "cluster_wf (fst (refreshNodeList now (nodeID c) (nodeID c) c, [] :: string list))" by simp
  then show ?thesis unfolding clusterLoop_def
    by (induction evs rule: rev_induct) (simp_all add: cluster_wf_step)
qed

theorem clusterLoop_wf_witness:
  "cluster_wf (fst (clusterLoop (\<lambda>_. 0)
     [ClusterData (\<lambda>_. 0) ''HELLO0 zed'', AnnounceTick, ClusterData (\<lambda>k. 99 * time_Second) ''HELLO0 abc'']
     (NewCluster ''h'' 7 0)))"
  by (rule clusterLoop_wf) (simp_all add: NewCluster_def index_ok_def Let_def)

text \<open>
  adding and removing mirrors keeps the index sorted, and after any sequence of them a
  mirror is listed iff the last operation on it added it, or none touched it and it was listed.
\<close>

theorem mirror_index_run:
  assumes "index_ok xs"
  shows "index_ok (mindex.run ops xs) \<and>
     (x \<in> set (mindex.run ops xs) \<longleftrightarrow>
        (case map_of (rev (map (\<lambda>(b, y). (y, b)) ops)) x of None \<Rightarrow> x \<in> set xs | Some b \<Rightarrow> b))"
  using mindex.run_invar [OF assms] mindex.run_ids [OF assms] by blast

theorem mirror_index_run_witness:
  "index_ok (mindex.run [(True, 5), (True, 3), (False, 5)] [1]) \<and>
     3 \<in> set (mindex.run [(True, 5), (True, 3), (False, 5)] [1])"
  using mirror_index_run [of "[1]" "[(True, 5), (True, 3), (False, 5)]" 3] by (simp add: index_ok_def)

text \<open>
  The comment above the test says that only the last node may take one mirror more.  With 11
  mirrors on 8 nodes the last one handles four while every other handles one, and with 12 the
  last two handle none.
\<close>

definition load :: "cluster \<Rightarrow> nat \<Rightarrow> nat" where
  "load c i = length (filter (\<lambda>m. IsHandled (view c i) m = Some True) (mirrorsIndex c))"

theorem IsHandled_unbalanced:
  "map (load (demo_cluster (map int [0..<11]) 8)) [0..<8] = [1, 1, 1, 1, 1, 1, 1, 4] \<and>
   map (load (demo_cluster (map int [0..<12]) 8)) [0..<8] = [2, 2, 2, 2, 2, 2, 0, 0]"
  by code_simp

end
