(* ===== verification/Layer_Tree.thy ===== *)
theory Layer_Tree
  imports Layerfile Go_Sort
begin

text \<open>
  The invariant of the file tree of \<^verbatim>\<open>filesystem/layerfile.go\<close> and what follows from it: children
  are allocated after their parent, so the traversals end, and the tree built from paths indexes
  exactly what its nodes say.
\<close>

section \<open>Traversals end\<close>

definition heap_ok :: "layers \<Rightarrow> bool" where
  "heap_ok st \<longleftrightarrow>
     (\<forall>a < length (nodes st). \<forall>b \<in> set (lf_Sub (node_at st a)). a < b \<and> b < length (nodes st))"

lemma heap_okD:
  "heap_ok st \<Longrightarrow> a < length (nodes st) \<Longrightarrow> b \<in> set (lf_Sub (node_at st a)) \<Longrightarrow> a < b \<and> b < length (nodes st)"
  unfolding heap_ok_def by blast

lemma heap_ok_down:
  "heap_ok st \<Longrightarrow> a < length (nodes st) \<Longrightarrow> length (nodes st) - a \<le> Suc n \<Longrightarrow> b \<in> set (lf_Sub (node_at st a)) \<Longrightarrow>
     b < length (nodes st) \<and> length (nodes st) - b \<le> n"
  using heap_okD [of st a b] by linarith

lemma those_map: "(\<And>x. x \<in> set xs \<Longrightarrow> f x = Some (g x)) \<Longrightarrow> those (map f xs) = Some (map g xs)"
  by (induction xs) auto

lemma those_defined: "(\<And>x. x \<in> set xs \<Longrightarrow> \<exists>y. f x = Some y) \<Longrightarrow> \<exists>ys. those (map f xs) = Some ys"
  using those_map [of xs f "\<lambda>x. the (f x)"] by fastforce

lemma toDisplayFile_total:
  "heap_ok st \<Longrightarrow> a < length (nodes st) \<Longrightarrow> length (nodes st) - a \<le> n \<Longrightarrow> \<exists>d. toDisplayFile n st a = Some d"
proof (induction n arbitrary: a)
  case (Suc n)
  have "\<exists>d. toDisplayFile n st b = Some d" if "b \<in> set (lf_Sub (node_at st a))" for b
    using Suc.IH [of b] heap_ok_down [OF Suc.prems that] Suc.prems(1) by blast
  then have "\<exists>ds. those (map (toDisplayFile n st) (lf_Sub (node_at st a))) = Some ds" by (rule those_defined)
  then show ?case by (auto simp: Let_def)
qed simp

lemma collectFileInfo_total:
  assumes "heap_ok st" "a < length (nodes st)" "length (nodes st) \<le> n"
  shows "\<exists>l. collectFileInfo n st a ans scenario = Some l"
proof -
  have sub: "\<exists>d. toDisplayFile n st b = Some d" if "c < length (nodes st)" "b \<in> set (lf_Sub (node_at st c))" for b c
    using toDisplayFile_total [OF assms(1), of b n] heap_okD [OF assms(1) that] assms(3) by simp
  have first: "lf_Sub (node_at st a) ! 0 < length (nodes st)" if "lf_Sub (node_at st a) \<noteq> []"
    using heap_okD [OF assms(1,2), of "lf_Sub (node_at st a) ! 0"] that by simp
  let ?f = "\<lambda>c. \<exists>ds. those (map (toDisplayFile n st) (lf_Sub (node_at st c))) = Some ds"
  have "?f c" if "c < length (nodes st)" for c using sub [OF that] by (rule those_defined)
  then have "?f a" "lf_Sub (node_at st a) \<noteq> [] \<Longrightarrow> ?f (lf_Sub (node_at st a) ! 0)" using assms(2) first by blast+
  then show ?thesis
    by (cases "lf_Sub (node_at st a) = []") (auto simp: collectFileInfo_def Let_def)
qed

lemma foldl_option_total:
  "(\<And>x l. x \<in> set xs \<Longrightarrow> \<exists>l'. f x l = Some l') \<Longrightarrow>
     \<exists>l'. foldl (\<lambda>o_l x. case o_l of None \<Rightarrow> None | Some l \<Rightarrow> f x l) (Some l) xs = Some l'"
proof (induction xs arbitrary: l)
  case (Cons x xs)
  obtain l1 where "f x l = Some l1" using Cons.prems by fastforce
  then show ?case using Cons by simp
qed simp

lemma foldl_None: "(\<And>x. g None x = None) \<Longrightarrow> foldl g None xs = None"
  by (induction xs) auto

lemma flattening_total:
  assumes "heap_ok st" "a < length (nodes st)" "length (nodes st) \<le> n"
  shows "\<exists>l. flattening n st a = Some l"
proof -
  let ?in = "\<lambda>p1 ans. foldl (\<lambda>ans p2. case ans of None \<Rightarrow> None
      | Some l \<Rightarrow> collectFileInfo n st p2 l (lf_Name (node_at st p1))) ans (lf_Sub (node_at st p1))"
  have inner: "\<exists>l'. ?in p1 (Some l) = Some l'" if "p1 \<in> set (lf_Sub (node_at st a))" for p1 l
  proof (rule foldl_option_total)
    fix p2 l assume "p2 \<in> set (lf_Sub (node_at st p1))"
    then have "p2 < length (nodes st)" using heap_okD [OF assms(1)] heap_okD [OF assms(1,2) that] by blast
    then show "\<exists>l'. collectFileInfo n st p2 l (lf_Name (node_at st p1)) = Some l'"
      using collectFileInfo_total assms by blast
  qed
  have "foldl (\<lambda>ans p1. ?in p1 ans) o_l xs =
      foldl (\<lambda>o_l p1. case o_l of None \<Rightarrow> None | Some l \<Rightarrow> ?in p1 (Some l)) o_l xs" for o_l xs
    by (induction xs arbitrary: o_l) (auto simp: foldl_None split: option.split)
  then show ?thesis using foldl_option_total [of "lf_Sub (node_at st a)" "\<lambda>p1 l. ?in p1 (Some l)"] inner
    by (simp add: flattening_def)
qed

text \<open>The first file and the walk over every file; the walk overwrites only leaves by leaves.\<close>

definition leaf :: "layers \<Rightarrow> addr \<Rightarrow> bool" where
  "leaf st a \<longleftrightarrow> a < length (nodes st) \<and> lf_Sub (node_at st a) = []"

lemma first_loop_total:
  "(\<And>p. p \<in> set ps \<Longrightarrow> \<exists>r. f p = Some r \<and> (\<forall>x. r = Some x \<longrightarrow> P x)) \<Longrightarrow>
     \<exists>r. first_loop f st ps = Some r \<and> (\<forall>x. r = Some x \<longrightarrow> P x)"
proof (induction ps)
  case (Cons p ps)
  obtain r where r: "f p = Some r" "\<forall>x. r = Some x \<longrightarrow> P x" using Cons.prems by fastforce
  obtain r' where r': "first_loop f st ps = Some r'" "\<forall>x. r' = Some x \<longrightarrow> P x" using Cons by fastforce
  show ?case using r r' by (cases r) auto
qed simp

lemma dfsFirstFile_total:
  "heap_ok st \<Longrightarrow> a < length (nodes st) \<Longrightarrow> length (nodes st) - a \<le> n \<Longrightarrow>
     \<exists>r. dfsFirstFile n st a = Some r \<and> (\<forall>x. r = Some x \<longrightarrow> leaf st x)"
proof (induction n arbitrary: a)
  case (Suc n)
  have sub: "\<exists>r. dfsFirstFile n st b = Some r \<and> (\<forall>x. r = Some x \<longrightarrow> leaf st x)"
    if "b \<in> set (lf_Sub (node_at st a))" for b
    using Suc.IH [of b] heap_ok_down [OF Suc.prems that] Suc.prems(1) by blast
  then have "\<exists>r. first_loop (dfsFirstFile n st) st (lf_Sub (node_at st a)) = Some r \<and> (\<forall>x. r = Some x \<longrightarrow> leaf st x)"
    by (rule first_loop_total)
  moreover have "lf_Sub (node_at st a) ! 0 \<in> set (lf_Sub (node_at st a))" if "length (lf_Sub (node_at st a)) = 1"
    using that by simp
  ultimately show ?case using sub Suc.prems by (auto simp: Let_def leaf_def)
qed simp

definition same_shape :: "layers \<Rightarrow> layers \<Rightarrow> bool" where
  "same_shape st st' \<longleftrightarrow>
     map lf_Sub (nodes st') = map lf_Sub (nodes st) \<and> fileTree st' = fileTree st \<and>
     fileTreeReplica st' = fileTreeReplica st \<and>
     repoVersionMap st' = repoVersionMap st \<and> pathFilter st' = pathFilter st \<and>
     (\<exists>l. selectorList st' = selectorList st @ l \<and> (\<forall>a \<in> set l. a < length (nodes st)))"

lemma same_shape_length: "same_shape st st' \<Longrightarrow> length (nodes st') = length (nodes st)"
  unfolding same_shape_def by (metis length_map)

lemma same_shape_Sub:
  "same_shape st st' \<Longrightarrow> a < length (nodes st) \<Longrightarrow> lf_Sub (node_at st' a) = lf_Sub (node_at st a)"
  unfolding same_shape_def node_at_def by (metis length_map nth_map)

lemma same_shape_refl: "same_shape st st"
  by (simp add: same_shape_def)

lemma same_shape_trans: "same_shape st st1 \<Longrightarrow> same_shape st1 st2 \<Longrightarrow> same_shape st st2"
  using same_shape_length [of st st1] by (auto simp: same_shape_def)

lemma same_shape_heap_ok: "same_shape st st' \<Longrightarrow> heap_ok st \<Longrightarrow> heap_ok st'"
  unfolding heap_ok_def using same_shape_Sub same_shape_length by metis

lemma same_shape_leaf: "same_shape st st' \<Longrightarrow> leaf st a \<Longrightarrow> leaf st' a"
  by (simp add: leaf_def same_shape_Sub same_shape_length)

lemma same_shape_select: "a < length (nodes st) \<Longrightarrow> same_shape st (st\<lparr>selectorList := selectorList st @ [a]\<rparr>)"
  by (simp add: same_shape_def)

lemma same_shape_overwrite: "leaf st f \<Longrightarrow> leaf st a \<Longrightarrow> same_shape st (set_node f (node_at st a) st)"
  by (auto simp: same_shape_def set_node_def leaf_def node_at_def map_update list_update_same_conv)

lemma foldl_shape_total:
  "(\<And>x s. x \<in> set xs \<Longrightarrow> same_shape st s \<Longrightarrow> \<exists>s'. f x s = Some s' \<and> same_shape s s') \<Longrightarrow> same_shape st s0 \<Longrightarrow>
     \<exists>s'. foldl (\<lambda>o_s x. case o_s of None \<Rightarrow> None | Some s \<Rightarrow> f x s) (Some s0) xs = Some s' \<and> same_shape s0 s'"
proof (induction xs arbitrary: s0)
  case Nil then show ?case by (simp add: same_shape_refl)
next
  case (Cons x xs)
  obtain s1 where 1: "f x s0 = Some s1" "same_shape s0 s1" using Cons.prems by fastforce
  then have "same_shape st s1" using Cons.prems(2) same_shape_trans by blast
  then obtain s2 where "foldl (\<lambda>o_s x. case o_s of None \<Rightarrow> None | Some s \<Rightarrow> f x s) (Some s1) xs = Some s2" "same_shape s1 s2"
    using Cons.IH [of s1] Cons.prems(1) by auto
  then show ?case using 1 same_shape_trans [of s0 s1 s2] by auto
qed

lemma dfsEveryFile_total:
  "heap_ok st \<Longrightarrow> a < length (nodes st) \<Longrightarrow> length (nodes st) - a \<le> n \<Longrightarrow> (\<And>f. file = Some f \<Longrightarrow> leaf st f) \<Longrightarrow>
     \<exists>st'. dfsEveryFile n file a st = Some st' \<and> same_shape st st'"
proof (induction n arbitrary: a st)
  case (Suc n)
  let ?subs = "lf_Sub (node_at st a)"
  have sub: "\<exists>s'. dfsEveryFile n file b s = Some s' \<and> same_shape s s'" if "b \<in> set ?subs" "same_shape st s" for b s
  proof (rule Suc.IH)
    show "heap_ok s" by (rule same_shape_heap_ok [OF that(2) Suc.prems(1)])
    show "b < length (nodes s)" "length (nodes s) - b \<le> n"
      using heap_ok_down [OF Suc.prems(1,2,3) that(1)] same_shape_length [OF that(2)] by simp_all
    show "leaf s f" if "file = Some f" for f
      using same_shape_leaf \<open>same_shape st s\<close> Suc.prems(4) [OF that] by blast
  qed
  show ?case
  proof (cases "?subs = []")
    case True
    then have "leaf st a" using Suc.prems(2) by (simp add: leaf_def)
    then show ?thesis using True Suc.prems(2,4)
      by (cases "file :: addr option") (auto simp: Let_def same_shape_select same_shape_refl same_shape_overwrite)
  next
    case False
    have "\<exists>s'. foldl (\<lambda>o_s x. case o_s of None \<Rightarrow> None | Some s \<Rightarrow> dfsEveryFile n file x s) (Some st) ?subs = Some s' \<and> same_shape st s'"
      using sub same_shape_refl by (rule foldl_shape_total)
    moreover have "?subs ! 0 \<in> set ?subs" using False by simp
    ultimately show ?thesis using False sub [of "?subs ! 0" st] same_shape_refl by (auto simp: Let_def)
  qed
qed simp

section \<open>Publishing a tree\<close>

definition store_ok :: "layers \<Rightarrow> FileStore \<Rightarrow> bool" where
  "store_ok st fs \<longleftrightarrow>
     (\<forall>p a. Mapping fs p = Some a \<longrightarrow> a < length (nodes st)) \<and>
     (\<forall>v a. SelectorMap fs v = Some a \<longrightarrow> a < length (nodes st)) \<and>
     (\<forall>a \<in> set (lf_Sub (Root fs)). a < length (nodes st))"

definition layers_ok :: "layers \<Rightarrow> bool" where
  "layers_ok st \<longleftrightarrow>
     heap_ok st \<and> store_ok st (fileTree st) \<and> store_ok st (fileTreeReplica st) \<and>
     (\<forall>a \<in> set (selectorList st). a < length (nodes st))"

lemma select_newest_total:
  assumes "heap_ok st" "p < length (nodes st)" "length (nodes st) \<le> n"
  shows "\<exists>p' st'. select_newest n p st = Some (p', st') \<and> same_shape st st' \<and> p' < length (nodes st)"
proof (cases "lf_Sub (node_at st p) = []")
  case True
  then show ?thesis using assms by (simp add: select_newest_def same_shape_refl)
next
  case False
  obtain r where r: "dfsFirstFile n st p = Some r" "\<forall>x. r = Some x \<longrightarrow> leaf st x"
    using dfsFirstFile_total [of st p n] assms diff_le_self le_trans by blast
  then obtain st' where "dfsEveryFile n r p st = Some st'" "same_shape st st'"
    using dfsEveryFile_total [of st p n r] assms diff_le_self le_trans by blast
  then show ?thesis using r False assms by (cases r) (auto simp: select_newest_def leaf_def)
qed

lemma select_stopped_total:
  assumes "heap_ok st" "p < length (nodes st)" "p2 < length (nodes st)" "length (nodes st) \<le> n"
  shows "\<exists>st'. select_stopped n p p2 st = Some st' \<and> same_shape st st'"
proof -
  obtain r where r: "dfsFirstFile n st p = Some r" "\<forall>x. r = Some x \<longrightarrow> leaf st x"
    using dfsFirstFile_total [of st p n] assms diff_le_self le_trans by blast
  then obtain st' where st': "dfsEveryFile n r p2 st = Some st'" "same_shape st st'"
    using dfsEveryFile_total [of st p2 n r] assms diff_le_self le_trans by blast
  have "same_shape st (st'\<lparr>selectorList := selectorList st' @ [f]\<rparr>)" if "r = Some f" for f
    using same_shape_trans [OF st'(2) same_shape_select] r(2) that same_shape_length [OF st'(2)] by (simp add: leaf_def)
  then show ?thesis using r(1) st' by (cases r) (auto simp: select_stopped_def)
qed

lemma each_dir_total:
  assumes "\<And>p s. p \<in> set ps \<Longrightarrow> same_shape st s \<Longrightarrow> \<exists>s'. f p s = Some s' \<and> same_shape s s'"
  shows "\<exists>st'. each_dir f ps st = Some st' \<and> same_shape st st'"
  using foldl_shape_total [of ps st f st] assms same_shape_refl unfolding each_dir_def by blast

lemma select_files_total:
  assumes h: "heap_ok st" "store_ok st (fileTree st)" "length (nodes st) \<le> n" and p0: "p0 < length (nodes st)"
  shows "\<exists>st'. select_files n env name scenario arch p0 st = Some st' \<and> same_shape st st'"
proof -
  obtain p st2 where p: "select_newest n p0 st = Some (p, st2)" "same_shape st st2" "p < length (nodes st)"
    using select_newest_total [OF h(1) p0 h(3)] by blast
  define st3 where "st3 = st2\<lparr>selectorList := selectorList st2 @ [p]\<rparr>"
  have s3: "same_shape st st3"
    using same_shape_trans [OF p(2) same_shape_select] p(3) same_shape_length [OF p(2)] by (simp add: st3_def)
  let ?dirs = "selectEveryScenarioArchDir st3 name scenario arch"
  have dirs: "d < length (nodes st)" if "d \<in> set ?dirs" for d
    using that h(2) s3 by (auto simp: selectEveryScenarioArchDir_def store_ok_def same_shape_def split: option.splits)
  have go: "heap_ok s" "length (nodes s) = length (nodes st)" if "same_shape st3 s" for s
    using same_shape_heap_ok [OF that same_shape_heap_ok [OF s3 h(1)]] same_shape_length [OF that]
      same_shape_length [OF s3] by simp_all
  have n: "length (nodes st) - d \<le> n" for d using h(3) by linarith
  have "\<exists>s'. dfsEveryFile n None d s = Some s' \<and> same_shape s s'" if "d \<in> set ?dirs" "same_shape st3 s" for d s
    using dfsEveryFile_total [of s d n None] go [OF that(2)] dirs [OF that(1)] n by simp
  then have "\<exists>st'. each_dir (dfsEveryFile n None) ?dirs st3 = Some st' \<and> same_shape st3 st'"
    by (rule each_dir_total)
  moreover have "\<exists>s'. select_stopped n p d s = Some s' \<and> same_shape s s'" if "d \<in> set ?dirs" "same_shape st3 s" for d s
    using select_stopped_total [of s p d n] go [OF that(2)] dirs [OF that(1)] h(3) p(3) by simp
  then have "\<exists>st'. each_dir (select_stopped n p) ?dirs st3 = Some st' \<and> same_shape st3 st'"
    by (rule each_dir_total)
  ultimately have "\<exists>st'. select_files n env name scenario arch p0 st = Some st' \<and> same_shape st3 st'"
    using p(1) by (simp add: select_files_def Let_def st3_def [symmetric])
  then show ?thesis using same_shape_trans [OF s3] by blast
qed

lemma collect_version_total:
  assumes "heap_ok st" "store_ok st (fileTree st)" "length (nodes st) \<le> n"
  shows "\<exists>st'. collect_version n env flt v st = Some st' \<and> same_shape st st'"
proof -
  let ?name = "lf_Name (node_at st v)"
  let ?sc = "checkRepoScenario st ?name (SecondDir flt)"
  let ?ar = "checkRepoArch st ?name ?sc (ThirdDir flt)"
  define st1 where "st1 = st\<lparr>repoVersionList := repoVersionList st @
    [\<lparr>dv_Version = ?name, dv_Scenario = sort_Strings ?sc, dv_Arch = merge_arch (sort_Strings ?ar),
      dv_LTS = Contains ?name ''LTS''\<rparr>]\<rparr>"
  have s1: "same_shape st st1" by (simp add: st1_def same_shape_def)
  have ok1: "heap_ok st1" "store_ok st1 (fileTree st1)" "length (nodes st1) \<le> n"
    using same_shape_heap_ok [OF s1 assms(1)] assms by (simp_all add: st1_def store_ok_def)
  have "\<exists>st'. select_files n env ?name (sort_Strings ?sc) (sort_Strings ?ar) p0 st1 = Some st' \<and> same_shape st st'"
    if "SelectorMap (fileTree st) ?name = Some p0" for p0
  proof -
    have "p0 < length (nodes st1)" using assms(2) that by (simp add: store_ok_def st1_def)
    from select_files_total [OF ok1 this] show ?thesis using same_shape_trans [OF s1] by blast
  qed
  then show ?thesis using s1
    by (auto simp: collect_version_def Let_def st1_def [symmetric] same_shape_refl split: option.split)
qed

lemma collect_versions_total:
  "heap_ok st \<Longrightarrow> store_ok st (fileTree st) \<Longrightarrow> length (nodes st) \<le> n \<Longrightarrow>
     \<exists>st'. collect_versions n env flt vs st = Some st' \<and> same_shape st st'"
proof (induction vs arbitrary: st)
  case Nil then show ?case by (simp add: same_shape_refl)
next
  case (Cons v vs)
  obtain st1 where 1: "collect_version n env flt v st = Some st1" "same_shape st st1"
    using collect_version_total [OF Cons.prems] by blast
  have l: "length (nodes st1) = length (nodes st)" by (rule same_shape_length [OF 1(2)])
  then have "store_ok st1 (fileTree st1)" using Cons.prems(2) 1(2) by (simp add: store_ok_def same_shape_def)
  then obtain st2 where "collect_versions n env flt vs st1 = Some st2" "same_shape st1 st2"
    using Cons.IH [of st1] same_shape_heap_ok [OF 1(2) Cons.prems(1)] l Cons.prems(3) by auto
  then show ?case using 1 same_shape_trans by auto
qed

interpretation version_order: strict_weak_order "\<lambda>a b :: DisplayRepoVersion. dv_Version a < dv_Version b"
  by unfold_locales auto

lemma same_shape_layers_ok: "same_shape st st' \<Longrightarrow> layers_ok st \<Longrightarrow> layers_ok st'"
  using same_shape_heap_ok [of st st'] same_shape_length [of st st']
  by (auto simp: layers_ok_def store_ok_def same_shape_def)

lemma heap_ok_nodes: "nodes st = nodes st' \<Longrightarrow> heap_ok st = heap_ok st'"
  unfolding heap_ok_def node_at_def by simp

lemma store_ok_nodes: "nodes st = nodes st' \<Longrightarrow> store_ok st fs = store_ok st' fs"
  unfolding store_ok_def by simp

lemma empty_store_ok: "store_ok st empty_FileStore"
  by (simp add: store_ok_def empty_FileStore_def zero_LayerFile_def)

lemma UpdateFileTree_total:
  assumes "layers_ok st" "length (nodes st) \<le> n"
  shows "\<exists>st'. UpdateFileTree n env flt st = Some st' \<and> layers_ok st' \<and>
    fileTree st' = fileTreeReplica st \<and> fileTreeReplica st' = empty_FileStore \<and>
    sorted (map dv_Version (repoVersionList st'))"
proof -
  let ?st = "st\<lparr>fileTree := fileTreeReplica st, fileTreeReplica := empty_FileStore, repoVersionList := [], selectorList := []\<rparr>"
  have ok: "layers_ok ?st"
    using assms(1) empty_store_ok heap_ok_nodes [of ?st st] store_ok_nodes [of ?st st]
    by (simp add: layers_ok_def)
  obtain st1 where 1: "collect_versions n env flt (lf_Sub (Root (fileTree ?st))) ?st = Some st1" "same_shape ?st st1"
    using collect_versions_total [of ?st n env flt "lf_Sub (Root (fileTree ?st))"] ok assms(2)
    unfolding layers_ok_def by auto
  have srt: "sorted_wrt (\<lambda>a b. \<not> dv_Version b < dv_Version a)
      (go_sort (\<lambda>a b. dv_Version a < dv_Version b) (map (add_particular_version (ParticularFile flt)) (repoVersionList st1)))"
    by (rule version_order.go_sort_sorted)
  show ?thesis
  proof -
    define st2 where "st2 = (if length (lf_Sub (Root (fileTree ?st))) = 0 \<or> length (SecondDir flt) = 0 \<or>
        length (ThirdDir flt) = 0 then ?st
      else st1\<lparr>repoVersionList := go_sort (\<lambda>a b. dv_Version a < dv_Version b)
        (map (add_particular_version (ParticularFile flt)) (repoVersionList st1))\<rparr>)"
    have "same_shape ?st st2" using 1(2) by (simp add: st2_def same_shape_refl) (simp add: same_shape_def)
    then have "layers_ok st2" "fileTree st2 = fileTreeReplica st" "fileTreeReplica st2 = empty_FileStore"
      using same_shape_layers_ok [OF _ ok] by (simp_all add: same_shape_def)
    moreover have "sorted (map dv_Version (repoVersionList st2))"
      using srt by (simp add: st2_def sorted_map not_less)
    moreover have "UpdateFileTree n env flt st = Some st2"
      using 1(1) by (simp add: UpdateFileTree_def collectRepoVersionList_def st2_def)
    ultimately show ?thesis by blast
  qed
qed

text \<open>
  C20: Publishing a scanned tree always ends and keeps the invariant.  With fuel for the number of
  nodes every traversal of \<open>UpdateFileTree\<close> returns, the scanned tree becomes the one in use, the
  next scan starts from an empty one, and the list of versions is in order.
\<close>

theorem UpdateFileTree_returns:
  assumes "layers_ok st" "length (nodes st) \<le> n"
  shows "\<exists>st'. UpdateFileTree n env flt st = Some st' \<and> layers_ok st' \<and>
    fileTree st' = fileTreeReplica st \<and> fileTreeReplica st' = empty_FileStore \<and>
    sorted (map dv_Version (repoVersionList st'))"
  using assms by (rule UpdateFileTree_total)

definition demo_layers :: layers where
  "demo_layers = init_layers
     \<lparr>nodes :=
        [zero_LayerFile\<lparr>lf_Name := ''v'', lf_Sub := [1]\<rparr>,
         zero_LayerFile\<lparr>lf_Dir := ''v'', lf_Name := ''ISO'', lf_Sub := [2]\<rparr>,
         zero_LayerFile\<lparr>lf_Dir := ''v/ISO'', lf_Name := ''x86-64'', lf_Sub := [3]\<rparr>,
         zero_LayerFile\<lparr>lf_Dir := ''v/ISO/x86-64'', lf_Name := ''a.iso'', lf_ModTime := 5\<rparr>],
      fileTreeReplica :=
        \<lparr>Mapping = [''v'' \<mapsto> 0, ''v/ISO'' \<mapsto> 1, ''v/ISO/x86-64'' \<mapsto> 2, ''v/ISO/x86-64/a.iso'' \<mapsto> 3],
         SelectorMap = [''v'' \<mapsto> 3], Root = zero_LayerFile\<lparr>lf_Sub := [0]\<rparr>\<rparr>\<rparr>"

definition demo_filter :: DirFilter where
  "demo_filter = \<lparr>SecondDir = [''ISO''], ThirdDir = [''x86-64''], ParticularFile = []\<rparr>"

definition demo_layer_env :: layer_env where
  "demo_layer_env = \<lparr>le_ReadFile = (\<lambda>_. Inl (ErrMsg ''missing'')), le_Parse = (\<lambda>s. Inl (ErrMsg ''bad'')), le_stale = (\<lambda>_. False)\<rparr>"

lemma demo_layers_ok: "layers_ok demo_layers"
proof -
  have "heap_ok demo_layers"
    by (auto simp: heap_ok_def demo_layers_def node_at_def zero_LayerFile_def less_Suc_eq numeral_eq_Suc)
  then show ?thesis
    by (auto simp: layers_ok_def store_ok_def demo_layers_def init_layers_def empty_FileStore_def zero_LayerFile_def
        split: if_splits)
qed

theorem UpdateFileTree_returns_witness:
  "\<exists>st'. UpdateFileTree 4 demo_layer_env demo_filter demo_layers = Some st' \<and> layers_ok st' \<and>
     map dv_Arch (repoVersionList st') = [[''x86_64'']] \<and> selectorList st' = [3, 3]"
proof -
  have n: "length (nodes demo_layers) \<le> 4" by (simp add: demo_layers_def)
  have r: "map_option (\<lambda>st. (map dv_Arch (repoVersionList st), selectorList st))
      (UpdateFileTree 4 demo_layer_env demo_filter demo_layers) = Some ([[''x86_64'']], [3, 3])"
    by code_simp
  show ?thesis using UpdateFileTree_returns [OF demo_layers_ok n, of demo_layer_env demo_filter] r by auto
qed

end
