(* ===== verification/Layer_Build.thy ===== *)
theory Layer_Build
  imports Layer_Tree
begin

text \<open>
  Building the tree of \<^verbatim>\<open>filesystem/layerfile.go\<close> path by path: the index, the parent and child
  links and the newest file of every version agree after every file.
\<close>

section \<open>The tree as an abstract structure\<close>

text \<open>An index \<open>M\<close>, the top nodes \<open>R\<close>, and directory, name and children of the nodes.\<close>

definition tree_inv ::
  "(string \<rightharpoonup> addr) \<Rightarrow> addr list \<Rightarrow> (addr \<Rightarrow> string) \<Rightarrow> (addr \<Rightarrow> string) \<Rightarrow> (addr \<Rightarrow> addr list) \<Rightarrow> bool" where
  "tree_inv M R D N S \<longleftrightarrow>
     (\<forall>p a b. M p = Some a \<longrightarrow> b \<in> set (S a) \<longrightarrow> D b = p \<and> M (p @ Sep @ N b) = Some b) \<and>
     (\<forall>b \<in> set R. D b = '''' \<and> M (N b) = Some b) \<and>
     (\<forall>p a. M p = Some a \<longrightarrow>
        a \<in> set R \<and> p = N a \<or> (\<exists>d. M (D a) = Some d \<and> a \<in> set (S d) \<and> p = D a @ Sep @ N a)) \<and>
     (\<forall>p q a. M p = Some a \<longrightarrow> M q = Some a \<longrightarrow> p = q)"

lemma tree_inv_child: "tree_inv M R D N S \<Longrightarrow> M p = Some a \<Longrightarrow> b \<in> set (S a) \<Longrightarrow> D b = p \<and> M (p @ Sep @ N b) = Some b"
  unfolding tree_inv_def by blast

lemma tree_inv_top: "tree_inv M R D N S \<Longrightarrow> b \<in> set R \<Longrightarrow> D b = '''' \<and> M (N b) = Some b"
  unfolding tree_inv_def by blast

lemma tree_inv_parent:
  "tree_inv M R D N S \<Longrightarrow> M p = Some a \<Longrightarrow>
     a \<in> set R \<and> p = N a \<or> (\<exists>d. M (D a) = Some d \<and> a \<in> set (S d) \<and> p = D a @ Sep @ N a)"
  unfolding tree_inv_def by blast

lemma tree_inv_inj: "tree_inv M R D N S \<Longrightarrow> M p = Some a \<Longrightarrow> M q = Some a \<Longrightarrow> p = q"
  unfolding tree_inv_def by blast

lemma tree_inv_empty: "tree_inv Map.empty [] D N S"
  by (simp add: tree_inv_def)

lemma tree_inv_cong:
  assumes t: "tree_inv M R D N S" and eq: "\<And>p a. M p = Some a \<Longrightarrow> D' a = D a \<and> N' a = N a \<and> S' a = S a"
  shows "tree_inv M R D' N' S'"
  unfolding tree_inv_def
proof (intro conjI allI impI ballI)
  fix p a b assume "M p = Some a" "b \<in> set (S' a)"
  then have c: "D b = p \<and> M (p @ Sep @ N b) = Some b" using tree_inv_child [OF t] eq by metis
  then show "D' b = p" "M (p @ Sep @ N' b) = Some b" using eq by metis+
next
  fix b assume "b \<in> set R"
  then have "D b = '''' \<and> M (N b) = Some b" by (rule tree_inv_top [OF t])
  then show "D' b = ''''" "M (N' b) = Some b" using eq by metis+
next
  fix p a assume a: "M p = Some a"
  from tree_inv_parent [OF t a] eq [OF a] eq
  show "a \<in> set R \<and> p = N' a \<or> (\<exists>d. M (D' a) = Some d \<and> a \<in> set (S' d) \<and> p = D' a @ Sep @ N' a)" by metis
next
  fix p q a assume "M p = Some a" "M q = Some a"
  then show "p = q" by (rule tree_inv_inj [OF t])
qed

text \<open>Adding a new node below a directory, or at the top.\<close>

lemma tree_inv_add:
  assumes t: "tree_inv M R D N S" and dp: "M (D a) = Some dp" and new: "M (D a @ Sep @ N a) = None"
    and fresh: "\<And>p. M p \<noteq> Some a" and leaf: "S a = []"
  shows "tree_inv (M(D a @ Sep @ N a \<mapsto> a)) R D N (S(dp := S dp @ [a]))" (is "tree_inv ?M R D N ?S")
proof -
  have old: "?M p = Some b \<longleftrightarrow> M p = Some b \<or> p = D a @ Sep @ N a \<and> b = a" for p b using new by auto
  have na: "dp \<noteq> a" using dp fresh by blast
  show ?thesis
    unfolding tree_inv_def
  proof (intro conjI allI impI ballI)
    fix p c b assume m: "?M p = Some c" and b: "b \<in> set (?S c)"
    have "D b = p \<and> ?M (p @ Sep @ N b) = Some b"
    proof (cases "b = a \<and> c = dp")
      case True
      then have "M p = Some dp" using m old na by auto
      then have "p = D a" using tree_inv_inj [OF t dp] by simp
      then show ?thesis using True by simp
    next
      case False
      then have "b \<in> set (S c)" "c \<noteq> a" using b leaf na by (auto split: if_splits)
      then show ?thesis using m old tree_inv_child [OF t, of p c b] by auto
    qed
    then show "D b = p" "?M (p @ Sep @ N b) = Some b" by blast+
  next
    fix b assume "b \<in> set R"
    then show "D b = ''''" "?M (N b) = Some b" using tree_inv_top [OF t] old by blast+
  next
    fix p c assume m: "?M p = Some c"
    show "c \<in> set R \<and> p = N c \<or> (\<exists>d. ?M (D c) = Some d \<and> c \<in> set (?S d) \<and> p = D c @ Sep @ N c)"
    proof (cases "c = a")
      case True
      then have "p = D a @ Sep @ N a" using m fresh old by blast
      moreover have "?M (D a) = Some dp" using dp old by blast
      ultimately show ?thesis using True by auto
    next
      case False
      then have "M p = Some c" using m old by blast
      from tree_inv_parent [OF t this] show ?thesis using old by (metis Un_iff fun_upd_apply set_append)
    qed
  next
    fix p q c assume "?M p = Some c" "?M q = Some c"
    then show "p = q" using tree_inv_inj [OF t] fresh old by metis
  qed
qed

lemma tree_inv_add_top:
  assumes t: "tree_inv M R D N S" and a: "D a = ''''" "M (N a) = None"
    and fresh: "\<And>p. M p \<noteq> Some a" and leaf: "S a = []"
  shows "tree_inv (M(N a \<mapsto> a)) (R @ [a]) D N S" (is "tree_inv ?M ?R D N S")
proof -
  have old: "?M p = Some b \<longleftrightarrow> M p = Some b \<or> p = N a \<and> b = a" for p b using a by auto
  show ?thesis
    unfolding tree_inv_def
  proof (intro conjI allI impI ballI)
    fix p c b assume "?M p = Some c" "b \<in> set (S c)"
    then have "M p = Some c" using old leaf by (metis empty_iff list.set(1))
    from tree_inv_child [OF t this \<open>b \<in> set (S c)\<close>] show "D b = p" "?M (p @ Sep @ N b) = Some b" using old by blast+
  next
    fix b assume "b \<in> set ?R"
    then have "b \<in> set R \<or> b = a" by auto
    then show "D b = ''''" "?M (N b) = Some b" using tree_inv_top [OF t] old a by blast+
  next
    fix p c assume m: "?M p = Some c"
    show "c \<in> set ?R \<and> p = N c \<or> (\<exists>d. ?M (D c) = Some d \<and> c \<in> set (S d) \<and> p = D c @ Sep @ N c)"
    proof (cases "c = a")
      case True
      then show ?thesis using m fresh old by auto
    next
      case False
      then have "M p = Some c" using m old by blast
      from tree_inv_parent [OF t this] show ?thesis using old by (metis Un_iff set_append)
    qed
  next
    fix p q c assume "?M p = Some c" "?M q = Some c"
    then show "p = q" using tree_inv_inj [OF t] fresh old by metis
  qed
qed

section \<open>The state while building\<close>

definition version_of :: "layers \<Rightarrow> addr \<Rightarrow> string" where
  "version_of st a = hd (Split (lf_Dir (node_at st a)) (CHR ''/''))"

text \<open>No file of its version is newer than the one recorded.\<close>

definition recent :: "layers \<Rightarrow> addr \<Rightarrow> bool" where
  "recent st b \<longleftrightarrow>
     lf_ModTime (node_at st b) = 0 \<or>
     (\<exists>a. SelectorMap (fileTreeReplica st) (version_of st b) = Some a \<and>
          lf_ModTime (node_at st b) \<le> lf_ModTime (node_at st a))"

definition linked :: "layers \<Rightarrow> bool" where
  "linked st \<longleftrightarrow>
     tree_inv (Mapping (fileTreeReplica st)) (lf_Sub (Root (fileTreeReplica st)))
       (\<lambda>a. lf_Dir (node_at st a)) (\<lambda>a. lf_Name (node_at st a)) (\<lambda>a. lf_Sub (node_at st a))"

definition build_ok :: "layers \<Rightarrow> bool" where
  "build_ok st \<longleftrightarrow>
     layers_ok st \<and> linked st \<and>
     (\<forall>p b. Mapping (fileTreeReplica st) p = Some b \<longrightarrow> recent st b) \<and>
     (\<forall>v a. SelectorMap (fileTreeReplica st) v = Some a \<longrightarrow> version_of st a = v)"

lemma build_okD:
  assumes "build_ok st"
  shows "heap_ok st" "store_ok st (fileTree st)" "store_ok st (fileTreeReplica st)" "linked st"
    "\<And>p b. Mapping (fileTreeReplica st) p = Some b \<Longrightarrow> recent st b \<and> b < length (nodes st)"
    "\<And>v a. SelectorMap (fileTreeReplica st) v = Some a \<Longrightarrow> version_of st a = v \<and> a < length (nodes st)"
    "\<And>a. a \<in> set (selectorList st) \<Longrightarrow> a < length (nodes st)"
  using assms unfolding build_ok_def layers_ok_def store_ok_def by blast+

lemma build_ok_init: "build_ok init_layers"
  by (simp add: build_ok_def layers_ok_def heap_ok_def store_ok_def linked_def tree_inv_empty init_layers_def
      empty_FileStore_def zero_LayerFile_def)

text \<open>
  A change of the state that keeps the index, the links and the times of the indexed and recorded
  nodes keeps the invariant.
\<close>

lemma build_ok_keep:
  assumes ok: "build_ok st" and len: "length (nodes st) \<le> length (nodes st')"
    and keep: "fileTree st' = fileTree st" "selectorList st' = selectorList st"
      "Mapping (fileTreeReplica st') = Mapping (fileTreeReplica st)" "Root (fileTreeReplica st') = Root (fileTreeReplica st)"
    and links: "\<And>a. a < length (nodes st) \<Longrightarrow> lf_Dir (node_at st' a) = lf_Dir (node_at st a) \<and>
      lf_Name (node_at st' a) = lf_Name (node_at st a) \<and> lf_Sub (node_at st' a) = lf_Sub (node_at st a)"
    and fresh: "\<And>a. length (nodes st) \<le> a \<Longrightarrow> a < length (nodes st') \<Longrightarrow> lf_Sub (node_at st' a) = []"
    and rec: "\<And>p b. Mapping (fileTreeReplica st) p = Some b \<Longrightarrow> recent st' b"
    and sel: "\<And>v a. SelectorMap (fileTreeReplica st') v = Some a \<Longrightarrow> version_of st' a = v \<and> a < length (nodes st')"
  shows "build_ok st'"
proof -
  note o = build_okD [OF ok]
  have "heap_ok st'"
    unfolding heap_ok_def
  proof (intro allI impI ballI)
    fix a b assume a: "a < length (nodes st')" and b: "b \<in> set (lf_Sub (node_at st' a))"
    then have "a < length (nodes st)" using fresh [of a] by (cases "a < length (nodes st)") auto
    then show "a < b \<and> b < length (nodes st')" using b links [of a] heap_okD [OF o(1), of a b] len by auto
  qed
  moreover have "store_ok st' (fileTree st')" "store_ok st' (fileTreeReplica st')"
    using o(2,3) len keep sel unfolding store_ok_def by (metis less_le_trans)+
  moreover have "linked st'"
    using tree_inv_cong [OF o(4) [unfolded linked_def]] links o(5) keep(3,4) unfolding linked_def by metis
  ultimately show ?thesis using rec sel keep o(7) len unfolding build_ok_def layers_ok_def by (metis less_le_trans)
qed

lemma node_at_new:
  "new_node n st = (a, st') \<Longrightarrow>
     a = length (nodes st) \<and> length (nodes st') = Suc a \<and> node_at st' a = n \<and>
     (\<forall>b < length (nodes st). node_at st' b = node_at st b) \<and>
     fileTreeReplica st' = fileTreeReplica st \<and> fileTree st' = fileTree st \<and> selectorList st' = selectorList st"
  by (auto simp: new_node_def node_at_def nth_append)

lemma build_ok_new:
  assumes ok: "build_ok st" and new: "new_node n st = (a, st')" "lf_Sub n = []"
  shows "build_ok st'"
proof -
  note n = node_at_new [OF new(1)] and o = build_okD [OF ok]
  have old: "\<And>b. b < length (nodes st) \<Longrightarrow> node_at st' b = node_at st b" and rep: "fileTreeReplica st' = fileTreeReplica st"
    using n by auto
  have v: "\<And>b. b < length (nodes st) \<Longrightarrow> version_of st' b = version_of st b" using old by (simp add: version_of_def)
  show ?thesis
  proof (rule build_ok_keep [OF ok])
    fix p b assume "Mapping (fileTreeReplica st) p = Some b"
    from o(5) [OF this] show "recent st' b" using old v o(6) rep unfolding recent_def by metis
  next
    fix w b assume "SelectorMap (fileTreeReplica st') w = Some b"
    then show "version_of st' b = w \<and> b < length (nodes st')" using o(6) [of w b] v n rep by auto
  qed (use n new(2) old in \<open>auto simp: less_Suc_eq\<close>)
qed

text \<open>What setting the data of a node does.\<close>

definition recent_after :: "layers \<Rightarrow> addr \<Rightarrow> LayerFile \<Rightarrow> (string \<rightharpoonup> addr)" where
  "recent_after st a n =
     (let sel = SelectorMap (fileTreeReplica st); v = version_of st a in
      case sel v of
        Some b \<Rightarrow> if lf_ModTime n < lf_ModTime (if b = a then n else node_at st b) then sel else sel(v \<mapsto> a)
      | None \<Rightarrow> sel(v \<mapsto> a))"

lemma setRecentFile_effect:
  assumes "a < length (nodes st)" and "lf_Dir n = lf_Dir (node_at st a)"
  shows "setRecentFile a (set_node a n st) =
    st\<lparr>nodes := (nodes st)[a := n], fileTreeReplica := (fileTreeReplica st)\<lparr>SelectorMap := recent_after st a n\<rparr>\<rparr>"
  using assms
  by (auto simp: setRecentFile_def recent_after_def set_node_def node_at_def version_of_def Let_def nth_list_update
      split: option.split)

lemma setFileData_effect:
  assumes "setFileData env cnf a path fsize modTime st = Inr (d, st')" and "a < length (nodes st)"
  shows "fd_Path d = path \<and>
    (\<exists>n' sel'. st' = st\<lparr>nodes := (nodes st)[a := n'],
        fileTreeReplica := (fileTreeReplica st)\<lparr>SelectorMap := sel'\<rparr>\<rparr> \<and>
      lf_Dir n' = lf_Dir (node_at st a) \<and> lf_Name n' = lf_Name (node_at st a) \<and> lf_Sub n' = lf_Sub (node_at st a) \<and>
      (lf_ModTime n' = lf_ModTime (node_at st a) \<and> sel' = SelectorMap (fileTreeReplica st) \<or>
       sel' = recent_after st a n'))"
proof -
  obtain sz mt where s: "covertFileSize fsize = Inr sz" "dashed modTime = Inr mt"
    using assms(1) by (auto simp: setFileData_def split: sum.splits)
  let ?n0 = "(node_at st a)\<lparr>lf_Type := ''file'', lf_Size := sz\<rparr>"
  let ?sha = "\<lambda>n. case le_ReadFile env (ConcatURL (Repository cnf) path @ FileExtensionSha256) of
      Inl e \<Rightarrow> n | Inr d \<Rightarrow> n\<lparr>lf_Sha256 := hd (Split d (CHR '' ''))\<rparr>"
  have sn: "set_node a m (set_node a n st) = set_node a m st" "node_at (set_node a n st) a = n" for m n
    using assms(2) by (simp_all add: set_node_def node_at_def)
  show ?thesis
  proof (cases "le_Parse env mt")
    case (Inl e)
    then have "fd_Path d = path" "st' = set_node a (?sha ?n0) st"
      using assms(1) by (auto simp: setFileData_def s Let_def sn split: sum.splits)
    then show ?thesis
      by (intro conjI exI [of _ "?sha ?n0"] exI [of _ "SelectorMap (fileTreeReplica st)"])
        (auto simp: set_node_def split: sum.split)
  next
    case (Inr t)
    let ?n = "?n0\<lparr>lf_ModTime := t\<rparr>"
    have "st\<lparr>nodes := (nodes st)[a := n], fileTreeReplica := r\<rparr>\<lparr>nodes := (nodes st)[a := n, a := m]\<rparr> =
      st\<lparr>nodes := (nodes st)[a := m], fileTreeReplica := r\<rparr>" for n m r by simp
    then have "fd_Path d = path" "st' = st\<lparr>nodes := (nodes st)[a := ?sha ?n],
        fileTreeReplica := (fileTreeReplica st)\<lparr>SelectorMap := recent_after st a ?n\<rparr>\<rparr>"
      using assms(1) Inr assms(2) setRecentFile_effect [of a st ?n]
      by (auto simp: setFileData_def s Let_def sn split: sum.splits) (simp add: set_node_def node_at_def)
    moreover have "recent_after st a (?sha ?n) = recent_after st a ?n"
      by (auto simp: recent_after_def Let_def split: sum.split option.split)
    ultimately show ?thesis
      by (intro conjI exI [of _ "?sha ?n"] exI [of _ "recent_after st a ?n"]) (auto split: sum.split)
  qed
qed

lemma build_ok_setFileData:
  assumes ok: "build_ok st" and a: "a < length (nodes st)" "\<And>p. Mapping (fileTreeReplica st) p \<noteq> Some a"
    "\<And>v. SelectorMap (fileTreeReplica st) v \<noteq> Some a" "lf_ModTime (node_at st a) = 0"
    and set: "setFileData env cnf a path fsize modTime st = Inr (d, st')"
  shows "build_ok st'" "recent st' a" "fd_Path d = path"
    "Mapping (fileTreeReplica st') = Mapping (fileTreeReplica st)" "length (nodes st') = length (nodes st)"
    "lf_Dir (node_at st' a) = lf_Dir (node_at st a)" "lf_Name (node_at st' a) = lf_Name (node_at st a)"
    "lf_Sub (node_at st' a) = lf_Sub (node_at st a)"
proof -
  note o = build_okD [OF ok]
  obtain n sel where st': "st' = st\<lparr>nodes := (nodes st)[a := n], fileTreeReplica := (fileTreeReplica st)\<lparr>SelectorMap := sel\<rparr>\<rparr>"
    and n: "lf_Dir n = lf_Dir (node_at st a)" "lf_Name n = lf_Name (node_at st a)" "lf_Sub n = lf_Sub (node_at st a)"
    and sel: "lf_ModTime n = lf_ModTime (node_at st a) \<and> sel = SelectorMap (fileTreeReplica st) \<or> sel = recent_after st a n"
    using setFileData_effect [OF set a(1)] by blast
  have self: "node_at st' a = n" and other: "\<And>b. b \<noteq> a \<Longrightarrow> node_at st' b = node_at st b"
    and len: "length (nodes st') = length (nodes st)" and rep: "SelectorMap (fileTreeReplica st') = sel"
    using a(1) by (simp_all add: st' node_at_def)
  have v: "version_of st' b = version_of st b" for b
    using n other self by (cases "b = a") (simp_all add: version_of_def)
  have grow: "\<exists>c'. sel w = Some c' \<and> lf_ModTime (node_at st c) \<le> lf_ModTime (node_at st' c')"
    if "SelectorMap (fileTreeReplica st) w = Some c" for w c
  proof -
    have "c \<noteq> a" using that a(3) by blast
    then show ?thesis using that sel other [of c] self
      by (auto simp: recent_after_def Let_def split: option.splits if_splits)
  qed
  show rec: "recent st' a"
    using sel
  proof
    assume "sel = recent_after st a n"
    then show ?thesis using a(3) self other rep v unfolding recent_def
      by (auto simp: recent_after_def Let_def split: option.splits)
  qed (use a(4) self in \<open>simp add: recent_def\<close>)
  show "build_ok st'"
  proof (rule build_ok_keep [OF ok])
    fix p b assume m: "Mapping (fileTreeReplica st) p = Some b"
    then have ba: "b \<noteq> a" using a(2) by blast
    from o(5) [OF m] show "recent st' b"
      using grow other [OF ba] v rep unfolding recent_def by (metis order_trans)
  next
    fix w c assume "SelectorMap (fileTreeReplica st') w = Some c"
    then have "SelectorMap (fileTreeReplica st) w = Some c \<or> w = version_of st a \<and> c = a"
      using sel rep by (auto simp: recent_after_def Let_def split: option.splits if_splits)
    then show "version_of st' c = w \<and> c < length (nodes st')" using o(6) v len a(1) by auto
  next
    fix b assume "b < length (nodes st)"
    show "lf_Dir (node_at st' b) = lf_Dir (node_at st b) \<and> lf_Name (node_at st' b) = lf_Name (node_at st b) \<and>
        lf_Sub (node_at st' b) = lf_Sub (node_at st b)"
      using n other self by (cases "b = a") auto
  qed (simp_all add: len, simp_all add: st')
  show "fd_Path d = path" using setFileData_effect [OF set a(1)] by blast
  show "Mapping (fileTreeReplica st') = Mapping (fileTreeReplica st)" "length (nodes st') = length (nodes st)"
    "lf_Dir (node_at st' a) = lf_Dir (node_at st a)" "lf_Name (node_at st' a) = lf_Name (node_at st a)"
    "lf_Sub (node_at st' a) = lf_Sub (node_at st a)"
    using n len self by (simp_all add: st')
qed

text \<open>Indexing a node: below its directory, or at the top.\<close>

lemma build_ok_link:
  assumes ok: "build_ok st" and a: "a < length (nodes st)" "\<And>p. Mapping (fileTreeReplica st) p \<noteq> Some a"
      "lf_Sub (node_at st a) = []" "recent st a"
    and dp: "Mapping (fileTreeReplica st) (lf_Dir (node_at st a)) = Some dp" "dp < a"
    and new: "path = lf_Dir (node_at st a) @ Sep @ lf_Name (node_at st a)" "Mapping (fileTreeReplica st) path = None"
  shows "build_ok (add_sub dp a (map_node path a st))"
proof -
  let ?st = "add_sub dp a (map_node path a st)"
  note o = build_okD [OF ok]
  have dpl: "dp < length (nodes st)" using dp a by simp
  have nodes: "node_at ?st b = (if b = dp then (node_at st dp)\<lparr>lf_Sub := lf_Sub (node_at st dp) @ [a]\<rparr> else node_at st b)" for b
    using dpl by (simp add: add_sub_def map_node_def set_node_def node_at_def)
  have rep: "Mapping (fileTreeReplica ?st) = (Mapping (fileTreeReplica st))(path \<mapsto> a)"
    "Root (fileTreeReplica ?st) = Root (fileTreeReplica st)"
    "SelectorMap (fileTreeReplica ?st) = SelectorMap (fileTreeReplica st)"
    "fileTree ?st = fileTree st" "selectorList ?st = selectorList st" "length (nodes ?st) = length (nodes st)"
    by (simp_all add: add_sub_def map_node_def set_node_def)
  have same: "lf_Dir (node_at ?st b) = lf_Dir (node_at st b)" "lf_Name (node_at ?st b) = lf_Name (node_at st b)"
    "lf_ModTime (node_at ?st b) = lf_ModTime (node_at st b)" "version_of ?st b = version_of st b" for b
    by (simp_all add: nodes version_of_def)
  have rc: "recent ?st b = recent st b" for b unfolding recent_def same rep ..
  have "heap_ok ?st"
    unfolding heap_ok_def rep
  proof (intro allI impI ballI)
    fix c b assume c: "c < length (nodes st)" and b: "b \<in> set (lf_Sub (node_at ?st c))"
    then have "b \<in> set (lf_Sub (node_at st c)) \<or> c = dp \<and> b = a" by (auto simp: nodes split: if_splits)
    then show "c < b \<and> b < length (nodes st)" using heap_okD [OF o(1) c] dp(2) a(1) by blast
  qed
  moreover have "linked ?st"
  proof -
    have s: "(\<lambda>b. lf_Sub (node_at ?st b)) = (\<lambda>b. lf_Sub (node_at st b))(dp := lf_Sub (node_at st dp) @ [a])"
      by (rule ext) (simp add: nodes)
    show ?thesis
      unfolding linked_def rep same s
      by (unfold new(1), rule tree_inv_add [OF o(4) [unfolded linked_def]]) (use a(2,3) dp new in simp_all)
  qed
  ultimately show ?thesis
    using o(2,3,5,6,7) a(1,4) unfolding build_ok_def layers_ok_def store_ok_def rc same(4) rep by auto
qed

lemma build_ok_top:
  assumes ok: "build_ok st" and a: "a < length (nodes st)" "\<And>p. Mapping (fileTreeReplica st) p \<noteq> Some a"
      "lf_Sub (node_at st a) = []" "recent st a" "lf_Dir (node_at st a) = ''''"
    and new: "path = lf_Name (node_at st a)" "Mapping (fileTreeReplica st) path = None"
  shows "build_ok (map_node path a (add_root a st))"
proof -
  let ?st = "map_node path a (add_root a st)"
  note o = build_okD [OF ok]
  have nodes: "node_at ?st b = node_at st b" for b by (simp add: map_node_def add_root_def node_at_def Let_def)
  have rep: "Mapping (fileTreeReplica ?st) = (Mapping (fileTreeReplica st))(path \<mapsto> a)"
    "lf_Sub (Root (fileTreeReplica ?st)) = lf_Sub (Root (fileTreeReplica st)) @ [a]"
    "SelectorMap (fileTreeReplica ?st) = SelectorMap (fileTreeReplica st)"
    "fileTree ?st = fileTree st" "selectorList ?st = selectorList st" "length (nodes ?st) = length (nodes st)"
    by (simp_all add: map_node_def add_root_def Let_def)
  have same: "version_of ?st b = version_of st b" for b by (simp add: nodes version_of_def)
  have rc: "recent ?st b = recent st b" for b unfolding recent_def same nodes rep ..
  have "linked ?st"
    unfolding linked_def rep nodes
    by (unfold new(1), rule tree_inv_add_top [OF o(4) [unfolded linked_def]]) (use a(2,3,5) new in simp_all)
  moreover have "heap_ok ?st" using o(1) unfolding heap_ok_def nodes rep .
  ultimately show ?thesis
    using o(2,3,5,6,7) a(1,4) unfolding build_ok_def layers_ok_def store_ok_def rc same rep by auto
qed

section \<open>Adding a path\<close>

lemma build_ok_layer_first: "build_ok st \<Longrightarrow> build_ok (layer_first v st)"
proof (cases "Mapping (fileTreeReplica st) v")
  case None
  assume ok: "build_ok st"
  obtain a st1 where n: "new_node (zero_LayerFile\<lparr>lf_Name := v\<rparr>) st = (a, st1)" by fastforce
  note s = node_at_new [OF n] and o = build_okD [OF ok]
  have "build_ok st1" by (rule build_ok_new [OF ok n]) (simp add: zero_LayerFile_def)
  then have "build_ok (map_node v a (add_root a st1))"
  proof (rule build_ok_top)
    show "Mapping (fileTreeReplica st1) p \<noteq> Some a" for p using o(5) [of p a] s by auto
    show "Mapping (fileTreeReplica st1) v = None" using s None by simp
    show "recent st1 a" using s by (auto simp: recent_def zero_LayerFile_def)
  qed (use s in \<open>auto simp: zero_LayerFile_def\<close>)
  then show ?thesis using None n by (simp add: layer_first_def)
qed (simp add: layer_first_def)

definition extends :: "layers \<Rightarrow> layers \<Rightarrow> bool" where
  "extends st st' \<longleftrightarrow> (\<forall>p a. Mapping (fileTreeReplica st) p = Some a \<longrightarrow> Mapping (fileTreeReplica st') p = Some a)"

lemma layer_step_ok:
  assumes ok: "build_ok st" and step: "layer_step env cnf path fsize modTime fl i (fd, st) = Inr (fd', st')"
    and dir: "Mapping (fileTreeReplica st) (Join (take i fl) Sep) = Some dp"
  shows "build_ok st' \<and> extends st st' \<and> Mapping (fileTreeReplica st') (Join (take i fl) Sep @ Sep @ fl ! i) \<noteq> None \<and>
    (Join (take i fl) Sep @ Sep @ fl ! i = path \<longrightarrow> (\<exists>d. fd' = Some d \<and> fd_Path d = path)) \<and>
    (Join (take i fl) Sep @ Sep @ fl ! i \<noteq> path \<longrightarrow> fd' = fd)"
proof -
  let ?dir = "Join (take i fl) Sep"
  let ?cur = "?dir @ Sep @ fl ! i"
  obtain a st1 where n: "new_node (zero_LayerFile\<lparr>lf_Dir := ?dir, lf_Name := fl ! i\<rparr>) st = (a, st1)" by fastforce
  note s = node_at_new [OF n] and o = build_okD [OF ok]
  have ok1: "build_ok st1" by (rule build_ok_new [OF ok n]) (simp add: zero_LayerFile_def)
  have dpa: "dp < a" using o(5) [OF dir] s by simp
  have f1: "Mapping (fileTreeReplica st1) p \<noteq> Some a" "SelectorMap (fileTreeReplica st1) v \<noteq> Some a" for p v
    using o(5) [of p a] o(6) [of v a] s by auto
  obtain fd2 st2 where st2: "(if ?cur = path then (case setFileData env cnf a ?cur fsize modTime st1 of
        Inl p \<Rightarrow> Inl p | Inr (d, st2) \<Rightarrow> Inr (Some d, st2)) else Inr (fd, st1)) = Inr (fd2, st2)"
    and st': "(case Mapping (fileTreeReplica st2) ?cur of Some _ \<Rightarrow> Inr (fd2, st2)
        | None \<Rightarrow> Inr (fd2, add_sub dp a (map_node ?cur a st2))) = (Inr (fd', st') :: (FileData option \<times> layers) gores)"
    using step dir n by (auto simp: layer_step_def Let_def split: sum.splits if_splits)
  have two: "build_ok st2 \<and> recent st2 a \<and> Mapping (fileTreeReplica st2) = Mapping (fileTreeReplica st1) \<and>
      length (nodes st2) = length (nodes st1) \<and> lf_Dir (node_at st2 a) = ?dir \<and> lf_Name (node_at st2 a) = fl ! i \<and>
      lf_Sub (node_at st2 a) = [] \<and> (?cur = path \<longrightarrow> (\<exists>d. fd2 = Some d \<and> fd_Path d = path)) \<and> (?cur \<noteq> path \<longrightarrow> fd2 = fd)"
  proof (cases "?cur = path")
    case True
    then obtain d where d: "setFileData env cnf a ?cur fsize modTime st1 = Inr (d, st2)" "fd2 = Some d"
      using st2 by (auto split: sum.splits)
    have "a < length (nodes st1)" "lf_ModTime (node_at st1 a) = 0" "lf_Dir (node_at st1 a) = ?dir"
      "lf_Name (node_at st1 a) = fl ! i" "lf_Sub (node_at st1 a) = []"
      using s by (auto simp: zero_LayerFile_def)
    with build_ok_setFileData [OF ok1 this(1) f1 this(2) d(1)] show ?thesis
      using True d(2) by simp
  next
    case False
    then show ?thesis using st2 ok1 s by (auto simp: zero_LayerFile_def recent_def)
  qed
  show ?thesis
  proof (cases "Mapping (fileTreeReplica st2) ?cur")
    case None
    then have e: "st' = add_sub dp a (map_node ?cur a st2)" "fd' = fd2" using st' by auto
    have "build_ok (add_sub dp a (map_node ?cur a st2))"
      by (rule build_ok_link) (use two f1 s dir dpa None in auto)
    moreover have "Mapping (fileTreeReplica st') = (Mapping (fileTreeReplica st))(?cur \<mapsto> a)"
      using two s by (simp add: e add_sub_def map_node_def set_node_def)
    ultimately show ?thesis using two e None s by (auto simp: extends_def)
  next
    case (Some c)
    then show ?thesis using st' two s by (auto simp: extends_def)
  qed
qed

lemma Join_take_Suc:
  assumes "0 < i" "i < length fl"
  shows "Join (take (Suc i) fl) sep = Join (take i fl) sep @ sep @ fl ! i"
proof -
  have "Join (xs @ [y]) sep = Join xs sep @ sep @ y" if "xs \<noteq> []" for xs y
    using that by (induction xs sep rule: Join.induct) auto
  moreover have "take i fl \<noteq> []" using assms by auto
  ultimately show ?thesis using assms by (simp add: take_Suc_conv_app_nth)
qed

definition indexed :: "layers \<Rightarrow> string list \<Rightarrow> nat \<Rightarrow> bool" where
  "indexed st fl n \<longleftrightarrow> (\<forall>j. 0 < j \<longrightarrow> j \<le> n \<longrightarrow> Mapping (fileTreeReplica st) (Join (take j fl) Sep) \<noteq> None)"

lemma extends_trans: "extends st st1 \<Longrightarrow> extends st1 st2 \<Longrightarrow> extends st st2"
  by (simp add: extends_def)

lemma indexed_Suc:
  assumes "indexed st fl i" "extends st st'" "Mapping (fileTreeReplica st') (Join (take (Suc i) fl) Sep) \<noteq> None"
  shows "indexed st' fl (Suc i)"
  using assms unfolding indexed_def extends_def by (metis le_SucE not_None_eq)

lemma setFileData_defined:
  assumes "covertFileSize fsize = Inr sz" "7 < length modTime"
  shows "\<exists>d st'. setFileData env cnf a path fsize modTime st = Inr (d, st')"
  using assms
  by (cases "le_Parse env (modTime[4 := CHR ''-'', 7 := CHR ''-''])";
      cases "le_ReadFile env (ConcatURL (Repository cnf) path @ FileExtensionSha256)")
    (simp_all add: setFileData_def dashed_def Let_def)

lemma layer_step_defined:
  assumes "covertFileSize fsize = Inr sz" "7 < length modTime"
  shows "\<exists>fd' st'. layer_step env cnf path fsize modTime fl i (fd, st) = Inr (fd', st')"
proof (cases "Mapping (fileTreeReplica st) (Join (take i fl) Sep)")
  case (Some dp)
  obtain a st1 where n: "new_node (zero_LayerFile\<lparr>lf_Dir := Join (take i fl) Sep, lf_Name := fl ! i\<rparr>) st = (a, st1)"
    by fastforce
  obtain d st2 where "setFileData env cnf a path fsize modTime st1 = Inr (d, st2)"
    using setFileData_defined [OF assms] by blast
  then show ?thesis using Some n by (auto simp: layer_step_def Let_def split: option.splits)
qed (simp add: layer_step_def)

lemma layer_loop_ok:
  assumes "covertFileSize fsize = Inr sz" "7 < length modTime" "path = Join fl Sep"
  shows "build_ok st \<Longrightarrow> 0 < i \<Longrightarrow> i \<le> length fl \<Longrightarrow> indexed st fl i \<Longrightarrow>
    \<exists>fd' st'. layer_loop env cnf path fsize modTime fl [i..<length fl] (fd, st) = Inr (fd', st') \<and>
      build_ok st' \<and> indexed st' fl (length fl) \<and> extends st st' \<and>
      (i < length fl \<longrightarrow> (\<exists>d. fd' = Some d \<and> fd_Path d = path))"
proof (induction "length fl - i" arbitrary: i fd st)
  case 0
  then show ?case by (simp add: extends_def)
next
  case (Suc k)
  then have i: "i < length fl" by simp
  obtain fd1 st1 where 1: "layer_step env cnf path fsize modTime fl i (fd, st) = Inr (fd1, st1)"
    using layer_step_defined [OF assms(1,2)] by blast
  obtain dp where dp: "Mapping (fileTreeReplica st) (Join (take i fl) Sep) = Some dp"
    using Suc.prems(2,4) unfolding indexed_def by blast
  note s = layer_step_ok [OF Suc.prems(1) 1 dp]
  have j: "Join (take (Suc i) fl) Sep = Join (take i fl) Sep @ Sep @ fl ! i" by (rule Join_take_Suc [OF Suc.prems(2) i])
  then have x: "indexed st1 fl (Suc i)" using indexed_Suc [OF Suc.prems(4), of st1] s by metis
  obtain fd2 st2 where 2: "layer_loop env cnf path fsize modTime fl [Suc i..<length fl] (fd1, st1) = Inr (fd2, st2)"
    "build_ok st2" "indexed st2 fl (length fl)" "extends st1 st2"
    "Suc i < length fl \<longrightarrow> (\<exists>d. fd2 = Some d \<and> fd_Path d = path)"
    using Suc.hyps(1) [of "Suc i" st1 fd1] Suc.hyps(2) s x i by fastforce
  have "\<exists>d. fd2 = Some d \<and> fd_Path d = path"
  proof (cases "Suc i < length fl")
    case False
    then have "Suc i = length fl" using i by simp
    then have "Join (take i fl) Sep @ Sep @ fl ! i = path" "fd2 = fd1" using j assms(3) 2(1) by simp_all
    then show ?thesis using s by blast
  qed (use 2(5) in blast)
  then show ?case using 1 2 s i extends_trans [of st st1 st2] by (simp add: upt_conv_Cons)
qed

lemma layer_first_indexed: "indexed (layer_first (hd fl) st) fl 1 \<or> fl = []"
proof (cases fl)
  case (Cons v vs)
  have "Mapping (fileTreeReplica (layer_first v st)) v \<noteq> None"
    by (auto simp: layer_first_def new_node_def map_node_def add_root_def Let_def split: option.split)
  then show ?thesis using Cons by (auto simp: indexed_def le_Suc_eq)
qed simp

lemma BuildFileTree_builds:
  assumes "build_ok st" and "covertFileSize fsize = Inr sz" "7 < length modTime"
  shows "\<exists>fd st'. BuildFileTree env cnf path fsize modTime st = Inr (fd, st') \<and> build_ok st' \<and>
    indexed st' (Split path (CHR ''/'')) (length (Split path (CHR ''/''))) \<and>
    Mapping (fileTreeReplica st') path \<noteq> None \<and>
    (CHR ''/'' \<in> set path \<longrightarrow> (\<exists>d. fd = Some d \<and> fd_Path d = path))"
proof -
  let ?fl = "Split path (CHR ''/'')"
  have p: "path = Join ?fl Sep" using Join_Split [of path "CHR ''/''"] by (simp add: Sep_def)
  have n: "0 < length ?fl" by simp
  have f: "build_ok (layer_first (hd ?fl) st)" "indexed (layer_first (hd ?fl) st) ?fl 1"
    using build_ok_layer_first [OF assms(1)] layer_first_indexed [of ?fl st] by simp_all
  obtain fd st' where r: "layer_loop env cnf path fsize modTime ?fl [1..<length ?fl] (None, layer_first (hd ?fl) st) = Inr (fd, st')"
    "build_ok st'" "indexed st' ?fl (length ?fl)" "1 < length ?fl \<longrightarrow> (\<exists>d. fd = Some d \<and> fd_Path d = path)"
    using layer_loop_ok [OF assms(2,3) p f(1) _ _ f(2)] n by (metis Suc_leI One_nat_def less_numeral_extra(1))
  have "Mapping (fileTreeReplica st') path \<noteq> None" using r(3) n p unfolding indexed_def by (metis order_refl take_all)
  moreover have "1 < length ?fl" if "CHR ''/'' \<in> set path"
  proof (rule ccontr)
    assume "\<not> 1 < length ?fl"
    then obtain w where "?fl = [w]" using n by (cases ?fl) auto
    then show False using that p Split_no_sep [of w path "CHR ''/''"] by simp
  qed
  ultimately show ?thesis using r unfolding BuildFileTree_def layeringPath_def Let_def by blast
qed


definition demo_lenv :: layer_env where
  "demo_lenv = \<lparr>le_ReadFile = (\<lambda>_. Inl (ErrMsg ''missing'')), le_Parse = (\<lambda>s. Inr (int (length s))), le_stale = (\<lambda>_. False)\<rparr>"


end
