(* ===== verification/Cluster_Lock.thy ===== *)
theory Cluster_Lock
  imports Database
begin

text \<open>
  The lock on a scan (\<^verbatim>\<open>network/clusterlock.go\<close>): a key with a time to live in the database, kept
  alive by a goroutine until the lock is released.  The goroutine is a value of type \<open>keeper\<close>, its
  two select cases are definitions, and the nodes of a cluster interleave as a step relation with a
  clock.  The timers of the standard library are modelled as the program uses them.
\<close>

section \<open>Timers\<close>

text \<open>
  A \<open>time.Timer\<close>: it runs until a point in time, or has fired and its value waits in the channel, or
  its channel is empty.  \<open>Stop\<close> answers whether the call stopped a running timer.
\<close>

datatype timer = Armed gotime | Fired | Drained

definition timer_recv :: "timer \<Rightarrow> timer option" where
  "timer_recv t = (case t of Fired \<Rightarrow> Some Drained | _ \<Rightarrow> None)"

definition timer_Stop :: "timer \<Rightarrow> bool \<times> timer" where
  "timer_Stop t = (case t of Armed _ \<Rightarrow> (True, Drained) | Fired \<Rightarrow> (False, Fired) | Drained \<Rightarrow> (False, Drained))"

definition timer_Reset :: "gotime \<Rightarrow> duration \<Rightarrow> timer" where
  "timer_Reset now d = Armed (now + d)"

text \<open>The timer as it is at a later time.\<close>

definition timer_at :: "gotime \<Rightarrow> timer \<Rightarrow> timer" where
  "timer_at now t = (case t of Armed d \<Rightarrow> if d \<le> now then Fired else t | _ \<Rightarrow> t)"

text \<open>
  \<open>if !timer.Stop() { <-timer.C }\<close>.  \<open>None\<close>: the receive waits on a channel into which nothing will
  be sent, since only a \<open>Reset\<close> that comes after it could start the timer again.
\<close>

definition stop_and_drain :: "timer \<Rightarrow> timer option" where
  "stop_and_drain t = (case timer_Stop t of (True, t') \<Rightarrow> Some t' | (False, t') \<Rightarrow> timer_recv t')"

lemma drain_after_receive: "timer_recv t = Some t' \<Longrightarrow> stop_and_drain t' = None"
  by (auto simp: timer_recv_def stop_and_drain_def timer_Stop_def split: timer.splits)

section \<open>The lock\<close>

definition lockTTL :: int where "lockTTL = 10"
definition lockRefresh :: int where "lockRefresh = 5"

text \<open>\<open>lk_done\<close> is the channel: nil, open or closed.\<close>

datatype chan = Open | Closed

record ClusterLock =
  lk_key :: string
  lk_identifier :: string
  lk_done :: "chan option"

definition NewClusterLock :: "string \<Rightarrow> string \<Rightarrow> ClusterLock" where
  "NewClusterLock key identifier = \<lparr>lk_key = key, lk_identifier = identifier, lk_done = None\<rparr>"

text \<open>The goroutine waits in its select statement, or for a value of its timer, or has returned.\<close>

datatype keeper = Selecting timer | Blocked | Returned

text \<open>
  \<open>Get\<close> answers an error, or whether the channel it returns is not nil, with the goroutine it
  started.  \<open>SET k 1 NX EX 10\<close> is \<open>SETNX\<close> with its time in milliseconds.
\<close>

definition ClusterLock_Get ::
    "'db client \<Rightarrow> gotime \<Rightarrow> ClusterLock \<Rightarrow> 'db \<Rightarrow> (err + bool) \<times> (ClusterLock \<times> keeper option) \<times> 'db" where
  "ClusterLock_Get r now n db =
     (if lk_done n \<noteq> None then (Inl ErrLockInUse, (n, None), db)
      else if \<not> cl_ready r then (Inl NetReadyError, (n, None), db)
      else let (rep, db') = conn_do r db (SETNX (lk_key n) (AInt 1) (lockTTL * 1000))
           in case rd_String (api r) rep of
                Inl e \<Rightarrow> if e = ErrNil then (Inr False, (n, None), db') else (Inl e, (n, None), db')
              | Inr _ \<Rightarrow>
                  (Inr True, (n\<lparr>lk_done := Some Open\<rparr>, Some (Selecting (timer_Reset now (lockRefresh * time_Second)))), db'))"

text \<open>The case of a closed channel.\<close>

definition keeper_done :: "'db client \<Rightarrow> ClusterLock \<Rightarrow> 'db \<Rightarrow> (ClusterLock \<times> keeper) \<times> 'db" where
  "keeper_done r n db = ((n\<lparr>lk_done := None\<rparr>, Returned), snd (conn_do r db (DEL [lk_key n])))"

text \<open>The case of a timer that fired; \<open>None\<close> when it has not.\<close>

definition keeper_renew :: "'db client \<Rightarrow> gotime \<Rightarrow> ClusterLock \<Rightarrow> timer \<Rightarrow> 'db \<Rightarrow> (keeper \<times> 'db) option" where
  "keeper_renew r now n t db =
     (case timer_recv t of
        None \<Rightarrow> None
      | Some t1 \<Rightarrow>
          (case stop_and_drain t1 of
             None \<Rightarrow> Some (Blocked, db)
           | Some _ \<Rightarrow>
               (let t2 = timer_Reset now (lockRefresh * time_Second);
                    (rep, db') = conn_do r db (EXPIRE (lk_key n) lockTTL)
                in case rd_Int (api r) rep of
                     Inl e \<Rightarrow> Some (Returned, db')
                   | Inr result \<Rightarrow> if result = 0 then Some (Returned, db') else Some (Selecting t2, db'))))"

definition ClusterLock_Release :: "ClusterLock \<Rightarrow> ClusterLock gores" where
  "ClusterLock_Release n =
     (case lk_done n of
        None \<Rightarrow> Inl CloseOfNil
      | Some Closed \<Rightarrow> Inl CloseOfClosed
      | Some Open \<Rightarrow> Inr (n\<lparr>lk_done := Some Closed\<rparr>))"

section \<open>A cluster that shares a key\<close>

text \<open>
  A participant is one lock object, as a scan creates it.  \<open>lc_expiry\<close> is when the key expires.  Time
  passes when no goroutine has a timer that is due: a goroutine that can run does so before the
  clock moves on.
\<close>

record lock_node =
  ln_lock :: ClusterLock
  ln_keeper :: keeper
  ln_since :: gotime

record 'db lock_cluster =
  lc_db :: 'db
  lc_clock :: gotime
  lc_expiry :: gotime
  lc_node :: "nat \<rightharpoonup> lock_node"

inductive lock_move :: "'db client \<Rightarrow> ('db \<Rightarrow> store) \<Rightarrow> string \<Rightarrow> 'db lock_cluster \<Rightarrow> 'db lock_cluster \<Rightarrow> bool"
  for r :: "'db client" and \<alpha> :: "'db \<Rightarrow> store" and key :: string where
  get:
    "lc_node s p = None \<Longrightarrow>
     ClusterLock_Get r (lc_clock s) (NewClusterLock key ident) (lc_db s) = (res, (l, k), db') \<Longrightarrow>
       lock_move r \<alpha> key s
         (s\<lparr>lc_db := db',
            lc_expiry := (if keys (\<alpha> (lc_db s)) key = None then lc_clock s + lockTTL * time_Second else lc_expiry s),
            lc_node := (case k of None \<Rightarrow> lc_node s | Some k' \<Rightarrow> (lc_node s)(p \<mapsto> \<lparr>ln_lock = l, ln_keeper = k', ln_since = lc_clock s\<rparr>))\<rparr>)"
| release:
    "lc_node s p = Some n \<Longrightarrow> ClusterLock_Release (ln_lock n) = Inr l \<Longrightarrow>
       lock_move r \<alpha> key s (s\<lparr>lc_node := (lc_node s)(p \<mapsto> n\<lparr>ln_lock := l\<rparr>)\<rparr>)"
| finish:
    "lc_node s p = Some n \<Longrightarrow> ln_keeper n = Selecting t \<Longrightarrow> lk_done (ln_lock n) = Some Closed \<Longrightarrow>
     keeper_done r (ln_lock n) (lc_db s) = ((l, k), db') \<Longrightarrow>
       lock_move r \<alpha> key s (s\<lparr>lc_db := db', lc_node := (lc_node s)(p \<mapsto> n\<lparr>ln_lock := l, ln_keeper := k\<rparr>)\<rparr>)"
| renew:
    "lc_node s p = Some n \<Longrightarrow> ln_keeper n = Selecting t \<Longrightarrow>
     keeper_renew r (lc_clock s) (ln_lock n) (timer_at (lc_clock s) t) (lc_db s) = Some (k, db') \<Longrightarrow>
       lock_move r \<alpha> key s
         (s\<lparr>lc_db := db',
            lc_expiry := (if k = Blocked then lc_expiry s else lc_clock s + lockTTL * time_Second),
            lc_node := (lc_node s)(p \<mapsto> n\<lparr>ln_keeper := k\<rparr>)\<rparr>)"
| elapse:
    "0 < d \<Longrightarrow> \<forall>p n e. lc_node s p = Some n \<longrightarrow> ln_keeper n = Selecting (Armed e) \<longrightarrow> lc_clock s + d \<le> e \<Longrightarrow>
     (if lc_clock s + d < lc_expiry s then db' = lc_db s else \<alpha> db' = put key None (\<alpha> (lc_db s))) \<Longrightarrow>
       lock_move r \<alpha> key s (s\<lparr>lc_db := db', lc_clock := lc_clock s + d\<rparr>)"

inductive_cases lock_moveE: "lock_move r \<alpha> key s s'"

inductive cluster_reach :: "'db client \<Rightarrow> ('db \<Rightarrow> store) \<Rightarrow> string \<Rightarrow> 'db lock_cluster \<Rightarrow> bool"
  for r :: "'db client" and \<alpha> :: "'db \<Rightarrow> store" and key :: string where
  start: "cluster_reach r \<alpha> key \<lparr>lc_db = db, lc_clock = now, lc_expiry = e, lc_node = (\<lambda>_. None)\<rparr>"
| move: "cluster_reach r \<alpha> key s \<Longrightarrow> lock_move r \<alpha> key s s' \<Longrightarrow> cluster_reach r \<alpha> key s'"

text \<open>A participant that obtained the lock at \<open>t\<close> and has not released it.\<close>

definition holds_since :: "'db lock_cluster \<Rightarrow> nat \<Rightarrow> gotime \<Rightarrow> bool" where
  "holds_since s p t \<longleftrightarrow>
     (\<exists>n. lc_node s p = Some n \<and> ln_since n = t \<and> lk_done (ln_lock n) = Some Open)"

section \<open>Invariant\<close>

definition node_ok :: "string \<Rightarrow> gotime \<Rightarrow> lock_node \<Rightarrow> bool" where
  "node_ok key now n \<longleftrightarrow>
     lk_key (ln_lock n) = key \<and> ln_since n \<le> now \<and>
     (case ln_keeper n of
        Selecting t \<Rightarrow> t = Armed (ln_since n + lockRefresh * time_Second) \<and> now \<le> ln_since n + lockRefresh * time_Second
      | Blocked \<Rightarrow> True
      | Returned \<Rightarrow> lk_done (ln_lock n) = None)"

text \<open>A node whose key has neither expired nor been deleted by its goroutine.\<close>

definition owns :: "'db lock_cluster \<Rightarrow> nat \<Rightarrow> lock_node \<Rightarrow> bool" where
  "owns s p n \<longleftrightarrow>
     lc_node s p = Some n \<and> lc_clock s < ln_since n + lockTTL * time_Second \<and> ln_keeper n \<noteq> Returned"

definition cluster_inv :: "('db \<Rightarrow> store) \<Rightarrow> string \<Rightarrow> 'db lock_cluster \<Rightarrow> bool" where
  "cluster_inv \<alpha> key s \<longleftrightarrow>
     (\<forall>p n. lc_node s p = Some n \<longrightarrow> node_ok key (lc_clock s) n) \<and>
     (\<forall>p n. owns s p n \<longrightarrow>
        keys (\<alpha> (lc_db s)) key \<noteq> None \<and> lc_expiry s = ln_since n + lockTTL * time_Second) \<and>
     (\<forall>p n q m. owns s p n \<longrightarrow> owns s q m \<longrightarrow> p = q)"

lemma cluster_invD:
  assumes "cluster_inv \<alpha> key s"
  shows "lc_node s p = Some n \<Longrightarrow> node_ok key (lc_clock s) n"
    "owns s p n \<Longrightarrow> keys (\<alpha> (lc_db s)) key \<noteq> None"
    "owns s p n \<Longrightarrow> lc_expiry s = ln_since n + lockTTL * time_Second"
    "owns s p n \<Longrightarrow> owns s q m \<Longrightarrow> p = q"
  using assms unfolding cluster_inv_def by blast+

text \<open>A step that makes no new owner and keeps the key of the old ones keeps the invariant.\<close>

lemma cluster_inv_shrink:
  assumes "cluster_inv \<alpha> key s"
    and "\<And>p n. lc_node s' p = Some n \<Longrightarrow> node_ok key (lc_clock s') n"
    and "\<And>p n. owns s' p n \<Longrightarrow> \<exists>m. owns s p m \<and> ln_since m = ln_since n"
    and "\<And>p n. owns s' p n \<Longrightarrow> keys (\<alpha> (lc_db s)) key \<noteq> None \<Longrightarrow>
           keys (\<alpha> (lc_db s')) key \<noteq> None \<and> lc_expiry s' = lc_expiry s"
  shows "cluster_inv \<alpha> key s'"
  unfolding cluster_inv_def using assms(2) assms(3,4) cluster_invD(2-4) [OF assms(1)] by metis

lemmas lock_time_defs = lockTTL_def lockRefresh_def time_Second_def

lemma renew_blocks:
  "keeper_renew r now n t db = Some (k, db') \<Longrightarrow> k = Blocked \<and> db' = db"
  by (auto simp: keeper_renew_def drain_after_receive split: option.splits)

text \<open>\<open>Get\<close> succeeds only when the key was absent, and then the key is there.\<close>

lemma Get_key:
  assumes ok: "redigo_ok (api r) \<alpha>"
    and g: "ClusterLock_Get r now (NewClusterLock key ident) db = (res, (l, k), db')"
  shows "keys (\<alpha> db) key \<noteq> None \<Longrightarrow> keys (\<alpha> db') key \<noteq> None"
    and "k = Some k' \<Longrightarrow> keys (\<alpha> db) key = None \<and> keys (\<alpha> db') key \<noteq> None \<and> lk_key l = key \<and>
           lk_done l = Some Open \<and> k' = Selecting (Armed (now + lockRefresh * time_Second))"
proof -
  let ?c = "SETNX key (AInt 1) (lockTTL * 1000)"
  obtain rep db1 where d: "rd_do (api r) db ?c = (rep, db1)" by fastforce
  obtain q s' where c: "redis_cmd (\<alpha> db) ?c = Some (q, s')" by fastforce
  have s': "keys s' key \<noteq> None" using c by (auto split: if_splits)
  show "keys (\<alpha> db') key \<noteq> None" if "keys (\<alpha> db) key \<noteq> None"
    using that g d do_ok_either [OF ok c d] s'
    by (auto simp: ClusterLock_Get_def NewClusterLock_def conn_do_def split: if_splits sum.splits)
  assume k: "k = Some k'"
  have r: "\<exists>x. rd_String (api r) rep = Inr x"
    and *: "db' = db1" "l = NewClusterLock key ident\<lparr>lk_done := Some Open\<rparr>"
      "k' = Selecting (timer_Reset now (lockRefresh * time_Second))"
    using k g d by (auto simp: ClusterLock_Get_def NewClusterLock_def conn_do_def split: if_splits sum.splits)
  from r obtain y where y: "rep = Inr y"
    using conv_okD(9) [OF ok] by (cases rep) auto
  have "y \<noteq> RNil" using r y conv_okD(10) [OF ok] by auto
  moreover have "\<alpha> db1 = s'" "y = q"
    using do_okD [OF ok c] d y by (auto simp: same_reply_def)
  ultimately show "keys (\<alpha> db) key = None \<and> keys (\<alpha> db') key \<noteq> None \<and> lk_key l = key \<and>
      lk_done l = Some Open \<and> k' = Selecting (Armed (now + lockRefresh * time_Second))"
    using c * s' by (auto simp: NewClusterLock_def timer_Reset_def split: if_splits)
qed

lemma inv_get:
  assumes inv: "cluster_inv \<alpha> key s" and ok: "redigo_ok (api r) \<alpha>" and p: "lc_node s p = None"
    and g: "ClusterLock_Get r (lc_clock s) (NewClusterLock key ident) (lc_db s) = (res, (l, k), db')"
  shows "cluster_inv \<alpha> key
     (s\<lparr>lc_db := db',
        lc_expiry := (if keys (\<alpha> (lc_db s)) key = None then lc_clock s + lockTTL * time_Second else lc_expiry s),
        lc_node := (case k of None \<Rightarrow> lc_node s | Some k' \<Rightarrow> (lc_node s)(p \<mapsto> \<lparr>ln_lock = l, ln_keeper = k', ln_since = lc_clock s\<rparr>))\<rparr>)"
    (is "cluster_inv \<alpha> key ?s'")
proof (cases k)
  case None
  have o: "owns ?s' q n \<longleftrightarrow> owns s q n" for q n using None by (simp add: owns_def)
  show ?thesis
    by (rule cluster_inv_shrink [OF inv])
      (use None o cluster_invD(1) [OF inv] Get_key(1) [OF ok g] in auto)
next
  case (Some k')
  note G = Get_key(2) [OF ok g Some]
  have none: "\<not> owns s q n" for q n using cluster_invD(2) [OF inv] G by blast
  have o: "owns ?s' q n \<Longrightarrow> q = p \<and> ln_since n = lc_clock s" for q n
    using none [of q n] by (auto simp: owns_def Some split: if_splits)
  have n: "lc_node ?s' q = Some n \<Longrightarrow> node_ok key (lc_clock ?s') n" for q n
    using cluster_invD(1) [OF inv] G by (auto simp: Some node_ok_def lock_time_defs split: if_splits)
  have u: "owns ?s' q n \<Longrightarrow> owns ?s' q' m \<Longrightarrow> q = q'" for q n q' m
    using o [of q n] o [of q' m] by blast
  have e: "owns ?s' q n \<Longrightarrow> keys (\<alpha> (lc_db ?s')) key \<noteq> None \<and> lc_expiry ?s' = ln_since n + lockTTL * time_Second" for q n
    using o [of q n] G by auto
  show ?thesis unfolding cluster_inv_def using n u e by blast
qed

lemma inv_finish:
  assumes inv: "cluster_inv \<alpha> key s" and n: "lc_node s p = Some n" "ln_keeper n = Selecting t"
    and d: "keeper_done r (ln_lock n) (lc_db s) = ((l, k), db')"
  shows "cluster_inv \<alpha> key (s\<lparr>lc_db := db', lc_node := (lc_node s)(p \<mapsto> n\<lparr>ln_lock := l, ln_keeper := k\<rparr>)\<rparr>)"
    (is "cluster_inv \<alpha> key ?s'")
proof -
  have p: "owns s p n"
    using n cluster_invD(1) [OF inv n(1)] by (auto simp: owns_def node_ok_def lock_time_defs)
  have none: "\<not> owns ?s' q m" for q m
    using cluster_invD(4) [OF inv p, of q m] d by (auto simp: owns_def keeper_done_def split: if_splits)
  have "lc_node ?s' q = Some m \<Longrightarrow> node_ok key (lc_clock ?s') m" for q m
    using cluster_invD(1) [OF inv, of q m] cluster_invD(1) [OF inv n(1)] d
    by (auto simp: node_ok_def keeper_done_def split: if_splits)
  then show ?thesis unfolding cluster_inv_def using none by blast
qed

text \<open>Changing a node that keeps its time and is not revived.\<close>

lemma inv_set_node:
  assumes inv: "cluster_inv \<alpha> key s" and n: "lc_node s p = Some n" and ok: "node_ok key (lc_clock s) n'"
    and same: "ln_since n' = ln_since n" "ln_keeper n = Returned \<Longrightarrow> ln_keeper n' = Returned"
  shows "cluster_inv \<alpha> key (s\<lparr>lc_node := (lc_node s)(p \<mapsto> n')\<rparr>)" (is "cluster_inv \<alpha> key ?s'")
proof (rule cluster_inv_shrink [OF inv])
  show "node_ok key (lc_clock ?s') m" if "lc_node ?s' q = Some m" for q m
    using that ok cluster_invD(1) [OF inv, of q m] by (auto split: if_splits)
  show "\<exists>m. owns s q m \<and> ln_since m = ln_since n''" if "owns ?s' q n''" for q n''
    using that n same by (cases "q = p") (auto simp: owns_def)
qed simp

lemma inv_elapse:
  assumes inv: "cluster_inv \<alpha> key s" and d: "0 < d"
    and due: "\<forall>p n e. lc_node s p = Some n \<longrightarrow> ln_keeper n = Selecting (Armed e) \<longrightarrow> lc_clock s + d \<le> e"
    and e: "if lc_clock s + d < lc_expiry s then db' = lc_db s else \<alpha> db' = put key None (\<alpha> (lc_db s))"
  shows "cluster_inv \<alpha> key (s\<lparr>lc_db := db', lc_clock := lc_clock s + d\<rparr>)" (is "cluster_inv \<alpha> key ?s'")
proof (rule cluster_inv_shrink [OF inv])
  show "node_ok key (lc_clock ?s') n" if "lc_node ?s' p = Some n" for p n
    using cluster_invD(1) [OF inv, of p n] that due d by (auto simp: node_ok_def split: keeper.splits)
  have o: "owns s p n" if "owns ?s' p n" for p n using that d by (simp add: owns_def)
  then show "\<exists>m. owns s p m \<and> ln_since m = ln_since n" if "owns ?s' p n" for p n using that by blast
  show "keys (\<alpha> (lc_db ?s')) key \<noteq> None \<and> lc_expiry ?s' = lc_expiry s"
    if "owns ?s' p n" "keys (\<alpha> (lc_db s)) key \<noteq> None" for p n
    using that cluster_invD(3) [OF inv o [OF that(1)]] e by (auto simp: owns_def)
qed

lemma inv_move:
  assumes "lock_move r \<alpha> key s s'" and inv: "cluster_inv \<alpha> key s" and ok: "redigo_ok (api r) \<alpha>"
  shows "cluster_inv \<alpha> key s'"
  using assms(1)
proof cases
  case (get p ident res l k db')
  then show ?thesis using inv_get [OF inv ok] by simp
next
  case (release p n l)
  have l: "lk_key l = lk_key (ln_lock n)" "lk_done (ln_lock n) = Some Open"
    using release(3) by (auto simp: ClusterLock_Release_def split: option.splits chan.splits)
  have "node_ok key (lc_clock s) (n\<lparr>ln_lock := l\<rparr>)"
    using cluster_invD(1) [OF inv release(2)] l by (auto simp: node_ok_def split: keeper.splits)
  then show ?thesis unfolding release(1) by (rule inv_set_node [OF inv release(2)]) simp_all
next
  case (finish p n t l k db')
  then show ?thesis using inv_finish [OF inv] by simp
next
  case (renew p n t k db')
  have k: "k = Blocked" "db' = lc_db s" using renew_blocks [OF renew(4)] by simp_all
  have "node_ok key (lc_clock s) (n\<lparr>ln_keeper := k\<rparr>)"
    using cluster_invD(1) [OF inv renew(2)] k by (simp add: node_ok_def)
  from inv_set_node [OF inv renew(2) this] show ?thesis using renew k by simp
next
  case (elapse d db')
  then show ?thesis using inv_elapse [OF inv] by simp
qed

lemma reach_inv: "cluster_reach r \<alpha> key s \<Longrightarrow> redigo_ok (api r) \<alpha> \<Longrightarrow> cluster_inv \<alpha> key s"
proof (induction rule: cluster_reach.induct)
  case (start db now e)
  show ?case by (simp add: cluster_inv_def owns_def)
next
  case (move s s')
  then show ?case using inv_move by blast
qed

section \<open>Properties\<close>


definition demo_cluster :: "store lock_cluster" where
  "demo_cluster = \<lparr>lc_db = empty_store, lc_clock = 0, lc_expiry = 0, lc_node = (\<lambda>_. None)\<rparr>"

definition demo_node :: "gotime \<Rightarrow> keeper \<Rightarrow> lock_node" where
  "demo_node t k = \<lparr>ln_lock = \<lparr>lk_key = ''SCANNING_1'', lk_identifier = ''m'', lk_done = Some Open\<rparr>, ln_keeper = k, ln_since = t\<rparr>"

definition demo_held :: "store lock_cluster" where
  "demo_held =
     \<lparr>lc_db = put ''SCANNING_1'' (Some (VStr ''1'')) empty_store, lc_clock = 0, lc_expiry = 10 * time_Second,
      lc_node = [0 \<mapsto> demo_node 0 (Selecting (Armed (5 * time_Second)))]\<rparr>"

lemma demo_Get:
  assumes "keys db ''SCANNING_1'' = None"
  shows "ClusterLock_Get ref_client t (NewClusterLock ''SCANNING_1'' ''m'') db =
    (Inr True, (\<lparr>lk_key = ''SCANNING_1'', lk_identifier = ''m'', lk_done = Some Open\<rparr>,
       Some (Selecting (Armed (t + 5 * time_Second)))), put ''SCANNING_1'' (Some (VStr ''1'')) db)"
proof -
  have "Itoa 1 = ''1''" by code_simp
  with assms show ?thesis
    by (simp add: ClusterLock_Get_def NewClusterLock_def ref_client_def ref_redis_def conn_do_def timer_Reset_def lockRefresh_def)
qed

lemma demo_held_reach: "cluster_reach ref_client id ''SCANNING_1'' demo_held"
proof -
  have 0: "cluster_reach ref_client id ''SCANNING_1'' demo_cluster"
    unfolding demo_cluster_def by (rule cluster_reach.start)
  show ?thesis
    using cluster_reach.move [OF 0 lock_move.get [of demo_cluster 0 ref_client "''SCANNING_1''" "''m''" _ _ _ _ id, OF _ demo_Get]]
    by (simp add: demo_cluster_def demo_held_def demo_node_def empty_store_def lockTTL_def)
qed


text \<open>
  C26: the lock is not renewed.  After five seconds the goroutine that should renew it waits for a
  second value of its timer, and remains there, so a holder is not protected beyond the ten seconds of
  the first \<open>SET\<close>: another participant can obtain the lock while it still scans.
\<close>

theorem cluster_lock_not_renewed:
  assumes "redigo_ok (api r) \<alpha>" and "cluster_reach r \<alpha> key s"
    and "holds_since s p t" and "t + lockRefresh * time_Second < lc_clock s"
  shows "\<exists>n. lc_node s p = Some n \<and> ln_keeper n = Blocked \<and>
     (\<forall>s' n'. lock_move r \<alpha> key s s' \<longrightarrow> lc_node s' p = Some n' \<longrightarrow> ln_keeper n' = Blocked)"
proof -
  obtain n where n: "lc_node s p = Some n" "ln_since n = t" "lk_done (ln_lock n) = Some Open"
    using assms(3) by (auto simp: holds_since_def)
  have b: "ln_keeper n = Blocked"
    using cluster_invD(1) [OF reach_inv [OF assms(2,1)] n(1)] n assms(4)
    by (auto simp: node_ok_def split: keeper.splits)
  have "ln_keeper n' = Blocked" if "lock_move r \<alpha> key s s'" "lc_node s' p = Some n'" for s' n'
    using that(1) by cases (use that(2) n b in \<open>auto split: option.splits if_splits\<close>)
  then show ?thesis using n b by blast
qed

definition demo_lost :: "store lock_cluster" where
  "demo_lost =
     \<lparr>lc_db = put ''SCANNING_1'' (Some (VStr ''1'')) (put ''SCANNING_1'' None (lc_db demo_held)),
      lc_clock = 10 * time_Second, lc_expiry = 20 * time_Second,
      lc_node = [0 \<mapsto> demo_node 0 Blocked, 1 \<mapsto> demo_node (10 * time_Second) (Selecting (Armed (15 * time_Second)))]\<rparr>"

lemma demo_lost_reach: "cluster_reach ref_client id ''SCANNING_1'' demo_lost"
proof -
  let ?R = "cluster_reach ref_client id ''SCANNING_1''" and ?S = "5 * time_Second"
  have "?R (demo_held\<lparr>lc_clock := ?S\<rparr>)"
    using cluster_reach.move [OF demo_held_reach lock_move.elapse [of ?S demo_held "lc_db demo_held" id]]
    by (simp add: demo_held_def demo_node_def time_Second_def split: if_splits)
  from cluster_reach.move [OF this lock_move.renew [of _ 0 "demo_node 0 (Selecting (Armed ?S))" "Armed ?S" _ Blocked "lc_db demo_held"]]
  have "?R (demo_held\<lparr>lc_clock := ?S, lc_node := [0 \<mapsto> demo_node 0 Blocked]\<rparr>)"
    by (simp add: demo_held_def demo_node_def timer_at_def keeper_renew_def timer_recv_def stop_and_drain_def timer_Stop_def)
  from cluster_reach.move [OF this lock_move.elapse [of ?S _ "put ''SCANNING_1'' None (lc_db demo_held)" id]]
  have "?R (demo_held\<lparr>lc_db := put ''SCANNING_1'' None (lc_db demo_held), lc_clock := ?S + ?S, lc_node := [0 \<mapsto> demo_node 0 Blocked]\<rparr>)"
    by (simp add: demo_held_def demo_node_def time_Second_def split: if_splits)
  from cluster_reach.move [OF this lock_move.get [of _ 1 ref_client "''SCANNING_1''" "''m''" _ _ _ _ id, OF _ demo_Get]]
  show ?thesis
    by (simp add: demo_held_def demo_lost_def demo_node_def lockTTL_def time_Second_def)
qed

theorem cluster_lock_not_renewed_witness:
  "cluster_reach ref_client id ''SCANNING_1'' demo_lost \<and>
   holds_since demo_lost 0 0 \<and> holds_since demo_lost 1 (10 * time_Second) \<and>
   (\<exists>n. lc_node demo_lost 0 = Some n \<and> ln_keeper n = Blocked)"
proof -
  have h: "holds_since demo_lost 0 0" "holds_since demo_lost 1 (10 * time_Second)"
    "0 + lockRefresh * time_Second < lc_clock demo_lost"
    by (simp_all add: holds_since_def demo_lost_def demo_node_def lockRefresh_def time_Second_def)
  have "redigo_ok (api ref_client) id" by (simp add: ref_client_def ref_redis_ok)
  from cluster_lock_not_renewed [OF this demo_lost_reach h(1,3)] h demo_lost_reach show ?thesis by blast
qed

end
