(* ===== verification/Http_Scan.thy ===== *)
theory Http_Scan
  imports Cluster_Lock Mirror_Db Layerfile
begin

text \<open>
  Scanning one version of the repository on a mirror (\<^verbatim>\<open>scan/http.go\<close>), with the part of
  \<^verbatim>\<open>scan/scan.go\<close> that records what was found.  The HTTP client, the URL parser and the parser of
  HTTP dates are a record of arguments, over a state \<open>'w\<close> of the network that every request may
  change.  The commands sent on the connection wait in \<open>sc_queue\<close> for the transaction to end.  The
  seconds slept are counted, since the back-off is part of what the function does.
\<close>

section \<open>State\<close>

record http_resp =
  hr_StatusCode :: int
  hr_Status :: string
  hr_Header :: "string \<Rightarrow> string"

record 'w http_client =
  hc_Head :: "'w \<Rightarrow> string \<Rightarrow> (err + http_resp) \<times> 'w"
  hc_Get :: "'w \<Rightarrow> string \<Rightarrow> (err + string) \<times> 'w"
  hc_ParseURL :: "string \<Rightarrow> err + string"
  hc_RFC1123 :: "string \<Rightarrow> gotime"
  hc_String :: "gotime \<Rightarrow> string"

text \<open>
  \<open>hc_ParseURL\<close> is \<open>url.Parse\<close> followed by \<open>String\<close>, \<open>hc_RFC1123\<close> is \<open>time.Parse\<close> with its error
  dropped, \<open>hc_String\<close> is what the client writes for a time, its \<open>String()\<close>.
\<close>

record scan =
  sc_mirrorid :: int
  sc_filesTmpKey :: string
  sc_count :: int
  sc_queue :: "rcmd list"

definition file_update_cmd :: "int \<Rightarrow> string \<Rightarrow> rcmd" where
  "file_update_cmd i path = PUBLISH MIRROR_FILE_UPDATE (Itoa i @ '' '' @ path)"

definition ScannerAddFile :: "'w http_client \<Rightarrow> FileData \<Rightarrow> scan \<Rightarrow> scan" where
  "ScannerAddFile hc f s =
     s\<lparr>sc_count := sc_count s + 1,
       sc_queue := sc_queue s @
         [SADD (sc_filesTmpKey s) [fd_Path f],
          SADD (filemirrors_key (fd_Path f)) [Itoa (sc_mirrorid s)],
          HMSET (fileinfo_key (sc_mirrorid s) (fd_Path f))
            [(''size'', AInt (fd_Size f)), (''modTime'', AStr (hc_String hc (fd_ModTime f)))],
          file_update_cmd (sc_mirrorid s) (fd_Path f)]\<rparr>"

definition ScannerDiscard :: "scan \<Rightarrow> scan" where
  "ScannerDiscard s = s\<lparr>sc_queue := []\<rparr>"

definition ScannerCommit :: "'db client \<Rightarrow> scan \<Rightarrow> 'db \<Rightarrow> (err option \<times> scan) \<times> 'db" where
  "ScannerCommit r s db =
     (let (rep, db') = conn_exec r db (sc_queue s) in ((do_err rep, s\<lparr>sc_queue := []\<rparr>), db'))"

section \<open>One file\<close>

text \<open>The loop from the label \<open>retry\<close>, with the counter of refusals and the seconds slept.\<close>

function head_retry ::
    "'w http_client \<Rightarrow> string \<Rightarrow> nat \<Rightarrow> nat \<Rightarrow> 'w \<Rightarrow> ((err + http_resp) \<times> nat \<times> nat) \<times> 'w" where
  "head_retry hc url counter slept w =
     (case hc_Head hc w url of
        (Inl e, w1) \<Rightarrow> ((Inl e, counter, slept), w1)
      | (Inr h, w1) \<Rightarrow>
          if hr_StatusCode h = 429 then
            (if counter + 1 \<le> 4 then head_retry hc url (counter + 1) (slept + 2 ^ (counter + 1)) w1
             else ((Inr h, counter + 1, slept + 2 ^ (counter + 1)), w1))
          else ((Inr h, counter, slept), w1))"
  by pat_completeness auto
termination by (relation "measure (\<lambda>(hc, url, counter, slept, w). 5 - counter)") auto

declare head_retry.simps [simp del]

text \<open>What the loop body does with the answer: an error that ends the scan, or the size and the time.\<close>

definition check_head ::
    "'w http_client \<Rightarrow> layers \<Rightarrow> nat \<Rightarrow> string \<Rightarrow> string \<Rightarrow> http_resp \<Rightarrow> err + int \<times> gotime" where
  "check_head hc st i headFileUrl fileUrl h =
     (if hr_StatusCode h \<noteq> 200 then
        Inl (ErrMsg (''file no.'' @ Itoa (int i) @ '', http url: '' @ headFileUrl @
               '' request failed, response status: '' @ hr_Status h))
      else let size = fst (ParseInt (hr_Header h ''Content-Length''));
               source = lf_Size (GetRepoFileData st fileUrl)
           in if size = 0 \<or> source \<noteq> size then
                Inl (ErrMsg (''file no.'' @ Itoa (int i) @ '', http url: '' @ headFileUrl @ '', size mismatch: '' @
                       Itoa size @ ''[dest] != '' @ Itoa source @ ''[src]''))
              else Inr (size, hc_RFC1123 hc (hr_Header h ''Last-Modified'')))"

definition file_url :: "layers \<Rightarrow> addr \<Rightarrow> string" where
  "file_url st a = lf_Dir (node_at st a) @ Sep @ lf_Name (node_at st a)"

definition found_file :: "string \<Rightarrow> int \<Rightarrow> gotime \<Rightarrow> FileData" where
  "found_file path sz t =
     \<lparr>fd_Path = path, fd_Sha1 = '''', fd_Sha256 = '''', fd_Md5 = '''', fd_Size = sz, fd_ModTime = t\<rparr>"

text \<open>
  The loop over the files.  A failed request returns the variable \<open>err\<close> of the function, which is nil
  here, and not the error of the request.
\<close>

fun scan_files ::
    "'w http_client \<Rightarrow> layers \<Rightarrow> string \<Rightarrow> string \<Rightarrow> nat \<Rightarrow> addr list \<Rightarrow> nat \<Rightarrow> nat \<Rightarrow> scan \<Rightarrow> 'w \<Rightarrow>
       (string \<times> err option) \<times> nat \<times> scan \<times> 'w" where
  "scan_files hc st uri filePath i [] counter slept s w = (('''', None), slept, s, w)"
| "scan_files hc st uri filePath i (fl # fls) counter slept s w =
     (let fileUrl = file_url st fl; headFileUrl = ConcatURL uri fileUrl
      in case head_retry hc headFileUrl counter (slept + 2 ^ counter) w of
           ((Inl e, counter', slept'), w1) \<Rightarrow> ((filePath, None), slept', s, w1)
         | ((Inr h, counter', slept'), w1) \<Rightarrow>
             (case check_head hc st i headFileUrl fileUrl h of
                Inl e \<Rightarrow> ((filePath, Some e), slept', s, w1)
              | Inr (sz, t) \<Rightarrow>
                  scan_files hc st uri filePath (Suc i) fls counter' slept'
                    (ScannerAddFile hc (found_file filePath sz t) s) w1))"

section \<open>One version\<close>

type_synonym 'w scan_out = "((Precision \<times> string \<times> err option) \<times> nat \<times> scan \<times> 'w) gores"

definition HttpScanner_Scan ::
    "'w http_client \<Rightarrow> layers \<Rightarrow> bool \<Rightarrow> string \<Rightarrow> string \<Rightarrow> addr list \<Rightarrow> scan \<Rightarrow> 'w \<Rightarrow> 'w scan_out" where
  "HttpScanner_Scan hc st stopped httpUrl identifier repoVersion s w =
     (case repoVersion of
        [] \<Rightarrow> Inl IndexOutOfRange
      | recentFile # _ \<Rightarrow>
          (let filePath = file_url st recentFile; fail = (\<lambda>e w. Inr ((0, filePath, Some e), 0, s, w))
           in if \<not> HasPrefix httpUrl ''https://'' then
                fail (ErrMsg (''['' @ identifier @ ''] '' @ httpUrl @ '' does not start with https://'')) w
              else if stopped then fail ErrScanAborted w
              else (case hc_ParseURL hc httpUrl of
                      Inl e \<Rightarrow> fail e w
                    | Inr uri \<Rightarrow>
                        (case hc_Head hc w uri of
                           (Inl e, w1) \<Rightarrow> fail e w1
                         | (Inr h, w1) \<Rightarrow>
                             if hr_StatusCode h \<noteq> 200 then
                               fail (ErrMsg (identifier @ '' mirror http url: '' @ hr_Status h @ '' '' @ httpUrl @ '' request failed'')) w1
                             else (case scan_files hc st uri filePath 0 repoVersion 0 0 s w1 of
                                     ((path, e), slept, s', w2) \<Rightarrow> Inr ((0, path, e), slept, s', w2))))))"

section \<open>Lemmas\<close>

text \<open>Refusals: the counter never exceeds five, and the waiting is accounted for by it.\<close>

lemma head_retry_counter:
  assumes "head_retry hc url counter slept w = ((res, counter', slept'), w')" "counter \<le> 4"
  shows "counter \<le> counter' \<and> counter' \<le> 5 \<and> slept' + 2 ^ (counter + 1) = slept + 2 ^ (counter' + 1) \<and>
    (counter' = 5 \<longrightarrow> (\<exists>h. res = Inr h \<and> hr_StatusCode h = 429))"
  using assms
proof (induction hc url counter slept w rule: head_retry.induct)
  case (1 hc url counter slept w)
  obtain a w1 where h: "hc_Head hc w url = (a, w1)" by fastforce
  show ?case
  proof (cases "\<exists>r. a = Inr r \<and> hr_StatusCode r = 429 \<and> counter + 1 \<le> 4")
    case True
    then obtain r where r: "a = Inr r" "hr_StatusCode r = 429" "counter + 1 \<le> 4" by blast
    then have "head_retry hc url (counter + 1) (slept + 2 ^ (counter + 1)) w1 = ((res, counter', slept'), w')"
      using "1.prems"(1) h by (simp add: head_retry.simps [of hc url counter])
    from "1.IH" [OF h [symmetric] r(1) r(2) r(3) this r(3)] show ?thesis by auto
  next
    case False
    then show ?thesis using "1.prems" h
      by (auto simp: head_retry.simps [of hc url counter] split: sum.splits if_splits)
  qed
qed

text \<open>The answer of the last request of the loop is an answer of the server.\<close>

lemma head_retry_answer:
  assumes "head_retry hc url counter slept w = ((res, counter', slept'), w')"
  shows "\<exists>v. fst (hc_Head hc v url) = res"
  using assms
proof (induction hc url counter slept w rule: head_retry.induct)
  case (1 hc url counter slept w)
  obtain a w1 where h: "hc_Head hc w url = (a, w1)" by fastforce
  show ?case
  proof (cases "\<exists>r. a = Inr r \<and> hr_StatusCode r = 429 \<and> counter + 1 \<le> 4")
    case True
    then obtain r where r: "a = Inr r" "hr_StatusCode r = 429" "counter + 1 \<le> 4" by blast
    then have "head_retry hc url (counter + 1) (slept + 2 ^ (counter + 1)) w1 = ((res, counter', slept'), w')"
      using "1.prems"(1) h by (simp add: head_retry.simps [of hc url counter])
    from "1.IH" [OF h [symmetric] r(1) r(2) r(3) this] show ?thesis .
  next
    case False
    then have "res = a" using "1.prems" h
      by (auto simp: head_retry.simps [of hc url counter] split: sum.splits if_splits)
    then show ?thesis using h by (metis fst_conv)
  qed
qed

text \<open>A file that the mirror has with the size it has in the repository.\<close>

definition verified :: "'w http_client \<Rightarrow> layers \<Rightarrow> string \<Rightarrow> addr \<Rightarrow> bool" where
  "verified hc st uri a \<longleftrightarrow>
     (\<exists>w h. fst (hc_Head hc w (ConcatURL uri (file_url st a))) = Inr h \<and> hr_StatusCode h = 200 \<and>
        fst (ParseInt (hr_Header h ''Content-Length'')) = lf_Size (GetRepoFileData st (file_url st a)) \<and>
        lf_Size (GetRepoFileData st (file_url st a)) \<noteq> 0)"

lemma check_head_ok:
  "check_head hc st i u f h = Inr (sz, t) \<Longrightarrow>
     hr_StatusCode h = 200 \<and> sz = fst (ParseInt (hr_Header h ''Content-Length'')) \<and>
     sz = lf_Size (GetRepoFileData st f) \<and> sz \<noteq> 0"
  by (auto simp: check_head_def Let_def split: if_splits)

lemma check_head_429: "hr_StatusCode h = 429 \<Longrightarrow> \<exists>e. check_head hc st i u f h = Inl e"
  by (simp add: check_head_def)

definition add_files :: "'w http_client \<Rightarrow> FileData list \<Rightarrow> scan \<Rightarrow> scan" where
  "add_files hc fds s = fold (ScannerAddFile hc) fds s"

text \<open>
  What the loop over the files does: it records a first part of them, all under the same path, ends
  with an error, with a request that failed, or with all files recorded.
\<close>

datatype scan_end = Complete | Rejected err | Unanswered

definition end_result :: "string \<Rightarrow> scan_end \<Rightarrow> string \<times> err option" where
  "end_result filePath x = (case x of Complete \<Rightarrow> ('''', None) | Rejected e \<Rightarrow> (filePath, Some e) | Unanswered \<Rightarrow> (filePath, None))"

lemma scan_files_run:
  assumes "scan_files hc st uri filePath i fls counter slept s w = (res, slept', s', w')" "counter \<le> 4"
  shows "\<exists>fds x. res = end_result filePath x \<and> s' = add_files hc fds s \<and>
    (\<forall>f \<in> set fds. fd_Path f = filePath) \<and> length fds \<le> length fls \<and>
    list_all (verified hc st uri) (take (length fds) fls) \<and>
    (x = Complete \<longrightarrow> length fds = length fls) \<and>
    (x = Unanswered \<longrightarrow> length fds < length fls \<and>
       (\<exists>v e. fst (hc_Head hc v (ConcatURL uri (file_url st (fls ! length fds)))) = Inl e)) \<and>
    slept' + 2 ^ (counter + 1) \<le> slept + 16 * length fls + 64"
  using assms
proof (induction hc st uri filePath i fls counter slept s w rule: scan_files.induct)
  case (1 hc st uri filePath i counter slept s w)
  have "(2::nat) ^ (counter + 1) \<le> 2 ^ 5" using "1.prems"(2) by (intro power_increasing) auto
  then show ?case using "1.prems" by (intro exI [of _ "[]"] exI [of _ Complete]) (auto simp: end_result_def add_files_def)
next
  case (2 hc st uri filePath i fl fls counter slept s w)
  let ?u = "ConcatURL uri (file_url st fl)"
  obtain a c' sl' w1 where h: "head_retry hc ?u counter (slept + 2 ^ counter) w = ((a, c', sl'), w1)"
    by (metis surj_pair)
  note C = head_retry_counter [OF h "2.prems"(2)]
  obtain v where v: "fst (hc_Head hc v ?u) = a" using head_retry_answer [OF h] by blast
  have c: "(2::nat) ^ counter \<le> 16" using power_increasing [OF "2.prems"(2), of "2::nat"] by simp
  have c5: "(2::nat) ^ (c' + 1) \<le> 64" using C power_increasing [of c' 5 "2::nat"] by simp
  show ?case
  proof (cases a)
    case (Inl e)
    then have "res = (filePath, None)" "s' = s" "slept' = sl'" using "2.prems"(1) h by simp_all
    then show ?thesis using Inl v C c c5
      by (intro exI [of _ "[]"] exI [of _ Unanswered]) (auto simp: end_result_def add_files_def)
  next
    case (Inr r)
    show ?thesis
    proof (cases "check_head hc st i ?u (file_url st fl) r")
      case e: (Inl e)
      then have "res = (filePath, Some e)" "s' = s" "slept' = sl'" using "2.prems"(1) h Inr by simp_all
      then show ?thesis using C c c5
        by (intro exI [of _ "[]"] exI [of _ "Rejected e"]) (auto simp: end_result_def add_files_def)
    next
      case ok: (Inr p)
      obtain sz t where p: "p = (sz, t)" by fastforce
      let ?f = "found_file filePath sz t"
      have c4: "c' \<le> 4" using C check_head_429 [of r hc st i ?u "file_url st fl"] ok Inr
        by (metis Inl_Inr_False le_Suc_eq eval_nat_numeral(3) sum.inject(2))
      have run: "scan_files hc st uri filePath (Suc i) fls c' sl' (ScannerAddFile hc ?f s) w1 = (res, slept', s', w')"
        using "2.prems"(1) h Inr ok p by simp
      obtain fds x where IH: "res = end_result filePath x" "s' = add_files hc fds (ScannerAddFile hc ?f s)"
        "\<forall>f \<in> set fds. fd_Path f = filePath" "length fds \<le> length fls"
        "list_all (verified hc st uri) (take (length fds) fls)" "x = Complete \<longrightarrow> length fds = length fls"
        "x = Unanswered \<longrightarrow> length fds < length fls \<and>
          (\<exists>v e. fst (hc_Head hc v (ConcatURL uri (file_url st (fls ! length fds)))) = Inl e)"
        "slept' + 2 ^ (c' + 1) \<le> sl' + 16 * length fls + 64"
        using "2.IH" [OF refl refl h [symmetric] refl Inr refl ok p [symmetric] run c4] by blast
      have ver: "verified hc st uri fl"
        unfolding verified_def using check_head_ok [of hc st i ?u "file_url st fl" r sz t] ok p v Inr by metis
      show ?thesis
        by (intro exI [of _ "?f # fds"] exI [of _ x])
          (use IH ver C c in \<open>auto simp: add_files_def found_file_def\<close>)
    qed
  qed
qed

lemma file_url_nonempty [simp]: "file_url st a \<noteq> ''''"
  by (simp add: file_url_def Sep_def)

lemma add_files_fields:
  "sc_count (add_files hc fds s) = sc_count s + int (length fds)"
  "sc_mirrorid (add_files hc fds s) = sc_mirrorid s" "sc_filesTmpKey (add_files hc fds s) = sc_filesTmpKey s"
  unfolding add_files_def by (induction fds arbitrary: s) (simp_all add: ScannerAddFile_def)

text \<open>
  The possible runs of a scan of a version.  \<open>ok\<close> tells that the requests for the files were reached;
  \<open>fds\<close> are the files recorded.
\<close>

lemma HttpScanner_Scan_run:
  "\<exists>path e slept s' w' fds. HttpScanner_Scan hc st stopped url ident (a # as) s w = Inr ((0, path, e), slept, s', w') \<and>
     s' = add_files hc fds s \<and> (\<forall>f \<in> set fds. fd_Path f = file_url st a) \<and> slept \<le> 16 * length (a # as) + 62 \<and>
     (path = '''' \<longrightarrow> e = None \<and> length fds = length (a # as) \<and> HasPrefix url ''https://'' \<and> \<not> stopped \<and>
        (\<exists>uri. hc_ParseURL hc url = Inr uri \<and> list_all (verified hc st uri) (a # as))) \<and>
     (path \<noteq> '''' \<longrightarrow> path = file_url st a) \<and>
     (path \<noteq> '''' \<longrightarrow> e = None \<longrightarrow> (\<exists>uri b v x. hc_ParseURL hc url = Inr uri \<and> b \<in> set (a # as) \<and>
        fst (hc_Head hc v (ConcatURL uri (file_url st b))) = Inl x))"
proof (cases "\<exists>uri h w1. HasPrefix url ''https://'' \<and> \<not> stopped \<and> hc_ParseURL hc url = Inr uri \<and>
    hc_Head hc w uri = (Inr h, w1) \<and> hr_StatusCode h = 200")
  case False
  then show ?thesis
    by (intro exI [of _ "file_url st a"])
      (auto simp: HttpScanner_Scan_def Let_def add_files_def split: sum.splits prod.splits intro!: exI [of _ "[]"])
next
  case True
  then obtain uri h w1 where g: "HasPrefix url ''https://''" "\<not> stopped" "hc_ParseURL hc url = Inr uri"
    "hc_Head hc w uri = (Inr h, w1)" "hr_StatusCode h = 200" by blast
  obtain res slept s' w' where r: "scan_files hc st uri (file_url st a) 0 (a # as) 0 0 s w1 = (res, slept, s', w')"
    by (metis surj_pair)
  obtain fds x where R: "res = end_result (file_url st a) x" "s' = add_files hc fds s"
    "\<forall>f \<in> set fds. fd_Path f = file_url st a" "length fds \<le> length (a # as)"
    "list_all (verified hc st uri) (take (length fds) (a # as))"
    "x = Complete \<longrightarrow> length fds = length (a # as)"
    "x = Unanswered \<longrightarrow> length fds < length (a # as) \<and>
       (\<exists>v e. fst (hc_Head hc v (ConcatURL uri (file_url st ((a # as) ! length fds)))) = Inl e)"
    "slept + 2 ^ (0 + 1) \<le> 0 + 16 * length (a # as) + 64"
    using scan_files_run [OF r le0] by blast
  have s: "HttpScanner_Scan hc st stopped url ident (a # as) s w = Inr ((0, fst res, snd res), slept, s', w')"
    using g r by (simp add: HttpScanner_Scan_def Let_def split: prod.splits)
  have un: "\<exists>b v x. b \<in> set (a # as) \<and> fst (hc_Head hc v (ConcatURL uri (file_url st b))) = Inl x"
    if "x = Unanswered" using R(7) that nth_mem by blast
  show ?thesis
    by (rule exI [of _ "fst res"], rule exI [of _ "snd res"], rule exI [of _ slept], rule exI [of _ s'], rule exI [of _ w'],
        rule exI [of _ fds], cases x) (use R g un s in \<open>auto simp: end_result_def\<close>)
qed

section \<open>Properties\<close>


definition demo_tree :: layers where
  "demo_tree = init_layers
     \<lparr>nodes := [zero_LayerFile\<lparr>lf_Dir := ''v1/ISO'', lf_Name := ''a.iso'', lf_Size := 7\<rparr>],
      fileTree := empty_FileStore\<lparr>Mapping := [''v1/ISO/a.iso'' \<mapsto> 0]\<rparr>,
      selectorList := [0]\<rparr>"

text \<open>A mirror that has every file, with seven bytes; the network state counts the requests.\<close>

definition demo_http :: "nat http_client" where
  "demo_http =
     \<lparr>hc_Head = (\<lambda>w u. (Inr \<lparr>hr_StatusCode = 200, hr_Status = ''200 OK'', hr_Header = (\<lambda>k. ''7'')\<rparr>, Suc w)),
      hc_Get = (\<lambda>w u. (Inr ''1723115000'', Suc w)),
      hc_ParseURL = Inr, hc_RFC1123 = (\<lambda>_. 0), hc_String = (\<lambda>_. ''0001-01-01 00:00:00 +0000 UTC'')\<rparr>"

definition demo_scan :: scan where
  "demo_scan = \<lparr>sc_mirrorid = 1, sc_filesTmpKey = ''MIRRORFILESTMP_1'', sc_count = 0, sc_queue = []\<rparr>"


end
