(* ===== verification/Redis_Effects.thy ===== *)
theory Redis_Effects
  imports Mirror_Db
begin

text \<open>
  A database that answers: the interface that the scanner and the remote procedure calls rely on when
  they write, with the effect of single commands and of transactions on the keyspace.  The locale
  holds for any client whose calls are answered; it is interpreted for the reference client.
\<close>

section \<open>Transactions\<close>

definition execs_succeed :: "'db redigo \<Rightarrow> ('db \<Rightarrow> store) \<Rightarrow> bool" where
  "execs_succeed R \<alpha> \<longleftrightarrow>
     (\<forall>db cs. redis_cmds (\<alpha> db) cs \<noteq> None \<longrightarrow> (\<exists>q db'. rd_exec R db cs = (Inr q, db')))"

lemma redis_cmds_append:
  "redis_cmds s (cs @ ds) =
     (case redis_cmds s cs of
        None \<Rightarrow> None
      | Some (rs, s1) \<Rightarrow> map_option (\<lambda>(qs, s2). (rs @ qs, s2)) (redis_cmds s1 ds))"
  by (induction s cs rule: redis_cmds.induct) (auto simp: option.map_id split: option.splits)

lemma redis_cmds_appendI:
  "redis_cmds s cs = Some (rs, s1) \<Longrightarrow> redis_cmds s1 ds = Some (qs, s2) \<Longrightarrow>
     redis_cmds s (cs @ ds) = Some (rs @ qs, s2)"
  by (simp add: redis_cmds_append)

section \<open>Sets and hashes\<close>

text \<open>The members of a set and the value of a field; a missing key reads as empty.\<close>

definition members :: "store \<Rightarrow> string \<Rightarrow> string set" where
  "members s k = (case get_set s k of Some l \<Rightarrow> set l | None \<Rightarrow> {})"

definition field :: "store \<Rightarrow> string \<Rightarrow> string \<rightharpoonup> string" where
  "field s k = (case get_hash s k of Some h \<Rightarrow> map_of h | None \<Rightarrow> Map.empty)"

abbreviation is_set :: "store \<Rightarrow> string \<Rightarrow> bool" where
  "is_set s k \<equiv> get_set s k \<noteq> None"

abbreviation is_hash :: "store \<Rightarrow> string \<Rightarrow> bool" where
  "is_hash s k \<equiv> get_hash s k \<noteq> None"

text \<open>What a command does not touch, it keeps.\<close>

lemma get_cong:
  assumes "keys s' k = keys s k"
  shows "get_set s' k = get_set s k" "get_hash s' k = get_hash s k" "members s' k = members s k" "field s' k = field s k"
  using assms by (simp_all add: get_set_def get_hash_def members_def field_def)

lemma get_published [simp]:
  "get_set (s\<lparr>published := p\<rparr>) k = get_set s k" "get_hash (s\<lparr>published := p\<rparr>) k = get_hash s k"
  "members (s\<lparr>published := p\<rparr>) k = members s k" "field (s\<lparr>published := p\<rparr>) k = field s k"
  by (simp_all add: get_set_def get_hash_def members_def field_def)

lemma get_put_set:
  "get_set (put_set k l s) k' = (if k' = k then Some l else get_set s k')"
  "get_hash (put_set k l s) k' = (if k' = k then (if l = [] then Some [] else None) else get_hash s k')"
  "members (put_set k l s) k' = (if k' = k then set l else members s k')"
  by (auto simp: get_set_def get_hash_def members_def put_set_def)

lemma get_put_hash:
  "get_hash (put_hash k h s) k' = (if k' = k then Some h else get_hash s k')"
  "get_set (put_hash k h s) k' = (if k' = k then (if h = [] then Some [] else None) else get_set s k')"
  by (auto simp: get_set_def get_hash_def put_hash_def)

lemma keys_put_set: "k' \<noteq> k \<Longrightarrow> keys (put_set k l s) k' = keys s k'" "published (put_set k l s) = published s"
  by (simp_all add: put_set_def)

lemma keys_put_hash: "k' \<noteq> k \<Longrightarrow> keys (put_hash k l s) k' = keys s k'" "published (put_hash k l s) = published s"
  by (simp_all add: put_hash_def)

lemma cmd_SADD:
  assumes "is_set s k"
  shows "\<exists>q s'. redis_cmd s (SADD k [x]) = Some (q, s') \<and> is_set s' k \<and> members s' k = insert x (members s k) \<and>
    (\<forall>k'. k' \<noteq> k \<longrightarrow> keys s' k' = keys s k') \<and> published s' = published s"
proof -
  obtain l where l: "get_set s k = Some l" using assms by blast
  show ?thesis
    by (intro exI [of _ "RInt (int (length (set_add_all [x] l)) - int (length l))"] exI [of _ "put_set k (set_add_all [x] l) s"])
      (use l in \<open>auto simp: get_put_set keys_put_set members_def\<close>)
qed

lemma cmd_SREM:
  assumes "is_set s k"
  shows "\<exists>q s'. redis_cmd s (SREM k [x]) = Some (q, s') \<and> is_set s' k \<and> members s' k = members s k - {x} \<and>
    (\<forall>k'. k' \<noteq> k \<longrightarrow> keys s' k' = keys s k') \<and> published s' = published s"
  using assms by (auto simp: get_put_set keys_put_set members_def)

lemma cmd_HMSET:
  assumes "is_hash s k" and "args_str fas = Some fvs"
  shows "\<exists>q s'. redis_cmd s (HMSET k fas) = Some (q, s') \<and> is_hash s' k \<and> field s' k = field s k ++ map_of (rev fvs) \<and>
    (\<forall>k'. k' \<noteq> k \<longrightarrow> keys s' k' = keys s k') \<and> published s' = published s"
  using assms by (auto simp: get_put_hash keys_put_hash field_def hash_put_map_of)

lemma cmd_HSET:
  assumes "is_hash s k" and "arg_str a = Some v"
  shows "\<exists>q s'. redis_cmd s (HSET k f a) = Some (q, s') \<and> is_hash s' k \<and> field s' k = (field s k)(f \<mapsto> v) \<and>
    (\<forall>k'. k' \<noteq> k \<longrightarrow> keys s' k' = keys s k') \<and> published s' = published s"
  using assms by (auto simp: get_put_hash keys_put_hash field_def update_conv')

lemma fold_put_None: "keys (fold (\<lambda>k. put k None) ks s) k' = (if k' \<in> set ks then None else keys s k')"
  "published (fold (\<lambda>k. put k None) ks s) = published s"
  by (induction ks arbitrary: s) auto

lemma cmd_DEL:
  "\<exists>q s'. redis_cmd s (DEL ks) = Some (q, s') \<and> (\<forall>k'. keys s' k' = (if k' \<in> set ks then None else keys s k')) \<and>
    published s' = published s"
  by (simp add: fold_put_None)

lemma cmd_PUBLISH:
  "\<exists>q s'. redis_cmd s (PUBLISH ch m) = Some (q, s') \<and> keys s' = keys s \<and> published s' = published s @ [(ch, m)]"
  by simp

section \<open>A client whose calls are answered\<close>

locale reliable_redis =
  fixes r :: "'db client" and \<alpha> :: "'db \<Rightarrow> store"
  assumes interface: "redigo_ok (api r) \<alpha>"
    and answers: "calls_succeed (api r) \<alpha>"
    and commits: "execs_succeed (api r) \<alpha>"
    and ready: "cl_ready r"
begin

lemma do_effect:
  assumes "redis_cmd (\<alpha> db) c = Some (q, s')"
  shows "\<exists>q' db'. conn_do r db c = (Inr q', db') \<and> \<alpha> db' = s' \<and> same_reply c q q'"
  using conn_succeeds [OF interface answers ready assms] .

lemma do_reply_effect:
  assumes "redis_cmd (\<alpha> db) c = Some (q, s')" and "\<And>ch m. c \<noteq> PUBLISH ch m"
  shows "\<exists>db'. conn_do r db c = (Inr q, db') \<and> \<alpha> db' = s'"
proof -
  obtain q' db' where d: "conn_do r db c = (Inr q', db')" "\<alpha> db' = s'" "same_reply c q q'"
    using do_effect [OF assms(1)] by blast
  have "q' = q"
  proof (cases "\<exists>ch m. c = PUBLISH ch m")
    case False
    then show ?thesis using d(3) by (cases c) (simp_all add: same_reply_def)
  qed (use assms(2) in blast)
  then show ?thesis using d by blast
qed

lemma exec_effect:
  assumes "redis_cmds (\<alpha> db) cs = Some (qs, s')"
  shows "\<exists>qs' db'. conn_exec r db cs = (Inr (RMulti qs'), db') \<and> \<alpha> db' = s' \<and> length qs' = length qs \<and>
    (\<forall>i < length qs. same_reply (cs ! i) (qs ! i) (qs' ! i))"
proof -
  obtain q db' where d: "rd_exec (api r) db cs = (Inr q, db')"
    using commits assms unfolding execs_succeed_def by (metis option.distinct(1))
  from exec_okD [OF interface assms d] d ready show ?thesis by (auto simp: conn_exec_def)
qed

lemma publish_effect:
  "keys (\<alpha> (snd (Publish r db ev msg))) = keys (\<alpha> db)"
  "published (\<alpha> (snd (Publish r db ev msg))) = published (\<alpha> db) @ [(ev, msg)]"
  using Publish_effect [OF interface answers ready] by simp_all

text \<open>A log entry touches the log of its mirror only, when that is a list.\<close>

lemma push_log_frame:
  assumes "get_list (\<alpha> db) (log_key (GetMirrorID a)) \<noteq> None" and "k \<noteq> log_key (GetMirrorID a)"
  shows "keys (\<alpha> (snd (PushLog J r db a))) k = keys (\<alpha> db) k"
proof (cases "Marshal J a")
  case (Inr line)
  obtain l where "get_list (\<alpha> db) (log_key (GetMirrorID a)) = Some l" using assms(1) by blast
  from PushLog_effect [OF interface answers ready Inr this] assms(2) show ?thesis by (simp add: put_list_def)
qed (simp add: PushLog_def)

end

lemma ref_execs_succeed: "execs_succeed ref_redis id"
  by (auto simp: execs_succeed_def ref_redis_def)

interpretation ref_up: reliable_redis ref_client id
  by unfold_locales (simp_all add: ref_client_def ref_redis_ok ref_calls_succeed ref_execs_succeed)

text \<open>Evaluating calls of the reference client.\<close>

lemma ref_client_eval:
  "conn_do ref_client s c =
     (case redis_cmd s c of
        None \<Rightarrow> (case ref_draw s c of None \<Rightarrow> Inl (ErrReply ''ERR'') | Some q \<Rightarrow> Inr q, s)
      | Some (q, s') \<Rightarrow> (Inr q, s'))"
  "unblocked_do ref_client s c = conn_do ref_client s c"
  "conn_exec ref_client s cs =
     (case redis_cmds s cs of None \<Rightarrow> (Inl (ErrReply ''ERR''), s) | Some (qs, s') \<Rightarrow> (Inr (RMulti qs), s'))"
  "rd_String (api ref_client) (Inr (RBulk x)) = Inr x" "rd_String (api ref_client) (Inr (RStatus x)) = Inr x"
  "rd_String (api ref_client) (Inr RNil) = Inl ErrNil"
  "rd_Int (api ref_client) (Inr (RInt i)) = Inr i" "rd_Int (api ref_client) (Inr RNil) = Inl ErrNil"
  "rd_Bool (api ref_client) (Inr (RInt i)) = Inr (i \<noteq> 0)" "rd_Bool (api ref_client) (Inr RNil) = Inl ErrNil"
  "rd_Values (api ref_client) (Inr (RMulti rs)) = Inr rs"
  "rd_Strings (api ref_client) (Inr (RMulti rs)) = (case bulks rs of None \<Rightarrow> Inl bad_type | Some ss \<Rightarrow> Inr ss)"
  "cl_ready ref_client"
  by (auto simp: conn_do_def unblocked_do_def conn_exec_def ref_client_def ref_redis_def split: option.splits)

lemma Itoa_1: "Itoa 1 = ''1''"
  by code_simp

end
