(* ===== verification/Scan.thy ===== *)
theory Scan
  imports Http_Scan Redis_Effects
begin

text \<open>
  The scan of a mirror (\<^verbatim>\<open>scan/scan.go\<close>) and the fetch of its trace file (\<^verbatim>\<open>scan/trace.go\<close>).  A scan
  asks the mirror for the files that stand for each version of the repository, writes the index of the
  mirror in one transaction, removes what is gone and guesses the offset of its clock.  The order in
  which Go ranges over a map, the clock, the configuration and the requests to stop are fields of the
  environment.
\<close>

section \<open>State\<close>

record ('db, 'w) scan_env =
  se_cache :: "'db cache_env"
  se_json :: json
  se_http :: "'w http_client"
  se_Error :: "err \<Rightarrow> string"
  se_fix :: bool
  se_start :: gotime
  se_end :: gotime
  se_ticked :: bool
  se_stopped :: "nat \<Rightarrow> bool"
  se_order :: "(string \<rightharpoonup> addr list) \<Rightarrow> string list"
  se_entries :: "(int \<times> nat) list \<Rightarrow> (int \<times> nat) list"

text \<open>
  \<open>se_fix\<close> is the option \<open>FixTimezoneOffsets\<close>; \<open>se_ticked\<close> tells that the refresh timer of the lock
  fired before the scan ended; \<open>se_stopped n\<close> that the stop channel was closed before version number
  \<open>n\<close>; \<open>se_order\<close> and \<open>se_entries\<close> are the iteration orders of the two maps.
\<close>

record ('db, 'w) scan_state =
  ss_cache :: "Cache option"
  ss_db :: 'db
  ss_net :: 'w

record ScanResult =
  res_MirrorID :: int
  res_MirrorName :: string
  res_FilesIndexed :: int
  res_KnownIndexed :: int
  res_Removed :: int
  res_TZOffsetMs :: int

abbreviation se_client :: "('db, 'w) scan_env \<Rightarrow> 'db client" where
  "se_client env \<equiv> cl (se_cache env)"

definition files_key :: "int \<Rightarrow> string" where
  "files_key i = ''MIRRORFILES_'' @ Itoa i"

definition tmp_key :: "int \<Rightarrow> string" where
  "tmp_key i = ''MIRRORFILESTMP_'' @ Itoa i"

definition handled_key :: "int \<Rightarrow> string" where
  "handled_key i = ''HANDLEDFILES_'' @ Itoa i"

definition scanning_key :: "int \<Rightarrow> string" where
  "scanning_key i = ''SCANNING_'' @ Itoa i"

definition IsScanning :: "'db client \<Rightarrow> 'db \<Rightarrow> int \<Rightarrow> (err + bool) \<times> 'db" where
  "IsScanning r db i = (let (rep, db') = conn_do r db (EXISTS (scanning_key i)) in (rd_Bool (api r) rep, db'))"

section \<open>Times of synchronisation\<close>

fun scanner_number :: "ScannerType \<Rightarrow> int" where
  "scanner_number RSYNC = 0"
| "scanner_number FTP = 1"
| "scanner_number HTTP = 2"

definition setLastSync ::
    "'db client \<Rightarrow> gotime \<Rightarrow> 'db \<Rightarrow> int \<Rightarrow> ScannerType \<Rightarrow> Precision \<Rightarrow> bool \<Rightarrow> err option \<times> 'db" where
  "setLastSync r time_now db i protocol precision successful =
     (let now = Unix time_now;
          cmds = [HSET (mirror_key i) ''lastSync'' (AInt now)] @
            (if successful then
               [HMSET (mirror_key i)
                  [(''lastSuccessfulSync'', AInt now),
                   (''lastSuccessfulSyncProtocol'', AInt (scanner_number protocol)),
                   (''lastSuccessfulSyncPrecision'', AInt (if precision = 0 then time_Second else precision))]]
             else []);
          (rep, db1) = conn_exec r db cmds
      in (do_err rep, snd (Publish r db1 MIRROR_UPDATE (Itoa i))))"

section \<open>Clock offset\<close>

text \<open>The pairs of local and remote information on files whose size agrees and whose remote time is known.\<close>

fun tz_pairs ::
    "'db cache_env \<Rightarrow> gotime \<Rightarrow> int \<Rightarrow> string list \<Rightarrow> (FileInfo \<times> FileInfo) list \<Rightarrow> Cache \<Rightarrow> 'db \<Rightarrow>
       ((FileInfo \<times> FileInfo) list \<times> err option, 'db) cache_res" where
  "tz_pairs env now i [] pairs c db = Inr ((pairs, None), c, db)"
| "tz_pairs env now i (path # paths) pairs c db =
     (case GetFileInfo env now c db path of
        Inl p \<Rightarrow> Inl p
      | Inr ((l, Some e), c1, db1) \<Rightarrow> Inr ((pairs, Some e), c1, db1)
      | Inr ((l, None), c1, db1) \<Rightarrow>
          (case GetFileInfoMirror env now c1 db1 i path of
             Inl p \<Rightarrow> Inl p
           | Inr ((m, Some e), c2, db2) \<Rightarrow> Inr ((pairs, Some e), c2, db2)
           | Inr ((m, None), c2, db2) \<Rightarrow>
               tz_pairs env now i paths
                 (if IsZero (ModTime m) \<or> Size l \<noteq> Size m then pairs else pairs @ [(l, m)]) c2 db2))"

definition pair_offset :: "Precision \<Rightarrow> FileInfo \<times> FileInfo \<Rightarrow> int" where
  "pair_offset precision p =
     (let l = go_div (UnixNano (Truncate (ModTime (fst p)) precision)) time_Millisecond;
          m = go_div (UnixNano (Truncate (ModTime (snd p)) precision)) time_Millisecond
      in wrap64 (l - m))"

text \<open>\<open>offsetmap[diff]++\<close> over the pairs, as an association list.\<close>

definition count_offset :: "int \<Rightarrow> (int \<times> nat) list \<Rightarrow> (int \<times> nat) list" where
  "count_offset d om = AList.update d (Suc (case map_of om d of None \<Rightarrow> 0 | Some n \<Rightarrow> n)) om"

definition offsetmap :: "int list \<Rightarrow> (int \<times> nat) list" where
  "offsetmap ds = fold count_offset ds []"

text \<open>The loop over the map: the first offset of at least nine tenths of the pairs.\<close>

fun common_offset :: "nat \<Rightarrow> (int \<times> nat) list \<Rightarrow> int option" where
  "common_offset n [] = None"
| "common_offset n ((k, v) # om) =
     (if int v \<ge> float_int (real n / 100 * 90) then Some k else common_offset n om)"

text \<open>From the label \<open>finish\<close>.\<close>

definition store_offset :: "'db client \<Rightarrow> 'db \<Rightarrow> int \<Rightarrow> int \<Rightarrow> (int \<times> err option) \<times> 'db" where
  "store_offset r db i ms =
     (let (rep, db1) = conn_do r db (HMSET (mirror_key i) [(''tzoffset'', AInt ms)])
      in case do_err rep of
           Some e \<Rightarrow> ((ms, Some e), db1)
         | None \<Rightarrow> ((ms, None), snd (Publish r db1 MIRROR_UPDATE (Itoa i))))"

definition adjustTZOffset ::
    "('db, 'w) scan_env \<Rightarrow> int \<Rightarrow> Precision \<Rightarrow> Cache option \<Rightarrow> 'db \<Rightarrow> ((int \<times> err option) \<times> Cache option \<times> 'db) gores" where
  "adjustTZOffset env i precision cache db =
     (let r = se_client env; finish = (\<lambda>ms c db. case store_offset r db i ms of (res, db') \<Rightarrow> Inr (res, Some c, db'))
      in case cache of
           None \<Rightarrow> Inr ((0, None), None, db)
         | Some c \<Rightarrow>
             if \<not> se_fix env then finish 0 c db
             else (case conn_do r db (SRANDMEMBERS (handled_key i) 100) of
                     (rep, db1) \<Rightarrow>
                       (case rd_Strings (api r) rep of
                          Inl e \<Rightarrow> Inr ((0, Some e), Some c, db1)
                        | Inr filepaths \<Rightarrow>
                            (case tz_pairs (se_cache env) (se_end env) i filepaths [] c db1 of
                               Inl p \<Rightarrow> Inl p
                             | Inr ((pairs, Some e), c1, db2) \<Rightarrow> Inr ((0, Some e), Some c1, db2)
                             | Inr ((pairs, None), c1, db2) \<Rightarrow>
                                 if length pairs < 10 \<or> length pairs < length filepaths div 2 then finish 0 c1 db2
                                 else (case common_offset (length pairs)
                                              (se_entries env (offsetmap (map (pair_offset precision) pairs))) of
                                         None \<Rightarrow> finish 0 c1 db2
                                       | Some ms \<Rightarrow> finish ms c1 db2)))))"

section \<open>The scan\<close>

text \<open>A file that is no longer on the mirror.\<close>

definition remove_cmds :: "int \<Rightarrow> string \<Rightarrow> rcmd list" where
  "remove_cmds i path =
     [SREM (filemirrors_key path) [Itoa i], DEL [fileinfo_key i path], file_update_cmd i path]"

fun scan_versions ::
    "('db, 'w) scan_env \<Rightarrow> layers \<Rightarrow> string \<Rightarrow> string \<Rightarrow> nat \<Rightarrow> addr list list \<Rightarrow> Precision \<Rightarrow> scan \<Rightarrow> 'w \<Rightarrow>
       (Precision \<times> scan \<times> 'w) gores" where
  "scan_versions env st url name n [] precision s w = Inr (precision, s, w)"
| "scan_versions env st url name n (p # ps) precision s w =
     (if length p = 0 then scan_versions env st url name n ps precision s w
      else (case HttpScanner_Scan (se_http env) st (se_stopped env n) url name p s w of
              Inl x \<Rightarrow> Inl x
            | Inr ((precision1, filePath, e), slept, s1, w1) \<Rightarrow>
                scan_versions env st url name (Suc n) ps precision1
                  (case e of
                     None \<Rightarrow> s1
                   | Some _ \<Rightarrow> s1\<lparr>sc_queue := sc_queue s1 @ remove_cmds (sc_mirrorid s1) filePath\<rparr>) w1))"

text \<open>The members \<open>SDIFF\<close> answers are byte strings.\<close>

fun bulk_text :: "reply \<Rightarrow> string" where
  "bulk_text (RBulk s) = s"
| "bulk_text _ = ''''"

text \<open>
  From the listing of removed files to the result.  The second component is the value of \<open>err\<close> when
  the function returns, which a deferred function writes to the log of the mirror.
\<close>

definition scan_finish ::
    "('db, 'w) scan_env \<Rightarrow> ScannerType \<Rightarrow> int \<Rightarrow> string \<Rightarrow> Precision \<Rightarrow> scan \<Rightarrow> Cache option \<Rightarrow> 'db \<Rightarrow>
       (((err + ScanResult) \<times> err option) \<times> Cache option \<times> 'db) gores" where
  "scan_finish env typ i name precision s cache db =
     (let r = se_client env; fail = (\<lambda>e db. Inr ((Inl e, Some e), cache, db));
          (rep, db1) = conn_do r db (SDIFF (files_key i) (tmp_key i))
      in case rd_Values (api r) rep of
           Inl e \<Rightarrow> fail e db1
         | Inr toremove \<Rightarrow>
             (let (e2, db2) =
                (if length toremove > 0 then
                   (case conn_exec r db1 (concat (map (\<lambda>e. remove_cmds i (bulk_text e)) toremove)) of
                      (rep, db') \<Rightarrow> (do_err rep, db'))
                 else (None, db1))
              in case e2 of
                   Some e \<Rightarrow> fail e db2
                 | None \<Rightarrow>
                     (let (e3, db3) =
                        (if sc_count s > 0 then
                           (case conn_do r db2 (RENAME (tmp_key i) (files_key i)) of (rep, db') \<Rightarrow> (do_err rep, db'))
                         else (None, db2))
                      in case e3 of
                           Some e \<Rightarrow> fail e db3
                         | None \<Rightarrow>
                             (let (rep4, db4) = conn_do r db3 (SINTERSTORE (handled_key i) ''FILES'' (files_key i));
                                  common = (case rd_Int (api r) rep4 of Inl e \<Rightarrow> 0 | Inr n \<Rightarrow> n);
                                  db5 = snd (setLastSync r (se_end env) db4 i typ precision True)
                              in case adjustTZOffset env i precision cache db5 of
                                   Inl p \<Rightarrow> Inl p
                                 | Inr ((tzoffset, e), cache', db6) \<Rightarrow>
                                     Inr ((Inr \<lparr>res_MirrorID = i, res_MirrorName = name, res_FilesIndexed = sc_count s,
                                               res_KnownIndexed = common, res_Removed = int (length toremove),
                                               res_TZOffsetMs = tzoffset\<rparr>, e), cache', db6)))))"

text \<open>
  The deferred release.  The goroutine deletes the key when it still waits in its select statement;
  after its timer fired it does not.
\<close>

definition scan_unlock :: "('db, 'w) scan_env \<Rightarrow> ClusterLock \<Rightarrow> 'db \<Rightarrow> 'db gores" where
  "scan_unlock env l db =
     (case ClusterLock_Release l of
        Inl p \<Rightarrow> Inl p
      | Inr l' \<Rightarrow> Inr (if se_ticked env then db else snd (keeper_done (se_client env) l' db)))"

definition selected :: "('db, 'w) scan_env \<Rightarrow> layers \<Rightarrow> addr list list" where
  "selected env st =
     (let sel = GetSelectorList st
      in map (\<lambda>v. case sel v of Some p \<Rightarrow> p | None \<Rightarrow> []) (se_order env sel))"

definition start_scan :: "int \<Rightarrow> scan" where
  "start_scan i = \<lparr>sc_mirrorid = i, sc_filesTmpKey = tmp_key i, sc_count = 0, sc_queue = [DEL [tmp_key i]]\<rparr>"

definition Scan ::
    "('db, 'w) scan_env \<Rightarrow> layers \<Rightarrow> ScannerType \<Rightarrow> string \<Rightarrow> int \<Rightarrow> ('db, 'w) scan_state \<Rightarrow>
       ((err + ScanResult) \<times> ('db, 'w) scan_state) gores" where
  "Scan env st typ url i ss =
     (let r = se_client env; (rep, db1) = conn_do r (ss_db ss) (HGET ''MIRRORS'' (Itoa i))
      in case rd_String (api r) rep of
           Inl e \<Rightarrow> Inr (Inl e, ss\<lparr>ss_db := db1\<rparr>)
         | Inr name \<Rightarrow>
             (case ClusterLock_Get r (se_start env) (NewClusterLock (scanning_key i) name) db1 of
                (Inl e, _, db2) \<Rightarrow> Inr (Inl e, ss\<lparr>ss_db := db2\<rparr>)
              | (Inr False, _, db2) \<Rightarrow> Inr (Inl ErrScanInProgress, ss\<lparr>ss_db := db2\<rparr>)
              | (Inr True, (l, _), db2) \<Rightarrow>
                  (let db3 = snd (setLastSync r (se_start env) db2 i typ 0 False)
                   in case scan_versions env st url name 0 (selected env st) 0 (start_scan i) (ss_net ss) of
                        Inl p \<Rightarrow> Inl p
                      | Inr (precision, s, w) \<Rightarrow>
                          (case ScannerCommit r s db3 of
                             ((_, s1), db4) \<Rightarrow>
                               (case scan_finish env typ i name precision s1 (ss_cache ss) db4 of
                                  Inl p \<Rightarrow> Inl p
                                | Inr ((res, e), cache', db5) \<Rightarrow>
                                    (let db6 = (case e of
                                                  None \<Rightarrow> db5
                                                | Some x \<Rightarrow> snd (PushLog (se_json env) r db5 (NewLogError (se_end env) i (se_Error env x))))
                                     in case scan_unlock env l db6 of
                                          Inl p \<Rightarrow> Inl p
                                        | Inr db7 \<Rightarrow> Inr (res, \<lparr>ss_cache = cache', ss_db = db7, ss_net = w\<rparr>)))))))"

section \<open>Trace files\<close>

text \<open>The first word \<open>bufio.ScanWords\<close> finds.\<close>

definition is_space :: "char \<Rightarrow> bool" where
  "is_space c \<longleftrightarrow> c = CHR '' '' \<or> c = CHR 0x09 \<or> c = CHR 0x0A \<or> c = CHR 0x0B \<or> c = CHR 0x0C \<or> c = CHR 0x0D"

definition first_word :: "string \<Rightarrow> string" where
  "first_word s = takeWhile (\<lambda>c. \<not> is_space c) (dropWhile is_space s)"

definition GetLastUpdate ::
    "'db client \<Rightarrow> 'w http_client \<Rightarrow> string \<Rightarrow> Mirror \<Rightarrow> 'db \<Rightarrow> 'w \<Rightarrow> err option \<times> 'db \<times> 'w" where
  "GetLastUpdate r hc traceFile mirror db w =
     (if length traceFile = 0 then (Some ErrNoTrace, db, w)
      else (case hc_Get hc w (ConcatURL (HttpURL mirror) traceFile) of
              (Inl e, w1) \<Rightarrow> (Some e, db, w1)
            | (Inr body, w1) \<Rightarrow>
                (case ParseInt (first_word body) of
                   (_, Some e) \<Rightarrow> (Some (ErrNum e), db, w1)
                 | (timestamp, None) \<Rightarrow>
                     (case conn_do r db (HSET (mirror_key (ID mirror)) ''lastModTime'' (AInt timestamp)) of
                        (rep, db1) \<Rightarrow>
                          (case do_err rep of
                             Some e \<Rightarrow> (Some e, db1, w1)
                           | None \<Rightarrow> (None, snd (Publish r db1 MIRROR_UPDATE (Itoa (ID mirror))), w1))))))"

end
