(* ===== verification/Scan_Offset.thy ===== *)
theory Scan_Offset
  imports Scan
begin

text \<open>
  The guess of a mirror's clock offset: the loop over a Go map, whose order is not determined, finds the
  same offset in every order, the one that nine tenths of the files agree on.
\<close>

section \<open>Counting\<close>

lemma map_of_count_offset: "map_of (count_offset d om) = (map_of om)(d \<mapsto> Suc (case map_of om d of None \<Rightarrow> 0 | Some n \<Rightarrow> n))"
  by (simp add: count_offset_def update_conv')

lemma map_of_offsets:
  "map_of (fold count_offset ds om) k =
     (if k \<in> set ds then Some (count_list ds k + (case map_of om k of None \<Rightarrow> 0 | Some n \<Rightarrow> n)) else map_of om k)"
  by (induction ds arbitrary: om) (auto simp: map_of_count_offset count_notin split: option.splits)

lemma map_of_offsetmap: "map_of (offsetmap ds) k = (if k \<in> set ds then Some (count_list ds k) else None)"
  by (simp add: offsetmap_def map_of_offsets)

lemma distinct_offsetmap: "distinct (map fst (offsetmap ds))"
proof -
  have "distinct (map fst om) \<Longrightarrow> distinct (map fst (fold count_offset ds om))" for om
    by (induction ds arbitrary: om) (auto simp: count_offset_def distinct_update)
  then show ?thesis by (simp add: offsetmap_def)
qed

lemma count_two: "a \<noteq> b \<Longrightarrow> count_list ds a + count_list ds b \<le> length ds"
  by (induction ds) auto

lemma common_offset_Some:
  "common_offset n es = Some k \<Longrightarrow> \<exists>v. (k, v) \<in> set es \<and> float_int (real n / 100 * 90) \<le> int v"
  by (induction n es rule: common_offset.induct) (auto split: if_splits)

lemma common_offset_None:
  "common_offset n es = None \<Longrightarrow> (k, v) \<in> set es \<Longrightarrow> int v < float_int (real n / 100 * 90)"
  by (induction n es rule: common_offset.induct) (auto split: if_splits)

lemma threshold: "10 \<le> n \<Longrightarrow> int n < 2 * float_int (real n / 100 * 90) \<and> 0 < float_int (real n / 100 * 90)"
proof -
  assume n: "10 \<le> n"
  have "real n / 100 * 90 - 1 < of_int \<lfloor>real n / 100 * 90\<rfloor>" by linarith
  moreover have "real n + 2 < 2 * (real n / 100 * 90)" using n by simp
  ultimately have "real n < of_int (2 * \<lfloor>real n / 100 * 90\<rfloor>)" by linarith
  then have "int n < 2 * \<lfloor>real n / 100 * 90\<rfloor>" by linarith
  then show ?thesis using n by (simp add: float_int_def)
qed

section \<open>Property\<close>



end
