(* ===== verification/Scan_Index.thy ===== *)
theory Scan_Index
  imports Scan
begin

text \<open>
  What a scan leaves in the database: the mirror is listed for exactly the files whose version passed
  the scan, and what is listed is in the set of files of the mirror.  The commands of a scan are
  additions and removals of a file; each has an effect on the temporary set and on the listing, and a
  scan is their composition.
\<close>

section \<open>Keys\<close>

lemmas scan_key_defs = filemirrors_key_def fileinfo_key_def file_key_def mirror_key_def files_key_def tmp_key_def
  handled_key_def scanning_key_def log_key_def

text \<open>Two keyspaces that agree outside a set of keys.\<close>

definition eq_off :: "string set \<Rightarrow> store \<Rightarrow> store \<Rightarrow> bool" where
  "eq_off K s s' \<longleftrightarrow> (\<forall>k. k \<notin> K \<longrightarrow> keys s' k = keys s k)"

lemma eq_off_refl [simp]: "eq_off K s s"
  by (simp add: eq_off_def)

lemma eq_off_trans: "eq_off K s s' \<Longrightarrow> eq_off K' s' s'' \<Longrightarrow> K \<subseteq> L \<Longrightarrow> K' \<subseteq> L \<Longrightarrow> eq_off L s s''"
  unfolding eq_off_def by (metis subsetD)

lemma eq_offD:
  assumes "eq_off K s s'" and "k \<notin> K"
  shows "keys s' k = keys s k" "get_set s' k = get_set s k" "get_hash s' k = get_hash s k"
    "members s' k = members s k" "field s' k = field s k" "get_list s' k = get_list s k"
  using assms get_cong [of s' k s] by (auto simp: eq_off_def get_list_def)

definition index_keys :: "int \<Rightarrow> string set" where
  "index_keys i = insert (tmp_key i) (range filemirrors_key \<union> range (fileinfo_key i))"

section \<open>The index of a mirror\<close>

definition listed :: "store \<Rightarrow> int \<Rightarrow> string \<Rightarrow> bool" where
  "listed s i f \<longleftrightarrow> Itoa i \<in> members s (filemirrors_key f)"

definition scan_typed :: "int \<Rightarrow> store \<Rightarrow> bool" where
  "scan_typed i s \<longleftrightarrow>
     (\<forall>f. is_set s (filemirrors_key f)) \<and> (\<forall>f. is_hash s (fileinfo_key i f)) \<and> is_set s (tmp_key i)"

text \<open>The listing of the other mirrors is not changed.\<close>

definition others_same :: "int \<Rightarrow> store \<Rightarrow> store \<Rightarrow> bool" where
  "others_same i s s' \<longleftrightarrow>
     (\<forall>f x. x \<noteq> Itoa i \<longrightarrow> (x \<in> members s' (filemirrors_key f) \<longleftrightarrow> x \<in> members s (filemirrors_key f)))"

definition index_run :: "int \<Rightarrow> store \<Rightarrow> rcmd list \<Rightarrow> string set \<Rightarrow> string set \<Rightarrow> store \<Rightarrow> bool" where
  "index_run i s cs T L s' \<longleftrightarrow>
     (\<exists>rs. redis_cmds s cs = Some (rs, s')) \<and> scan_typed i s' \<and> eq_off (index_keys i) s s' \<and> others_same i s s' \<and>
     members s' (tmp_key i) = T \<and> {f. listed s' i f} = L"

lemma index_run_trans:
  assumes "index_run i s cs T L s1" and "index_run i s1 ds T' L' s2"
  shows "index_run i s (cs @ ds) T' L' s2"
  using assms eq_off_trans [of "index_keys i" s s1 "index_keys i" s2 "index_keys i"] redis_cmds_appendI [of s cs _ s1 ds]
  unfolding index_run_def others_same_def by blast

lemma index_run_Nil: "scan_typed i s \<Longrightarrow> index_run i s [] (members s (tmp_key i)) {f. listed s i f} s"
  by (simp add: index_run_def others_same_def)

lemma index_publish:
  assumes "index_run i s cs T L s'"
  shows "\<exists>s''. index_run i s (cs @ [file_update_cmd i f]) T L s''"
proof -
  let ?s = "s'\<lparr>published := published s' @ [(MIRROR_FILE_UPDATE, Itoa i @ '' '' @ f)]\<rparr>"
  have "index_run i s' [file_update_cmd i f] T L ?s"
    using assms unfolding index_run_def scan_typed_def others_same_def eq_off_def listed_def
    by (simp add: file_update_cmd_def)
  then show ?thesis using index_run_trans [OF assms] by blast
qed

text \<open>Changing one of the sets or hashes of the index.\<close>

lemma filemirrors_key_inj [simp]: "filemirrors_key f = filemirrors_key g \<longleftrightarrow> f = g"
  by (simp add: filemirrors_key_def)

lemma scan_keys_distinct [simp]:
  "filemirrors_key f \<noteq> fileinfo_key i g" "fileinfo_key i g \<noteq> filemirrors_key f"
  "filemirrors_key f \<noteq> tmp_key i" "tmp_key i \<noteq> filemirrors_key f" "fileinfo_key i f \<noteq> tmp_key i" "tmp_key i \<noteq> fileinfo_key i f"
  by (simp_all add: scan_key_defs)

lemma index_SADD_tmp:
  assumes "scan_typed i s"
  shows "\<exists>s'. index_run i s [SADD (tmp_key i) [f]] (insert f (members s (tmp_key i))) {g. listed s i g} s'"
proof -
  obtain q s' where c: "redis_cmd s (SADD (tmp_key i) [f]) = Some (q, s')" "is_set s' (tmp_key i)"
    "members s' (tmp_key i) = insert f (members s (tmp_key i))" "\<forall>k'. k' \<noteq> tmp_key i \<longrightarrow> keys s' k' = keys s k'"
    using cmd_SADD [of s "tmp_key i" f] assms by (auto simp: scan_typed_def)
  then show ?thesis using assms get_cong [of s' _ s]
    by (intro exI [of _ s']) (auto simp: index_run_def scan_typed_def eq_off_def index_keys_def others_same_def listed_def simp del: redis_cmd.simps)
qed

lemma index_set:
  assumes t: "scan_typed i s" and c: "redis_cmd s c = Some (q, s')" "is_set s' (filemirrors_key f)"
    "\<forall>k'. k' \<noteq> filemirrors_key f \<longrightarrow> keys s' k' = keys s k'"
    "\<And>x. x \<noteq> Itoa i \<Longrightarrow> x \<in> members s' (filemirrors_key f) \<longleftrightarrow> x \<in> members s (filemirrors_key f)"
  shows "index_run i s [c] (members s (tmp_key i)) {g. if g = f then Itoa i \<in> members s' (filemirrors_key f) else listed s i g} s'"
proof -
  have "x \<in> members s' (filemirrors_key g) \<longleftrightarrow> x \<in> members s (filemirrors_key g)" if "x \<noteq> Itoa i" for g x
    using c(3,4) that get_cong(3) [of s' "filemirrors_key g" s] by (cases "g = f") auto
  moreover have "is_set s' (filemirrors_key g)" for g
    using c(2,3) t get_cong(1) [of s' "filemirrors_key g" s] by (cases "g = f") (auto simp: scan_typed_def)
  moreover have "listed s' i g = (if g = f then Itoa i \<in> members s' (filemirrors_key f) else listed s i g)" for g
    using c(3) get_cong(3) [of s' "filemirrors_key g" s] by (auto simp: listed_def)
  ultimately show ?thesis using t c(1,3) get_cong [of s' _ s]
    by (auto simp: index_run_def scan_typed_def eq_off_def index_keys_def others_same_def)
qed

lemma index_SADD:
  assumes "scan_typed i s"
  shows "\<exists>s'. index_run i s [SADD (filemirrors_key f) [Itoa i]] (members s (tmp_key i)) (insert f {g. listed s i g}) s'"
proof -
  obtain q s' where c: "redis_cmd s (SADD (filemirrors_key f) [Itoa i]) = Some (q, s')" "is_set s' (filemirrors_key f)"
    "members s' (filemirrors_key f) = insert (Itoa i) (members s (filemirrors_key f))"
    "\<forall>k'. k' \<noteq> filemirrors_key f \<longrightarrow> keys s' k' = keys s k'"
    using cmd_SADD [of s "filemirrors_key f" "Itoa i"] assms by (auto simp: scan_typed_def)
  have "{g. if g = f then Itoa i \<in> members s' (filemirrors_key f) else listed s i g} = insert f {g. listed s i g}"
    using c(3) by auto
  then show ?thesis using index_set [OF assms c(1,2,4)] c(3) by auto
qed

lemma index_SREM:
  assumes "scan_typed i s"
  shows "\<exists>s'. index_run i s [SREM (filemirrors_key f) [Itoa i]] (members s (tmp_key i)) ({g. listed s i g} - {f}) s'"
proof -
  obtain q s' where c: "redis_cmd s (SREM (filemirrors_key f) [Itoa i]) = Some (q, s')" "is_set s' (filemirrors_key f)"
    "members s' (filemirrors_key f) = members s (filemirrors_key f) - {Itoa i}"
    "\<forall>k'. k' \<noteq> filemirrors_key f \<longrightarrow> keys s' k' = keys s k'"
    using cmd_SREM [of s "filemirrors_key f" "Itoa i"] assms by (auto simp: scan_typed_def)
  have "{g. if g = f then Itoa i \<in> members s' (filemirrors_key f) else listed s i g} = {g. listed s i g} - {f}"
    using c(3) by auto
  then show ?thesis using index_set [OF assms c(1,2,4)] c(3) by auto
qed

lemma index_info:
  assumes t: "scan_typed i s" and c: "redis_cmd s c = Some (q, s')" "is_hash s' (fileinfo_key i f)"
    "\<forall>k'. k' \<noteq> fileinfo_key i f \<longrightarrow> keys s' k' = keys s k'"
  shows "index_run i s [c] (members s (tmp_key i)) {g. listed s i g} s'"
proof -
  have "is_hash s' (fileinfo_key i g)" for g
    using c(2,3) t get_cong(2) [of s' "fileinfo_key i g" s] by (cases "fileinfo_key i g = fileinfo_key i f") (auto simp: scan_typed_def)
  then show ?thesis using t c(1,3) get_cong [of s' _ s]
    by (auto simp: index_run_def scan_typed_def eq_off_def index_keys_def others_same_def listed_def)
qed

lemma index_HMSET:
  assumes "scan_typed i s"
  shows "\<exists>s'. index_run i s [HMSET (fileinfo_key i f) [(''size'', AInt n), (''modTime'', AStr t)]]
     (members s (tmp_key i)) {g. listed s i g} s'"
proof -
  have "is_hash s (fileinfo_key i f)" using assms by (simp add: scan_typed_def)
  from cmd_HMSET [OF this, of "[(''size'', AInt n), (''modTime'', AStr t)]" "[(''size'', Itoa n), (''modTime'', t)]"]
  show ?thesis using index_info [OF assms, where f = f] by (simp del: redis_cmd.simps) blast
qed

lemma index_DEL:
  assumes "scan_typed i s"
  shows "\<exists>s'. index_run i s [DEL [fileinfo_key i f]] (members s (tmp_key i)) {g. listed s i g} s'"
  by (rule exI, rule index_info [OF assms, where f = f]) (auto simp: get_hash_def)

section \<open>Additions and removals\<close>

datatype scan_op = Add FileData | Drop string

fun op_cmds :: "'w http_client \<Rightarrow> int \<Rightarrow> scan_op \<Rightarrow> rcmd list" where
  "op_cmds hc i (Add f) =
     [SADD (tmp_key i) [fd_Path f], SADD (filemirrors_key (fd_Path f)) [Itoa i],
      HMSET (fileinfo_key i (fd_Path f)) [(''size'', AInt (fd_Size f)), (''modTime'', AStr (hc_String hc (fd_ModTime f)))],
      file_update_cmd i (fd_Path f)]"
| "op_cmds hc i (Drop f) = remove_cmds i f"

fun op_effect :: "scan_op \<Rightarrow> string set \<times> string set \<Rightarrow> string set \<times> string set" where
  "op_effect (Add f) (T, L) = (insert (fd_Path f) T, insert (fd_Path f) L)"
| "op_effect (Drop f) (T, L) = (T, L - {f})"

lemma index_run_then:
  assumes "index_run i s cs T L s1"
    and "\<And>s1. scan_typed i s1 \<Longrightarrow> members s1 (tmp_key i) = T \<Longrightarrow> {f. listed s1 i f} = L \<Longrightarrow> \<exists>s2. index_run i s1 ds T' L' s2"
  shows "\<exists>s2. index_run i s (cs @ ds) T' L' s2"
proof -
  have "\<exists>s2. index_run i s1 ds T' L' s2"
    by (rule assms(2)) (use assms(1) in \<open>simp_all add: index_run_def\<close>)
  then show ?thesis using index_run_trans [OF assms(1)] by blast
qed

lemma index_op:
  assumes "scan_typed i s"
  shows "\<exists>s'. index_run i s (op_cmds hc i op)
    (fst (op_effect op (members s (tmp_key i), {f. listed s i f})))
    (snd (op_effect op (members s (tmp_key i), {f. listed s i f}))) s'"
proof (cases op)
  case (Add f)
  let ?p = "fd_Path f" and ?T = "members s (tmp_key i)" and ?L = "{f. listed s i f}"
  obtain s1 where 1: "index_run i s [SADD (tmp_key i) [?p]] (insert ?p ?T) ?L s1"
    using index_SADD_tmp [OF assms] by blast
  have "\<exists>s2. index_run i s ([SADD (tmp_key i) [?p]] @ [SADD (filemirrors_key ?p) [Itoa i]]) (insert ?p ?T) (insert ?p ?L) s2"
    by (rule index_run_then [OF 1]) (metis index_SADD)
  then obtain s2 where 2: "index_run i s ([SADD (tmp_key i) [?p]] @ [SADD (filemirrors_key ?p) [Itoa i]]) (insert ?p ?T) (insert ?p ?L) s2"
    by blast
  have "\<exists>s3. index_run i s (([SADD (tmp_key i) [?p]] @ [SADD (filemirrors_key ?p) [Itoa i]]) @
      [HMSET (fileinfo_key i ?p) [(''size'', AInt (fd_Size f)), (''modTime'', AStr (hc_String hc (fd_ModTime f)))]])
      (insert ?p ?T) (insert ?p ?L) s3"
    by (rule index_run_then [OF 2]) (metis index_HMSET)
  then obtain s3 where 3: "index_run i s (([SADD (tmp_key i) [?p]] @ [SADD (filemirrors_key ?p) [Itoa i]]) @
      [HMSET (fileinfo_key i ?p) [(''size'', AInt (fd_Size f)), (''modTime'', AStr (hc_String hc (fd_ModTime f)))]])
      (insert ?p ?T) (insert ?p ?L) s3"
    by blast
  from index_publish [OF 3, of ?p] show ?thesis by (simp add: Add)
next
  case (Drop f)
  let ?T = "members s (tmp_key i)" and ?L = "{f. listed s i f}"
  obtain s1 where 1: "index_run i s [SREM (filemirrors_key f) [Itoa i]] ?T (?L - {f}) s1"
    using index_SREM [OF assms] by blast
  have "\<exists>s2. index_run i s ([SREM (filemirrors_key f) [Itoa i]] @ [DEL [fileinfo_key i f]]) ?T (?L - {f}) s2"
    by (rule index_run_then [OF 1]) (metis index_DEL)
  then obtain s2 where 2: "index_run i s ([SREM (filemirrors_key f) [Itoa i]] @ [DEL [fileinfo_key i f]]) ?T (?L - {f}) s2"
    by blast
  from index_publish [OF 2, of f] show ?thesis by (simp add: Drop remove_cmds_def)
qed

lemma index_ops:
  assumes "scan_typed i s"
  shows "\<exists>s'. index_run i s (concat (map (op_cmds hc i) ops))
    (fst (fold op_effect ops (members s (tmp_key i), {f. listed s i f})))
    (snd (fold op_effect ops (members s (tmp_key i), {f. listed s i f}))) s'"
  using assms
proof (induction ops arbitrary: s)
  case Nil
  then show ?case using index_run_Nil by auto
next
  case (Cons op ops)
  let ?E = "op_effect op (members s (tmp_key i), {f. listed s i f})"
  obtain s1 where 1: "index_run i s (op_cmds hc i op) (fst ?E) (snd ?E) s1" using index_op [OF Cons.prems] by blast
  have "\<exists>s2. index_run i s (op_cmds hc i op @ concat (map (op_cmds hc i) ops)) (fst (fold op_effect ops ?E)) (snd (fold op_effect ops ?E)) s2"
    by (rule index_run_then [OF 1]) (metis Cons.IH prod.collapse)
  then show ?case by simp
qed

section \<open>The operations of a scan\<close>

lemma add_files_queue:
  "sc_mirrorid s = i \<Longrightarrow> sc_filesTmpKey s = tmp_key i \<Longrightarrow>
   sc_queue (add_files hc fds s) = sc_queue s @ concat (map (op_cmds hc i) (map Add fds))"
  unfolding add_files_def by (induction fds arbitrary: s) (simp_all add: ScannerAddFile_def)

text \<open>The scan of a version does the same whatever was recorded before it.\<close>

lemma scan_files_uniform:
  "\<exists>res slept fds w'. \<forall>s. scan_files hc st uri path n fls counter slp s w = (res, slept, add_files hc fds s, w')"
proof (induction fls arbitrary: n counter slp w)
  case Nil
  show ?case
    by (rule exI [of _ "('''', None)"], rule exI [of _ slp], rule exI [of _ "[]"], rule exI [of _ w]) (simp add: add_files_def)
next
  case (Cons fl fls)
  let ?u = "ConcatURL uri (file_url st fl)"
  obtain a c' sl' w1 where h: "head_retry hc ?u counter (slp + 2 ^ counter) w = ((a, c', sl'), w1)" by (metis surj_pair)
  show ?case
  proof (cases "\<exists>r sz t. a = Inr r \<and> check_head hc st n ?u (file_url st fl) r = Inr (sz, t)")
    case True
    then obtain r sz t where r: "a = Inr r" "check_head hc st n ?u (file_url st fl) r = Inr (sz, t)" by blast
    obtain res slept fds w' where IH: "\<forall>s. scan_files hc st uri path (Suc n) fls c' sl' s w1 = (res, slept, add_files hc fds s, w')"
      using Cons.IH by blast
    show ?thesis
      by (rule exI [of _ res], rule exI [of _ slept], rule exI [of _ "found_file path sz t # fds"], rule exI [of _ w'])
        (simp add: h r IH add_files_def)
  next
    case False
    have "\<exists>res. \<forall>s. scan_files hc st uri path n (fl # fls) counter slp s w = (res, sl', s, w1)"
    proof (cases a)
      case (Inr b)
      then obtain e where "check_head hc st n ?u (file_url st fl) b = Inl e"
        using False by (cases "check_head hc st n ?u (file_url st fl) b") auto
      then show ?thesis using h Inr by simp
    qed (use h in simp)
    then obtain res where "\<forall>s. scan_files hc st uri path n (fl # fls) counter slp s w = (res, sl', s, w1)" by blast
    then show ?thesis
      by (intro exI [of _ res] exI [of _ sl'] exI [of _ "[]"] exI [of _ w1]) (simp add: add_files_def)
  qed
qed

lemma HttpScanner_Scan_uniform:
  "\<exists>path e slept fds w'. \<forall>s. HttpScanner_Scan hc st stopped url name (a # as) s w =
     Inr ((0, path, e), slept, add_files hc fds s, w')"
proof -
  obtain f where f: "\<And>uri w1. \<exists>slept fds w'. \<forall>s. scan_files hc st uri (file_url st a) 0 (a # as) 0 0 s w1 = (f uri w1, slept, add_files hc fds s, w')"
    using scan_files_uniform [of hc st _ "file_url st a" 0 "a # as" 0 0] by metis
  show ?thesis
  proof (cases "\<exists>uri h w1. HasPrefix url ''https://'' \<and> \<not> stopped \<and> hc_ParseURL hc url = Inr uri \<and>
      hc_Head hc w uri = (Inr h, w1) \<and> hr_StatusCode h = 200")
    case True
    then obtain uri h w1 where g: "HasPrefix url ''https://''" "\<not> stopped" "hc_ParseURL hc url = Inr uri"
      "hc_Head hc w uri = (Inr h, w1)" "hr_StatusCode h = 200" by blast
    obtain slept fds w' where r: "\<forall>s. scan_files hc st uri (file_url st a) 0 (a # as) 0 0 s w1 = (f uri w1, slept, add_files hc fds s, w')"
      using f by blast
    show ?thesis
      by (rule exI [of _ "fst (f uri w1)"], rule exI [of _ "snd (f uri w1)"], rule exI [of _ slept], rule exI [of _ fds], rule exI [of _ w'])
        (use g r in \<open>simp add: HttpScanner_Scan_def Let_def split: prod.splits\<close>)
  next
    case False
    have "\<exists>e w'. \<forall>s. HttpScanner_Scan hc st stopped url name (a # as) s w = Inr ((0, file_url st a, Some e), 0, s, w')"
    proof (cases "HasPrefix url ''https://'' \<and> \<not> stopped \<and> (\<exists>uri. hc_ParseURL hc url = Inr uri)")
      case True
      then obtain uri where u: "hc_ParseURL hc url = Inr uri" by blast
      obtain x w1 where "hc_Head hc w uri = (x, w1)" by fastforce
      then show ?thesis using u True False by (cases x) (simp_all add: HttpScanner_Scan_def)
    next
      case no: False
      then show ?thesis
        by (cases "HasPrefix url ''https://''"; cases stopped; cases "hc_ParseURL hc url") (simp_all add: HttpScanner_Scan_def)
    qed
    then obtain e w' where "\<forall>s. HttpScanner_Scan hc st stopped url name (a # as) s w = Inr ((0, file_url st a, Some e), 0, s, w')" by blast
    then show ?thesis
      by (intro exI [of _ "file_url st a"] exI [of _ "Some e"] exI [of _ 0] exI [of _ "[]"] exI [of _ w']) (simp add: add_files_def)
  qed
qed

section \<open>Outcomes\<close>

text \<open>
  The reference for the index: the path that stands for each version, and whether its scan ended
  without an error after at least one file was found.
\<close>

fun version_outcomes ::
    "('db, 'w) scan_env \<Rightarrow> layers \<Rightarrow> string \<Rightarrow> string \<Rightarrow> nat \<Rightarrow> addr list list \<Rightarrow> 'w \<Rightarrow> (string \<times> bool) list" where
  "version_outcomes env st url name n [] w = []"
| "version_outcomes env st url name n ([] # ps) w = version_outcomes env st url name n ps w"
| "version_outcomes env st url name n ((a # as) # ps) w =
     (case HttpScanner_Scan (se_http env) st (se_stopped env n) url name (a # as) (start_scan 0) w of
        Inl x \<Rightarrow> []
      | Inr ((_, _, e), _, s1, w1) \<Rightarrow>
          (file_url st a, e = None \<and> sc_count s1 > 0) # version_outcomes env st url name (Suc n) ps w1)"

type_synonym outcome = "string \<times> FileData list \<times> bool"

fun out_ops :: "outcome \<Rightarrow> scan_op list" where
  "out_ops (p, fds, failed) = map Add fds @ (if failed then [Drop p] else [])"

abbreviation out_added :: "outcome \<Rightarrow> bool" where
  "out_added o' \<equiv> fst (snd o') \<noteq> []"

abbreviation out_failed :: "outcome \<Rightarrow> bool" where
  "out_failed o' \<equiv> snd (snd o')"

definition out_ok :: "outcome \<Rightarrow> bool" where
  "out_ok o' \<longleftrightarrow> (\<forall>f \<in> set (fst (snd o')). fd_Path f = fst o')"

lemma scan_versions_outcomes:
  assumes "sc_mirrorid s = i" "sc_filesTmpKey s = tmp_key i"
  shows "\<exists>outs prec' s' w'. scan_versions env st url name n ps prec s w = Inr (prec', s', w') \<and>
    sc_queue s' = sc_queue s @ concat (map (op_cmds (se_http env) i) (concat (map out_ops outs))) \<and>
    sc_count s' = sc_count s + int (length (concat (map (\<lambda>x. fst (snd x)) outs))) \<and> list_all out_ok outs \<and>
    version_outcomes env st url name n ps w = map (\<lambda>o'. (fst o', \<not> out_failed o' \<and> out_added o')) outs"
  using assms
proof (induction ps arbitrary: n prec s w)
  case Nil
  show ?case by (intro exI [of _ "[]"]) simp
next
  case (Cons p ps)
  show ?case
  proof (cases p)
    case Nil
    with Cons show ?thesis by simp
  next
    case (Cons a as)
    obtain path e slept fds w1 where H: "\<forall>s. HttpScanner_Scan (se_http env) st (se_stopped env n) url name (a # as) s w =
        Inr ((0, path, e), slept, add_files (se_http env) fds s, w1)"
      using HttpScanner_Scan_uniform [of "se_http env" st "se_stopped env n" url name a as w] by meson
    obtain fds' where R: "add_files (se_http env) fds s = add_files (se_http env) fds' s" "\<forall>f \<in> set fds'. fd_Path f = file_url st a"
      "path = '''' \<longrightarrow> e = None" "path \<noteq> '''' \<longrightarrow> path = file_url st a"
      using HttpScanner_Scan_run [of "se_http env" st "se_stopped env n" url name a as s w] H by auto
    have path: "e \<noteq> None \<Longrightarrow> path = file_url st a" using R by blast
    let ?s1 = "add_files (se_http env) fds' s"
    obtain s2 where s2_eq: "s2 = (case e of None \<Rightarrow> ?s1 | Some _ \<Rightarrow> ?s1\<lparr>sc_queue := sc_queue ?s1 @ remove_cmds (sc_mirrorid ?s1) path\<rparr>)"
      by blast
    have s2: "sc_mirrorid s2 = i" "sc_filesTmpKey s2 = tmp_key i" "sc_count s2 = sc_count s + int (length fds')"
      using Cons.prems by (auto simp: s2_eq add_files_fields split: option.splits)
    have q2: "sc_queue s2 = sc_queue s @ concat (map (op_cmds (se_http env) i) (out_ops (file_url st a, fds', e \<noteq> None)))"
      using Cons.prems path add_files_queue [OF Cons.prems] by (auto simp: s2_eq add_files_fields split: option.splits)
    obtain outs prec' s' w' where IH: "scan_versions env st url name (Suc n) ps 0 s2 w1 = Inr (prec', s', w')"
      "sc_queue s' = sc_queue s2 @ concat (map (op_cmds (se_http env) i) (concat (map out_ops outs)))"
      "sc_count s' = sc_count s2 + int (length (concat (map (\<lambda>x. fst (snd x)) outs)))" "list_all out_ok outs"
      "version_outcomes env st url name (Suc n) ps w1 = map (\<lambda>o'. (fst o', \<not> out_failed o' \<and> out_added o')) outs"
      using Cons.IH [OF s2(1,2)] by blast
    have step: "scan_versions env st url name n (p # ps) prec s w = Inr (prec', s', w')"
      using H R(1) IH(1) \<open>p = a # as\<close> by (simp add: s2_eq)
    have len: "length fds' = length fds" using R(1) add_files_fields(1) by (metis add_left_cancel of_nat_eq_iff)
    have out: "version_outcomes env st url name n (p # ps) w =
        (file_url st a, e = None \<and> fds' \<noteq> []) # version_outcomes env st url name (Suc n) ps w1"
      using H len \<open>p = a # as\<close> by (auto simp: add_files_fields start_scan_def)
    have ok: "out_ok (file_url st a, fds', e \<noteq> None)" using R(2) by (simp add: out_ok_def)
    show ?thesis
      by (rule exI [of _ "(file_url st a, fds', e \<noteq> None) # outs"], rule exI [of _ prec'], rule exI [of _ s'], rule exI [of _ w'])
        (use step out IH(2-5) ok s2(3) q2 in \<open>simp del: scan_versions.simps version_outcomes.simps\<close>)
  qed
qed

lemma fold_Add:
  "\<forall>f \<in> set fds. fd_Path f = p \<Longrightarrow> fold op_effect (map Add fds) (T, L) =
     (if fds = [] then (T, L) else (insert p T, insert p L))"
  by (induction fds arbitrary: T L) auto

lemma fold_Drop: "fold op_effect (map Drop xs) (T, L) = (T, L - set xs)"
  by (induction xs arbitrary: T L) auto

lemma fold_outcomes:
  assumes "distinct (map fst outs)" and "list_all out_ok outs"
  shows "fold op_effect (concat (map out_ops outs)) (T, L) =
    (T \<union> set (map fst (filter out_added outs)),
     (L - set (map fst (filter out_failed outs))) \<union> set (map fst (filter (\<lambda>x. \<not> out_failed x \<and> out_added x) outs)))"
  using assms
proof (induction outs arbitrary: T L)
  case (Cons x outs)
  obtain p fds failed where x: "x = (p, fds, failed)" by (cases x) auto
  have "fold op_effect (out_ops x) (T, L) =
      (if fds = [] then T else insert p T, if failed then L - {p} else if fds = [] then L else insert p L)"
    using Cons.prems(2) fold_Add [of fds p T L] by (simp add: x out_ok_def)
  moreover have "p \<notin> fst ` set outs" using Cons.prems(1) by (simp add: x)
  ultimately show ?case using Cons by (auto simp: x)
qed simp

text \<open>What is listed after the removals: the versions that passed.\<close>

lemma listing_final:
  assumes "distinct (map fst outs)" and "L \<subseteq> F"
  defines "T' \<equiv> set (map fst (filter out_added outs))"
  shows "((L - set (map fst (filter out_failed outs))) \<union> set (map fst (filter (\<lambda>x. \<not> out_failed x \<and> out_added x) outs))) - (F - T') =
    set (map fst (filter (\<lambda>x. \<not> out_failed x \<and> out_added x) outs))"
  using assms unfolding T'_def by auto

section \<open>The steps of a scan\<close>

lemma Get_frame:
  assumes up: "reliable_redis r \<alpha>"
    and g: "ClusterLock_Get r t (NewClusterLock key n) db = (res, (l, k), db')"
  shows "eq_off {key} (\<alpha> db) (\<alpha> db')" "res = Inr True \<Longrightarrow> lk_key l = key \<and> lk_done l = Some Open"
proof -
  let ?c = "SETNX key (AInt 1) (lockTTL * 1000)"
  obtain q s' where c: "redis_cmd (\<alpha> db) ?c = Some (q, s')" by fastforce
  obtain q' db1 where d: "conn_do r db ?c = (Inr q', db1)" "\<alpha> db1 = s'"
    using reliable_redis.do_effect [OF up c] by blast
  have s': "eq_off {key} (\<alpha> db) s'" using c by (auto simp: eq_off_def split: if_splits)
  show "eq_off {key} (\<alpha> db) (\<alpha> db')"
    using g d s' by (auto simp: ClusterLock_Get_def NewClusterLock_def split: if_splits sum.splits)
  show "lk_key l = key \<and> lk_done l = Some Open" if "res = Inr True"
    using g that d by (auto simp: ClusterLock_Get_def NewClusterLock_def split: if_splits sum.splits)
qed

lemma eq_off_keys: "eq_off K s s'" if "keys s' = keys s"
  using that by (simp add: eq_off_def)

lemma setLastSync_frame:
  assumes up: "reliable_redis r \<alpha>" and h: "is_hash (\<alpha> db) (mirror_key i)"
  shows "eq_off {mirror_key i} (\<alpha> db) (\<alpha> (snd (setLastSync r t db i ty prec b)))"
    "is_hash (\<alpha> (snd (setLastSync r t db i ty prec b))) (mirror_key i)"
proof -
  let ?a = "[(''lastSuccessfulSync'', AInt (Unix t)), (''lastSuccessfulSyncProtocol'', AInt (scanner_number ty)),
    (''lastSuccessfulSyncPrecision'', AInt (if prec = 0 then time_Second else prec))]"
  let ?c = "HSET (mirror_key i) ''lastSync'' (AInt (Unix t))" and ?d = "HMSET (mirror_key i) ?a"
  obtain q1 s1 where 1: "redis_cmd (\<alpha> db) ?c = Some (q1, s1)" "is_hash s1 (mirror_key i)" "eq_off {mirror_key i} (\<alpha> db) s1"
    using cmd_HSET [OF h, of "AInt (Unix t)" _ "''lastSync''"] by (auto simp: eq_off_def simp del: redis_cmd.simps)
  obtain q2 s2 where 2: "redis_cmd s1 ?d = Some (q2, s2)" "is_hash s2 (mirror_key i)" "eq_off {mirror_key i} s1 s2"
    using cmd_HMSET [OF 1(2), of ?a] by (auto simp: eq_off_def simp del: redis_cmd.simps)
  let ?cs = "[?c] @ (if b then [?d] else [])" and ?s = "if b then s2 else s1"
  have run: "redis_cmds (\<alpha> db) ?cs = Some (if b then [q1, q2] else [q1], ?s)"
    using 1(1) 2(1) by (simp del: redis_cmd.simps)
  have s: "is_hash ?s (mirror_key i)" "eq_off {mirror_key i} (\<alpha> db) ?s"
    using 1 2 eq_off_trans [OF 1(3) 2(3), of "{mirror_key i}"] by auto
  obtain qs db1 where e: "conn_exec r db ?cs = (Inr (RMulti qs), db1)" "\<alpha> db1 = ?s"
    using reliable_redis.exec_effect [OF up run] by blast
  have k: "keys (\<alpha> (snd (setLastSync r t db i ty prec b))) = keys ?s"
    using e reliable_redis.publish_effect(1) [OF up] by (simp add: setLastSync_def Let_def)
  show "eq_off {mirror_key i} (\<alpha> db) (\<alpha> (snd (setLastSync r t db i ty prec b)))"
    using s(2) k by (simp add: eq_off_def)
  show "is_hash (\<alpha> (snd (setLastSync r t db i ty prec b))) (mirror_key i)"
    using s(1) k by (simp add: get_hash_def)
qed

lemma store_offset_frame:
  assumes up: "reliable_redis r \<alpha>" and h: "is_hash (\<alpha> db) (mirror_key i)"
  shows "eq_off {mirror_key i} (\<alpha> db) (\<alpha> (snd (store_offset r db i ms)))"
proof -
  obtain q s' where c: "redis_cmd (\<alpha> db) (HMSET (mirror_key i) [(''tzoffset'', AInt ms)]) = Some (q, s')" "eq_off {mirror_key i} (\<alpha> db) s'"
    using cmd_HMSET [OF h, of "[(''tzoffset'', AInt ms)]"] by (auto simp: eq_off_def simp del: redis_cmd.simps)
  obtain q' db1 where "conn_do r db (HMSET (mirror_key i) [(''tzoffset'', AInt ms)]) = (Inr q', db1)" "\<alpha> db1 = s'"
    using reliable_redis.do_effect [OF up c(1)] by blast
  then show ?thesis using c(2) reliable_redis.publish_effect(1) [OF up]
    by (simp add: store_offset_def do_err_def eq_off_def)
qed

text \<open>Reading a file through the cache leaves the keyspace alone.\<close>

lemma HMGET_frame:
  assumes up: "reliable_redis r \<alpha>" and h: "is_hash (\<alpha> db) k" and d: "conn_do r db (HMGET k fs) = (rep, db')"
  shows "\<alpha> db' = \<alpha> db"
proof -
  obtain q where "redis_cmd (\<alpha> db) (HMGET k fs) = Some (q, \<alpha> db)" using h by auto
  from conn_read(1) [OF reliable_redis.interface [OF up] this d] show ?thesis by simp
qed

lemma GetFileInfo_frame:
  assumes up: "reliable_redis (cl env) \<alpha>" and h: "is_hash (\<alpha> db) (file_key path)"
    and g: "GetFileInfo env now c db path = Inr (res, c', db')"
  shows "\<alpha> db' = \<alpha> db"
proof -
  obtain rep db1 where d: "conn_do (cl env) db (HMGET (file_key path) file_fields) = (rep, db1)" by fastforce
  have "db' = db \<or> db' = db1"
    using g d by (auto simp: GetFileInfo_def fetchFileInfo_def Let_def split: prod.splits option.splits sum.splits list.splits)
  then show ?thesis using HMGET_frame [OF up h d] by auto
qed

lemma GetFileInfoMirror_frame:
  assumes up: "reliable_redis (cl env) \<alpha>" and h: "is_hash (\<alpha> db) (fileinfo_key i path)"
    and g: "GetFileInfoMirror env now c db i path = Inr (res, c', db')"
  shows "\<alpha> db' = \<alpha> db"
proof -
  obtain rep db1 where d: "conn_do (cl env) db (HMGET (fileinfo_key i path) file_fields) = (rep, db1)" by fastforce
  have "db' = db \<or> db' = db1"
    using g d by (auto simp: GetFileInfoMirror_def fetchFileInfoMirror_def Let_def split: prod.splits option.splits sum.splits list.splits)
  then show ?thesis using HMGET_frame [OF up h d] by auto
qed

lemma tz_pairs_frame:
  assumes up: "reliable_redis (cl env) \<alpha>"
    and "\<And>f. is_hash (\<alpha> db) (file_key f)" "\<And>f. is_hash (\<alpha> db) (fileinfo_key i f)"
    and "tz_pairs env now i paths pairs c db = Inr (res, c', db')"
  shows "\<alpha> db' = \<alpha> db"
  using assms(2-)
proof (induction paths arbitrary: pairs c db)
  case (Cons path paths)
  obtain l e c1 db1 where 1: "GetFileInfo env now c db path = Inr ((l, e), c1, db1)"
    using Cons.prems(3) by (auto split: sum.splits)
  have f1: "\<alpha> db1 = \<alpha> db" by (rule GetFileInfo_frame [OF up Cons.prems(1) 1])
  show ?case
  proof (cases e)
    case None
    then obtain m e2 c2 db2 where 2: "GetFileInfoMirror env now c1 db1 i path = Inr ((m, e2), c2, db2)"
      using Cons.prems(3) 1 by (auto split: sum.splits)
    have "is_hash (\<alpha> db1) (fileinfo_key i path)" using Cons.prems(2) f1 by simp
    from GetFileInfoMirror_frame [OF up this 2] f1 have f2: "\<alpha> db2 = \<alpha> db" by simp
    show ?thesis
    proof (cases e2)
      case None
      have "\<And>f. is_hash (\<alpha> db2) (file_key f)" "\<And>f. is_hash (\<alpha> db2) (fileinfo_key i f)"
        using Cons.prems(1,2) f2 by simp_all
      from Cons.IH [OF this] show ?thesis using Cons.prems(3) 1 2 None \<open>e = None\<close> f2 by simp
    qed (use Cons.prems(3) 1 2 None f2 in simp)
  qed (use Cons.prems(3) 1 f1 in simp)
qed simp

lemma adjustTZOffset_frame:
  assumes up: "reliable_redis (se_client env) \<alpha>"
    and t: "\<And>f. is_hash (\<alpha> db) (file_key f)" "\<And>f. is_hash (\<alpha> db) (fileinfo_key i f)"
      "is_set (\<alpha> db) (handled_key i)" "is_hash (\<alpha> db) (mirror_key i)"
    and a: "adjustTZOffset env i prec cache db = Inr (res, cache', db')"
  shows "eq_off {mirror_key i} (\<alpha> db) (\<alpha> db')"
proof (cases cache)
  case (Some c)
  have fin: "eq_off {mirror_key i} (\<alpha> db) (\<alpha> db'')"
    if "store_offset (se_client env) db1 i ms = (res', db'')" "\<alpha> db1 = \<alpha> db" for db1 ms res' db''
    using store_offset_frame [OF up, of db1 i ms] that t(4) by simp
  obtain rep db1 where d: "conn_do (se_client env) db (SRANDMEMBERS (handled_key i) 100) = (rep, db1)" by fastforce
  have d1: "\<alpha> db1 = \<alpha> db"
    using d t(3) reliable_redis.interface [OF up] reliable_redis.ready [OF up]
    unfolding redigo_ok_def draw_ok_def conn_do_def by (metis option.exhaust)
  show ?thesis
  proof (cases "\<exists>paths x. se_fix env \<and> rd_Strings (api (se_client env)) rep = Inr paths \<and>
      tz_pairs (se_cache env) (se_end env) i paths [] c db1 = Inr x")
    case True
    then obtain paths pairs e c1 db2 where p: "se_fix env" "rd_Strings (api (se_client env)) rep = Inr paths"
      "tz_pairs (se_cache env) (se_end env) i paths [] c db1 = Inr ((pairs, e), c1, db2)" by fastforce
    have "\<alpha> db2 = \<alpha> db" using tz_pairs_frame [OF up _ _ p(3)] t(1,2) d1 by simp
    then show ?thesis using a Some d p fin
      by (auto simp: adjustTZOffset_def Let_def split: option.splits if_splits prod.splits)
  next
    case False
    then show ?thesis using a Some d d1 fin
      by (auto simp: adjustTZOffset_def Let_def split: if_splits sum.splits prod.splits)
  qed
qed (use a in \<open>simp add: adjustTZOffset_def\<close>)

lemma members_nonempty: "members s k \<noteq> {} \<Longrightarrow> keys s k \<noteq> None"
  by (auto simp: members_def get_set_def)

lemma remove_ops: "concat (map (\<lambda>e. remove_cmds i (bulk_text e)) (map RBulk xs)) = concat (map (op_cmds hc i) (map Drop xs))"
  by (induction xs) simp_all

text \<open>The removals: the first part of \<open>scan_finish\<close>.\<close>

lemma finish_remove:
  assumes up: "reliable_redis r \<alpha>" and t: "scan_typed i (\<alpha> db)" "is_set (\<alpha> db) (files_key i)"
    and T: "T = members (\<alpha> db) (tmp_key i)" and F: "F = members (\<alpha> db) (files_key i)"
  shows "\<exists>xs db1 db2 qs. set xs = F - T \<and> conn_do r db (SDIFF (files_key i) (tmp_key i)) = (Inr (RMulti (map RBulk xs)), db1) \<and>
     conn_exec r db1 (concat (map (\<lambda>e. remove_cmds i (bulk_text e)) (map RBulk xs))) = (Inr (RMulti qs), db2) \<and>
     \<alpha> db1 = \<alpha> db \<and> (\<exists>cs. index_run i (\<alpha> db) cs T ({f. listed (\<alpha> db) i f} - (F - T)) (\<alpha> db2))"
proof -
  obtain fl tl where g: "get_set (\<alpha> db) (files_key i) = Some fl" "get_set (\<alpha> db) (tmp_key i) = Some tl"
    using t by (auto simp: scan_typed_def)
  let ?xs = "filter (\<lambda>v. v \<notin> set tl) fl"
  have xs: "set ?xs = F - T" using g by (auto simp: T F members_def)
  have "redis_cmd (\<alpha> db) (SDIFF (files_key i) (tmp_key i)) = Some (RMulti (map RBulk ?xs), \<alpha> db)" using g by simp
  from reliable_redis.do_reply_effect [OF up this] obtain db1
    where d: "conn_do r db (SDIFF (files_key i) (tmp_key i)) = (Inr (RMulti (map RBulk ?xs)), db1)" "\<alpha> db1 = \<alpha> db" by auto
  let ?cs = "concat (map (\<lambda>e. remove_cmds i (bulk_text e)) (map RBulk ?xs))"
  obtain s2 where run: "index_run i (\<alpha> db) ?cs T ({f. listed (\<alpha> db) i f} - set ?xs) s2"
    using index_ops [OF t(1), of _ "map Drop ?xs"] by (metis remove_ops fold_Drop T fst_conv snd_conv)
  then obtain qs0 where "redis_cmds (\<alpha> db1) ?cs = Some (qs0, s2)" using d(2) by (auto simp: index_run_def)
  from reliable_redis.exec_effect [OF up this] obtain qs db2 where "conn_exec r db1 ?cs = (Inr (RMulti qs), db2)" "\<alpha> db2 = s2" by blast
  then show ?thesis using d run xs by metis
qed

text \<open>The new set of files and its intersection with the files of the repository.\<close>

lemma finish_rename:
  assumes up: "reliable_redis r \<alpha>" and t: "is_set (\<alpha> db) (tmp_key i)" "is_set (\<alpha> db) (files_key i)"
    and c: "b \<longleftrightarrow> members (\<alpha> db) (tmp_key i) \<noteq> {}"
  shows "\<exists>db'. (if b then case conn_do r db (RENAME (tmp_key i) (files_key i)) of (rep, db') \<Rightarrow> (do_err rep, db') else (None, db)) =
       (None, db') \<and> is_set (\<alpha> db') (files_key i) \<and> eq_off {tmp_key i, files_key i} (\<alpha> db) (\<alpha> db') \<and>
       members (\<alpha> db') (files_key i) = (if b then members (\<alpha> db) (tmp_key i) else members (\<alpha> db) (files_key i))"
proof (cases b)
  case True
  let ?s = "rename_key (tmp_key i) (files_key i) (\<alpha> db)"
  have ne: "tmp_key i \<noteq> files_key i" by (simp add: scan_key_defs)
  have "redis_cmd (\<alpha> db) (RENAME (tmp_key i) (files_key i)) = Some (RStatus ''OK'', ?s)"
    using True c members_nonempty by auto
  from reliable_redis.do_effect [OF up this] obtain q db' where
    d: "conn_do r db (RENAME (tmp_key i) (files_key i)) = (Inr q, db')" "\<alpha> db' = ?s" by blast
  have k: "keys ?s (files_key i) = keys (\<alpha> db) (tmp_key i)" by (simp add: rename_key_def)
  have "eq_off {tmp_key i, files_key i} (\<alpha> db) ?s" by (simp add: eq_off_def rename_key_def)
  then show ?thesis using True d t k by (simp add: do_err_def members_def get_set_def)
qed (use t in simp)

lemma finish_inter:
  assumes up: "reliable_redis r \<alpha>" and t: "is_set (\<alpha> db) ''FILES''" "is_set (\<alpha> db) (files_key i)"
  shows "\<exists>q db'. conn_do r db (SINTERSTORE (handled_key i) ''FILES'' (files_key i)) = (Inr q, db') \<and>
     is_set (\<alpha> db') (handled_key i) \<and> eq_off {handled_key i} (\<alpha> db) (\<alpha> db') \<and>
     members (\<alpha> db') (handled_key i) = members (\<alpha> db) ''FILES'' \<inter> members (\<alpha> db) (files_key i)"
proof -
  obtain x y where g: "get_set (\<alpha> db) ''FILES'' = Some x" "get_set (\<alpha> db) (files_key i) = Some y" using t by blast
  let ?s = "put_set (handled_key i) (filter (\<lambda>v. v \<in> set y) x) (\<alpha> db)"
  have "redis_cmd (\<alpha> db) (SINTERSTORE (handled_key i) ''FILES'' (files_key i)) = Some (RInt (int (length (filter (\<lambda>v. v \<in> set y) x))), ?s)"
    using g by (simp add: Let_def)
  from reliable_redis.do_effect [OF up this] obtain q db' where
    "conn_do r db (SINTERSTORE (handled_key i) ''FILES'' (files_key i)) = (Inr q, db')" "\<alpha> db' = ?s" by blast
  moreover have "eq_off {handled_key i} (\<alpha> db) ?s" by (simp add: eq_off_def keys_put_set)
  moreover have "members ?s (handled_key i) = members (\<alpha> db) ''FILES'' \<inter> members (\<alpha> db) (files_key i)"
    using g by (auto simp: get_put_set members_def)
  ultimately show ?thesis by (simp add: get_put_set)
qed

text \<open>Keys of a mirror that the rest of the scan writes; none of them belongs to the listing.\<close>

definition side_keys :: "int \<Rightarrow> string set" where
  "side_keys i = {tmp_key i, files_key i, handled_key i, mirror_key i, scanning_key i, log_key i}"

lemma side_listing:
  assumes "eq_off (side_keys i) s s'"
  shows "listed s' j f = listed s j f" "others_same i s s'" "members s' ''FILES'' = members s ''FILES''"
proof -
  have n: "filemirrors_key g \<notin> side_keys i" "''FILES'' \<notin> side_keys i" for g by (simp_all add: side_keys_def scan_key_defs)
  show "listed s' j f = listed s j f" "others_same i s s'" "members s' ''FILES'' = members s ''FILES''"
    using eq_offD(4) [OF assms n(1)] eq_offD(4) [OF assms n(2)] by (simp_all add: listed_def others_same_def)
qed

lemma off_keys:
  "tmp_key i \<notin> {mirror_key i}" "files_key i \<notin> {handled_key i}" "files_key i \<notin> {mirror_key i}" "handled_key i \<notin> {mirror_key i}"
  "mirror_key i \<notin> {handled_key i}" "mirror_key i \<notin> {tmp_key i, files_key i}" "mirror_key i \<notin> index_keys i"
  "files_key i \<notin> index_keys i" "''FILES'' \<notin> index_keys i" "log_key i \<notin> index_keys i" "file_key f \<notin> index_keys i"
  "file_key f \<notin> side_keys i" "fileinfo_key i f \<notin> side_keys i" "''FILES'' \<notin> {tmp_key i, files_key i}"
  "log_key i \<notin> {tmp_key i, files_key i, handled_key i, mirror_key i}"
  by (auto simp: index_keys_def side_keys_def scan_key_defs)

text \<open>Up to the guess of the clock offset.\<close>

lemma scan_finish_steps:
  assumes up: "reliable_redis (se_client env) \<alpha>"
    and t: "scan_typed i (\<alpha> db)" "is_set (\<alpha> db) (files_key i)" "is_set (\<alpha> db) ''FILES''" "\<And>f. is_hash (\<alpha> db) (file_key f)"
      "is_hash (\<alpha> db) (mirror_key i)"
    and T: "T = members (\<alpha> db) (tmp_key i)" and F: "F = members (\<alpha> db) (files_key i)"
    and count: "sc_count sc > 0 \<longleftrightarrow> T \<noteq> {}"
  shows "\<exists>s2 cs db5 n m. index_run i (\<alpha> db) cs T ({f. listed (\<alpha> db) i f} - (F - T)) s2 \<and>
     eq_off {tmp_key i, files_key i, handled_key i, mirror_key i} s2 (\<alpha> db5) \<and>
     members (\<alpha> db5) (files_key i) = (if sc_count sc > 0 then T else F) \<and>
     members (\<alpha> db5) (handled_key i) = members (\<alpha> db) ''FILES'' \<inter> members (\<alpha> db5) (files_key i) \<and>
     (\<forall>f. is_hash (\<alpha> db5) (file_key f)) \<and> (\<forall>f. is_hash (\<alpha> db5) (fileinfo_key i f)) \<and>
     is_set (\<alpha> db5) (handled_key i) \<and> is_hash (\<alpha> db5) (mirror_key i) \<and>
     scan_finish env typ i name prec sc cache db =
       (case adjustTZOffset env i prec cache db5 of
          Inl p \<Rightarrow> Inl p
        | Inr ((tzoffset, e), cache', db6) \<Rightarrow>
            Inr ((Inr \<lparr>res_MirrorID = i, res_MirrorName = name, res_FilesIndexed = sc_count sc,
                      res_KnownIndexed = n, res_Removed = m, res_TZOffsetMs = tzoffset\<rparr>, e), cache', db6))"
proof -
  let ?r = "se_client env"
  obtain xs db1 db2 qs cs where 1: "set xs = F - T"
    "conn_do ?r db (SDIFF (files_key i) (tmp_key i)) = (Inr (RMulti (map RBulk xs)), db1)"
    "conn_exec ?r db1 (concat (map (\<lambda>e. remove_cmds i (bulk_text e)) (map RBulk xs))) = (Inr (RMulti qs), db2)"
    "\<alpha> db1 = \<alpha> db" "index_run i (\<alpha> db) cs T ({f. listed (\<alpha> db) i f} - (F - T)) (\<alpha> db2)"
    using finish_remove [OF up t(1,2) T F] by blast
  obtain db2' where 2: "(if length (map RBulk xs) > 0
      then case conn_exec ?r db1 (concat (map (\<lambda>e. remove_cmds i (bulk_text e)) (map RBulk xs))) of (rep, db') \<Rightarrow> (do_err rep, db')
      else (None, db1)) = (None, db2')" "\<exists>cs. index_run i (\<alpha> db) cs T ({f. listed (\<alpha> db) i f} - (F - T)) (\<alpha> db2')"
  proof (cases "xs = []")
    case True
    then have "F - T = {}" using 1(1) by simp
    then show thesis using that [of db1] True 1(4) index_run_Nil [OF t(1)] T by (metis Diff_empty length_0_conv less_irrefl list.map_disc_iff)
  next
    case False
    then show thesis using that [of db2] 1 by (auto simp: do_err_def)
  qed
  obtain cs' where I: "index_run i (\<alpha> db) cs' T ({f. listed (\<alpha> db) i f} - (F - T)) (\<alpha> db2')" using 2(2) by blast
  have off: "eq_off (index_keys i) (\<alpha> db) (\<alpha> db2')" and t2: "scan_typed i (\<alpha> db2')" "members (\<alpha> db2') (tmp_key i) = T"
    using I by (simp_all add: index_run_def)
  note o2 = eq_offD [OF off]
  have s2: "is_set (\<alpha> db2') (tmp_key i)" "is_set (\<alpha> db2') (files_key i)" using t2(1) t(2) o2(2) off_keys by (auto simp: scan_typed_def)
  obtain db3 where 3: "(if sc_count sc > 0 then case conn_do ?r db2' (RENAME (tmp_key i) (files_key i)) of (rep, db') \<Rightarrow> (do_err rep, db')
      else (None, db2')) = (None, db3)" "is_set (\<alpha> db3) (files_key i)" "eq_off {tmp_key i, files_key i} (\<alpha> db2') (\<alpha> db3)"
    "members (\<alpha> db3) (files_key i) = (if sc_count sc > 0 then T else F)"
    using finish_rename [OF up s2, of "sc_count sc > 0", unfolded t2(2) o2(4) [OF off_keys(8)], OF count, folded F] by (elim exE conjE) (rule that)
  have f3: "is_set (\<alpha> db3) ''FILES''" "members (\<alpha> db3) ''FILES'' = members (\<alpha> db) ''FILES''"
    using eq_offD [OF 3(3) off_keys(14)] o2 [OF off_keys(9)] t(3) by simp_all
  obtain q4 db4 where 4: "conn_do ?r db3 (SINTERSTORE (handled_key i) ''FILES'' (files_key i)) = (Inr q4, db4)"
    "is_set (\<alpha> db4) (handled_key i)" "eq_off {handled_key i} (\<alpha> db3) (\<alpha> db4)"
    "members (\<alpha> db4) (handled_key i) = members (\<alpha> db) ''FILES'' \<inter> members (\<alpha> db3) (files_key i)"
    using finish_inter [OF up f3(1) 3(2)] f3(2) by auto
  have h4: "is_hash (\<alpha> db4) (mirror_key i)"
    using eq_offD(3) [OF 4(3) off_keys(5)] eq_offD(3) [OF 3(3) off_keys(6)] o2(3) [OF off_keys(7)] t(5) by simp
  let ?db5 = "snd (setLastSync ?r (se_end env) db4 i typ prec True)"
  note 5 = setLastSync_frame [OF up h4, where t = "se_end env" and ty = "typ" and prec = prec and b = True]
  have side: "eq_off (side_keys i) (\<alpha> db2') (\<alpha> ?db5)"
    using eq_off_trans [OF 3(3) eq_off_trans [OF 4(3) 5(1), of "side_keys i"], of "side_keys i"] by (simp add: side_keys_def)
  have h5: "\<And>f. is_hash (\<alpha> ?db5) (file_key f)" "\<And>f. is_hash (\<alpha> ?db5) (fileinfo_key i f)" "is_set (\<alpha> ?db5) (handled_key i)"
    using eq_offD(3) [OF side off_keys(12)] eq_offD(3) [OF side off_keys(13)] o2(3) [OF off_keys(11)] t(4) t2(1)
      eq_offD(2) [OF 5(1) off_keys(4)] 4(2) by (simp_all add: scan_typed_def)
  let ?K = "{tmp_key i, files_key i, handled_key i, mirror_key i}"
  have eq: "scan_finish env typ i name prec sc cache db =
      (case adjustTZOffset env i prec cache ?db5 of
         Inl p \<Rightarrow> Inl p
       | Inr ((tzoffset, e), cache', db6) \<Rightarrow>
           Inr ((Inr \<lparr>res_MirrorID = i, res_MirrorName = name, res_FilesIndexed = sc_count sc,
                     res_KnownIndexed = (case rd_Int (api ?r) (Inr q4) of Inl e \<Rightarrow> 0 | Inr n \<Rightarrow> n),
                     res_Removed = int (length (map RBulk xs)), res_TZOffsetMs = tzoffset\<rparr>, e), cache', db6))"
    using conv_okD(2) [OF reliable_redis.interface [OF up]] 1(2) 2(1) 3(1) 4(1) by (simp add: scan_finish_def Let_def)
  have "eq_off ?K (\<alpha> db2') (\<alpha> ?db5)"
    by (rule eq_off_trans [where L = ?K, OF 3(3) eq_off_trans [where L = ?K, OF 4(3) 5(1)]]) auto
  moreover have "members (\<alpha> ?db5) (files_key i) = members (\<alpha> db3) (files_key i)"
    using eq_offD(4) [OF 4(3) off_keys(2)] eq_offD(4) [OF 5(1) off_keys(3)] by simp
  moreover have "members (\<alpha> ?db5) (handled_key i) = members (\<alpha> db4) (handled_key i)"
    using eq_offD(4) [OF 5(1) off_keys(4)] by simp
  ultimately show ?thesis
    using I 3(4) 4(4) h5 5(2) eq by (intro exI [of _ "\<alpha> db2'"] exI [of _ cs'] exI [of _ ?db5] exI conjI) simp_all
qed

lemma scan_finish_index:
  assumes up: "reliable_redis (se_client env) \<alpha>"
    and t: "scan_typed i (\<alpha> db)" "is_set (\<alpha> db) (files_key i)" "is_set (\<alpha> db) ''FILES''" "\<And>f. is_hash (\<alpha> db) (file_key f)"
      "is_hash (\<alpha> db) (mirror_key i)"
    and T: "T = members (\<alpha> db) (tmp_key i)" and F: "F = members (\<alpha> db) (files_key i)"
    and count: "sc_count sc > 0 \<longleftrightarrow> T \<noteq> {}"
    and run: "scan_finish env typ i name prec sc cache db = Inr ((Inr res, e), cache', db')"
  shows "\<exists>s2 cs. index_run i (\<alpha> db) cs T ({f. listed (\<alpha> db) i f} - (F - T)) s2 \<and>
     eq_off {tmp_key i, files_key i, handled_key i, mirror_key i} s2 (\<alpha> db') \<and>
     members (\<alpha> db') (files_key i) = (if sc_count sc > 0 then T else F) \<and>
     members (\<alpha> db') (handled_key i) = members (\<alpha> db) ''FILES'' \<inter> members (\<alpha> db') (files_key i) \<and>
     res_MirrorName res = name"
proof -
  let ?K = "{tmp_key i, files_key i, handled_key i, mirror_key i}"
  obtain s2 cs db5 n m where S: "index_run i (\<alpha> db) cs T ({f. listed (\<alpha> db) i f} - (F - T)) s2" "eq_off ?K s2 (\<alpha> db5)"
    "members (\<alpha> db5) (files_key i) = (if sc_count sc > 0 then T else F)"
    "members (\<alpha> db5) (handled_key i) = members (\<alpha> db) ''FILES'' \<inter> members (\<alpha> db5) (files_key i)"
    "\<forall>f. is_hash (\<alpha> db5) (file_key f)" "\<forall>f. is_hash (\<alpha> db5) (fileinfo_key i f)" "is_set (\<alpha> db5) (handled_key i)"
    "is_hash (\<alpha> db5) (mirror_key i)"
    and eq: "scan_finish env typ i name prec sc cache db =
       (case adjustTZOffset env i prec cache db5 of
          Inl p \<Rightarrow> Inl p
        | Inr ((tzoffset, e), cache', db6) \<Rightarrow>
            Inr ((Inr \<lparr>res_MirrorID = i, res_MirrorName = name, res_FilesIndexed = sc_count sc,
                      res_KnownIndexed = n, res_Removed = m, res_TZOffsetMs = tzoffset\<rparr>, e), cache', db6))"
    using scan_finish_steps [OF up t T F count, of "typ" name prec cache] by (elim exE conjE) (rule that)
  obtain tz where adj: "adjustTZOffset env i prec cache db5 = Inr ((tz, e), cache', db')" and name: "res_MirrorName res = name"
    using run unfolding eq by (auto split: sum.splits)
  have 6: "eq_off {mirror_key i} (\<alpha> db5) (\<alpha> db')"
    by (rule adjustTZOffset_frame [OF up _ _ S(7,8) adj]) (use S(5,6) in simp_all)
  have "eq_off ?K s2 (\<alpha> db')"
    by (rule eq_off_trans [where L = ?K, OF S(2) 6]) auto
  then show ?thesis using S(1,3,4) name eq_offD(4) [OF 6 off_keys(3)] eq_offD(4) [OF 6 off_keys(4)]
    by (intro exI [of _ s2] exI [of _ cs]) simp
qed

section \<open>Versions\<close>

lemma hd_Split: "hd (Split s c) = takeWhile (\<lambda>x. x \<noteq> c) s"
proof (induction s)
  case (Cons x s)
  have "Split s c \<noteq> []" by simp
  with Cons show ?case by (cases "Split s c") auto
qed simp

lemma file_url_version: "takeWhile (\<lambda>x. x \<noteq> CHR ''/'') (file_url st a) = hd (Split (lf_Dir (node_at st a)) (CHR ''/''))"
proof -
  have tw: "takeWhile P (xs @ y # ys) = takeWhile P xs" if "\<not> P y" for P and xs ys :: string and y
    using that by (induction xs) auto
  show ?thesis using tw [of "\<lambda>x. x \<noteq> CHR ''/''" "CHR ''/''" "lf_Dir (node_at st a)" "lf_Name (node_at st a)"]
    by (simp add: file_url_def Sep_def hd_Split)
qed

text \<open>The files of a version are in the directory of that version.\<close>

lemma selector_loop_version:
  assumes "selector_loop st ps ans v = Some l" and "\<And>v l. ans v = Some l \<Longrightarrow> l \<noteq> [] \<and> (\<forall>a \<in> set l. hd (Split (lf_Dir (node_at st a)) (CHR ''/'')) = v)"
  shows "l \<noteq> [] \<and> (\<forall>a \<in> set l. hd (Split (lf_Dir (node_at st a)) (CHR ''/'')) = v)"
  using assms
proof (induction ps arbitrary: ans)
  case (Cons p ps)
  let ?v = "hd (Split (lf_Dir (node_at st p)) (CHR ''/''))"
  let ?ans = "ans(?v \<mapsto> (case ans ?v of Some l \<Rightarrow> l @ [p] | None \<Rightarrow> [p]))"
  have "Split (lf_Dir (node_at st p)) (CHR ''/'') \<noteq> []" by simp
  then have "selector_loop st ps ?ans v = Some l"
    using Cons.prems(1) by (cases "Split (lf_Dir (node_at st p)) (CHR ''/'')") (auto split: option.splits)
  moreover have "l \<noteq> [] \<and> (\<forall>a \<in> set l. hd (Split (lf_Dir (node_at st a)) (CHR ''/'')) = v)" if "?ans v = Some l" for v l
  proof (cases "v = ?v")
    case True
    then show ?thesis using that Cons.prems(2) [of v] by (cases "ans ?v") auto
  next
    case False
    then show ?thesis using that Cons.prems(2) [of v l] by simp
  qed
  ultimately show ?case using Cons.IH [of ?ans] by blast
qed simp

text \<open>An iteration over a map meets each key once.\<close>

definition ranges_over :: "((string \<rightharpoonup> addr list) \<Rightarrow> string list) \<Rightarrow> bool" where
  "ranges_over order \<longleftrightarrow> (\<forall>m. finite (dom m) \<longrightarrow> distinct (order m) \<and> set (order m) = dom m)"

lemma finite_selector: "finite (dom ans) \<Longrightarrow> finite (dom (selector_loop st ps ans))"
  by (induction st ps ans rule: selector_loop.induct) (auto split: list.splits option.splits)

lemma version_outcomes_paths:
  "map fst (version_outcomes env st url name n ps w) = map (\<lambda>p. file_url st (hd p)) (filter (\<lambda>p. p \<noteq> []) ps)"
proof (induction env st url name n ps w rule: version_outcomes.induct)
  case (3 env st url name n a as ps w)
  obtain path e slept fds w' where "\<forall>s. HttpScanner_Scan (se_http env) st (se_stopped env n) url name (a # as) s w =
      Inr ((0, path, e), slept, add_files (se_http env) fds s, w')"
    using HttpScanner_Scan_uniform [of "se_http env" st "se_stopped env n" url name a as w] by meson
  then show ?case using 3 by simp
qed simp_all

lemma selected_distinct:
  assumes "ranges_over (se_order env)"
  shows "distinct (map (\<lambda>p. file_url st (hd p)) (filter (\<lambda>p. p \<noteq> []) (selected env st)))"
proof -
  let ?sel = "GetSelectorList st" and ?o = "se_order env (GetSelectorList st)"
  have o: "distinct ?o" "set ?o = dom ?sel"
    using assms finite_selector [of Map.empty st "selectorList st"] by (simp_all add: ranges_over_def GetSelectorList_def)
  have v: "p \<noteq> [] \<and> takeWhile (\<lambda>x. x \<noteq> CHR ''/'') (file_url st (hd p)) = v" if "?sel v = Some p" for v p
    using selector_loop_version [of st "selectorList st" Map.empty v p] that by (auto simp: GetSelectorList_def file_url_version)
  have "map (takeWhile (\<lambda>x. x \<noteq> CHR ''/'')) (map (\<lambda>p. file_url st (hd p)) (filter (\<lambda>p. p \<noteq> []) (selected env st))) = ?o"
  proof -
    have the: "?sel x = Some (the (?sel x))" if "x \<in> set ?o" for x using that o(2) by auto
    have "selected env st = map (\<lambda>v. the (?sel v)) ?o"
      unfolding selected_def Let_def by (rule map_cong [OF refl]) (use the in \<open>force split: option.splits\<close>)
    moreover have "filter (\<lambda>p. p \<noteq> []) (map (\<lambda>v. the (?sel v)) ?o) = map (\<lambda>v. the (?sel v)) ?o"
      using v [OF the] by (auto simp: filter_id_conv)
    ultimately show ?thesis using v [OF the] by (simp add: map_idI)
  qed
  then show ?thesis using o(1) by (metis distinct_map)
qed

section \<open>The whole scan\<close>

definition scan_store :: "int \<Rightarrow> store \<Rightarrow> bool" where
  "scan_store i s \<longleftrightarrow>
     scan_typed i s \<and> is_hash s ''MIRRORS'' \<and> is_hash s (mirror_key i) \<and> is_set s (files_key i) \<and> is_set s ''FILES'' \<and>
     (\<forall>f. is_hash s (file_key f)) \<and> get_list s (log_key i) \<noteq> None \<and>
     (\<forall>f. listed s i f \<longrightarrow> f \<in> members s (files_key i))"

lemma index_DEL_tmp:
  assumes "scan_typed i s"
  shows "\<exists>s'. index_run i s [DEL [tmp_key i]] {} {f. listed s i f} s'"
proof -
  obtain q s' where d: "redis_cmd s (DEL [tmp_key i]) = Some (q, s')" "\<forall>k. keys s' k = (if k \<in> set [tmp_key i] then None else keys s k)"
    using cmd_DEL by blast
  have "get_set s' (tmp_key i) = Some []" "members s' (tmp_key i) = {}" using d(2) by (simp_all add: get_set_def members_def)
  then show ?thesis using assms d get_cong [of s' _ s]
    by (intro exI [of _ s']) (auto simp: index_run_def scan_typed_def eq_off_def index_keys_def others_same_def listed_def simp del: redis_cmd.simps)
qed

lemma commit_index:
  assumes "scan_typed i s" and "distinct (map fst outs)" and "list_all out_ok outs"
  shows "\<exists>s'. index_run i s (DEL [tmp_key i] # concat (map (op_cmds hc i) (concat (map out_ops outs))))
    (set (map fst (filter out_added outs)))
    (({f. listed s i f} - set (map fst (filter out_failed outs))) \<union> set (map fst (filter (\<lambda>x. \<not> out_failed x \<and> out_added x) outs))) s'"
proof -
  obtain s1 where 1: "index_run i s [DEL [tmp_key i]] {} {f. listed s i f} s1" using index_DEL_tmp [OF assms(1)] by blast
  show ?thesis
    using index_run_then [OF 1] index_ops [of i _ hc "concat (map out_ops outs)"] fold_outcomes [OF assms(2,3)]
    by (metis (no_types, lifting) append_Cons append_Nil fst_conv snd_conv sup_bot_left)
qed

lemma unlock_frame:
  assumes up: "reliable_redis (se_client env) \<alpha>" and l: "lk_key l = scanning_key i"
    and u: "scan_unlock env l db = Inr db'"
  shows "eq_off {scanning_key i} (\<alpha> db) (\<alpha> db')"
proof -
  obtain q s' where d: "redis_cmd (\<alpha> db) (DEL [scanning_key i]) = Some (q, s')" "eq_off {scanning_key i} (\<alpha> db) s'"
    using cmd_DEL [of "\<alpha> db" "[scanning_key i]"] by (auto simp: eq_off_def simp del: redis_cmd.simps)
  obtain q' db1 where "conn_do (se_client env) db (DEL [scanning_key i]) = (Inr q', db1)" "\<alpha> db1 = s'"
    using reliable_redis.do_effect [OF up d(1)] by blast
  then show ?thesis using u l d(2)
    by (auto simp: scan_unlock_def ClusterLock_Release_def keeper_done_def split: option.splits chan.splits if_splits)
qed

lemma log_frame:
  assumes up: "reliable_redis r \<alpha>" and "get_list (\<alpha> db) (log_key i) \<noteq> None"
  shows "eq_off {log_key i} (\<alpha> db) (\<alpha> (snd (PushLog J r db (NewLogError t i x))))"
  using reliable_redis.push_log_frame [OF up, of db "NewLogError t i x"] assms(2) by (auto simp: eq_off_def NewLogError_def)

lemma scan_start_store:
  assumes "scan_store i s" and "eq_off {scanning_key i, mirror_key i} s s'" and "is_hash s' (mirror_key i)"
  shows "scan_store i s'" "others_same i s s'" "{f. listed s' i f} = {f. listed s i f}"
    "members s' (files_key i) = members s (files_key i)" "members s' ''FILES'' = members s ''FILES''"
proof -
  have n: "filemirrors_key f \<notin> {scanning_key i, mirror_key i}" "fileinfo_key i f \<notin> {scanning_key i, mirror_key i}"
    "tmp_key i \<notin> {scanning_key i, mirror_key i}" "''MIRRORS'' \<notin> {scanning_key i, mirror_key i}"
    "files_key i \<notin> {scanning_key i, mirror_key i}" "''FILES'' \<notin> {scanning_key i, mirror_key i}"
    "file_key f \<notin> {scanning_key i, mirror_key i}" "log_key i \<notin> {scanning_key i, mirror_key i}" for f
    by (simp_all add: scan_key_defs)
  note e = eq_offD [OF assms(2)]
  show "scan_store i s'" using assms(1,3) e(2-6) [OF n(1)] e(2-6) [OF n(2)] e(2-6) [OF n(3)] e(2-6) [OF n(4)]
      e(2-6) [OF n(5)] e(2-6) [OF n(6)] e(2-6) [OF n(7)] e(2-6) [OF n(8)]
    by (simp add: scan_store_def scan_typed_def listed_def)
  show "others_same i s s'" "{f. listed s' i f} = {f. listed s i f}" "members s' (files_key i) = members s (files_key i)"
    "members s' ''FILES'' = members s ''FILES''"
    using e(4) [OF n(1)] e(4) [OF n(5)] e(4) [OF n(6)] by (simp_all add: others_same_def listed_def)
qed

lemma commit_typed:
  assumes "scan_store i s" and "eq_off (index_keys i) s s'"
  shows "is_set s' (files_key i)" "is_set s' ''FILES''" "is_hash s' (file_key f)" "is_hash s' (mirror_key i)"
    "get_list s' (log_key i) \<noteq> None"
  using eq_offD(2) [OF assms(2) off_keys(8)] eq_offD(2) [OF assms(2) off_keys(9)] eq_offD(3) [OF assms(2) off_keys(11)]
    eq_offD(3) [OF assms(2) off_keys(7)] eq_offD(6) [OF assms(2) off_keys(10)] assms(1)
  by (simp_all add: scan_store_def)

text \<open>The transaction of a scan, in terms of the outcomes of the versions.\<close>

lemma commit_facts:
  assumes up: "reliable_redis (se_client env) \<alpha>" and order: "ranges_over (se_order env)"
    and store: "scan_store i (\<alpha> db)"
    and v: "scan_versions env st url name 0 (selected env st) 0 (start_scan i) w = Inr (precision, s, w')"
    and c: "ScannerCommit (se_client env) s db = ((e0, s1), db')"
  shows "\<exists>outs T. version_outcomes env st url name 0 (selected env st) w = map (\<lambda>o'. (fst o', \<not> out_failed o' \<and> out_added o')) outs \<and>
    distinct (map fst outs) \<and> T = set (map fst (filter out_added outs)) \<and> scan_typed i (\<alpha> db') \<and>
    eq_off (index_keys i) (\<alpha> db) (\<alpha> db') \<and> others_same i (\<alpha> db) (\<alpha> db') \<and> T = members (\<alpha> db') (tmp_key i) \<and>
    {f. listed (\<alpha> db') i f} = ({f. listed (\<alpha> db) i f} - set (map fst (filter out_failed outs))) \<union>
       set (map fst (filter (\<lambda>x. \<not> out_failed x \<and> out_added x) outs)) \<and>
    (sc_count s1 > 0 \<longleftrightarrow> T \<noteq> {})"
proof -
  obtain outs where O: "sc_queue s = DEL [tmp_key i] # concat (map (op_cmds (se_http env) i) (concat (map out_ops outs)))"
    "sc_count s = int (length (concat (map (\<lambda>x. fst (snd x)) outs)))" "list_all out_ok outs"
    "version_outcomes env st url name 0 (selected env st) w = map (\<lambda>o'. (fst o', \<not> out_failed o' \<and> out_added o')) outs"
    using scan_versions_outcomes [of "start_scan i" i env st url name 0 "selected env st" 0 w] v by (auto simp: start_scan_def)
  have dist: "distinct (map fst outs)"
    using selected_distinct [OF order, of st] version_outcomes_paths [of env st url name 0 "selected env st" w] O(4)
    by (simp add: comp_def)
  let ?T = "set (map fst (filter out_added outs))"
  let ?L = "({f. listed (\<alpha> db) i f} - set (map fst (filter out_failed outs))) \<union> set (map fst (filter (\<lambda>x. \<not> out_failed x \<and> out_added x) outs))"
  obtain s4 where 7: "index_run i (\<alpha> db) (sc_queue s) ?T ?L s4"
    using commit_index [OF _ dist O(3), of i "\<alpha> db" "se_http env"] store O(1) by (auto simp: scan_store_def)
  then obtain rs where "redis_cmds (\<alpha> db) (sc_queue s) = Some (rs, s4)" by (auto simp: index_run_def)
  from reliable_redis.exec_effect [OF up this] have d4: "\<alpha> db' = s4" "sc_count s1 = sc_count s"
    using c by (auto simp: ScannerCommit_def)
  have count: "sc_count s1 > 0 \<longleftrightarrow> ?T \<noteq> {}" using d4(2) O(2) by (simp add: filter_empty_conv) force
  show ?thesis
    by (rule exI [of _ outs], rule exI [of _ ?T], intro conjI) (use 7 d4 O(4) dist count in \<open>simp_all add: index_run_def\<close>)
qed

lemma Scan_success:
  assumes "Scan env st typ url i ss = Inr (Inr res, ss')"
  obtains rep db1 name l k db2 precision s w e0 s1 db4 e cache' db5 where
    "conn_do (se_client env) (ss_db ss) (HGET ''MIRRORS'' (Itoa i)) = (rep, db1)"
    "rd_String (api (se_client env)) rep = Inr name"
    "ClusterLock_Get (se_client env) (se_start env) (NewClusterLock (scanning_key i) name) db1 = (Inr True, (l, k), db2)"
    "scan_versions env st url name 0 (selected env st) 0 (start_scan i) (ss_net ss) = Inr (precision, s, w)"
    "ScannerCommit (se_client env) s (snd (setLastSync (se_client env) (se_start env) db2 i typ 0 False)) = ((e0, s1), db4)"
    "scan_finish env typ i name precision s1 (ss_cache ss) db4 = Inr ((Inr res, e), cache', db5)"
    "scan_unlock env l (case e of None \<Rightarrow> db5
       | Some x \<Rightarrow> snd (PushLog (se_json env) (se_client env) db5 (NewLogError (se_end env) i (se_Error env x)))) = Inr (ss_db ss')"
proof -
  obtain rep db1 where 1: "conn_do (se_client env) (ss_db ss) (HGET ''MIRRORS'' (Itoa i)) = (rep, db1)" by fastforce
  obtain name where 2: "rd_String (api (se_client env)) rep = Inr name"
    using assms 1 by (auto simp: Scan_def Let_def split: sum.splits)
  obtain b l k db2 where 3: "ClusterLock_Get (se_client env) (se_start env) (NewClusterLock (scanning_key i) name) db1 = (b, (l, k), db2)"
    by (metis surj_pair)
  have b: "b = Inr True" using assms 1 2 3 by (auto simp: Scan_def Let_def split: sum.splits bool.splits)
  obtain precision s w where 4: "scan_versions env st url name 0 (selected env st) 0 (start_scan i) (ss_net ss) = Inr (precision, s, w)"
    using assms 1 2 3 b by (auto simp: Scan_def Let_def split: sum.splits)
  obtain e0 s1 db4 where 5: "ScannerCommit (se_client env) s (snd (setLastSync (se_client env) (se_start env) db2 i typ 0 False)) = ((e0, s1), db4)"
    by (metis surj_pair)
  obtain res' e cache' db5 where 6: "scan_finish env typ i name precision s1 (ss_cache ss) db4 = Inr ((res', e), cache', db5)"
    using assms 1 2 3 b 4 5 by (auto simp: Scan_def Let_def split: sum.splits)
  show thesis
    by (rule that [OF 1 2 3 [unfolded b] 4 5, of e cache' db5])
      (use assms 1 2 3 b 4 5 6 in \<open>auto simp: Scan_def Let_def split: sum.splits\<close>)
qed

text \<open>From the name of the mirror to the first time stamp, and from the log entry to the release of the lock.\<close>

lemma scan_head:
  assumes up: "reliable_redis r \<alpha>" and store: "scan_store i (\<alpha> db)" and 1: "conn_do r db (HGET ''MIRRORS'' (Itoa i)) = (rep, db1)"
    and 2: "ClusterLock_Get r start (NewClusterLock (scanning_key i) name) db1 = (Inr True, (l, k), db2)"
  shows "eq_off {scanning_key i, mirror_key i} (\<alpha> db) (\<alpha> (snd (setLastSync r t db2 i ty 0 False)))"
    "is_hash (\<alpha> (snd (setLastSync r t db2 i ty 0 False))) (mirror_key i)" "lk_key l = scanning_key i"
proof -
  obtain q where "redis_cmd (\<alpha> db) (HGET ''MIRRORS'' (Itoa i)) = Some (q, \<alpha> db)" using store by (auto simp: scan_store_def)
  from conn_read(1) [OF reliable_redis.interface [OF up] this 1] have d1: "\<alpha> db1 = \<alpha> db" by simp
  note g = Get_frame [OF up 2]
  have h2: "is_hash (\<alpha> db2) (mirror_key i)"
    using eq_offD(3) [OF g(1), of "mirror_key i"] store by (simp add: d1 scan_store_def scan_key_defs)
  note l3 = setLastSync_frame [OF up h2, where t = t and ty = ty and prec = 0 and b = False]
  show "eq_off {scanning_key i, mirror_key i} (\<alpha> db) (\<alpha> (snd (setLastSync r t db2 i ty 0 False)))"
    using eq_off_trans [OF g(1) l3(1), of "{scanning_key i, mirror_key i}"] by (simp add: d1)
  show "is_hash (\<alpha> (snd (setLastSync r t db2 i ty 0 False))) (mirror_key i)" "lk_key l = scanning_key i" using l3(2) g(2) by simp_all
qed

lemma scan_tail:
  assumes up: "reliable_redis (se_client env) \<alpha>" and log: "get_list (\<alpha> db5) (log_key i) \<noteq> None" and l: "lk_key l = scanning_key i"
    and run: "scan_unlock env l (case e of None \<Rightarrow> db5
       | Some x \<Rightarrow> snd (PushLog (se_json env) (se_client env) db5 (NewLogError (se_end env) i (se_Error env x)))) = Inr db'"
  shows "eq_off {log_key i, scanning_key i} (\<alpha> db5) (\<alpha> db')"
proof -
  let ?db6 = "case e of None \<Rightarrow> db5 | Some x \<Rightarrow> snd (PushLog (se_json env) (se_client env) db5 (NewLogError (se_end env) i (se_Error env x)))"
  have "eq_off {log_key i} (\<alpha> db5) (\<alpha> ?db6)" using log_frame [OF up log] by (cases e) simp_all
  then show ?thesis by (rule eq_off_trans [OF _ unlock_frame [OF up l run]]) auto
qed

lemma listed_in:
  assumes "P \<subseteq> T" and "n > (0::int) \<longleftrightarrow> T \<noteq> {}"
  shows "P \<subseteq> (if n > 0 then T else F)"
  using assms by auto


text \<open>A scan succeeds when the lock is free, the mirror is known and the clock is not checked.\<close>

lemma Scan_returns:
  assumes up: "reliable_redis (se_client env) \<alpha>" and order: "ranges_over (se_order env)"
    and store: "scan_store i (\<alpha> (ss_db ss))" and name: "field (\<alpha> (ss_db ss)) ''MIRRORS'' (Itoa i) = Some name"
    and free: "keys (\<alpha> (ss_db ss)) (scanning_key i) = None" and off: "\<not> se_fix env"
  shows "\<exists>res ss'. Scan env st typ url i ss = Inr (Inr res, ss') \<and> res_MirrorName res = name"
proof -
  let ?r = "se_client env" and ?s = "\<alpha> (ss_db ss)"
  note conv = conv_okD [OF reliable_redis.interface [OF up]]
  obtain h where h: "get_hash ?s ''MIRRORS'' = Some h" "map_of h (Itoa i) = Some name"
    using store name by (auto simp: scan_store_def field_def)
  have "redis_cmd ?s (HGET ''MIRRORS'' (Itoa i)) = Some (RBulk name, ?s)" using h by (simp add: opt_bulk_def)
  from reliable_redis.do_reply_effect [OF up this] obtain db1
    where 1: "conn_do ?r (ss_db ss) (HGET ''MIRRORS'' (Itoa i)) = (Inr (RBulk name), db1)" "\<alpha> db1 = ?s" by auto
  have "redis_cmd (\<alpha> db1) (SETNX (scanning_key i) (AInt 1) (lockTTL * 1000)) = Some (RStatus ''OK'', put (scanning_key i) (Some (VStr (Itoa 1))) ?s)"
    using free 1(2) by simp
  from reliable_redis.do_reply_effect [OF up this] obtain db2
    where "conn_do ?r db1 (SETNX (scanning_key i) (AInt 1) (lockTTL * 1000)) = (Inr (RStatus ''OK''), db2)" by auto
  then obtain l k where 2: "ClusterLock_Get ?r (se_start env) (NewClusterLock (scanning_key i) name) db1 = (Inr True, (l, k), db2)"
    using reliable_redis.ready [OF up] conv(12) by (simp add: ClusterLock_Get_def NewClusterLock_def)
  note g = Get_frame [OF up 2]
  have h2: "is_hash (\<alpha> db2) (mirror_key i)"
    using eq_offD(3) [OF g(1), of "mirror_key i"] store by (simp add: 1(2) scan_store_def scan_key_defs)
  let ?db3 = "snd (setLastSync ?r (se_start env) db2 i typ 0 False)"
  note l3 = setLastSync_frame [OF up h2, where t = "se_start env" and ty = "typ" and prec = 0 and b = False]
  have o3: "eq_off {scanning_key i, mirror_key i} ?s (\<alpha> ?db3)"
    using eq_off_trans [OF g(1) l3(1), of "{scanning_key i, mirror_key i}"] by (simp add: 1(2))
  note S3 = scan_start_store [OF store o3 l3(2)]
  obtain precision s w where 3: "scan_versions env st url name 0 (selected env st) 0 (start_scan i) (ss_net ss) = Inr (precision, s, w)"
    using scan_versions_outcomes [of "start_scan i" i env st url name 0 "selected env st" 0 "ss_net ss"] by (auto simp: start_scan_def)
  obtain e0 s1 db4 where 4: "ScannerCommit ?r s ?db3 = ((e0, s1), db4)" by (metis surj_pair)
  obtain T where C: "scan_typed i (\<alpha> db4)" "eq_off (index_keys i) (\<alpha> ?db3) (\<alpha> db4)" "T = members (\<alpha> db4) (tmp_key i)"
    "sc_count s1 > 0 \<longleftrightarrow> T \<noteq> {}"
    using commit_facts [OF up order S3(1) 3 4] by (elim exE conjE) (rule that)
  obtain db5 n m where eq: "scan_finish env typ i name precision s1 (ss_cache ss) db4 =
       (case adjustTZOffset env i precision (ss_cache ss) db5 of
          Inl p \<Rightarrow> Inl p
        | Inr ((tzoffset, e), cache', db6) \<Rightarrow>
            Inr ((Inr \<lparr>res_MirrorID = i, res_MirrorName = name, res_FilesIndexed = sc_count s1,
                      res_KnownIndexed = n, res_Removed = m, res_TZOffsetMs = tzoffset\<rparr>, e), cache', db6))"
    using scan_finish_steps [OF up C(1) commit_typed(1-4) [OF S3(1) C(2)] C(3) refl C(4), of "typ" name precision "ss_cache ss"]
    by (elim exE conjE) (rule that)
  obtain tz e cache' db6 where 5: "adjustTZOffset env i precision (ss_cache ss) db5 = Inr ((tz, e), cache', db6)"
    using off by (cases "ss_cache ss"; cases "store_offset ?r db5 i 0") (auto simp: adjustTZOffset_def Let_def)
  obtain db7 where "scan_unlock env l (case e of None \<Rightarrow> db6
       | Some x \<Rightarrow> snd (PushLog (se_json env) ?r db6 (NewLogError (se_end env) i (se_Error env x)))) = Inr db7"
    using g(2) by (auto simp: scan_unlock_def ClusterLock_Release_def)
  then show ?thesis using 1(1) conv(11) 2 3 4 eq 5 by (simp add: Scan_def Let_def)
qed

section \<open>A scan of one mirror\<close>

text \<open>Mirror 1 was listed for a file that is gone; it now has the image of version \<open>v1\<close>.\<close>

definition demo_index :: store where
  "demo_index = \<lparr>keys = [''MIRRORS'' \<mapsto> VHash [(''1'', ''m'')], ''FILES'' \<mapsto> VSet [''v1/ISO/a.iso''],
     ''FILEMIRRORS_old'' \<mapsto> VSet [''1''], ''MIRRORFILES_1'' \<mapsto> VSet [''old'']], published = []\<rparr>"

definition demo_senv :: "(store, nat) scan_env" where
  "demo_senv = \<lparr>se_cache = demo_cenv, se_json = demo_json, se_http = demo_http, se_Error = (\<lambda>_. ''''), se_fix = False,
     se_start = 0, se_end = 0, se_ticked = False, se_stopped = (\<lambda>_. False),
     se_order = (\<lambda>m. sorted_list_of_set (dom m)), se_entries = id\<rparr>"

lemma demo_ParseInt: "ParseInt ''7'' = (7, None)"
proof -
  have "Itoa 7 = ''7''" by code_simp
  then show ?thesis using ParseInt_Itoa [of 7] by (simp add: in_int64_def)
qed

lemma demo_http_scan:
  "HttpScanner_Scan demo_http demo_tree False ''https://m/'' ''m'' [0] s w =
     Inr ((0, '''', None), 1, ScannerAddFile demo_http (found_file ''v1/ISO/a.iso'' 7 0) s, Suc (Suc w))"
proof -
  have "lf_Size (GetRepoFileData demo_tree (file_url demo_tree 0)) = 7" "file_url demo_tree 0 = ''v1/ISO/a.iso''"
    by (simp_all add: demo_tree_def GetRepoFileData_def file_url_def node_at_def Sep_def init_layers_def empty_FileStore_def)
  then show ?thesis by (simp add: HttpScanner_Scan_def HasPrefix_def demo_http_def head_retry.simps check_head_def demo_ParseInt)
qed

lemma demo_order: "ranges_over (se_order demo_senv)" "selected demo_senv demo_tree = [[0]]"
proof -
  have "GetSelectorList demo_tree = [''v1'' \<mapsto> [0]]" by (simp add: GetSelectorList_def demo_tree_def init_layers_def node_at_def)
  then show "selected demo_senv demo_tree = [[0]]" by (simp add: selected_def demo_senv_def)
  show "ranges_over (se_order demo_senv)" by (simp add: ranges_over_def demo_senv_def)
qed

lemma demo_index_ok: "scan_store 1 demo_index"
  by (auto simp: scan_store_def scan_typed_def demo_index_def get_set_def get_hash_def get_list_def scan_key_defs Itoa_1
      listed_def members_def split: if_splits)

lemma demo_up: "reliable_redis (se_client demo_senv) id"
  using ref_up.reliable_redis_axioms by (simp add: demo_senv_def demo_cenv_def)


end
