(* ===== verification/Source_Scan.thy ===== *)
theory Source_Scan
  imports Scan_Index Layer_Build
begin

text \<open>
  The scan of the local repository (\<^verbatim>\<open>sourcescanner\<close> and \<^verbatim>\<open>ScanSource\<close> in \<^verbatim>\<open>scan/scan.go\<close>).  The listing of
  the repository is read line by line into the tree of files, the tree is published, and the set of known
  files with their hashes is replaced in the database under a lock.  The file system, the clock and the
  other users of the lock are fields of the environment.
\<close>

section \<open>Environment\<close>

record 'db source_env =
  sv_layer :: layer_env
  sv_cnf :: Configuration
  sv_Stat :: "string \<Rightarrow> err option"
  sv_IsNotExist :: "err \<Rightarrow> bool"
  sv_Open :: "string \<Rightarrow> err + string"
  sv_String :: "gotime \<Rightarrow> string"
  sv_now :: gotime
  sv_stopped :: bool
  sv_wait :: "nat \<Rightarrow> 'db \<Rightarrow> 'db"
  sv_ticked :: bool

text \<open>
  \<open>sv_Open\<close> gives the bytes of a file, \<open>sv_String\<close> is what the client writes for a time; \<open>sv_wait n\<close>
  is what happens to the database in the second the lock is waited for with \<open>n\<close> more attempts, and
  \<open>sv_ticked\<close> tells that the refresh timer of the lock fired before the scan ended.
\<close>

definition FILES :: string where "FILES = ''FILES''"
definition FILES_TMP :: string where "FILES_TMP = ''FILES_TMP''"
definition SOURCE_REPO_SYNC :: string where "SOURCE_REPO_SYNC = ''SOURCE_REPO_SYNC''"

section \<open>The listing\<close>

text \<open>
  The lines \<open>bufio.Scanner\<close> delivers: without the line end, and none after a line that does not fit
  into its buffer of 64 KiB.
\<close>

definition drop_cr :: "string \<Rightarrow> string" where
  "drop_cr l = (if l \<noteq> [] \<and> last l = CHR 0x0D then butlast l else l)"

definition ScanLines :: "string \<Rightarrow> string list" where
  "ScanLines s =
     (let ls = Split s (CHR 0x0A)
      in map drop_cr (takeWhile (\<lambda>l. length l < 65536) (if last ls = [] then butlast ls else ls)))"

text \<open>
  The body of the loop over the lines, up to the query of the database.  The second line of the listing
  ends with the dot of the root directory; \<open>z\<close> is its length and gives the columns.
\<close>

definition select_line :: "'db source_env \<Rightarrow> nat \<Rightarrow> string \<Rightarrow> layers \<Rightarrow> (FileData option \<times> layers) gores" where
  "select_line env z line st =
     (let y = int z - 1; x = int z - 21; cnf = sv_cnf env; releaseVersion = PreReleaseVersion cnf
      in if int (length line) \<le> y then Inr (None, st)
         else if y < 0 then Inl SliceBounds
         else let path = drop (nat y) line
              in if 0 < length releaseVersion \<and> length releaseVersion \<le> length path \<and>
                    releaseVersion = take (length releaseVersion) path
                 then Inr (None, st)
                 else if Filter st path \<and> z \<le> length line then
                   (if x - 1 < 0 then Inl SliceBounds
                    else BuildFileTree (sv_layer env) cnf path (take (nat (x - 1)) line)
                           (take (nat (y - 1 - x)) (drop (nat x) line)) st)
                 else Inr (None, st))"

text \<open>What follows the query only writes to the log.\<close>

definition walkSource :: "'db client \<Rightarrow> 'db \<Rightarrow> FileData option \<Rightarrow> FileData option \<times> 'db" where
  "walkSource r db d =
     (case d of
        None \<Rightarrow> (None, db)
      | Some f \<Rightarrow>
          (let (rep, db') = conn_do r db (HMGET (file_key (fd_Path f)) [''size'', ''modTime'', ''sha256''])
           in case rd_Strings (api r) rep of
                Inl e \<Rightarrow> if e \<noteq> ErrNil then (None, db') else (Some f, db')
              | Inr properties \<Rightarrow> (Some f, db')))"

fun source_lines ::
    "'db source_env \<Rightarrow> 'db client \<Rightarrow> nat \<Rightarrow> string list \<Rightarrow> layers \<Rightarrow> 'db \<Rightarrow> (FileData list \<times> layers \<times> 'db) gores" where
  "source_lines env r z [] st db = Inr ([], st, db)"
| "source_lines env r z (line # ls) st db =
     (case select_line env z line st of
        Inl p \<Rightarrow> Inl p
      | Inr (fd, st1) \<Rightarrow>
          (case walkSource r db fd of
             (fd', db1) \<Rightarrow>
               (case source_lines env r z ls st1 db1 of
                  Inl p \<Rightarrow> Inl p
                | Inr (fds, st2, db2) \<Rightarrow> Inr (case fd' of None \<Rightarrow> fds | Some d \<Rightarrow> d # fds, st2, db2))))"

section \<open>The index of the repository\<close>

fun source_lock :: "'db source_env \<Rightarrow> 'db client \<Rightarrow> nat \<Rightarrow> 'db \<Rightarrow> (err + ClusterLock) \<times> 'db" where
  "source_lock env r 0 db = (Inl ErrScanInProgress, db)"
| "source_lock env r (Suc retry) db =
     (case ClusterLock_Get r (sv_now env) (NewClusterLock SOURCE_REPO_SYNC ''source repository'') db of
        (Inl e, _, db') \<Rightarrow> (Inl e, db')
      | (Inr True, (l, _), db') \<Rightarrow> (Inr l, db')
      | (Inr False, _, db') \<Rightarrow> source_lock env r retry (sv_wait env retry db'))"

definition hash_cmds :: "'db source_env \<Rightarrow> FileData \<Rightarrow> rcmd list" where
  "hash_cmds env e =
     [HMSET (file_key (fd_Path e))
        [(''size'', AInt (fd_Size e)), (''modTime'', AStr (sv_String env (fd_ModTime e))), (''sha256'', AStr (fd_Sha256 e))],
      PUBLISH FILE_UPDATE (fd_Path e)]"

definition gone_cmds :: "string \<Rightarrow> rcmd list" where
  "gone_cmds path = [DEL [file_key path], PUBLISH FILE_UPDATE path]"

text \<open>From the first transaction to the second.\<close>

definition source_index :: "'db source_env \<Rightarrow> 'db client \<Rightarrow> FileData list \<Rightarrow> 'db \<Rightarrow> err option \<times> 'db" where
  "source_index env r sourceFiles db =
     (let (rep1, db1) = conn_exec r db (DEL [FILES_TMP] # map (\<lambda>e. SADD FILES_TMP [fd_Path e]) sourceFiles)
      in case do_err rep1 of
           Some e \<Rightarrow> (Some e, db1)
         | None \<Rightarrow>
             (let (rep2, db2) = conn_do r db1 (SDIFF FILES FILES_TMP);
                  toremove = (case rd_Values (api r) rep2 of Inl e \<Rightarrow> [] | Inr l \<Rightarrow> l);
                  (rep3, db3) =
                    conn_exec r db2
                      (concat (map (hash_cmds env) sourceFiles) @
                       concat (map (\<lambda>e. gone_cmds (bulk_text e)) toremove) @ [RENAME FILES_TMP FILES])
              in (do_err rep3, db3)))"

text \<open>The deferred release, as for the scan of a mirror.\<close>

definition source_unlock :: "'db source_env \<Rightarrow> 'db client \<Rightarrow> ClusterLock \<Rightarrow> 'db \<Rightarrow> 'db gores" where
  "source_unlock env r l db =
     (case ClusterLock_Release l of
        Inl p \<Rightarrow> Inl p
      | Inr l' \<Rightarrow> Inr (if sv_ticked env then db else snd (keeper_done r l' db)))"

text \<open>
  The whole scan.  \<open>connErr\<close> is the error of the connection; the option tells whether the traversals
  of the tree end, with as much fuel as the tree has nodes.
\<close>

definition ScanSource ::
    "'db source_env \<Rightarrow> 'db client \<Rightarrow> err option \<Rightarrow> layers \<Rightarrow> 'db \<Rightarrow> (err option \<times> layers \<times> 'db) gores option" where
  "ScanSource env r connErr st db =
     (let cnf = sv_cnf env; repoFileText = RepositoryFileListText cnf; missing = (\<lambda>f. ErrMsg (f @ '': No such file or directory''));
          fail = (\<lambda>e. Some (Inr (Some e, st, db)))
      in if \<not> cl_ready r then fail NetReadyError
         else case connErr of
           Some e \<Rightarrow> fail e
         | None \<Rightarrow>
             if (case sv_Stat env (Repository cnf) of Some e \<Rightarrow> sv_IsNotExist env e | None \<Rightarrow> False)
             then fail (missing (Repository cnf))
             else if sv_Stat env repoFileText \<noteq> None then fail (missing repoFileText)
             else (case sv_Open env repoFileText of
                Inl e \<Rightarrow> fail (ErrMsg (''cannot open the file: '' @ repoFileText))
              | Inr text \<Rightarrow>
                  (let ls = drop 1 (ScanLines text); z = (case ls of [] \<Rightarrow> 0 | l # _ \<Rightarrow> length l)
                   in case source_lines env r z (drop 1 ls) st db of
                        Inl p \<Rightarrow> Some (Inl p)
                      | Inr (sourceFiles, st1, db1) \<Rightarrow>
                          (case UpdateFileTree (length (nodes st1)) (sv_layer env) (RepositoryFilter cnf) st1 of
                             None \<Rightarrow> None
                           | Some st2 \<Rightarrow>
                               if sv_stopped env then Some (Inr (Some ErrScanAborted, st2, db1))
                               else (case source_lock env r 10 db1 of
                                       (Inl e, db2) \<Rightarrow> Some (Inr (Some e, st2, db2))
                                     | (Inr l, db2) \<Rightarrow>
                                         (case source_index env r sourceFiles db2 of
                                            (e, db3) \<Rightarrow>
                                              (case source_unlock env r l db3 of
                                                 Inl p \<Rightarrow> Some (Inl p)
                                               | Inr db4 \<Rightarrow> Some (Inr (e, st2, db4)))))))))"

section \<open>Reading the listing\<close>

text \<open>The files of a listing, without the queries of the database.\<close>

fun repository_files :: "'db source_env \<Rightarrow> nat \<Rightarrow> string list \<Rightarrow> layers \<Rightarrow> (FileData list \<times> layers) gores" where
  "repository_files env z [] st = Inr ([], st)"
| "repository_files env z (line # ls) st =
     (case select_line env z line st of
        Inl p \<Rightarrow> Inl p
      | Inr (fd, st1) \<Rightarrow>
          (case repository_files env z ls st1 of
             Inl p \<Rightarrow> Inl p
           | Inr (fds, st2) \<Rightarrow> Inr (case fd of None \<Rightarrow> fds | Some d \<Rightarrow> d # fds, st2)))"

text \<open>The columns are wide enough and every entry has a readable size.\<close>

definition listing_ok :: "nat \<Rightarrow> string list \<Rightarrow> bool" where
  "listing_ok z ls \<longleftrightarrow>
     22 \<le> z \<and> (\<forall>line \<in> set ls. z \<le> length line \<longrightarrow> (\<exists>n. covertFileSize (take (z - 22) line) = Inr n))"

lemma select_line_total:
  assumes "build_ok st" and "22 \<le> z" and "z \<le> length line \<Longrightarrow> \<exists>n. covertFileSize (take (z - 22) line) = Inr n"
  shows "\<exists>fd st'. select_line env z line st = Inr (fd, st') \<and> build_ok st'"
proof (cases "z \<le> length line")
  case True
  then obtain n where n: "covertFileSize (take (z - 22) line) = Inr n" using assms(3) by blast
  have w: "nat (int z - 21 - 1) = z - 22" "nat (int z - 1 - 1 - (int z - 21)) = 19" "nat (int z - 21) = z - 21"
    using assms(2) by linarith+
  have "7 < length (take 19 (drop (z - 21) line))" using True assms(2) by simp
  from BuildFileTree_builds [OF assms(1) n this, of "sv_layer env" "sv_cnf env" "drop (nat (int z - 1)) line"]
  show ?thesis using assms(1,2) True unfolding select_line_def Let_def w by auto
qed (use assms(1,2) in \<open>auto simp: select_line_def\<close>)

lemma repository_files_total:
  "build_ok st \<Longrightarrow> listing_ok z ls \<Longrightarrow> \<exists>fds st'. repository_files env z ls st = Inr (fds, st') \<and> build_ok st'"
proof (induction ls arbitrary: st)
  case (Cons line ls)
  obtain fd st1 where 1: "select_line env z line st = Inr (fd, st1)" "build_ok st1"
    using select_line_total [OF Cons.prems(1), of z line env] Cons.prems(2) unfolding listing_ok_def by auto
  have "listing_ok z ls" using Cons.prems(2) by (simp add: listing_ok_def)
  from Cons.IH [OF 1(2) this] 1(1) show ?case by auto
qed simp

lemma walkSource_reads:
  assumes up: "reliable_redis r \<alpha>" and h: "\<And>p. is_hash (\<alpha> db) (file_key p)"
  shows "\<exists>db'. walkSource r db d = (d, db') \<and> \<alpha> db' = \<alpha> db"
proof (cases d)
  case (Some f)
  let ?c = "HMGET (file_key (fd_Path f)) [''size'', ''modTime'', ''sha256'']"
  obtain l where "get_hash (\<alpha> db) (file_key (fd_Path f)) = Some l" using h by blast
  then obtain db' where c: "conn_do r db ?c = (Inr (RMulti (map (\<lambda>x. opt_bulk (map_of l x)) [''size'', ''modTime'', ''sha256''])), db')"
    "\<alpha> db' = \<alpha> db"
    using reliable_redis.do_reply_effect [OF up, of db ?c] by fastforce
  have "\<exists>ss. rd_Strings (api r) (fst (conn_do r db ?c)) = Inr ss"
    using reliable_redis.interface [OF up] unfolding c(1) redigo_ok_def conv_ok_def
    by (metis fst_conv list.map_comp [of opt_bulk "map_of l" "[''size'', ''modTime'', ''sha256'']", unfolded comp_def])
  then show ?thesis using c Some by (auto simp: walkSource_def)
qed (simp add: walkSource_def)

lemma source_lines_reads:
  assumes "reliable_redis r \<alpha>"
  shows "(\<And>p. is_hash (\<alpha> db) (file_key p)) \<Longrightarrow> repository_files env z ls st = Inr (fds, st') \<Longrightarrow>
    \<exists>db'. source_lines env r z ls st db = Inr (fds, st', db') \<and> \<alpha> db' = \<alpha> db"
proof (induction ls arbitrary: st db fds)
  case (Cons line ls)
  obtain fd st1 fds1 where 1: "select_line env z line st = Inr (fd, st1)" "repository_files env z ls st1 = Inr (fds1, st')"
    "fds = (case fd of None \<Rightarrow> fds1 | Some d \<Rightarrow> d # fds1)"
    using Cons.prems(2) by (auto split: sum.splits prod.splits)
  obtain db1 where 2: "walkSource r db fd = (fd, db1)" "\<alpha> db1 = \<alpha> db"
    using walkSource_reads [OF assms Cons.prems(1)] by blast
  obtain db2 where "source_lines env r z ls st1 db1 = Inr (fds1, st', db2)" "\<alpha> db2 = \<alpha> db1"
    using Cons.IH [OF _ 1(2), of db1] Cons.prems(1) 2(2) by auto
  then show ?case using 1 2 by simp
qed simp

section \<open>Writing the index\<close>

lemma repo_keys [simp]:
  "file_key p \<noteq> FILES" "FILES \<noteq> file_key p" "file_key p \<noteq> FILES_TMP" "FILES_TMP \<noteq> file_key p" "FILES \<noteq> FILES_TMP" "FILES_TMP \<noteq> FILES"
  "file_key p \<noteq> SOURCE_REPO_SYNC" "SOURCE_REPO_SYNC \<noteq> file_key p" "FILES \<noteq> SOURCE_REPO_SYNC" "SOURCE_REPO_SYNC \<noteq> FILES"
  "FILES_TMP \<noteq> SOURCE_REPO_SYNC" "SOURCE_REPO_SYNC \<noteq> FILES_TMP" "file_key p = file_key q \<longleftrightarrow> p = q"
  by (simp_all add: file_key_def FILES_def FILES_TMP_def SOURCE_REPO_SYNC_def)

text \<open>What the hash of a file holds after the scan.\<close>

definition file_entry :: "'db source_env \<Rightarrow> FileData \<Rightarrow> string \<rightharpoonup> string" where
  "file_entry env e =
     [''size'' \<mapsto> Itoa (fd_Size e), ''modTime'' \<mapsto> sv_String env (fd_ModTime e), ''sha256'' \<mapsto> fd_Sha256 e]"

text \<open>The last entry of the listing with a path.\<close>

definition last_entry :: "FileData list \<Rightarrow> string \<rightharpoonup> FileData" where
  "last_entry fds = map_of (rev (map (\<lambda>e. (fd_Path e, e)) fds))"

lemma last_entry_Cons: "last_entry (e # fds) p = (case last_entry fds p of None \<Rightarrow> if p = fd_Path e then Some e else None | Some d \<Rightarrow> Some d)"
  by (auto simp: last_entry_def map_add_def split: option.splits)

lemma tmp_run:
  "is_set s FILES_TMP \<Longrightarrow>
   \<exists>rs s'. redis_cmds s (map (\<lambda>e. SADD FILES_TMP [fd_Path e]) fds) = Some (rs, s') \<and> is_set s' FILES_TMP \<and>
     members s' FILES_TMP = members s FILES_TMP \<union> fd_Path ` set fds \<and> eq_off {FILES_TMP} s s' \<and> published s' = published s"
proof (induction fds arbitrary: s)
  case (Cons e fds)
  obtain q s1 where 1: "redis_cmd s (SADD FILES_TMP [fd_Path e]) = Some (q, s1)" "is_set s1 FILES_TMP"
    "members s1 FILES_TMP = insert (fd_Path e) (members s FILES_TMP)" "\<forall>k'. k' \<noteq> FILES_TMP \<longrightarrow> keys s1 k' = keys s k'"
    "published s1 = published s"
    using cmd_SADD [OF Cons.prems] by blast
  obtain rs s' where 2: "redis_cmds s1 (map (\<lambda>e. SADD FILES_TMP [fd_Path e]) fds) = Some (rs, s')" "is_set s' FILES_TMP"
    "members s' FILES_TMP = members s1 FILES_TMP \<union> fd_Path ` set fds" "eq_off {FILES_TMP} s1 s'" "published s' = published s1"
    using Cons.IH [OF 1(2)] by blast
  then show ?case using 1 by (intro exI [of _ "q # rs"] exI [of _ s']) (auto simp: eq_off_def simp del: redis_cmd.simps)
qed simp

lemma hash_run:
  "(\<And>p. is_hash s (file_key p)) \<Longrightarrow>
   \<exists>rs s'. redis_cmds s (concat (map (hash_cmds env) fds)) = Some (rs, s') \<and> (\<forall>p. is_hash s' (file_key p)) \<and>
     eq_off (file_key ` fd_Path ` set fds) s s' \<and> published s' = published s @ map (\<lambda>e. (FILE_UPDATE, fd_Path e)) fds \<and>
     (\<forall>p e. last_entry fds p = Some e \<longrightarrow> file_entry env e \<subseteq>\<^sub>m field s' (file_key p))"
proof (induction fds arbitrary: s)
  case Nil
  then show ?case by (simp add: last_entry_def)
next
  case (Cons e fds)
  let ?k = "file_key (fd_Path e)"
  let ?as = "[(''size'', AInt (fd_Size e)), (''modTime'', AStr (sv_String env (fd_ModTime e))), (''sha256'', AStr (fd_Sha256 e))]"
  obtain q s1 where 1: "redis_cmd s (HMSET ?k ?as) = Some (q, s1)" "is_hash s1 ?k"
    "field s1 ?k = field s ?k ++ file_entry env e" "\<forall>k'. k' \<noteq> ?k \<longrightarrow> keys s1 k' = keys s k'" "published s1 = published s"
    using cmd_HMSET [OF Cons.prems [of "fd_Path e"], of ?as] by (fastforce simp: file_entry_def simp del: redis_cmd.simps)
  let ?s1 = "s1\<lparr>published := published s1 @ [(FILE_UPDATE, fd_Path e)]\<rparr>"
  have h: "is_hash ?s1 (file_key p)" for p
    using 1(2,4) Cons.prems [of p] get_cong(2) [of s1 "file_key p" s] by (cases "p = fd_Path e") auto
  obtain rs s' where 2: "redis_cmds ?s1 (concat (map (hash_cmds env) fds)) = Some (rs, s')" "\<forall>p. is_hash s' (file_key p)"
    "eq_off (file_key ` fd_Path ` set fds) ?s1 s'" "published s' = published ?s1 @ map (\<lambda>e. (FILE_UPDATE, fd_Path e)) fds"
    "\<forall>p e. last_entry fds p = Some e \<longrightarrow> file_entry env e \<subseteq>\<^sub>m field s' (file_key p)"
    using Cons.IH [OF h] by blast
  have "file_entry env d \<subseteq>\<^sub>m field s' (file_key p)" if d: "last_entry (e # fds) p = Some d" for p d
  proof (cases "last_entry fds p")
    case None
    then have p: "p \<notin> fd_Path ` set fds" "p = fd_Path e" "d = e"
      using d by (force simp: last_entry_def map_of_eq_None_iff, auto simp: last_entry_Cons split: if_splits)
    then have "file_key p \<notin> file_key ` fd_Path ` set fds" by auto
    then have "field s' (file_key p) = field s ?k ++ file_entry env e" using eq_offD(5) [OF 2(3)] 1(3) p by simp
    then show ?thesis using p by simp
  qed (use 2(5) d in \<open>simp add: last_entry_Cons\<close>)
  moreover have "eq_off (file_key ` fd_Path ` set (e # fds)) s s'" using 1(4) 2(3) by (auto simp: eq_off_def)
  moreover have "redis_cmds s (hash_cmds env e) = Some ([q, RInt 0], ?s1)"
    using 1(1) by (simp add: hash_cmds_def del: redis_cmd.simps(11))
  ultimately show ?case using redis_cmds_appendI [OF _ 2(1)] 1(5) 2(2,4) by auto
qed

lemma gone_run:
  "\<exists>rs s'. redis_cmds s (concat (map gone_cmds xs)) = Some (rs, s') \<and>
     (\<forall>k. keys s' k = (if k \<in> file_key ` set xs then None else keys s k)) \<and>
     published s' = published s @ map (\<lambda>p. (FILE_UPDATE, p)) xs"
proof (induction xs arbitrary: s)
  case (Cons x xs)
  obtain q s1 where 1: "redis_cmd s (DEL [file_key x]) = Some (q, s1)"
    "\<forall>k. keys s1 k = (if k \<in> set [file_key x] then None else keys s k)" "published s1 = published s"
    using cmd_DEL by blast
  let ?s1 = "s1\<lparr>published := published s1 @ [(FILE_UPDATE, x)]\<rparr>"
  obtain rs s' where 2: "redis_cmds ?s1 (concat (map gone_cmds xs)) = Some (rs, s')"
     "\<forall>k. keys s' k = (if k \<in> file_key ` set xs then None else keys ?s1 k)"
     "published s' = published ?s1 @ map (\<lambda>p. (FILE_UPDATE, p)) xs"
    using Cons.IH by blast
  have "redis_cmds s (gone_cmds x) = Some ([q, RInt 0], ?s1)"
    using 1(1) by (simp add: gone_cmds_def del: redis_cmd.simps(5))
  from redis_cmds_appendI [OF this 2(1)] show ?case using 1(2,3) 2(2,3) by auto
qed simp

text \<open>The keyspace a scan of the repository leaves, from the listing and the files known before.\<close>

definition reindexed :: "'db source_env \<Rightarrow> FileData list \<Rightarrow> string list \<Rightarrow> store \<Rightarrow> store \<Rightarrow> bool" where
  "reindexed env fds known s s' \<longleftrightarrow>
     members s' FILES = fd_Path ` set fds \<and> keys s' FILES_TMP = None \<and>
     (\<forall>p e. last_entry fds p = Some e \<longrightarrow> file_entry env e \<subseteq>\<^sub>m field s' (file_key p)) \<and>
     (\<forall>p \<in> set known - fd_Path ` set fds. keys s' (file_key p) = None) \<and>
     eq_off ({FILES, FILES_TMP} \<union> file_key ` (set known \<union> fd_Path ` set fds)) s s' \<and>
     published s' = published s @
       map (\<lambda>p. (FILE_UPDATE, p)) (map fd_Path fds @ filter (\<lambda>p. p \<notin> fd_Path ` set fds) known)"

lemma second_run:
  assumes h: "\<And>p. is_hash s (file_key p)" and t: "is_set s FILES_TMP" "members s FILES_TMP = fd_Path ` set fds" and ne: "fds \<noteq> []"
    and gone: "gone = filter (\<lambda>p. p \<notin> fd_Path ` set fds) known"
  shows "\<exists>rs s'. redis_cmds s (concat (map (hash_cmds env) fds) @ concat (map gone_cmds gone) @ [RENAME FILES_TMP FILES]) = Some (rs, s') \<and>
    reindexed env fds known s s'"
proof -
  obtain rs1 s1 where 1: "redis_cmds s (concat (map (hash_cmds env) fds)) = Some (rs1, s1)"
    "eq_off (file_key ` fd_Path ` set fds) s s1" "published s1 = published s @ map (\<lambda>e. (FILE_UPDATE, fd_Path e)) fds"
    "\<forall>p e. last_entry fds p = Some e \<longrightarrow> file_entry env e \<subseteq>\<^sub>m field s1 (file_key p)"
    using hash_run [of s env fds] h by metis
  obtain rs2 s2 where 2: "redis_cmds s1 (concat (map gone_cmds gone)) = Some (rs2, s2)"
    "\<forall>k. keys s2 k = (if k \<in> file_key ` set gone then None else keys s1 k)"
    "published s2 = published s1 @ map (\<lambda>p. (FILE_UPDATE, p)) gone"
    using gone_run by blast
  let ?s' = "rename_key FILES_TMP FILES s2"
  have "FILES_TMP \<notin> file_key ` P" for P by auto
  then have tmp: "keys s2 FILES_TMP = keys s FILES_TMP" using 2(2) eq_offD(1) [OF 1(2), of FILES_TMP] by simp
  have "keys s FILES_TMP \<noteq> None" using members_nonempty t(2) ne by auto
  then have 3: "redis_cmds s2 [RENAME FILES_TMP FILES] = Some ([RStatus ''OK''], ?s')" using tmp by simp
  have "members ?s' FILES = members s FILES_TMP" by (simp add: members_def get_set_def rename_key_def tmp)
  moreover have k: "keys ?s' (file_key p) = keys s2 (file_key p)" for p by (simp add: rename_key_def)
  moreover have "file_entry env e \<subseteq>\<^sub>m field ?s' (file_key p)" if e: "last_entry fds p = Some e" for p e
  proof -
    have "p \<in> fd_Path ` set fds" using e map_of_SomeD [of _ p e] by (fastforce simp: last_entry_def)
    then have "keys ?s' (file_key p) = keys s1 (file_key p)" using 2(2) gone k by auto
    then show ?thesis using 1(4) e get_cong(4) by metis
  qed
  moreover have "eq_off ({FILES, FILES_TMP} \<union> file_key ` (set known \<union> fd_Path ` set fds)) s ?s'"
    using 1(2) 2(2) gone by (auto simp: eq_off_def rename_key_def image_Un)
  ultimately have "reindexed env fds known s ?s'"
    using 1(3) 2(2,3) t(2) gone unfolding reindexed_def by (auto simp: rename_key_def)
  then show ?thesis using redis_cmds_appendI [OF 1(1) redis_cmds_appendI [OF 2(1) 3]] by blast
qed

lemma source_index_run:
  assumes up: "reliable_redis r \<alpha>" and h: "\<And>p. is_hash (\<alpha> db) (file_key p)"
    and known: "get_set (\<alpha> db) FILES = Some known" and ne: "fds \<noteq> []"
  shows "\<exists>db'. source_index env r fds db = (None, db') \<and> reindexed env fds known (\<alpha> db) (\<alpha> db')"
proof -
  let ?s = "\<alpha> db" and ?gone = "filter (\<lambda>p. p \<notin> fd_Path ` set fds) known"
  obtain q s0 where 0: "redis_cmd ?s (DEL [FILES_TMP]) = Some (q, s0)"
    "\<forall>k'. keys s0 k' = (if k' \<in> set [FILES_TMP] then None else keys ?s k')" "published s0 = published ?s"
    using cmd_DEL by blast
  have e0: "is_set s0 FILES_TMP" "members s0 FILES_TMP = {}" using 0(2) by (auto simp: members_def get_set_def)
  obtain rs s1 where 1: "redis_cmds s0 (map (\<lambda>e. SADD FILES_TMP [fd_Path e]) fds) = Some (rs, s1)" "is_set s1 FILES_TMP"
    "members s1 FILES_TMP = fd_Path ` set fds" "eq_off {FILES_TMP} s0 s1" "published s1 = published s0"
    using tmp_run [OF e0(1), of fds] e0(2) by auto
  have off: "eq_off {FILES_TMP} ?s s1" using 0(2) 1(4) by (auto simp: eq_off_def)
  have "redis_cmds ?s (DEL [FILES_TMP] # map (\<lambda>e. SADD FILES_TMP [fd_Path e]) fds) = Some (q # rs, s1)"
    using 0(1) 1(1) by (simp del: redis_cmd.simps)
  from reliable_redis.exec_effect [OF up this] obtain q1 db1 where
    d1: "conn_exec r db (DEL [FILES_TMP] # map (\<lambda>e. SADD FILES_TMP [fd_Path e]) fds) = (Inr (RMulti q1), db1)" "\<alpha> db1 = s1"
    by blast
  have k1: "get_set s1 FILES = Some known" using eq_offD(2) [OF off, of FILES] known by simp
  obtain t where t: "get_set s1 FILES_TMP = Some t" "set t = fd_Path ` set fds" using 1(2,3) by (auto simp: members_def)
  obtain db2 where d2: "conn_do r db1 (SDIFF FILES FILES_TMP) = (Inr (RMulti (map RBulk ?gone)), db2)" "\<alpha> db2 = s1"
    using reliable_redis.do_reply_effect [OF up, of db1 "SDIFF FILES FILES_TMP"] k1 t d1(2) by auto
  have v: "rd_Values (api r) (Inr (RMulti l)) = Inr l" for l
    using reliable_redis.interface [OF up] by (auto simp: redigo_ok_def conv_ok_def)
  have h1: "is_hash s1 (file_key p)" for p using eq_offD(3) [OF off, of "file_key p"] h by simp
  obtain rs2 s2 where 2: "redis_cmds s1 (concat (map (hash_cmds env) fds) @ concat (map gone_cmds ?gone) @ [RENAME FILES_TMP FILES]) = Some (rs2, s2)"
    "reindexed env fds known s1 s2"
    using second_run [OF h1 1(2,3) ne refl] by blast
  from reliable_redis.exec_effect [OF up, of db2] 2(1) d2(2) obtain q3 db3 where
    d3: "conn_exec r db2 (concat (map (hash_cmds env) fds) @ concat (map gone_cmds ?gone) @ [RENAME FILES_TMP FILES]) = (Inr (RMulti q3), db3)"
      "\<alpha> db3 = s2" by metis
  have g: "map (\<lambda>e. gone_cmds (bulk_text e)) (map RBulk ?gone) = map gone_cmds ?gone" by (simp add: comp_def)
  have "source_index env r fds db = (None, db3)"
    unfolding source_index_def d1(1) d2(1) v Let_def prod.case sum.case do_err_def option.case g d3(1) by simp
  moreover have "reindexed env fds known ?s s2"
    using 2(2) off 1(5) 0(3) unfolding reindexed_def by (auto simp: eq_off_def)
  ultimately show ?thesis using d3(2) by blast
qed

lemma source_lock_free:
  assumes up: "reliable_redis r \<alpha>" and "keys (\<alpha> db) SOURCE_REPO_SYNC = None"
  shows "\<exists>l db'. source_lock env r (Suc n) db = (Inr l, db') \<and> eq_off {SOURCE_REPO_SYNC} (\<alpha> db) (\<alpha> db') \<and>
    published (\<alpha> db') = published (\<alpha> db) \<and> lk_key l = SOURCE_REPO_SYNC \<and> lk_done l = Some Open"
proof -
  let ?c = "SETNX SOURCE_REPO_SYNC (AInt 1) (lockTTL * 1000)"
  have "redis_cmd (\<alpha> db) ?c = Some (RStatus ''OK'', put SOURCE_REPO_SYNC (Some (VStr (Itoa 1))) (\<alpha> db))"
    using assms(2) by simp
  from reliable_redis.do_reply_effect [OF up this] obtain db' where
    d: "conn_do r db ?c = (Inr (RStatus ''OK''), db')" "\<alpha> db' = put SOURCE_REPO_SYNC (Some (VStr (Itoa 1))) (\<alpha> db)" by auto
  have "rd_String (api r) (Inr (RStatus ''OK'')) = Inr ''OK''"
    using reliable_redis.interface [OF up] by (auto simp: redigo_ok_def conv_ok_def)
  then show ?thesis using d reliable_redis.ready [OF up]
    by (auto simp: ClusterLock_Get_def NewClusterLock_def eq_off_def)
qed

lemma source_unlock_run:
  assumes up: "reliable_redis r \<alpha>" and l: "lk_key l = SOURCE_REPO_SYNC" "lk_done l = Some Open"
  shows "\<exists>db'. source_unlock env r l db = Inr db' \<and> eq_off {SOURCE_REPO_SYNC} (\<alpha> db) (\<alpha> db') \<and> published (\<alpha> db') = published (\<alpha> db)"
proof -
  obtain q s' where d: "redis_cmd (\<alpha> db) (DEL [SOURCE_REPO_SYNC]) = Some (q, s')" "eq_off {SOURCE_REPO_SYNC} (\<alpha> db) s'"
    "published s' = published (\<alpha> db)"
    using cmd_DEL [of "\<alpha> db" "[SOURCE_REPO_SYNC]"] by (auto simp: eq_off_def simp del: redis_cmd.simps)
  obtain q' db1 where "conn_do r db (DEL [SOURCE_REPO_SYNC]) = (Inr q', db1)" "\<alpha> db1 = s'"
    using reliable_redis.do_effect [OF up d(1)] by blast
  then show ?thesis using l d(2,3) by (auto simp: source_unlock_def ClusterLock_Release_def keeper_done_def)
qed

lemma reindexed_frame:
  assumes "eq_off {SOURCE_REPO_SYNC} s s1" "published s1 = published s" "reindexed env fds known s1 s2"
    "eq_off {SOURCE_REPO_SYNC} s2 s3" "published s3 = published s2"
  shows "reindexed env fds known (put SOURCE_REPO_SYNC None s) (put SOURCE_REPO_SYNC None s3)"
proof -
  have k: "keys (put SOURCE_REPO_SYNC None s3) k = keys s2 k" if "k \<noteq> SOURCE_REPO_SYNC" for k
    using assms(4) that by (simp add: eq_off_def)
  have "eq_off ({FILES, FILES_TMP} \<union> file_key ` (set known \<union> fd_Path ` set fds)) (put SOURCE_REPO_SYNC None s) (put SOURCE_REPO_SYNC None s3)"
    using assms(1,3,4) unfolding reindexed_def eq_off_def by auto
  then show ?thesis using assms(2,3,5) k get_cong [OF k]
    unfolding reindexed_def by simp
qed

section \<open>Property\<close>

text \<open>
  C28: The scan of the repository replaces the index.  With a database that answers, a free lock and a
  listing whose columns can be read, \<open>ScanSource\<close> ends without error.  The known files are then exactly the
  files of the listing that pass the filters, the hash of each holds its size, time and checksum, the
  hashes of files no longer listed are gone, nothing else but the lock changed, each of these files
  was announced once per line and removal, and the scanned tree is the one in use.
\<close>

theorem ScanSource_index:
  assumes up: "reliable_redis r \<alpha>" and h: "\<And>p. is_hash (\<alpha> db) (file_key p)"
    and known: "get_set (\<alpha> db) FILES = Some known" and free: "keys (\<alpha> db) SOURCE_REPO_SYNC = None"
    and stat: "sv_Stat env (Repository (sv_cnf env)) = None" "sv_Stat env (RepositoryFileListText (sv_cnf env)) = None"
    and listing: "sv_Open env (RepositoryFileListText (sv_cnf env)) = Inr text" "ScanLines text = l1 # l2 # ls"
    and ok: "listing_ok (length l2) ls" "build_ok st" and run: "\<not> sv_stopped env"
    and files: "repository_files env (length l2) ls st = Inr (fds, st1)" "fds \<noteq> []"
  shows "\<exists>st' db'. ScanSource env r None st db = Some (Inr (None, st', db')) \<and>
    reindexed env fds known (put SOURCE_REPO_SYNC None (\<alpha> db)) (put SOURCE_REPO_SYNC None (\<alpha> db')) \<and>
    fileTree st' = fileTreeReplica st1 \<and> fileTreeReplica st' = empty_FileStore"
proof -
  obtain db1 where 1: "source_lines env r (length l2) ls st db = Inr (fds, st1, db1)" "\<alpha> db1 = \<alpha> db"
    using source_lines_reads [OF up h files(1)] by blast
  have "layers_ok st1" using repository_files_total [OF ok(2,1), of env] files(1) by (auto simp: build_ok_def)
  from UpdateFileTree_total [OF this order_refl] obtain st2 where
    2: "UpdateFileTree (length (nodes st1)) (sv_layer env) (RepositoryFilter (sv_cnf env)) st1 = Some st2"
      "fileTree st2 = fileTreeReplica st1" "fileTreeReplica st2 = empty_FileStore" by blast
  obtain l db2 where 3: "source_lock env r 10 db1 = (Inr l, db2)" "eq_off {SOURCE_REPO_SYNC} (\<alpha> db) (\<alpha> db2)"
    "published (\<alpha> db2) = published (\<alpha> db)" "lk_key l = SOURCE_REPO_SYNC" "lk_done l = Some Open"
    using source_lock_free [OF up, of db1 env 9] 1(2) free by (auto simp: numeral_eq_Suc simp del: source_lock.simps)
  have "is_hash (\<alpha> db2) (file_key p)" "get_set (\<alpha> db2) FILES = Some known" for p
    using eq_offD(2,3) [OF 3(2)] h known by simp_all
  from source_index_run [OF up this files(2)] obtain db3 where
    4: "source_index env r fds db2 = (None, db3)" "reindexed env fds known (\<alpha> db2) (\<alpha> db3)" by blast
  obtain db4 where 5: "source_unlock env r l db3 = Inr db4" "eq_off {SOURCE_REPO_SYNC} (\<alpha> db3) (\<alpha> db4)"
    "published (\<alpha> db4) = published (\<alpha> db3)"
    using source_unlock_run [OF up 3(4,5)] by blast
  have "ScanSource env r None st db = Some (Inr (None, st2, db4))"
    using reliable_redis.ready [OF up] stat listing run 1(1) 2(1) 3(1) 4(1) 5(1) by (simp add: ScanSource_def)
  then show ?thesis using reindexed_frame [OF 3(2,3) 4(2) 5(2,3)] 2(2,3) by blast
qed

definition demo_listing :: string where
  "demo_listing = ''x'' @ [CHR 0x0A] @ ''   2024/08/08 11:01:29 .'' @ [CHR 0x0D, CHR 0x0A] @ '' 7 2024/08/08 11:01:29 openEuler-1/ISO/a.iso'' @ [CHR 0x0A]"

definition demo_source :: "store source_env" where
  "demo_source =
     \<lparr>sv_layer = demo_lenv, sv_cnf = defaultConfig '''', sv_Stat = (\<lambda>_. None), sv_IsNotExist = (\<lambda>_. False),
      sv_Open = (\<lambda>_. Inr demo_listing), sv_String = (\<lambda>_. ''''), sv_now = 0, sv_stopped = False, sv_wait = (\<lambda>_ db. db), sv_ticked = False\<rparr>"

theorem ScanSource_index_witness:
  "\<exists>fds st' db'. map fd_Path fds = [''openEuler-1/ISO/a.iso''] \<and>
     ScanSource demo_source ref_client None (init_layers\<lparr>pathFilter := [''ISO'']\<rparr>)
       (empty_store\<lparr>keys := [''FILES'' \<mapsto> VSet [''old'']]\<rparr>) = Some (Inr (None, st', db')) \<and>
     reindexed demo_source fds [''old''] (put SOURCE_REPO_SYNC None (empty_store\<lparr>keys := [''FILES'' \<mapsto> VSet [''old'']]\<rparr>))
       (put SOURCE_REPO_SYNC None db')"
proof -
  let ?st = "init_layers\<lparr>pathFilter := [''ISO'']\<rparr>" and ?db = "empty_store\<lparr>keys := [''FILES'' \<mapsto> VSet [''old'']]\<rparr>"
  let ?l2 = "''   2024/08/08 11:01:29 .''" and ?ls = "['' 7 2024/08/08 11:01:29 openEuler-1/ISO/a.iso'']"
  have st: "build_ok ?st"
    by (simp add: build_ok_def layers_ok_def heap_ok_def store_ok_def linked_def tree_inv_empty init_layers_def empty_FileStore_def zero_LayerFile_def)
  have lines: "ScanLines demo_listing = ''x'' # ?l2 # ?ls"
    by (simp add: ScanLines_def demo_listing_def drop_cr_def)
  have sz: "covertFileSize '' 7'' = Inr 7"
    using covert_after_blank [of "''7''" "''''"] demo_ParseInt by simp
  then have ok: "listing_ok (length ?l2) ?ls" by (simp add: listing_ok_def)
  have flt: "Filter ?st ''openEuler-1/ISO/a.iso''" by code_simp
  have sel: "select_line demo_source (length ?l2) (hd ?ls) ?st =
      BuildFileTree demo_lenv (defaultConfig '''') ''openEuler-1/ISO/a.iso'' '' 7'' ''2024/08/08 11:01:29'' ?st"
    using flt by (simp add: select_line_def demo_source_def defaultConfig_def)
  obtain d st1 where d: "select_line demo_source (length ?l2) (hd ?ls) ?st = Inr (Some d, st1)" "fd_Path d = ''openEuler-1/ISO/a.iso''"
    using BuildFileTree_builds [OF st sz, of "''2024/08/08 11:01:29''" demo_lenv "defaultConfig ''''" "''openEuler-1/ISO/a.iso''"]
    unfolding sel by auto
  define fds where "fds = [d]"
  have f: "repository_files demo_source (length ?l2) ?ls ?st = Inr (fds, st1)" and p: "map fd_Path fds = [''openEuler-1/ISO/a.iso'']"
    using d by (simp_all add: fds_def)
  have ne: "fds \<noteq> []" by (simp add: fds_def)
  have db: "is_hash ?db (file_key p)" "get_set ?db FILES = Some [''old'']" "keys ?db SOURCE_REPO_SYNC = None" for p
    by (simp_all add: get_hash_def get_set_def file_key_def FILES_def SOURCE_REPO_SYNC_def empty_store_def)
  have e: "sv_Stat demo_source x = None" "sv_Open demo_source x = Inr demo_listing" "\<not> sv_stopped demo_source" for x
    by (simp_all add: demo_source_def)
  from ScanSource_index [OF ref_up.reliable_redis_axioms, of ?db "[''old'']" demo_source demo_listing "''x''" ?l2 ?ls ?st fds st1,
      unfolded id_apply, OF db e(1,1,2) lines ok st e(3) f ne]
  show ?thesis using p by (intro exI [of _ fds]) auto
qed

end
