(* ===== verification/Monitor.thy ===== *)
theory Monitor
  imports Source_Scan Cluster
begin

text \<open>
  The monitor (\<^verbatim>\<open>daemon/monitor.go\<close>): the list of mirrors with their flags, the health check, the loop
  that hands mirrors to the workers, and the workers.  The bodies of the workers are functions on the
  database and the network; the interleaving of the loops is a step relation on the shared state.
\<close>

section \<open>State\<close>

record mirror =
  mm_Mirror :: Mirror
  mm_checking :: bool
  mm_scanning :: bool
  mm_lastCheck :: gotime

definition healthCheckThreads :: nat where "healthCheckThreads = 10"
definition errRedirect :: err where "errRedirect = ErrMsg ''Redirect not allowed''"

definition NeedHealthCheck :: "gotime \<Rightarrow> mirror \<Rightarrow> int \<Rightarrow> bool" where
  "NeedHealthCheck now m checkInterval \<longleftrightarrow> wrap64 (checkInterval * time_Minute) < time_Sub now (mm_lastCheck m)"

definition NeedSync :: "gotime \<Rightarrow> mirror \<Rightarrow> int \<Rightarrow> bool" where
  "NeedSync now m scanInterval \<longleftrightarrow> wrap64 (scanInterval * time_Minute) < time_Sub now (LastSync (mm_Mirror m))"

definition mirror_IsScanning :: "mirror \<Rightarrow> bool" where
  "mirror_IsScanning m = mm_scanning m"

definition IsChecking :: "mirror \<Rightarrow> bool" where
  "IsChecking m = mm_checking m"

text \<open>
  A worker of the health check waits, or holds the copy of a mirror, or has returned.  A worker of the
  synchronisation waits, has received a number, scans, is about to send the number to the health check,
  or has returned.  \<open>mon_health\<close> is the buffer of \<open>healthCheckChan\<close>; \<open>syncChan\<close> has none.
\<close>

datatype checker = HWait | HCheck int mirror | HGone

datatype syncer = SWait | STaken int | SScan int mirror | SNotify int | SGone

record monitor =
  mon_mirrors :: "int \<rightharpoonup> mirror"
  mon_health :: "int list"
  mon_cap :: nat
  mon_stopped :: bool
  mon_formatLongestID :: nat
  mon_cluster :: cluster
  mon_checkers :: "checker list"
  mon_syncers :: "syncer list"

definition NewMonitor :: "string \<Rightarrow> nat \<Rightarrow> int \<Rightarrow> monitor" where
  "NewMonitor host rnd redisDB =
     \<lparr>mon_mirrors = Map.empty, mon_health = [], mon_cap = healthCheckThreads * 5, mon_stopped = False,
      mon_formatLongestID = 0, mon_cluster = NewCluster host rnd redisDB, mon_checkers = [], mon_syncers = []\<rparr>"

definition monitor_Stop :: "monitor \<Rightarrow> monitor" where
  "monitor_Stop m =
     (if mon_stopped m then m else m\<lparr>mon_cluster := cluster_Stop (mon_cluster m), mon_stopped := True\<rparr>)"

definition checkRedirect :: "Configuration \<Rightarrow> Redirects \<Rightarrow> err option" where
  "checkRedirect cnf redirects = (if Redirects_Allowed cnf redirects then None else Some errRedirect)"

section \<open>Health check\<close>

definition getRandomFile :: "'db client \<Rightarrow> 'db \<Rightarrow> int \<Rightarrow> (err + string \<times> int) \<times> 'db" where
  "getRandomFile r db i =
     (let (rep, db1) = conn_do r db (SRANDMEMBER (handled_key i))
      in case rd_String (api r) rep of
           Inl e \<Rightarrow> (Inl e, db1)
         | Inr file \<Rightarrow>
             (let (rep2, db2) = conn_do r db1 (HGET (file_key file) ''size'')
              in (case rd_Int (api r) rep2 of Inl e \<Rightarrow> Inl e | Inr sz \<Rightarrow> Inr (file, sz), db2)))"

text \<open>The reasons that the health check records.\<close>

definition reason_404 :: "string \<Rightarrow> string" where
  "reason_404 file = ''File not found '' @ file @ '' (error 404)''"

definition reason_status :: "int \<Rightarrow> string" where
  "reason_status code = ''Got status code '' @ Itoa code"

definition healthCheck ::
    "('db, 'w) scan_env \<Rightarrow> Configuration \<Rightarrow> gotime \<Rightarrow> bool \<Rightarrow> Mirror \<Rightarrow> 'db \<Rightarrow> 'w \<Rightarrow> err option \<times> 'db \<times> 'w" where
  "healthCheck env cnf now stopped m db w =
     (let r = se_client env; J = se_json env; i = ID m
      in case getRandomFile r db i of
           (Inl e, db1) \<Rightarrow> (Some (if e = ErrNil then ErrMirrorNotScanned else e), db1, w)
         | (Inr (file, sz), db1) \<Rightarrow>
             if stopped then (None, db1, w)
             else (case hc_Head (se_http env) w (ConcatURL (HttpURL m) file) of
                     (Inl e, w1) \<Rightarrow>
                       (Some e,
                        snd (MarkMirrorDown J r now db1 i
                               (if Contains (se_Error env e) (se_Error env errRedirect) then ''Unauthorized redirect'' else ''Unreachable'')),
                        w1)
                   | (Inr head, w1) \<Rightarrow>
                       if hr_StatusCode head = 200 then (None, snd (MarkMirrorUp J r now db1 i), w1)
                       else if hr_StatusCode head = 404 then
                         (let db2 = snd (MarkMirrorDown J r now db1 i (reason_404 file))
                          in (None, if DisableOnMissingFile cnf then snd (DisableMirror J r now db2 i) else db2, w1))
                       else (None, snd (MarkMirrorDown J r now db1 i (reason_status (hr_StatusCode head))), w1)))"

section \<open>The list of mirrors\<close>

definition mirrorsID :: "'db client \<Rightarrow> err option \<Rightarrow> ((int \<rightharpoonup> string) \<Rightarrow> int list) \<Rightarrow> 'db \<Rightarrow> (err + int list) gores \<times> 'db" where
  "mirrorsID r connErr order db =
     (case GetListOfMirrors r connErr db of
        (Inl p, db') \<Rightarrow> (Inl p, db')
      | (Inr (Inl e), db') \<Rightarrow> (Inr (Inl e), db')
      | (Inr (Inr l), db') \<Rightarrow> (Inr (Inr (order l)), db'))"

text \<open>The body of the loop of \<open>syncMirrorList\<close> on the answer of the cache.\<close>

definition sync_entry :: "int \<Rightarrow> Mirror \<times> err option \<Rightarrow> monitor \<Rightarrow> monitor" where
  "sync_entry i res m =
     (case res of
        (mir, Some e) \<Rightarrow>
          if e \<noteq> ErrNil then m
          else m\<lparr>mon_mirrors := (mon_mirrors m)(i := None), mon_cluster := RemoveMirrorID (mon_cluster m) i\<rparr>
      | (mir, None) \<Rightarrow>
          m\<lparr>mon_formatLongestID := max (mon_formatLongestID m) (length (Name mir)),
            mon_cluster := cluster_AddMirror (mon_cluster m) (ID mir),
            mon_mirrors := (mon_mirrors m)(ID mir \<mapsto>
              (case mon_mirrors m (ID mir) of
                 Some tmp \<Rightarrow> tmp\<lparr>mm_Mirror := mir\<rparr>
               | None \<Rightarrow> \<lparr>mm_Mirror = mir, mm_checking = False, mm_scanning = False, mm_lastCheck = 0\<rparr>))\<rparr>)"

fun syncMirrorList :: "'db cache_env \<Rightarrow> gotime \<Rightarrow> int list \<Rightarrow> monitor \<Rightarrow> Cache \<Rightarrow> 'db \<Rightarrow> (monitor \<times> Cache \<times> 'db) gores" where
  "syncMirrorList env now [] m c db = Inr (m, c, db)"
| "syncMirrorList env now (i # is) m c db =
     (case GetMirror env now c db i of
        Inl p \<Rightarrow> Inl p
      | Inr (res, c1, db1) \<Rightarrow> syncMirrorList env now is (sync_entry i res m) c1 db1)"

section \<open>The local repository\<close>

text \<open>
  The file that locks the sources: whether it exists, and whether each of the three attempts to create
  and to remove it succeeds.
\<close>

definition scanRepository ::
    "(nat \<Rightarrow> bool) \<Rightarrow> (nat \<Rightarrow> bool) \<Rightarrow> 'db source_env \<Rightarrow> 'db client \<Rightarrow> err option \<Rightarrow> bool \<times> layers \<times> 'db \<Rightarrow>
       (err option \<times> bool \<times> layers \<times> 'db) gores option" where
  "scanRepository create_ok remove_ok env r connErr s =
     (case s of (locked, st, db) \<Rightarrow>
        if \<not> (locked \<or> list_ex create_ok [0, 1, 2])
        then Some (Inr (Some (ErrMsg ''before do scanning job, failed lock the sources''), False, st, db))
        else (case ScanSource env r connErr st db of
                None \<Rightarrow> None
              | Some (Inl p) \<Rightarrow> Some (Inl p)
              | Some (Inr (e, st', db')) \<Rightarrow> Some (Inr (e, \<not> list_ex remove_ok [0, 1, 2], st', db'))))"

text \<open>
  \<open>retry\<close> with fuel for its calls of \<open>fn\<close>; \<open>stops i\<close> tells that the stop channel was closed before the
  timer fired after call \<open>i\<close>.  The result tells how it ended, with the state and the number of calls.
\<close>

datatype 'a retried = Succeeded nat 'a | Interrupted nat 'a | Hangs nat 'a

fun retry :: "nat \<Rightarrow> (nat \<Rightarrow> 'a \<Rightarrow> err option \<times> 'a) \<Rightarrow> (nat \<Rightarrow> bool) \<Rightarrow> gotime \<Rightarrow> duration \<Rightarrow> nat \<Rightarrow> timer \<Rightarrow> 'a \<Rightarrow> 'a retried option" where
  "retry 0 fn stops now delay i timer s = None"
| "retry (Suc fuel) fn stops now delay i timer s =
     (case fn i s of
        (None, s1) \<Rightarrow> Some (Succeeded (Suc i) s1)
      | (Some e, s1) \<Rightarrow>
          if stops i then Some (Interrupted (Suc i) s1)
          else (case timer_recv (timer_at (now + delay) timer) of
                  None \<Rightarrow> Some (Hangs (Suc i) s1)
                | Some t \<Rightarrow>
                    (case stop_and_drain t of
                       None \<Rightarrow> Some (Hangs (Suc i) s1)
                     | Some _ \<Rightarrow> retry fuel fn stops (now + delay) delay (Suc i) (timer_Reset (now + delay) delay) s1)))"

section \<open>Handing out mirrors\<close>

record mon_env =
  me_cnf :: Configuration
  me_pick :: "syncer list \<Rightarrow> nat option"
  me_unknown :: bool

text \<open>
  \<open>me_pick\<close> is the worker that receives from \<open>syncChan\<close>, if one waits; \<open>me_unknown\<close> is the answer of
  \<open>IsHandled\<close> as long as the list of nodes is empty, where it converts a quotient by zero.
\<close>

definition handled :: "mon_env \<Rightarrow> monitor \<Rightarrow> int \<Rightarrow> bool" where
  "handled env m i = (case IsHandled (mon_cluster m) i of Some b \<Rightarrow> b | None \<Rightarrow> me_unknown env)"

definition offer_check :: "mon_env \<Rightarrow> gotime \<Rightarrow> int \<Rightarrow> mirror \<Rightarrow> monitor \<Rightarrow> monitor" where
  "offer_check env now i v m =
     (if NeedHealthCheck now v (CheckInterval (me_cnf env)) \<and> \<not> IsChecking v \<and> handled env m i \<and>
         length (mon_health m) < mon_cap m
      then m\<lparr>mon_health := mon_health m @ [i], mon_mirrors := (mon_mirrors m)(i \<mapsto> v\<lparr>mm_checking := True\<rparr>)\<rparr>
      else m)"

definition offer_sync :: "mon_env \<Rightarrow> gotime \<Rightarrow> int \<Rightarrow> mirror \<Rightarrow> monitor \<Rightarrow> monitor" where
  "offer_sync env now i v m =
     (if NeedSync now v (ScanInterval (me_cnf env)) \<and> \<not> mirror_IsScanning v \<and> handled env m i
      then (case me_pick env (mon_syncers m) of
              Some k \<Rightarrow> m\<lparr>mon_syncers := (mon_syncers m)[k := STaken i], mon_mirrors := (mon_mirrors m)(i \<mapsto> v\<lparr>mm_scanning := True\<rparr>)\<rparr>
            | None \<Rightarrow> m)
      else m)"

text \<open>The body of the loop over the mirrors; the values of the map are pointers.\<close>

definition tick_mirror :: "mon_env \<Rightarrow> gotime \<Rightarrow> int \<Rightarrow> monitor \<Rightarrow> monitor" where
  "tick_mirror env now i m =
     (case mon_mirrors m i of
        None \<Rightarrow> m
      | Some v \<Rightarrow>
          if \<not> Enabled (mm_Mirror v) then m
          else let m1 = offer_check env now i v m
               in (case mon_mirrors m1 i of None \<Rightarrow> m1 | Some v1 \<Rightarrow> offer_sync env now i v1 m1))"

definition check_tick :: "mon_env \<Rightarrow> gotime \<Rightarrow> bool \<Rightarrow> int list \<Rightarrow> monitor \<Rightarrow> monitor" where
  "check_tick env now redisFailure ids m = (if redisFailure then m else fold (tick_mirror env now) ids m)"

section \<open>The workers\<close>

text \<open>A health worker that received a number, and what it does after the check.\<close>

definition health_take :: "nat \<Rightarrow> int \<Rightarrow> monitor \<Rightarrow> monitor" where
  "health_take k i m =
     (if mon_stopped m then m\<lparr>mon_checkers := (mon_checkers m)[k := HGone]\<rparr>
      else (case mon_mirrors m i of
              None \<Rightarrow> m
            | Some v \<Rightarrow> m\<lparr>mon_checkers := (mon_checkers m)[k := HCheck i v]\<rparr>))"

definition health_release :: "gotime \<Rightarrow> nat \<Rightarrow> int \<Rightarrow> err option \<Rightarrow> monitor \<Rightarrow> monitor" where
  "health_release now k i e m =
     (let m1 = m\<lparr>mon_checkers := (mon_checkers m)[k := HWait]\<rparr>
      in if e = Some ErrMirrorNotScanned then m1
         else (case mon_mirrors m i of
                 None \<Rightarrow> m1
               | Some v \<Rightarrow>
                   m1\<lparr>mon_mirrors := (mon_mirrors m)(i \<mapsto>
                        v\<lparr>mm_lastCheck := (if RedisIsLoading e then mm_lastCheck v else now), mm_checking := False\<rparr>)\<rparr>))"

text \<open>
  The synchronisation of one mirror up to the label \<open>end\<close>; the answer tells whether the number is sent
  to the health check.  The fetch of the trace file runs in a goroutine of its own, \<open>GetLastUpdate\<close>.
\<close>

definition sync_mirror ::
    "('db, 'w) scan_env \<Rightarrow> layers \<Rightarrow> mirror \<Rightarrow> int \<Rightarrow> ('db, 'w) scan_state \<Rightarrow> (bool \<times> ('db, 'w) scan_state) gores" where
  "sync_mirror env st mir i ss =
     (case IsScanning (se_client env) (ss_db ss) i of
        (Inl e, db1) \<Rightarrow> Inr (False, ss\<lparr>ss_db := db1\<rparr>)
      | (Inr True, db1) \<Rightarrow> Inr (False, ss\<lparr>ss_db := db1\<rparr>)
      | (Inr False, db1) \<Rightarrow>
          (let M = mm_Mirror mir; ss1 = ss\<lparr>ss_db := db1\<rparr>
           in case (if Enabled M = True \<and> HttpURL M \<noteq> '''' then Scan env st HTTP (HttpURL M) i ss1 else Inr (Inl ErrNoSyncMethod, ss1)) of
                Inl p \<Rightarrow> Inl p
              | Inr (Inl e, ss2) \<Rightarrow> Inr (False, ss2)
              | Inr (Inr res, ss2) \<Rightarrow> Inr (Enabled M = True \<and> Up M = False, ss2)))"

definition sync_take :: "nat \<Rightarrow> int \<Rightarrow> monitor \<Rightarrow> monitor" where
  "sync_take k i m =
     m\<lparr>mon_syncers := (mon_syncers m)[k := (case mon_mirrors m i of None \<Rightarrow> SWait | Some v \<Rightarrow> SScan i v)]\<rparr>"

text \<open>From the label \<open>end\<close>.\<close>

definition sync_end :: "nat \<Rightarrow> int \<Rightarrow> monitor \<Rightarrow> monitor" where
  "sync_end k i m =
     m\<lparr>mon_syncers := (mon_syncers m)[k := SWait],
       mon_mirrors := (case mon_mirrors m i of
                         None \<Rightarrow> mon_mirrors m
                       | Some v \<Rightarrow> (mon_mirrors m)(i \<mapsto> v\<lparr>mm_scanning := False\<rparr>))\<rparr>"

text \<open>After the two calls of \<open>retry\<close>: the workers are started unless the monitor is stopped.\<close>

definition start_workers :: "mon_env \<Rightarrow> monitor \<Rightarrow> monitor" where
  "start_workers env m =
     (if mon_stopped m then m
      else m\<lparr>mon_cluster := cluster_Start (mon_cluster m), mon_checkers := replicate healthCheckThreads HWait,
             mon_syncers := replicate (nat (ConcurrentSync (me_cnf env))) SWait\<rparr>)"

section \<open>The interleaving\<close>

text \<open>
  The steps of the goroutines that share the monitor.  A health check may end with any result and a scan
  with any outcome; the number is sent to the health check only for a mirror that was enabled and down
  when its worker copied it.
\<close>

inductive mon_step :: "mon_env \<Rightarrow> monitor \<Rightarrow> monitor \<Rightarrow> bool" for env :: mon_env where
  tick: "distinct ids \<Longrightarrow> set ids = dom (mon_mirrors m) \<Longrightarrow> mon_step env m (check_tick env now f ids m)"
| update: "mon_step env m (sync_entry i res m)"
| cluster: "mon_step env m (m\<lparr>mon_cluster := c\<rparr>)"
| check: "k < length (mon_checkers m) \<Longrightarrow> mon_checkers m ! k = HWait \<Longrightarrow> mon_health m = i # is \<Longrightarrow>
    mon_step env m (health_take k i (m\<lparr>mon_health := is\<rparr>))"
| checked: "k < length (mon_checkers m) \<Longrightarrow> mon_checkers m ! k = HCheck i v \<Longrightarrow> mon_step env m (health_release now k i e m)"
| take: "k < length (mon_syncers m) \<Longrightarrow> mon_syncers m ! k = STaken i \<Longrightarrow> mon_step env m (sync_take k i m)"
| finish: "k < length (mon_syncers m) \<Longrightarrow> mon_syncers m ! k = SScan i v \<Longrightarrow> mon_step env m (sync_end k i m)"
| scanned: "k < length (mon_syncers m) \<Longrightarrow> mon_syncers m ! k = SScan i v \<Longrightarrow> Enabled (mm_Mirror v) \<Longrightarrow> \<not> Up (mm_Mirror v) \<Longrightarrow>
    mon_step env m (m\<lparr>mon_syncers := (mon_syncers m)[k := SNotify i]\<rparr>)"
| notify: "k < length (mon_syncers m) \<Longrightarrow> mon_syncers m ! k = SNotify i \<Longrightarrow> length (mon_health m) < mon_cap m \<Longrightarrow>
    mon_step env m (sync_end k i (m\<lparr>mon_health := mon_health m @ [i]\<rparr>))"
| stop: "mon_step env m (monitor_Stop m)"
| leave_check: "mon_stopped m \<Longrightarrow> k < length (mon_checkers m) \<Longrightarrow> mon_checkers m ! k = HWait \<Longrightarrow>
    mon_step env m (m\<lparr>mon_checkers := (mon_checkers m)[k := HGone]\<rparr>)"
| leave_sync: "mon_stopped m \<Longrightarrow> k < length (mon_syncers m) \<Longrightarrow> mon_syncers m ! k = SWait \<Longrightarrow>
    mon_step env m (m\<lparr>mon_syncers := (mon_syncers m)[k := SGone]\<rparr>)"

text \<open>Runs all of whose states satisfy a condition.\<close>

inductive mon_run :: "mon_env \<Rightarrow> (monitor \<Rightarrow> bool) \<Rightarrow> monitor \<Rightarrow> monitor \<Rightarrow> bool"
  for env :: mon_env and P :: "monitor \<Rightarrow> bool" and m :: monitor where
  start: "P m \<Longrightarrow> mon_run env P m m"
| move: "mon_run env P m m' \<Longrightarrow> mon_step env m' m'' \<Longrightarrow> P m'' \<Longrightarrow> mon_run env P m m''"

text \<open>The runtime hands a value to a worker that waits.\<close>

definition pick_ok :: "mon_env \<Rightarrow> bool" where
  "pick_ok env \<longleftrightarrow> (\<forall>ws k. me_pick env ws = Some k \<longrightarrow> k < length ws \<and> ws ! k = SWait)"

fun job :: "syncer \<Rightarrow> int option" where
  "job (STaken i) = Some i"
| "job (SScan i v) = Some i"
| "job (SNotify i) = Some i"
| "job _ = None"

text \<open>The mirrors that workers are busy with are still on the list.\<close>

definition jobs_listed :: "monitor \<Rightarrow> bool" where
  "jobs_listed m \<longleftrightarrow> (\<forall>k < length (mon_syncers m). \<forall>i. job (mon_syncers m ! k) = Some i \<longrightarrow> mon_mirrors m i \<noteq> None)"

definition jobs_ok :: "syncer list \<Rightarrow> (int \<rightharpoonup> mirror) \<Rightarrow> bool" where
  "jobs_ok ws M \<longleftrightarrow>
     (\<forall>k < length ws. \<forall>i. job (ws ! k) = Some i \<longrightarrow>
        (\<exists>v. M i = Some v \<and> mm_scanning v) \<and> (\<forall>l < length ws. job (ws ! l) = Some i \<longrightarrow> l = k))"

abbreviation jobs_inv :: "monitor \<Rightarrow> bool" where
  "jobs_inv m \<equiv> jobs_ok (mon_syncers m) (mon_mirrors m)"

section \<open>One scan at a time\<close>

text \<open>A change that gives no worker a new job and clears no flag of a mirror that stays.\<close>

lemma jobs_ok_keep:
  assumes "jobs_ok ws M" and "length ws' = length ws"
    and "\<And>k i. k < length ws \<Longrightarrow> job (ws' ! k) = Some i \<Longrightarrow> job (ws ! k) = Some i"
    and "\<And>k i v. k < length ws \<Longrightarrow> job (ws' ! k) = Some i \<Longrightarrow> M i = Some v \<Longrightarrow> mm_scanning v \<Longrightarrow>
      \<exists>v'. M' i = Some v' \<and> mm_scanning v'"
  shows "jobs_ok ws' M'"
  using assms unfolding jobs_ok_def by metis

lemma jobs_ok_give:
  assumes ok: "jobs_ok ws M" and v: "M i = Some v" "\<not> mm_scanning v" and k: "k < length ws" "ws ! k = SWait"
  shows "jobs_ok (ws[k := STaken i]) (M(i \<mapsto> v\<lparr>mm_scanning := True\<rparr>))"
proof -
  have free: "job (ws ! l) \<noteq> Some i" if "l < length ws" for l
    using ok v that unfolding jobs_ok_def by (metis option.inject)
  show ?thesis unfolding jobs_ok_def
  proof (intro allI impI)
    fix l j assume "l < length (ws[k := STaken i])" "job (ws[k := STaken i] ! l) = Some j"
    then show "(\<exists>v'. (M(i \<mapsto> v\<lparr>mm_scanning := True\<rparr>)) j = Some v' \<and> mm_scanning v') \<and>
        (\<forall>n < length (ws[k := STaken i]). job (ws[k := STaken i] ! n) = Some j \<longrightarrow> n = l)"
      using ok free k unfolding jobs_ok_def by (cases "l = k") (auto simp: nth_list_update split: if_splits)
  qed
qed

lemma offer_check_jobs:
  assumes "jobs_inv m" "mon_mirrors m i = Some v"
  shows "jobs_inv (offer_check env now i v m)"
  by (rule jobs_ok_keep [OF assms(1)]) (use assms(2) in \<open>auto simp: offer_check_def split: if_splits\<close>)

lemma offer_sync_jobs:
  assumes "pick_ok env" "jobs_inv m" "mon_mirrors m i = Some v"
  shows "jobs_inv (offer_sync env now i v m)"
  using assms jobs_ok_give [OF assms(2,3)]
  by (auto simp: offer_sync_def mirror_IsScanning_def pick_ok_def split: option.splits)

lemma tick_jobs: "pick_ok env \<Longrightarrow> jobs_inv m \<Longrightarrow> jobs_inv (tick_mirror env now i m)"
  using offer_check_jobs offer_sync_jobs by (auto simp: tick_mirror_def Let_def split: option.splits)

lemma check_tick_jobs: "pick_ok env \<Longrightarrow> jobs_inv m \<Longrightarrow> jobs_inv (check_tick env now f ids m)"
  unfolding check_tick_def by (induction ids arbitrary: m) (auto simp: tick_jobs)

lemma sync_entry_jobs:
  assumes "jobs_inv m" "jobs_listed (sync_entry i res m)"
  shows "jobs_inv (sync_entry i res m)"
proof (rule jobs_ok_keep [OF assms(1)])
  fix k j v assume *: "k < length (mon_syncers m)" "job (mon_syncers (sync_entry i res m) ! k) = Some j" "mon_mirrors m j = Some v" "mm_scanning v"
  then have "mon_mirrors (sync_entry i res m) j \<noteq> None"
    using assms(2) unfolding jobs_listed_def by (auto simp: sync_entry_def split: prod.splits option.splits if_splits)
  then show "\<exists>v'. mon_mirrors (sync_entry i res m) j = Some v' \<and> mm_scanning v'"
    using * by (auto simp: sync_entry_def split: prod.splits option.splits if_splits)
qed (auto simp: sync_entry_def split: prod.splits option.splits if_splits)

lemma worker_jobs:
  assumes "jobs_inv m" "k < length (mon_syncers m)" "job w = None \<or> job w = job (mon_syncers m ! k)"
  shows "jobs_ok ((mon_syncers m)[k := w]) (mon_mirrors m)"
proof (rule jobs_ok_keep [OF assms(1)])
  show "job (mon_syncers m ! l) = Some i" if "l < length (mon_syncers m)" "job ((mon_syncers m)[k := w] ! l) = Some i" for l i
    using that assms(2,3) by (cases "l = k") auto
qed simp_all

lemma sync_end_jobs:
  assumes "jobs_inv m" "k < length (mon_syncers m)" "job (mon_syncers m ! k) = Some i"
  shows "jobs_inv (sync_end k i m)"
proof (rule jobs_ok_keep [OF assms(1)])
  fix l j v assume *: "l < length (mon_syncers m)" "job (mon_syncers (sync_end k i m) ! l) = Some j" "mon_mirrors m j = Some v" "mm_scanning v"
  then have "l \<noteq> k" by (auto simp: sync_end_def)
  then have "j \<noteq> i" using * assms unfolding jobs_ok_def by (auto simp: sync_end_def)
  then show "\<exists>v'. mon_mirrors (sync_end k i m) j = Some v' \<and> mm_scanning v'" using * by (auto simp: sync_end_def split: option.splits)
next
  show "job (mon_syncers m ! l) = Some j" if "l < length (mon_syncers m)" "job (mon_syncers (sync_end k i m) ! l) = Some j" for l j
    using that assms(2) by (cases "l = k") (auto simp: sync_end_def)
qed (simp add: sync_end_def)

lemma health_release_jobs: "jobs_inv m \<Longrightarrow> jobs_inv (health_release now k i e m)"
  by (rule jobs_ok_keep) (auto simp: health_release_def Let_def split: option.splits)

lemma step_jobs:
  assumes "mon_step env m m'" "pick_ok env" "jobs_inv m" "jobs_listed m'"
  shows "jobs_inv m'"
  using assms
proof (cases rule: mon_step.cases)
  case (take k i)
  then show ?thesis using worker_jobs [OF assms(3), of k] by (auto simp: sync_take_def split: option.splits)
next
  case (notify k i)
  then show ?thesis using sync_end_jobs [of "m\<lparr>mon_health := mon_health m @ [i]\<rparr>" k i] assms(3) by simp
qed (use assms check_tick_jobs sync_entry_jobs sync_end_jobs worker_jobs health_release_jobs in
    \<open>auto simp: health_take_def monitor_Stop_def split: option.splits\<close>)

section \<open>Properties\<close>

text \<open>
  C31: A node scans a mirror once at a time.  However the loop, the updates of the list and the workers
  interleave, no two workers of the synchronisation are busy with the same mirror, as long as the
  mirrors they are busy with stay on the list.
\<close>

theorem sync_exclusive:
  assumes "pick_ok env" and "mon_run env jobs_listed (start_workers env (NewMonitor host rnd n)) m"
    and "k < length (mon_syncers m)" "l < length (mon_syncers m)" "k \<noteq> l"
  shows "job (mon_syncers m ! k) = None \<or> job (mon_syncers m ! k) \<noteq> job (mon_syncers m ! l)"
proof -
  have "jobs_inv m" using assms(2)
  proof induction
    case start
    show ?case by (simp add: start_workers_def NewMonitor_def jobs_ok_def)
  next
    case (move m' m'')
    then show ?case using step_jobs [OF _ assms(1)] by blast
  qed
  then show ?thesis using assms(3-5) unfolding jobs_ok_def by (cases "job (mon_syncers m ! k)") fastforce+
qed

definition demo_listed :: "int \<Rightarrow> bool \<Rightarrow> mirror" where
  "demo_listed i up =
     \<lparr>mm_Mirror = zero_mirror\<lparr>ID := i, Enabled := True, Up := up\<rparr>, mm_checking = False, mm_scanning = False, mm_lastCheck = 0\<rparr>"

definition demo_mon_env :: mon_env where
  "demo_mon_env =
     \<lparr>me_cnf = (defaultConfig '''')\<lparr>ConcurrentSync := 2\<rparr>,
      me_pick = (\<lambda>ws. if 0 < length ws \<and> ws ! 0 = SWait then Some 0 else if 1 < length ws \<and> ws ! 1 = SWait then Some 1 else None),
      me_unknown = True\<rparr>"

text \<open>Two mirrors are announced and due: after one tick both workers are busy, with different mirrors.\<close>

definition demo_monitor :: monitor where
  "demo_monitor =
     sync_entry 2 (mm_Mirror (demo_listed 2 False), None) (sync_entry 1 (mm_Mirror (demo_listed 1 False), None)
       (start_workers demo_mon_env (NewMonitor ''h'' 7 0)))"

lemma demo_monitor_eval:
  "mon_mirrors demo_monitor = [1 \<mapsto> demo_listed 1 False, 2 \<mapsto> demo_listed 2 False]"
  "mon_syncers demo_monitor = [SWait, SWait]" "nodeTotal (mon_cluster demo_monitor) = 0"
  by (auto simp: demo_monitor_def sync_entry_def start_workers_def NewMonitor_def demo_listed_def demo_mon_env_def numeral_2_eq_2
      NewCluster_def cluster_AddMirror_def cluster_Start_def zero_mirror_def)

lemma demo_handled: "nodeTotal (mon_cluster m) = 0 \<Longrightarrow> handled demo_mon_env m i"
  by (simp add: handled_def IsHandled_def mirror_range_def demo_mon_env_def)

lemma demo_due: "LastSync (mm_Mirror v) = 0 \<Longrightarrow> NeedSync (2 ^ 62) v (ScanInterval (me_cnf demo_mon_env))"
  by (simp add: NeedSync_def demo_mon_env_def defaultConfig_def wrap64_def time_Minute_def time_Second_def time_Sub_def)

lemma offer_check_frame:
  "mon_syncers (offer_check env now i v m) = mon_syncers m" "mon_cluster (offer_check env now i v m) = mon_cluster m"
  "mon_mirrors (offer_check env now i v m) = mon_mirrors m \<or>
   mon_mirrors (offer_check env now i v m) = (mon_mirrors m)(i \<mapsto> v\<lparr>mm_checking := True\<rparr>)"
  by (auto simp: offer_check_def)

lemma demo_tick:
  assumes "mon_mirrors m i = Some (demo_listed i False)" "nodeTotal (mon_cluster m) = 0"
    "me_pick demo_mon_env (mon_syncers m) = Some k"
  shows "mon_syncers (tick_mirror demo_mon_env (2 ^ 62) i m) = (mon_syncers m)[k := STaken i]"
    "nodeTotal (mon_cluster (tick_mirror demo_mon_env (2 ^ 62) i m)) = 0"
    "mon_mirrors (tick_mirror demo_mon_env (2 ^ 62) i m) i \<noteq> None"
    "j \<noteq> i \<Longrightarrow> mon_mirrors (tick_mirror demo_mon_env (2 ^ 62) i m) j = mon_mirrors m j"
proof -
  let ?m = "offer_check demo_mon_env (2 ^ 62) i (demo_listed i False) m"
  obtain v where v: "mon_mirrors ?m i = Some v" "LastSync (mm_Mirror v) = 0" "\<not> mm_scanning v"
    "\<And>j. j \<noteq> i \<Longrightarrow> mon_mirrors ?m j = mon_mirrors m j"
    using offer_check_frame(3) [of demo_mon_env "2 ^ 62" i "demo_listed i False" m] assms(1)
    by (auto simp: demo_listed_def zero_mirror_def)
  have t: "tick_mirror demo_mon_env (2 ^ 62) i m =
      ?m\<lparr>mon_syncers := (mon_syncers m)[k := STaken i], mon_mirrors := (mon_mirrors ?m)(i \<mapsto> v\<lparr>mm_scanning := True\<rparr>)\<rparr>"
    using assms v(1,3) demo_due [OF v(2)] demo_handled [of ?m i]
    by (simp add: tick_mirror_def offer_sync_def mirror_IsScanning_def offer_check_frame, simp add: demo_listed_def Let_def)
  show "mon_syncers (tick_mirror demo_mon_env (2 ^ 62) i m) = (mon_syncers m)[k := STaken i]"
    "nodeTotal (mon_cluster (tick_mirror demo_mon_env (2 ^ 62) i m)) = 0"
    "mon_mirrors (tick_mirror demo_mon_env (2 ^ 62) i m) i \<noteq> None"
    "j \<noteq> i \<Longrightarrow> mon_mirrors (tick_mirror demo_mon_env (2 ^ 62) i m) j = mon_mirrors m j"
    unfolding t using assms(2) v(4) by (simp_all add: offer_check_frame)
qed

theorem sync_exclusive_witness:
  "\<exists>m. mon_run demo_mon_env jobs_listed (start_workers demo_mon_env (NewMonitor ''h'' 7 0)) m \<and>
     mon_syncers m = [STaken 1, STaken 2] \<and>
     (job (mon_syncers m ! 0) = None \<or> job (mon_syncers m ! 0) \<noteq> job (mon_syncers m ! 1))"
proof -
  let ?e = demo_mon_env and ?m0 = "start_workers demo_mon_env (NewMonitor ''h'' 7 0)"
  let ?m1 = "sync_entry 1 (mm_Mirror (demo_listed 1 False), None) ?m0" and ?m3 = "check_tick demo_mon_env (2 ^ 62) False [1, 2] demo_monitor"
  let ?t = "tick_mirror ?e (2 ^ 62) 1 demo_monitor"
  have pick: "pick_ok ?e" by (simp add: pick_ok_def demo_mon_env_def)
  have idle: "jobs_listed m" if "mon_syncers m = [SWait, SWait]" for m using that by (auto simp: jobs_listed_def less_Suc_eq)
  have 0: "mon_syncers ?m0 = [SWait, SWait]"
    by (simp add: start_workers_def NewMonitor_def demo_mon_env_def numeral_2_eq_2)
  have 1: "mon_syncers ?m1 = [SWait, SWait]" using 0 by (simp add: sync_entry_def)
  have p: "me_pick ?e [SWait, SWait] = Some 0" "me_pick ?e [STaken 1, SWait] = Some 1" by (simp_all add: demo_mon_env_def)
  note a = demo_tick [of demo_monitor 1 0] and b = demo_tick [of ?t 2 1]
  have t: "mon_syncers ?t = [STaken 1, SWait]" "nodeTotal (mon_cluster ?t) = 0" "mon_mirrors ?t 1 \<noteq> None"
     "mon_mirrors ?t 2 = Some (demo_listed 2 False)"
    using a demo_monitor_eval p by simp_all
  have 3: "mon_syncers ?m3 = [STaken 1, STaken 2]" "mon_mirrors ?m3 1 \<noteq> None" "mon_mirrors ?m3 2 \<noteq> None"
    using b t p by (simp_all add: check_tick_def)
  have "mon_run ?e jobs_listed ?m0 demo_monitor"
  proof (rule mon_run.move)
    have "mon_run ?e jobs_listed ?m0 ?m0" by (rule mon_run.start) (rule idle [OF 0])
    then show "mon_run ?e jobs_listed ?m0 ?m1" by (rule mon_run.move) (rule mon_step.update, rule idle [OF 1])
    show "mon_step ?e ?m1 demo_monitor" unfolding demo_monitor_def by (rule mon_step.update)
  qed (rule idle [OF demo_monitor_eval(2)])
  moreover have "mon_step ?e demo_monitor ?m3"
    by (rule mon_step.tick) (auto simp: demo_monitor_eval)
  moreover have "jobs_listed ?m3" using 3 by (auto simp: jobs_listed_def less_Suc_eq)
  ultimately have r: "mon_run ?e jobs_listed ?m0 ?m3" by (rule mon_run.move)
  show ?thesis using sync_exclusive [OF pick r, of 0 1] r 3(1) by auto
qed

text \<open>
  The function \<open>retry\<close> does not retry.  It calls the function once: if that fails and the process is
  not being stopped, the timer fires, the second receive from its channel blocks and the goroutine waits
  for ever, whatever the function would have answered.
\<close>

theorem retry_once:
  "retry (Suc fuel) fn stops now delay 0 (timer_Reset now delay) s =
     Some (case fn 0 s of
             (None, s1) \<Rightarrow> Succeeded 1 s1
           | (Some e, s1) \<Rightarrow> if stops 0 then Interrupted 1 s1 else Hangs 1 s1)"
  by (auto simp: timer_Reset_def timer_at_def timer_recv_def stop_and_drain_def timer_Stop_def split: prod.splits option.splits)

section \<open>Mirrors that are not checked any more\<close>

text \<open>A mirror that is up and marked as being checked, while nothing in the monitor will check it.\<close>

definition unattended :: "int \<Rightarrow> monitor \<Rightarrow> bool" where
  "unattended i m \<longleftrightarrow>
     (\<exists>v. mon_mirrors m i = Some v \<and> mm_checking v) \<and> i \<notin> set (mon_health m) \<and>
     (\<forall>c \<in> set (mon_checkers m). \<forall>v. c \<noteq> HCheck i v) \<and>
     (\<forall>w \<in> set (mon_syncers m). w \<noteq> SNotify i \<and> (\<forall>v. w = SScan i v \<longrightarrow> Up (mm_Mirror v)))"

definition listed_up :: "int \<Rightarrow> monitor \<Rightarrow> bool" where
  "listed_up i m \<longleftrightarrow> (\<exists>v. mon_mirrors m i = Some v \<and> Up (mm_Mirror v))"

lemma set_update: "w \<in> set (ws[k := x]) \<Longrightarrow> w = x \<or> w \<in> set ws"
  using set_update_subset_insert by fastforce

lemma unattended_offers:
  assumes "unattended i m" "mon_mirrors m j = Some v"
  shows "unattended i (offer_check env now j v m)" "unattended i (offer_sync env now j v m)"
proof -
  show "unattended i (offer_check env now j v m)"
    using assms by (cases "j = i") (auto simp: unattended_def offer_check_def IsChecking_def)
  show "unattended i (offer_sync env now j v m)"
    using assms unfolding unattended_def offer_sync_def by (auto split: option.splits dest!: set_update)
qed

lemma unattended_tick: "unattended i m \<Longrightarrow> unattended i (check_tick env now f ids m)"
proof -
  have "unattended i (tick_mirror env now j m)" if "unattended i m" for j m
    using that unattended_offers by (auto simp: tick_mirror_def Let_def split: option.splits)
  then have "unattended i m \<Longrightarrow> unattended i (fold (tick_mirror env now) ids m)" by (induction ids arbitrary: m) auto
  then show "unattended i m \<Longrightarrow> unattended i (check_tick env now f ids m)" by (simp add: check_tick_def)
qed

lemma unattended_step:
  assumes "mon_step env m m'" "unattended i m" "listed_up i m" "listed_up i m'"
  shows "unattended i m'"
  using assms(1)
proof cases
  case (tick ids now f)
  then show ?thesis using unattended_tick [OF assms(2)] by simp
next
  case (update j res)
  then show ?thesis using assms(2,4)
    by (auto simp: unattended_def listed_up_def sync_entry_def split: prod.splits option.splits if_splits)
next
  case (check k j "is")
  then show ?thesis using assms(2)
    by (auto simp: unattended_def health_take_def split: option.splits if_splits dest!: set_update)
next
  case (checked k j v now e)
  then have "HCheck j v \<in> set (mon_checkers m)" by (metis nth_mem)
  then have "j \<noteq> i" using assms(2) by (auto simp: unattended_def)
  then show ?thesis using checked assms(2)
    by (auto simp: unattended_def health_release_def Let_def split: option.splits if_splits dest!: set_update)
next
  case (take k j)
  then show ?thesis using assms(2,3)
    by (auto simp: unattended_def listed_up_def sync_take_def split: option.splits dest!: set_update)
next
  case (finish k j v)
  then show ?thesis using assms(2)
    by (auto simp: unattended_def sync_end_def split: option.splits dest!: set_update)
next
  case (scanned k j v)
  then have "SScan j v \<in> set (mon_syncers m)" by (metis nth_mem)
  then have "j \<noteq> i" using assms(2) scanned by (auto simp: unattended_def)
  then show ?thesis using scanned assms(2) by (auto simp: unattended_def dest!: set_update)
next
  case (notify k j)
  then have "SNotify j \<in> set (mon_syncers m)" by (metis nth_mem)
  then have "j \<noteq> i" using assms(2) by (auto simp: unattended_def)
  then show ?thesis using notify assms(2)
    by (auto simp: unattended_def sync_end_def split: option.splits dest!: set_update)
qed (use assms(2) in \<open>auto simp: unattended_def monitor_Stop_def dest!: set_update\<close>)

text \<open>
  A mirror that is up and was found without scanned files is never checked again.  The check
  leaves its mark, so that the loop does not hand the mirror out; only a scan of a mirror that is down
  sends it back to the health check.  As long as the list shows the mirror as up, which nothing but a
  health check would change, no worker gets it in any interleaving, scans included.
\<close>

theorem unscanned_mirror_unchecked:
  assumes "mon_checkers m ! k = HCheck i v" "k < length (mon_checkers m)"
    and "\<And>l u. l < length (mon_checkers m) \<Longrightarrow> mon_checkers m ! l = HCheck i u \<Longrightarrow> l = k"
    and "\<exists>u. mon_mirrors m i = Some u \<and> mm_checking u" "i \<notin> set (mon_health m)"
    and "\<And>w. w \<in> set (mon_syncers m) \<Longrightarrow> w \<noteq> SNotify i \<and> (\<forall>u. w = SScan i u \<longrightarrow> Up (mm_Mirror u))"
    and run: "mon_run env (listed_up i) (health_release now k i (Some ErrMirrorNotScanned) m) m'"
  shows "i \<notin> set (mon_health m') \<and> (\<forall>c \<in> set (mon_checkers m'). \<forall>u. c \<noteq> HCheck i u)"
proof -
  have "c \<noteq> HCheck i u" if c: "c \<in> set ((mon_checkers m)[k := HWait])" for c u
  proof
    assume eq: "c = HCheck i u"
    obtain l where "l < length (mon_checkers m)" "(mon_checkers m)[k := HWait] ! l = c"
      using c by (metis in_set_conv_nth length_list_update)
    then show False using assms(2,3) eq by (cases "l = k") auto
  qed
  then have start: "unattended i (health_release now k i (Some ErrMirrorNotScanned) m)"
    using assms(4-6) by (simp add: unattended_def health_release_def)
  from run have "unattended i m' \<and> listed_up i m'"
    by induction (use start unattended_step in blast)+
  then show ?thesis by (simp add: unattended_def)
qed

definition demo_checking :: monitor where
  "demo_checking =
     (NewMonitor ''h'' 7 0)\<lparr>mon_mirrors := [1 \<mapsto> (demo_listed 1 True)\<lparr>mm_checking := True\<rparr>],
       mon_checkers := [HCheck 1 (demo_listed 1 True)], mon_syncers := [SScan 1 (demo_listed 1 True)]\<rparr>"

theorem unscanned_mirror_unchecked_witness:
  "\<exists>m'. mon_run demo_mon_env (listed_up 1) (health_release 7 0 1 (Some ErrMirrorNotScanned) demo_checking) m' \<and>
     mon_syncers m' = [SWait] \<and> mon_checkers m' = [HWait] \<and> 1 \<notin> set (mon_health m')"
proof -
  let ?m = "health_release 7 0 1 (Some ErrMirrorNotScanned) demo_checking" and ?m' = "sync_end 0 1 (health_release 7 0 1 (Some ErrMirrorNotScanned) demo_checking)"
  have "listed_up 1 ?m" "listed_up 1 ?m'"
    by (simp_all add: listed_up_def health_release_def sync_end_def demo_checking_def demo_listed_def)
  moreover have "mon_step demo_mon_env ?m ?m'"
    by (rule mon_step.finish [of 0 _ 1 "demo_listed 1 True"]) (simp_all add: health_release_def demo_checking_def)
  ultimately have r: "mon_run demo_mon_env (listed_up 1) ?m ?m'" by (metis mon_run.move mon_run.start)
  have "mon_syncers ?m' = [SWait]" "mon_checkers ?m' = [HWait]"
    by (simp_all add: sync_end_def health_release_def demo_checking_def)
  moreover have "1 \<notin> set (mon_health ?m')"
    using unscanned_mirror_unchecked [OF _ _ _ _ _ _ r, of "demo_listed 1 True"]
    by (simp add: demo_checking_def NewMonitor_def demo_listed_def)
  ultimately show ?thesis using r by blast
qed

section \<open>The health check in the database\<close>

definition marshals :: "json \<Rightarrow> bool" where
  "marshals J \<longleftrightarrow> (\<forall>a. \<exists>line. Marshal J a = Inr line)"

lemma field_hash: "get_hash s k = Some h \<Longrightarrow> field s k = map_of h"
  by (simp add: field_def)

lemma SetMirrorEnabled_run:
  assumes up: "reliable_redis r \<alpha>" and h: "is_hash (\<alpha> db) (mirror_key i)" and l: "get_list (\<alpha> db) (log_key i) \<noteq> None"
  shows "\<exists>db'. SetMirrorEnabled J r now db i b = (None, db') \<and> is_hash (\<alpha> db') (mirror_key i) \<and>
    field (\<alpha> db') (mirror_key i) = (field (\<alpha> db) (mirror_key i))(''enabled'' \<mapsto> (if b then ''1'' else ''0'')) \<and>
    eq_off {mirror_key i, log_key i} (\<alpha> db) (\<alpha> db')"
proof -
  let ?c = "HMSET (mirror_key i) [(''enabled'', ABool b)]"
  obtain q s1 where 1: "redis_cmd (\<alpha> db) ?c = Some (q, s1)" "is_hash s1 (mirror_key i)"
    "field s1 (mirror_key i) = (field (\<alpha> db) (mirror_key i))(''enabled'' \<mapsto> (if b then ''1'' else ''0''))"
    "\<forall>k'. k' \<noteq> mirror_key i \<longrightarrow> keys s1 k' = keys (\<alpha> db) k'"
    using cmd_HMSET [OF h, of "[(''enabled'', ABool b)]"] by (fastforce simp del: redis_cmd.simps)
  obtain q' db1 where d: "conn_do r db ?c = (Inr q', db1)" "\<alpha> db1 = s1" using reliable_redis.do_effect [OF up 1(1)] by blast
  let ?db2 = "snd (Publish r db1 MIRROR_UPDATE (Itoa i))" and ?a = "if b = True then NewLogEnabled now i else NewLogDisabled now i"
  have k2: "keys (\<alpha> ?db2) = keys s1" using reliable_redis.publish_effect(1) [OF up] d(2) by simp
  have a: "GetMirrorID ?a = i" by (simp add: NewLogEnabled_def NewLogDisabled_def)
  have ne: "mirror_key i \<noteq> log_key i" using log_key_mirror_key [of i i] by simp
  have "get_list (\<alpha> ?db2) (log_key i) \<noteq> None" using l 1(4) ne k2 by (simp add: get_list_def)
  then have k3: "keys (\<alpha> (snd (PushLog J r ?db2 ?a))) k = keys s1 k" if "k \<noteq> log_key i" for k
    using reliable_redis.push_log_frame [OF up, of ?db2 ?a k J] that a k2 by simp
  have "SetMirrorEnabled J r now db i b = (None, snd (PushLog J r ?db2 ?a))"
    using d(1) by (simp add: SetMirrorEnabled_def do_err_def)
  moreover have "is_hash (\<alpha> (snd (PushLog J r ?db2 ?a))) (mirror_key i)"
    "field (\<alpha> (snd (PushLog J r ?db2 ?a))) (mirror_key i) = field s1 (mirror_key i)"
    using get_cong(2,4) [OF k3 [OF ne]] 1(2) by simp_all
  moreover have "eq_off {mirror_key i, log_key i} (\<alpha> db) (\<alpha> (snd (PushLog J r ?db2 ?a)))" using k3 1(4) by (simp add: eq_off_def)
  ultimately show ?thesis using 1(3) by simp
qed

text \<open>What a state change keeps and writes.\<close>

definition state_written :: "int \<Rightarrow> bool \<Rightarrow> store \<Rightarrow> store \<Rightarrow> bool" where
  "state_written i b s s' \<longleftrightarrow>
     field s' (mirror_key i) ''up'' = Some (if b then ''1'' else ''0'') \<and>
     (\<forall>f. f \<notin> {''up'', ''excludeReason'', ''stateSince'', ''enabled''} \<longrightarrow> field s' (mirror_key i) f = field s (mirror_key i) f) \<and>
     eq_off {mirror_key i, log_key i} s s'"

lemma SetMirrorState_run:
  assumes up: "reliable_redis r \<alpha>" and J: "marshals J" and h: "get_hash (\<alpha> db) (mirror_key i) = Some h" "up_field h = Some prev"
    and l: "get_list (\<alpha> db) (log_key i) \<noteq> None"
  shows "\<exists>db'. SetMirrorState J r now db i b reason = (None, db') \<and> state_written i b (\<alpha> db) (\<alpha> db') \<and>
    field (\<alpha> db') (mirror_key i) ''enabled'' = field (\<alpha> db) (mirror_key i) ''enabled'' \<and>
    is_hash (\<alpha> db') (mirror_key i) \<and> get_list (\<alpha> db') (log_key i) \<noteq> None"
proof -
  obtain line where "Marshal J (LogStateChanged i now b reason) = Inr line" using J by (auto simp: marshals_def)
  moreover obtain l' where "get_list (\<alpha> db) (log_key i) = Some l'" using l by blast
  ultimately obtain db' h' where "SetMirrorState J r now db i b reason = (None, db')" "get_hash (\<alpha> db') (mirror_key i) = Some h'"
    "map_of h' ''up'' = Some (if b then ''1'' else ''0'')"
    "\<forall>f. f \<notin> {''up'', ''excludeReason'', ''stateSince''} \<longrightarrow> map_of h' f = map_of h f"
    "get_list (\<alpha> db') (log_key i) \<noteq> None"
    "\<forall>k. k \<noteq> mirror_key i \<longrightarrow> k \<noteq> log_key i \<longrightarrow> keys (\<alpha> db') k = keys (\<alpha> db) k"
    using SetMirrorState_writes [OF reliable_redis.interface [OF up] reliable_redis.answers [OF up] reliable_redis.ready [OF up] _ h]
    by (metis option.distinct(1))
  then show ?thesis using h by (intro exI [of _ db']) (simp add: state_written_def field_hash eq_off_def)
qed

lemma state_disabled:
  assumes up: "reliable_redis r \<alpha>" and w: "state_written i b s (\<alpha> db)"
    and h: "is_hash (\<alpha> db) (mirror_key i)" "get_list (\<alpha> db) (log_key i) \<noteq> None"
  shows "state_written i b s (\<alpha> (snd (DisableMirror J r now db i)))"
    "field (\<alpha> (snd (DisableMirror J r now db i))) (mirror_key i) ''enabled'' = Some ''0''"
proof -
  obtain db' where d: "SetMirrorEnabled J r now db i False = (None, db')"
    "field (\<alpha> db') (mirror_key i) = (field (\<alpha> db) (mirror_key i))(''enabled'' \<mapsto> ''0'')"
    "eq_off {mirror_key i, log_key i} (\<alpha> db) (\<alpha> db')"
    using SetMirrorEnabled_run [OF up h, of J now False] by auto
  have "eq_off {mirror_key i, log_key i} s (\<alpha> db')"
    using w d(3) eq_off_trans [OF _ d(3) order_refl order_refl] by (simp add: state_written_def)
  then show "state_written i b s (\<alpha> (snd (DisableMirror J r now db i)))"
    "field (\<alpha> (snd (DisableMirror J r now db i))) (mirror_key i) ''enabled'' = Some ''0''"
    using w d(1,2) by (simp_all add: DisableMirror_def state_written_def)
qed

lemma getRandomFile_reads:
  assumes up: "reliable_redis r \<alpha>" and set: "get_set (\<alpha> db) (handled_key i) = Some l"
    and h: "\<And>f. f \<in> set l \<Longrightarrow> is_hash (\<alpha> db) (file_key f)" and g: "getRandomFile r db i = (res, db')"
  shows "\<alpha> db' = \<alpha> db" "res = Inr (file, n) \<Longrightarrow> file \<in> set l"
proof -
  note ok = reliable_redis.interface [OF up]
  obtain rep db1 where d: "conn_do r db (SRANDMEMBER (handled_key i)) = (rep, db1)" by fastforce
  have rd: "rd_do (api r) db (SRANDMEMBER (handled_key i)) = (rep, db1)" using d reliable_redis.ready [OF up] by (simp add: conn_do_def)
  have 1: "\<alpha> db1 = \<alpha> db" "\<And>q. rep = Inr q \<Longrightarrow> if l = [] then q = RNil else \<exists>x \<in> set l. q = RBulk x"
    using ok set rd unfolding redigo_ok_def draw_ok_def by blast+
  show "\<alpha> db' = \<alpha> db" and "res = Inr (file, n) \<Longrightarrow> file \<in> set l"
  proof -
    have *: "\<alpha> db' = \<alpha> db \<and> (\<forall>file n. res = Inr (file, n) \<longrightarrow> file \<in> set l)"
    proof (cases "\<exists>x \<in> set l. rep = Inr (RBulk x)")
      case True
      then obtain x where x: "x \<in> set l" "rep = Inr (RBulk x)" by blast
      obtain q where "redis_cmd (\<alpha> db1) (HGET (file_key x) ''size'') = Some (q, \<alpha> db1)" using h [OF x(1)] 1(1) by auto
      moreover obtain rep2 db2 where d2: "conn_do r db1 (HGET (file_key x) ''size'') = (rep2, db2)" by fastforce
      ultimately have "\<alpha> db2 = \<alpha> db" using conn_read(1) [OF ok _ d2] 1(1) by simp
      then show ?thesis using g d d2 x conv_okD(11) [OF ok, of x] by (auto simp: getRandomFile_def split: sum.splits)
    next
      case False
      then have "\<exists>e. rd_String (api r) rep = Inl e"
        using 1(2) conv_okD(9,10) [OF ok] by (cases rep) (auto split: if_splits)
      then show ?thesis using g d 1(1) by (auto simp: getRandomFile_def)
    qed
    then show "\<alpha> db' = \<alpha> db" and "res = Inr (file, n) \<Longrightarrow> file \<in> set l" by auto
  qed
qed

text \<open>
  C32: A health check records what the mirror answered.  Either no file could be drawn, then an error is
  returned, no request is made and nothing is written; or a file the mirror is known to have was asked
  for, and the mirror is then up in the database exactly when the answer was 200.  No other field of the mirror
  changes but the reason, the time of the change and, after a 404 where so configured, \<open>enabled\<close>; no other
  key changes but the log of the mirror.
\<close>

theorem healthCheck_state:
  assumes up: "reliable_redis (se_client env) \<alpha>" and J: "marshals (se_json env)"
    and h: "get_hash (\<alpha> db) (mirror_key (ID m)) = Some h" "up_field h = Some prev"
    and l: "get_list (\<alpha> db) (log_key (ID m)) \<noteq> None"
    and files: "get_set (\<alpha> db) (handled_key (ID m)) = Some fs" "\<And>f. f \<in> set fs \<Longrightarrow> is_hash (\<alpha> db) (file_key f)"
    and run: "healthCheck env cnf now False m db w = (e, db', w')"
  shows "e \<noteq> None \<and> \<alpha> db' = \<alpha> db \<and> w' = w \<or>
    (\<exists>file \<in> set fs. \<exists>answer. hc_Head (se_http env) w (ConcatURL (HttpURL m) file) = (answer, w') \<and>
       state_written (ID m) (case answer of Inl _ \<Rightarrow> False | Inr head \<Rightarrow> hr_StatusCode head = 200) (\<alpha> db) (\<alpha> db') \<and>
       field (\<alpha> db') (mirror_key (ID m)) ''enabled'' =
         (if DisableOnMissingFile cnf \<and> (\<exists>head. answer = Inr head \<and> hr_StatusCode head = 404) then Some ''0''
          else field (\<alpha> db) (mirror_key (ID m)) ''enabled''))"
proof -
  let ?r = "se_client env" and ?J = "se_json env" and ?i = "ID m"
  obtain res db1 where g: "getRandomFile ?r db ?i = (res, db1)" by fastforce
  note r = getRandomFile_reads [OF up files g]
  show ?thesis
  proof (cases res)
    case (Inl x)
    then show ?thesis using run g r(1) by (auto simp: healthCheck_def split: if_splits)
  next
    case (Inr fn)
    then obtain f n where fn: "res = Inr (f, n)" "f \<in> set fs" using r(2) by (cases fn) auto
    obtain answer w1 where a: "hc_Head (se_http env) w (ConcatURL (HttpURL m) f) = (answer, w1)" by fastforce
    have S: "state_written ?i b (\<alpha> db) (\<alpha> (snd (SetMirrorState ?J ?r now db1 ?i b reason))) \<and>
        field (\<alpha> (snd (SetMirrorState ?J ?r now db1 ?i b reason))) (mirror_key ?i) ''enabled'' = field (\<alpha> db) (mirror_key ?i) ''enabled'' \<and>
        is_hash (\<alpha> (snd (SetMirrorState ?J ?r now db1 ?i b reason))) (mirror_key ?i) \<and>
        get_list (\<alpha> (snd (SetMirrorState ?J ?r now db1 ?i b reason))) (log_key ?i) \<noteq> None" for b reason
      using SetMirrorState_run [OF up J, of db1 ?i h prev now b reason] h l r(1) by (metis snd_conv)
    have D: "state_written ?i False (\<alpha> db) (\<alpha> (snd (DisableMirror ?J ?r now db2 ?i)))"
        "field (\<alpha> (snd (DisableMirror ?J ?r now db2 ?i))) (mirror_key ?i) ''enabled'' = Some ''0''"
      if "db2 = snd (SetMirrorState ?J ?r now db1 ?i False reason)" for db2 reason
      using state_disabled [OF up, of ?i False "\<alpha> db" db2] S [of False reason] that by blast+
    have w: "w' = w1" using run g fn(1) a by (auto simp: healthCheck_def Let_def split: sum.splits if_splits)
    let ?ok = "case answer of Inl _ \<Rightarrow> False | Inr head \<Rightarrow> hr_StatusCode head = 200"
    have "state_written ?i ?ok (\<alpha> db) (\<alpha> db') \<and> field (\<alpha> db') (mirror_key ?i) ''enabled'' =
         (if DisableOnMissingFile cnf \<and> (\<exists>head. answer = Inr head \<and> hr_StatusCode head = 404) then Some ''0''
          else field (\<alpha> db) (mirror_key ?i) ''enabled'')"
    proof (cases answer)
      case (Inl x)
      then obtain reason where "db' = snd (SetMirrorState ?J ?r now db1 ?i False reason)"
        using run g fn(1) a by (auto simp: healthCheck_def MarkMirrorDown_def)
      then show ?thesis using S Inl by simp
    next
      case (Inr head)
      then consider "hr_StatusCode head = 200" "db' = snd (SetMirrorState ?J ?r now db1 ?i True '''')"
        | "hr_StatusCode head = 404" "DisableOnMissingFile cnf"
            "db' = snd (DisableMirror ?J ?r now (snd (SetMirrorState ?J ?r now db1 ?i False (reason_404 f))) ?i)"
        | reason where "hr_StatusCode head \<noteq> 200" "\<not> (DisableOnMissingFile cnf \<and> hr_StatusCode head = 404)"
            "db' = snd (SetMirrorState ?J ?r now db1 ?i False reason)"
        using run g fn(1) a by (auto simp: healthCheck_def MarkMirrorUp_def MarkMirrorDown_def Let_def split: if_splits)
      then show ?thesis using S D Inr by cases auto
    qed
    then show ?thesis using a w fn(2) by blast
  qed
qed

definition demo_checked :: store where
  "demo_checked = \<lparr>keys = [''MIRROR_1'' \<mapsto> VHash [(''up'', ''0'')], ''HANDLEDFILES_1'' \<mapsto> VSet [''f''],
     ''FILE_f'' \<mapsto> VHash [(''size'', ''7'')]], published = []\<rparr>"

theorem healthCheck_state_witness:
  "\<exists>db' w'. healthCheck demo_senv (defaultConfig '''') 0 False (zero_mirror\<lparr>ID := 1\<rparr>) demo_checked 0 = (None, db', w') \<and>
     state_written 1 True demo_checked db'"
proof -
  let ?m = "zero_mirror\<lparr>ID := 1\<rparr>"
  have j: "marshals (se_json demo_senv)" by (simp add: marshals_def demo_senv_def demo_json_def)
  have k: "get_hash (id demo_checked) (mirror_key (ID ?m)) = Some [(''up'', ''0'')]" "up_field [(''up'', ''0'')] = Some False"
    "get_list (id demo_checked) (log_key (ID ?m)) \<noteq> None" "get_set (id demo_checked) (handled_key (ID ?m)) = Some [''f'']"
    "f \<in> set [''f''] \<Longrightarrow> is_hash (id demo_checked) (file_key f)" for f
    by (auto simp: demo_checked_def get_hash_def get_list_def get_set_def scan_key_defs Itoa_1 up_field_def)
  have c: "se_client demo_senv = ref_client" by (simp add: demo_senv_def demo_cenv_def)
  have g: "getRandomFile ref_client demo_checked 1 = (Inr (''f'', 7), demo_checked)"
    using k(4) by (simp add: getRandomFile_def ref_client_eval)
      (simp add: ref_client_def ref_redis_def demo_checked_def get_hash_def file_key_def opt_bulk_def demo_ParseInt)
  have h: "hc_Head (se_http demo_senv) w u = (Inr \<lparr>hr_StatusCode = 200, hr_Status = ''200 OK'', hr_Header = (\<lambda>k. ''7'')\<rparr>, Suc w)" for w u
    by (simp add: demo_senv_def demo_http_def)
  obtain db' w' where r: "healthCheck demo_senv (defaultConfig '''') 0 False ?m demo_checked 0 = (None, db', w')"
    by (auto simp: healthCheck_def c g h)
  from healthCheck_state [OF demo_up j k(1,2,3,4,5) r] show ?thesis using r h by auto
qed

end
