(* ===== verification/Time_Keys.thy ===== *)
theory Time_Keys
  imports Calendar
begin

text \<open>
  The keys of the statistics that cover a period (\<open>TimeKeyCoverage\<close> in \<^verbatim>\<open>utils/utils.go\<close>): days up to the end
  of the first month, whole years and months, then the days that remain.  The calendar of \<open>Calendar\<close> is
  first shown to be the inverse of counting days, which also gives the termination of the loops.
\<close>

section \<open>Dates\<close>

text \<open>Days before a year, and before a month of a year; the month after December is January of the next year.\<close>

definition year_start :: "int \<Rightarrow> int" where
  "year_start y = 365 * (y - 1) + (y - 1) div 4 - (y - 1) div 100 + (y - 1) div 400"

definition month_start :: "int \<Rightarrow> int \<Rightarrow> int" where
  "month_start y m = year_start y + sum_list (take (nat (m - 1)) (month_lengths y))"

text \<open>\<open>time.Date(y, m, 1, 0, 0, 0, 0, time.UTC)\<close> for a month from 1 to 13.\<close>

definition day_ns :: int where
  "day_ns = 86400 * time_Second"

definition time_Date :: "int \<Rightarrow> int \<Rightarrow> gotime" where
  "time_Date y m = month_start y m * day_ns"

definition time_Year :: "gotime \<Rightarrow> int" where "time_Year t = fst (civil (day_of t))"
definition time_Month :: "gotime \<Rightarrow> int" where "time_Month t = fst (snd (civil (day_of t)))"
definition time_Day :: "gotime \<Rightarrow> int" where "time_Day t = snd (snd (civil (day_of t)))"

definition AddDays :: "gotime \<Rightarrow> int \<Rightarrow> gotime" where
  "AddDays t n = t + n * day_ns"

lemma day_ns_pos: "0 < day_ns"
  by (simp add: day_ns_def time_Second_def)

lemma day_of_AddDays: "day_of (AddDays t n) = day_of t + n"
  by (simp add: day_of_def AddDays_def day_ns_def time_Second_def)

lemma day_of_Date: "day_of (time_Date y m) = month_start y m"
  by (simp add: day_of_def time_Date_def day_ns_def time_Second_def)

section \<open>The calendar is the inverse of counting days\<close>

definition year_length :: "int \<Rightarrow> int" where
  "year_length y = (if is_leap y then 366 else 365)"

lemma year_start_next: "year_start (y + 1) = year_start y + year_length y"
proof -
  have "y div n - (y - 1) div n = (if y mod n = 0 then 1 else 0)" if n: "1 < n" for n
  proof (cases "y mod n = 0")
    case True
    then have "y - 1 = n * (y div n - 1) + (n - 1)" using div_mult_mod_eq [of y n] by (simp add: algebra_simps)
    then have "(y - 1) div n = y div n - 1" using int_div_pos_eq [of "y - 1" n "y div n - 1" "n - 1"] n by linarith
    then show ?thesis using True by simp
  next
    case False
    then have "y - 1 = n * (y div n) + (y mod n - 1)" "0 \<le> y mod n - 1" "y mod n - 1 < n"
      using div_mult_mod_eq [of y n] pos_mod_bound [of n y] pos_mod_sign [of n y] n by (simp_all add: algebra_simps, linarith+)
    from int_div_pos_eq [OF this] show ?thesis using False by simp
  qed
  then have "y div 4 - (y - 1) div 4 = (if y mod 4 = 0 then 1 else 0)"
    "y div 100 - (y - 1) div 100 = (if y mod 100 = 0 then 1 else 0)"
    "y div 400 - (y - 1) div 400 = (if y mod 400 = 0 then 1 else 0)" by simp_all
  note d = this
  have "y mod 400 = 0 \<Longrightarrow> y mod 100 = 0" "y mod 100 = 0 \<Longrightarrow> y mod 4 = 0"
    using mod_mod_cancel [of 100 400 y] mod_mod_cancel [of 4 100 y] by simp_all
  then consider "is_leap y" "y mod 4 = 0" "y mod 100 = 0" "y mod 400 = 0" | "is_leap y" "y mod 4 = 0" "y mod 100 \<noteq> 0" "y mod 400 \<noteq> 0"
    | "\<not> is_leap y" "y mod 4 = 0" "y mod 100 = 0" "y mod 400 \<noteq> 0" | "\<not> is_leap y" "y mod 4 \<noteq> 0" "y mod 100 \<noteq> 0" "y mod 400 \<noteq> 0"
    unfolding is_leap_def by argo
  moreover have "year_start (y + 1) = year_start y + (365 + (y div 4 - (y - 1) div 4) - (y div 100 - (y - 1) div 100) + (y div 400 - (y - 1) div 400))"
    unfolding year_start_def by simp
  ultimately show ?thesis unfolding d year_length_def by cases (simp_all only: if_True if_False, simp_all)
qed

lemma year_day_start:
  assumes "year_day day = (y, d)"
  shows "day = year_start y + d" "0 \<le> d" "d < year_length y"
proof -
  define n400 d1 n100 d2 n4 d3 n1 where
    defs: "n400 = day div 146097" "d1 = day mod 146097" "n100 = min 3 (d1 div 36524)" "d2 = d1 - 36524 * n100"
      "n4 = d2 div 1461" "d3 = d2 mod 1461" "n1 = min 3 (d3 div 365)"
  have "year_day day = (400 * n400 + 100 * n100 + 4 * n4 + n1 + 1, d3 - 365 * n1)"
    by (simp only: year_day_def Let_def defs)
  then have yd: "y = 400 * n400 + 100 * n100 + 4 * n4 + n1 + 1" "d = d3 - 365 * n1" using assms by simp_all
  have e1: "day = 146097 * n400 + d1" "0 \<le> d1" "d1 < 146097" by (simp_all add: defs)
  have e2: "0 \<le> n100" "n100 \<le> 3" "0 \<le> d2" "d2 \<le> 36524" "n100 < 3 \<Longrightarrow> d2 < 36524" "d1 = d2 + 36524 * n100"
    using e1 unfolding defs(3,4) by linarith+
  have e3: "d2 = 1461 * n4 + d3" "0 \<le> d3" "d3 < 1461" "0 \<le> n4" "n4 \<le> 24" using e2 by (simp_all add: defs(5,6))
  have e4: "0 \<le> n1" "n1 \<le> 3" "0 \<le> d" "d \<le> 365" "n1 < 3 \<Longrightarrow> d < 365" using e3 unfolding defs(7) yd(2) by linarith+
  have q: "(y - 1) div 4 = 100 * n400 + 25 * n100 + n4" "(y - 1) div 100 = 4 * n400 + n100" "(y - 1) div 400 = n400"
    using int_div_pos_eq [of "y - 1" 4 "100 * n400 + 25 * n100 + n4" n1] int_div_pos_eq [of "y - 1" 100 "4 * n400 + n100" "4 * n4 + n1"]
      int_div_pos_eq [of "y - 1" 400 n400 "100 * n100 + 4 * n4 + n1"] e2 e3 e4 yd(1) by simp_all
  have "year_start y = 365 * (y - 1) + (100 * n400 + 25 * n100 + n4) - (4 * n400 + n100) + n400"
    unfolding year_start_def q ..
  then show "day = year_start y + d" unfolding e1(1) e2(6) e3(1) yd by (simp add: algebra_simps)
  show "0 \<le> d" by (rule e4)
  show "d < year_length y"
  proof (cases "d < 365")
    case False
    then have "n1 = 3" "d = 365" using e4 by linarith+
    moreover from this have "n4 = 24 \<Longrightarrow> n100 = 3" using e2 e3 yd(2) by linarith
    ultimately have y4: "y = 4 * (100 * n400 + 25 * n100 + n4 + 1)" "n4 = 24 \<Longrightarrow> y = 400 * (n400 + 1)"
      "n4 \<noteq> 24 \<Longrightarrow> y mod 100 = 4 * (n4 + 1)"
      using int_mod_pos_eq [of y 100 "4 * n400 + n100" "4 * (n4 + 1)"] e3 yd(1) by simp_all
    then have "is_leap y" using e3(4) by (cases "n4 = 24") (auto simp: is_leap_def)
    then show ?thesis using \<open>d = 365\<close> by (simp add: year_length_def)
  qed (simp add: year_length_def)
qed

lemma sum_month_lengths: "sum_list (month_lengths y) = year_length y"
  by (simp add: month_lengths_def year_length_def)

lemma month_of_sum:
  "ls \<noteq> [] \<Longrightarrow> 0 \<le> d \<Longrightarrow> d < sum_list ls \<Longrightarrow> month_of m d ls = (m', md) \<Longrightarrow>
     m \<le> m' \<and> m' < m + int (length ls) \<and> d = sum_list (take (nat (m' - m)) ls) + md - 1 \<and>
     1 \<le> md \<and> md \<le> ls ! nat (m' - m)"
proof (induction m d ls rule: month_of.induct)
  case (3 m d l k ls)
  show ?case
  proof (cases "d < l")
    case False
    then have *: "m + 1 \<le> m' \<and> m' < m + 1 + int (length (k # ls)) \<and>
        d - l = sum_list (take (nat (m' - (m + 1))) (k # ls)) + md - 1 \<and> 1 \<le> md \<and> md \<le> (k # ls) ! nat (m' - (m + 1))"
      using 3 by simp
    have "nat (m' - m) = Suc (nat (m' - (m + 1)))" using * by linarith
    then show ?thesis using * by simp
  qed (use 3 in auto)
qed simp_all

lemma civil_day:
  assumes "civil day = (y, m, md)"
  shows "1 \<le> m" "m \<le> 12" "1 \<le> md" "md \<le> month_lengths y ! nat (m - 1)" "day = month_start y m + md - 1"
proof -
  obtain d where yd: "year_day day = (y, d)" and md: "month_of 1 d (month_lengths y) = (m, md)"
    using assms by (auto simp: civil_def Let_def split: prod.splits)
  note y = year_day_start [OF yd]
  have "month_lengths y \<noteq> []" "d < sum_list (month_lengths y)" using y(3) sum_month_lengths by (simp_all add: month_lengths_def)
  from month_of_sum [OF this(1) y(2) this(2) md]
  show "1 \<le> m" "m \<le> 12" "1 \<le> md" "md \<le> month_lengths y ! nat (m - 1)" "day = month_start y m + md - 1"
    using y(1) by (simp_all add: month_start_def month_lengths_def)
qed

lemma month_lengths_pos: "i < 12 \<Longrightarrow> 28 \<le> month_lengths y ! i"
  by (auto simp: month_lengths_def less_Suc_eq numeral_eq_Suc)

lemma month_length_pos: "1 \<le> m \<Longrightarrow> m \<le> 12 \<Longrightarrow> 0 < month_lengths y ! nat (m - 1)"
  using month_lengths_pos [of "nat (m - 1)" y] by linarith

lemma month_start_next:
  assumes "1 \<le> m" "m \<le> 12"
  shows "month_start y (m + 1) = month_start y m + month_lengths y ! nat (m - 1)"
proof -
  have n: "nat (m + 1 - 1) = Suc (nat (m - 1))" "nat (m - 1) < length (month_lengths y)"
    using assms by (simp_all add: month_lengths_def)
  show ?thesis unfolding month_start_def n(1) take_Suc_conv_app_nth [OF n(2)] by simp
qed

lemma month_start_13: "month_start y 13 = year_start (y + 1)"
  using sum_month_lengths [of y] by (simp add: month_start_def year_start_next month_lengths_def)

lemma month_start_1: "month_start y 1 = year_start y"
  by (simp add: month_start_def)

lemma year_start_mono: "y < y' \<Longrightarrow> year_start (y + 1) \<le> year_start y'"
proof (induction y' rule: int_gr_induct)
  case (step i)
  then show ?case using year_start_next [of i] by (auto simp: year_length_def split: if_splits)
qed simp

lemma month_start_mono: "m < m' \<Longrightarrow> 1 \<le> m \<Longrightarrow> m' \<le> 13 \<Longrightarrow> month_start y (m + 1) \<le> month_start y m'"
proof (induction m' rule: int_gr_induct)
  case (step i)
  then have "0 \<le> month_lengths y ! nat (i - 1)" using month_lengths_pos [of "nat (i - 1)" y] by linarith
  then show ?case using step month_start_next [of i y] by auto
qed simp

lemma civil_bounds:
  assumes "civil day = (y, m, md)"
  shows "month_start y m \<le> day" "day < month_start y (m + 1)" "year_start y \<le> day" "day < year_start (y + 1)"
proof -
  note c = civil_day [OF assms]
  show *: "month_start y m \<le> day" "day < month_start y (m + 1)" using c month_start_next [OF c(1,2), of y] by linarith+
  show "year_start y \<le> day" using * c month_start_mono [of 1 m y] month_start_next [of 1 y] month_lengths_pos [of 0 y]
    by (cases "m = 1") (auto simp: month_start_1)
  show "day < year_start (y + 1)"
    using * c month_start_mono [of m 13 y] by (simp add: month_start_13)
qed

lemma civil_unique:
  assumes "1 \<le> m" "m \<le> 12" "month_start y m \<le> day" "day < month_start y (m + 1)"
  shows "civil day = (y, m, day - month_start y m + 1)"
proof -
  obtain y' m' md' where c: "civil day = (y', m', md')" by (cases "civil day") auto
  note b = civil_bounds [OF c] and d = civil_day [OF c]
  have "year_start y \<le> day" "day < year_start (y + 1)"
    using assms month_start_mono [of 1 m y] month_start_next [of 1 y] month_lengths_pos [of 0 y] month_start_mono [of m 13 y]
    by (cases "m = 1"; simp add: month_start_1 month_start_13)+
  then have y: "y' = y" using b(3,4) year_start_mono [of y y'] year_start_mono [of y' y] by linarith
  have "m' = m"
    using assms b(1,2) d(1,2) month_start_mono [of m m' y] month_start_mono [of m' m y] unfolding y by linarith
  then show ?thesis using c d(5) y by simp
qed

lemma civil_inj: "civil d = civil d' \<Longrightarrow> d = d'"
  using civil_day(5) [of d] civil_day(5) [of d'] by (cases "civil d'") auto

lemma civil_next:
  assumes "civil day = (y, m, md)"
  shows "civil (day + 1) =
    (if day + 1 < month_start y (m + 1) then (y, m, md + 1) else if m = 12 then (y + 1, 1, 1) else (y, m + 1, 1))"
proof -
  note c = civil_day [OF assms] and b = civil_bounds [OF assms]
  consider "day + 1 < month_start y (m + 1)" | "day + 1 = month_start y (m + 1)" "m = 12" | "day + 1 = month_start y (m + 1)" "m < 12"
    using b(2) c(2) by linarith
  then show ?thesis
  proof cases
    case 1
    then show ?thesis using civil_unique [of m y "day + 1"] c by simp
  next
    case 2
    then have "day + 1 = month_start (y + 1) 1" by (simp add: month_start_13 month_start_1)
    then show ?thesis using 2 civil_unique [of 1 "y + 1" "day + 1"] month_start_next [of 1 "y + 1"] month_lengths_pos [of 0 "y + 1"] by simp
  next
    case 3
    then have "0 < month_lengths y ! nat m" using month_lengths_pos [of "nat m" y] c(1) by linarith
    then show ?thesis using 3 civil_unique [of "m + 1" y "day + 1"] month_start_next [of "m + 1" y] c(1) by simp
  qed
qed

section \<open>Keys\<close>

text \<open>A key of the statistics is a year, a month or a day; it is printed with the layouts \<open>2006\<close>, \<open>2006_01\<close>, \<open>2006_01_02\<close>.\<close>

datatype tkey = KYear int | KMonth int int | KDay int int int

fun format_key :: "tkey \<Rightarrow> string" where
  "format_key (KYear y) = pad_int 4 y"
| "format_key (KMonth y m) = Join [pad_int 4 y, pad_int 2 m] ''_''"
| "format_key (KDay y m d) = Join [pad_int 4 y, pad_int 2 m, pad_int 2 d] ''_''"

definition day_key :: "gotime \<Rightarrow> tkey" where
  "day_key t = KDay (time_Year t) (time_Month t) (time_Day t)"

text \<open>The first loop: the days until the month changes or the end is met.\<close>

function days_loop :: "int \<Rightarrow> gotime \<Rightarrow> gotime \<Rightarrow> tkey list \<times> gotime" where
  "days_loop month start end =
     (if time_Month start \<noteq> month \<or> start = end then ([], start)
      else let (ds, s) = days_loop month (AddDays start 1) end in (day_key start # ds, s))"
  by pat_completeness auto
termination
proof (relation "measure (\<lambda>(month, start, _). if time_Month start = month
      then nat (month_start (time_Year start) (month + 1) - day_of start) else 0)")
  fix month start "end" assume *: "\<not> (time_Month start \<noteq> month \<or> start = end)"
  obtain y md where c: "civil (day_of start) = (y, month, md)" using * by (cases "civil (day_of start)") (auto simp: time_Month_def)
  note b = civil_bounds(2) [OF c] and n = civil_next [OF c]
  show "((month, AddDays start 1, end), (month, start, end)) \<in> measure (\<lambda>(month, start, _). if time_Month start = month
      then nat (month_start (time_Year start) (month + 1) - day_of start) else 0)"
    using b n civil_day(2) [OF c] c by (auto simp: time_Month_def time_Year_def day_of_AddDays split: if_splits)
qed simp

text \<open>The second loop: whole years and months.\<close>

function span_loop :: "gotime \<Rightarrow> gotime \<Rightarrow> tkey list \<times> gotime" where
  "span_loop start end =
     (let tmpyear = time_Date (time_Year start + 1) 1; tmpmonth = time_Date (time_Year start) (time_Month start + 1)
      in if time_Day start = 1 \<and> time_Month start = 1 \<and> tmpyear \<le> end
         then (let (ks, s) = span_loop tmpyear end in (KYear (time_Year start) # ks, s))
         else if tmpmonth \<le> end
         then (let (ks, s) = span_loop tmpmonth end in (KMonth (time_Year start) (time_Month start) # ks, s))
         else ([], start))"
  by pat_completeness auto

lemma day_of_less: "day_of t < n \<Longrightarrow> t < n * day_ns"
  using day_ns_pos zdiv_mono1 [of "n * day_ns" t day_ns] unfolding day_of_def day_ns_def [symmetric] by (cases "n * day_ns \<le> t") auto

lemma time_Date_later:
  "start < time_Date (time_Year start + 1) 1" "start < time_Date (time_Year start) (time_Month start + 1)"
proof -
  obtain y m md where c: "civil (day_of start) = (y, m, md)" by (cases "civil (day_of start)") auto
  then have f: "time_Year start = y" "time_Month start = m" by (simp_all add: time_Year_def time_Month_def)
  note b = civil_bounds [OF c]
  show "start < time_Date (time_Year start + 1) 1"
    using day_of_less [OF b(4)] by (simp add: f time_Date_def month_start_1)
  show "start < time_Date (time_Year start) (time_Month start + 1)"
    using day_of_less [OF b(2)] by (simp add: f time_Date_def)
qed

termination span_loop
  by (relation "measure (\<lambda>(start, end). nat (end - start))") (use time_Date_later less_le_trans in \<open>fastforce+\<close>)

text \<open>The third loop: the days that remain.\<close>

function rest_loop :: "gotime \<Rightarrow> gotime \<Rightarrow> tkey list" where
  "rest_loop start end = (if end < AddDays start 1 then [] else day_key start # rest_loop (AddDays start 1) end)"
  by pat_completeness auto
termination
  by (relation "measure (\<lambda>(start, end). nat (end - start))") (use day_ns_pos in \<open>auto simp: AddDays_def\<close>)

declare days_loop.simps [simp del] span_loop.simps [simp del] rest_loop.simps [simp del]

definition time_keys :: "gotime \<Rightarrow> gotime \<Rightarrow> tkey list" where
  "time_keys start end =
     (if time_Day start = time_Day end \<and> time_Month start = time_Month end \<and> time_Year start = time_Year end
      then [day_key start]
      else let (ds, s1) = (if time_Day start \<noteq> 1 then days_loop (time_Month start) start end else ([], start));
               (ks, s2) = span_loop s1 end
           in ds @ ks @ rest_loop s2 end)"

definition TimeKeyCoverage :: "gotime \<Rightarrow> gotime \<Rightarrow> string list" where
  "TimeKeyCoverage start end = map format_key (time_keys start end)"

section \<open>What the keys cover\<close>

fun covers :: "tkey \<Rightarrow> int \<Rightarrow> bool" where
  "covers (KYear y) day \<longleftrightarrow> fst (civil day) = y"
| "covers (KMonth y m) day \<longleftrightarrow> fst (civil day) = y \<and> fst (snd (civil day)) = m"
| "covers (KDay y m d) day \<longleftrightarrow> civil day = (y, m, d)"

text \<open>Each day from one day up to another, excluded, is covered once, no other day is.\<close>

definition partition_days :: "tkey list \<Rightarrow> int \<Rightarrow> int \<Rightarrow> bool" where
  "partition_days ks a b \<longleftrightarrow>
     a \<le> b \<and> (\<forall>d. length (filter (\<lambda>k. covers k d) ks) = (if a \<le> d \<and> d < b then 1 else 0))"

lemma partition_Nil: "partition_days [] a a"
  by (simp add: partition_days_def)

lemma partition_append: "partition_days ks a b \<Longrightarrow> partition_days ls b c \<Longrightarrow> partition_days (ks @ ls) a c"
  by (auto simp: partition_days_def)

lemma partition_Cons: "partition_days [k] a b \<Longrightarrow> partition_days ks b c \<Longrightarrow> partition_days (k # ks) a c"
  using partition_append [of "[k]"] by simp

lemma partition_day: "partition_days [day_key t] (day_of t) (day_of t + 1)"
proof -
  have "covers (day_key t) d \<longleftrightarrow> d = day_of t" for d
    using civil_inj [of d "day_of t"] by (auto simp: day_key_def time_Year_def time_Month_def time_Day_def)
  then show ?thesis by (simp add: partition_days_def)
qed

lemma partition_month:
  assumes "1 \<le> m" "m \<le> 12"
  shows "partition_days [KMonth y m] (month_start y m) (month_start y (m + 1))"
proof -
  have "covers (KMonth y m) d \<longleftrightarrow> month_start y m \<le> d \<and> d < month_start y (m + 1)" for d
    using civil_bounds [of d] civil_unique [OF assms, of y d] by (cases "civil d") auto
  moreover have "month_start y m \<le> month_start y (m + 1)"
    using month_start_next [OF assms, of y] month_length_pos [OF assms, of y] by linarith
  ultimately show ?thesis by (simp add: partition_days_def)
qed

lemma partition_year: "partition_days [KYear y] (year_start y) (year_start (y + 1))"
proof -
  have "covers (KYear y) d \<longleftrightarrow> year_start y \<le> d \<and> d < year_start (y + 1)" for d
  proof -
    obtain y' m' md' where c: "civil d = (y', m', md')" by (cases "civil d") auto
    show ?thesis
    proof (cases "y' = y")
      case False
      then consider "y < y'" | "y' < y" by linarith
      then show ?thesis using civil_bounds(3,4) [OF c] year_start_mono [of y y'] year_start_mono [of y' y] by cases (auto simp: c)
    qed (use civil_bounds(3,4) [OF c] in \<open>simp add: c\<close>)
  qed
  moreover have "year_start y \<le> year_start (y + 1)" by (simp add: year_start_next year_length_def)
  ultimately show ?thesis by (simp add: partition_days_def)
qed

section \<open>The loops\<close>

text \<open>Points in time at midnight.\<close>

definition midnight :: "gotime \<Rightarrow> bool" where
  "midnight t \<longleftrightarrow> t = day_of t * day_ns"

lemma midnight_le: "midnight t \<Longrightarrow> midnight u \<Longrightarrow> t \<le> u \<longleftrightarrow> day_of t \<le> day_of u"
  using day_ns_pos unfolding midnight_def by (metis mult_le_cancel_right_pos)

lemma midnight_eq: "midnight t \<Longrightarrow> midnight u \<Longrightarrow> day_of t = day_of u \<Longrightarrow> t = u"
  unfolding midnight_def by metis

lemma midnight_AddDays: "midnight t \<Longrightarrow> midnight (AddDays t n)"
  unfolding midnight_def day_of_AddDays by (simp add: AddDays_def algebra_simps)

lemma midnight_Date: "midnight (time_Date y m)"
  unfolding midnight_def day_of_Date by (simp add: time_Date_def)

lemma next_day:
  "time_Month (AddDays t 1) = time_Month t \<or> time_Day (AddDays t 1) = 1"
  using civil_next [of "day_of t"] by (cases "civil (day_of t)") (auto simp: time_Month_def time_Day_def day_of_AddDays)

lemma days_loop_covers:
  assumes "midnight start" "midnight end" "start \<le> end" "time_Month start = month \<or> time_Day start = 1"
    and "days_loop month start end = (ds, s)"
  shows "partition_days ds (day_of start) (day_of s) \<and> midnight s \<and> s \<le> end \<and> (s = end \<or> time_Day s = 1)"
  using assms
proof (induction month start "end" arbitrary: ds rule: days_loop.induct)
  case (1 month start "end")
  show ?case
  proof (cases "time_Month start \<noteq> month \<or> start = end")
    case True
    then show ?thesis using 1(2-) by (auto simp: days_loop.simps [of month start "end"] partition_Nil)
  next
    case False
    obtain ds' where d: "days_loop month (AddDays start 1) end = (ds', s)" "ds = day_key start # ds'"
      using 1(6) False by (auto simp: days_loop.simps [of month start "end"] split: prod.splits)
    have "AddDays start 1 \<le> end"
      using midnight_le [OF midnight_AddDays [OF 1(2)] 1(3)] midnight_le [OF 1(2,3)] midnight_eq [OF 1(2,3)] 1(4) False
      by (fastforce simp: day_of_AddDays)
    moreover have "time_Month (AddDays start 1) = month \<or> time_Day (AddDays start 1) = 1" using next_day [of start] False by auto
    ultimately have "partition_days ds' (day_of start + 1) (day_of s) \<and> midnight s \<and> s \<le> end \<and> (s = end \<or> time_Day s = 1)"
      using 1(1) [OF False midnight_AddDays [OF 1(2)] 1(3) _ _ d(1)] by (simp add: day_of_AddDays)
    then show ?thesis using partition_Cons [OF partition_day] d(2) by blast
  qed
qed

lemma first_of_month:
  assumes "time_Day t = 1"
  shows "day_of t = month_start (time_Year t) (time_Month t)" "1 \<le> time_Month t" "time_Month t \<le> 12"
  using civil_day [of "day_of t"] assms by (cases "civil (day_of t)"; simp add: time_Year_def time_Month_def time_Day_def)+

lemma span_loop_covers:
  assumes "midnight start" "midnight end" "start \<le> end" "start = end \<or> time_Day start = 1"
    and "span_loop start end = (ks, s)"
  shows "partition_days ks (day_of start) (day_of s) \<and> midnight s \<and> s \<le> end"
  using assms
proof (induction start "end" arbitrary: ks rule: span_loop.induct)
  case (1 start "end")
  let ?y = "time_Year start" and ?m = "time_Month start"
  let ?ty = "time_Date (?y + 1) 1" and ?tm = "time_Date ?y (?m + 1)"
  have first: "time_Day t = 1" if "t = time_Date y m" "1 \<le> m" "m \<le> 13" for t y m
  proof (cases "m = 13")
    case True
    then have "day_of t = month_start (y + 1) 1" using that(1) by (simp add: day_of_Date month_start_13 month_start_1)
    then show ?thesis using civil_unique [of 1 "y + 1" "day_of t"] month_start_next [of 1 "y + 1"] month_lengths_pos [of 0 "y + 1"]
      by (simp add: time_Day_def)
  next
    case False
    then have m: "1 \<le> m" "m \<le> 12" using that by simp_all
    then have "civil (day_of t) = (y, m, 1)"
      using civil_unique [OF m, of y "day_of t"] month_start_next [OF m, of y] month_length_pos [OF m, of y] that(1) by (simp add: day_of_Date)
    then show ?thesis by (simp add: time_Day_def)
  qed
  note s = span_loop.simps [of start "end"]
  consider (year) "time_Day start = 1" "?m = 1" "?ty \<le> end"
    | (month) "\<not> (time_Day start = 1 \<and> ?m = 1 \<and> ?ty \<le> end)" "?tm \<le> end"
    | (stop) "\<not> (time_Day start = 1 \<and> ?m = 1 \<and> ?ty \<le> end)" "\<not> ?tm \<le> end" by blast
  then show ?case
  proof cases
    case year
    then obtain ks' where k: "span_loop ?ty end = (ks', s)" "ks = KYear ?y # ks'"
      using 1(7) by (auto simp: s split: prod.splits)
    have "partition_days ks' (day_of ?ty) (day_of s) \<and> midnight s \<and> s \<le> end"
      using 1(1) [OF refl refl _ midnight_Date 1(4) year(3) _ k(1)] year first [of ?ty "?y + 1" 1] by simp
    then show ?thesis
      using partition_Cons [OF partition_year [of ?y]] first_of_month(1) [OF year(1)] year(2) k(2)
      by (simp add: day_of_Date month_start_1)
  next
    case month
    then have d1: "time_Day start = 1" using 1(6) time_Date_later(2) [of start] by auto
    note f = first_of_month [OF d1]
    obtain ks' where k: "span_loop ?tm end = (ks', s)" "ks = KMonth ?y ?m # ks'"
      using 1(7) month by (auto simp: s split: prod.splits)
    have "partition_days ks' (day_of ?tm) (day_of s) \<and> midnight s \<and> s \<le> end"
      using 1(2) [OF refl refl _ _ midnight_Date 1(4) month(2) _ k(1)] month first [of ?tm ?y "?m + 1"] f by auto
    then show ?thesis using partition_Cons [OF partition_month [OF f(2,3), of ?y]] f(1) k(2) by (simp add: day_of_Date)
  next
    case stop
    then show ?thesis using 1(3-) by (auto simp: s partition_Nil)
  qed
qed

lemma rest_loop_covers:
  assumes "midnight start" "midnight end" "start \<le> end"
  shows "partition_days (rest_loop start end) (day_of start) (day_of end)"
  using assms
proof (induction start "end" rule: rest_loop.induct)
  case (1 start "end")
  have le: "AddDays start 1 \<le> end \<longleftrightarrow> day_of start + 1 \<le> day_of end"
    using midnight_le [OF midnight_AddDays [OF 1(2)] 1(3)] by (simp add: day_of_AddDays)
  show ?case
  proof (cases "AddDays start 1 \<le> end")
    case True
    then show ?thesis
      using partition_Cons [OF partition_day [of start]] 1(1) [OF _ midnight_AddDays [OF 1(2)] 1(3) True]
      by (simp add: rest_loop.simps [of start "end"] day_of_AddDays)
  next
    case False
    then have "day_of end = day_of start" using le midnight_le [OF 1(2,3)] 1(4) by simp
    then show ?thesis using False by (simp add: rest_loop.simps [of start "end"] partition_Nil)
  qed
qed

section \<open>Property\<close>

lemma time_keys_partition:
  assumes "midnight start" "midnight end" "start < end"
  shows "partition_days (time_keys start end) (day_of start) (day_of end)"
proof -
  have "day_of start \<noteq> day_of end" using midnight_eq [OF assms(1,2)] assms(3) by auto
  then have "\<not> (time_Day start = time_Day end \<and> time_Month start = time_Month end \<and> time_Year start = time_Year end)"
    using civil_inj [of "day_of start" "day_of end"] by (metis prod_eqI time_Day_def time_Month_def time_Year_def)
  moreover obtain ds s1 where 1: "(if time_Day start \<noteq> 1 then days_loop (time_Month start) start end else ([], start)) = (ds, s1)"
    by fastforce
  moreover obtain ks s2 where 2: "span_loop s1 end = (ks, s2)" by fastforce
  ultimately have k: "time_keys start end = ds @ ks @ rest_loop s2 end" unfolding time_keys_def by auto
  have a: "partition_days ds (day_of start) (day_of s1)" "midnight s1" "s1 \<le> end" "s1 = end \<or> time_Day s1 = 1"
    using days_loop_covers [OF assms(1,2) less_imp_le [OF assms(3)], of "time_Month start" ds s1] 1 assms
    by (auto simp: partition_Nil split: if_splits)
  have b: "partition_days ks (day_of s1) (day_of s2)" "midnight s2" "s2 \<le> end"
    using span_loop_covers [OF a(2) assms(2) a(3,4) 2] by blast+
  show ?thesis
    unfolding k using partition_append [OF a(1) partition_append [OF b(1) rest_loop_covers [OF b(2) assms(2) b(3)]]] .
qed

text \<open>
  C37: The keys cover the period exactly.  For a period between two different midnights the loops end,
  every day from the first to the one before the last is covered by exactly one of the keys, as a day, in
  its month or in its year, and no other day is; so adding the counters of the keys counts every day of
  the period once.
\<close>

theorem time_keys_cover:
  assumes "midnight start" "midnight end" "start < end"
  shows "length (filter (\<lambda>k. covers k d) (time_keys start end)) = (if day_of start \<le> d \<and> d < day_of end then 1 else 0)"
  using time_keys_partition [OF assms] by (simp add: partition_days_def)

text \<open>From 30 January 2023 to 3 March 2024.\<close>

theorem time_keys_cover_witness:
  "length (filter (\<lambda>k. covers k 738944) (time_keys (738549 * day_ns) (738947 * day_ns))) = 1 \<and> civil 738944 = (2024, 2, 29)"
proof -
  have d: "day_of (n * day_ns) = n" for n by (simp add: day_of_def day_ns_def time_Second_def)
  have m: "midnight (n * day_ns)" for n by (simp add: midnight_def d)
  show ?thesis using time_keys_cover [OF m m, of 738549 738947 738944] day_ns_pos civil_leap by (simp add: d)
qed

end
