(* ===== verification/Rpc.thy ===== *)
theory Rpc
  imports Monitor Time_Keys
begin

text \<open>
  The server side of the remote procedure calls (\<^verbatim>\<open>rpc/rpc.go\<close>, \<^verbatim>\<open>rpc/utils.go\<close>, \<^verbatim>\<open>rpc/interceptors.go\<close>):
  authorisation, the conversion of mirrors to and from messages, and the calls that read and change
  the list of mirrors, start scans and add up statistics.  The protocol library, the resolver, the
  location database, YAML and regular expressions are fields of the environment.
\<close>

section \<open>Messages\<close>

record timestamp =
  ts_Seconds :: int
  ts_Nanos :: int

text \<open>\<open>ptypes.Timestamp\<close>, which refuses a missing message, and \<open>ptypes.TimestampProto\<close>.\<close>

record ptypes =
  pt_Timestamp :: "timestamp option \<Rightarrow> err + gotime"
  pt_TimestampProto :: "gotime \<Rightarrow> err + timestamp"

record rpc_mirror =
  rm_ID :: int
  rm_Name :: string
  rm_HttpURL :: string
  rm_RsyncURL :: string
  rm_FtpURL :: string
  rm_SponsorName :: string
  rm_SponsorURL :: string
  rm_SponsorLogoURL :: string
  rm_AdminName :: string
  rm_AdminEmail :: string
  rm_CustomData :: string
  rm_ContinentOnly :: bool
  rm_CountryOnly :: bool
  rm_ASOnly :: bool
  rm_Score :: int
  rm_Latitude :: real
  rm_Longitude :: real
  rm_ContinentCode :: string
  rm_CountryCodes :: string
  rm_ExcludedCountryCodes :: string
  rm_Asnum :: int
  rm_Comment :: string
  rm_Enabled :: bool
  rm_Up :: bool
  rm_ExcludeReason :: string
  rm_StateSince :: "timestamp option"
  rm_AllowRedirects :: int
  rm_LastSync :: "timestamp option"
  rm_LastSuccessfulSync :: "timestamp option"
  rm_LastModTime :: "timestamp option"
  rm_Country :: string
  rm_NetworkBandwidth :: int

definition MirrorToRPC :: "ptypes \<Rightarrow> Mirror \<Rightarrow> err + rpc_mirror" where
  "MirrorToRPC pt m =
     (case pt_TimestampProto pt (StateSince m) of Inl e \<Rightarrow> Inl e | Inr stateSince \<Rightarrow>
     (case pt_TimestampProto pt (LastSync m) of Inl e \<Rightarrow> Inl e | Inr lastSync \<Rightarrow>
     (case pt_TimestampProto pt (LastSuccessfulSync m) of Inl e \<Rightarrow> Inl e | Inr lastSuccessfulSync \<Rightarrow>
     (case pt_TimestampProto pt (LastModTime m) of Inl e \<Rightarrow> Inl e | Inr lastModTime \<Rightarrow>
        Inr \<lparr>rm_ID = wrap32 (ID m), rm_Name = Name m, rm_HttpURL = HttpURL m, rm_RsyncURL = RsyncURL m, rm_FtpURL = FtpURL m,
             rm_SponsorName = SponsorName m, rm_SponsorURL = SponsorURL m, rm_SponsorLogoURL = SponsorLogoURL m,
             rm_AdminName = AdminName m, rm_AdminEmail = AdminEmail m, rm_CustomData = CustomData m,
             rm_ContinentOnly = ContinentOnly m, rm_CountryOnly = CountryOnly m, rm_ASOnly = ASOnly m, rm_Score = wrap32 (Score m),
             rm_Latitude = Latitude m, rm_Longitude = Longitude m, rm_ContinentCode = ContinentCode m,
             rm_CountryCodes = CountryCodes m, rm_ExcludedCountryCodes = ExcludedCountryCodes m,
             rm_Asnum = wrapu32 (int (Asnum m)), rm_Comment = Comment m, rm_Enabled = Enabled m, rm_Up = Up m,
             rm_ExcludeReason = ExcludeReason m, rm_StateSince = Some stateSince, rm_AllowRedirects = wrap32 (AllowRedirects m),
             rm_LastSync = Some lastSync, rm_LastSuccessfulSync = Some lastSuccessfulSync, rm_LastModTime = Some lastModTime,
             rm_Country = Country m, rm_NetworkBandwidth = NetworkBandwidth m\<rparr>))))"

definition MirrorFromRPC :: "ptypes \<Rightarrow> rpc_mirror \<Rightarrow> err + Mirror" where
  "MirrorFromRPC pt m =
     (case pt_Timestamp pt (rm_StateSince m) of Inl e \<Rightarrow> Inl e | Inr stateSince \<Rightarrow>
     (case pt_Timestamp pt (rm_LastSync m) of Inl e \<Rightarrow> Inl e | Inr lastSync \<Rightarrow>
     (case pt_Timestamp pt (rm_LastSuccessfulSync m) of Inl e \<Rightarrow> Inl e | Inr lastSuccessfulSync \<Rightarrow>
     (case pt_Timestamp pt (rm_LastModTime m) of Inl e \<Rightarrow> Inl e | Inr lastModTime \<Rightarrow>
        Inr (zero_mirror
          \<lparr>ID := rm_ID m, Name := rm_Name m, HttpURL := rm_HttpURL m, RsyncURL := rm_RsyncURL m, FtpURL := rm_FtpURL m,
           SponsorName := rm_SponsorName m, SponsorURL := rm_SponsorURL m, SponsorLogoURL := rm_SponsorLogoURL m,
           AdminName := rm_AdminName m, AdminEmail := rm_AdminEmail m, CustomData := rm_CustomData m,
           ContinentOnly := rm_ContinentOnly m, CountryOnly := rm_CountryOnly m, ASOnly := rm_ASOnly m, Score := rm_Score m,
           Latitude := rm_Latitude m, Longitude := rm_Longitude m, ContinentCode := rm_ContinentCode m,
           CountryCodes := rm_CountryCodes m, ExcludedCountryCodes := rm_ExcludedCountryCodes m,
           Asnum := nat (rm_Asnum m), Comment := rm_Comment m, Enabled := rm_Enabled m, Up := rm_Up m,
           ExcludeReason := rm_ExcludeReason m, StateSince := stateSince, AllowRedirects := rm_AllowRedirects m,
           LastSync := lastSync, LastSuccessfulSync := lastSuccessfulSync, LastModTime := lastModTime,
           Country := rm_Country m, NetworkBandwidth := rm_NetworkBandwidth m\<rparr>)))))"

section \<open>Environment\<close>

record ('db, 'a) rpc_env =
  re_client :: "'db client"
  re_connErr :: "err option"
  re_listErr :: "err option"
  re_pt :: ptypes
  re_json :: json
  re_now :: gotime
  re_Float :: "real \<Rightarrow> string"
  re_ScanStruct :: "reply list \<Rightarrow> err + Mirror"
  re_order :: "(int \<rightharpoonup> string) \<Rightarrow> (int \<times> string) list"
  re_ParseHost :: "string \<Rightarrow> err + string"
  re_LookupIP :: "string \<Rightarrow> err + string list"
  re_openCity :: "string \<Rightarrow> err + ('a, CityDb) reader"
  re_openASN :: "string \<Rightarrow> err + ('a, ASNDb) reader"
  re_ParseIP :: "string \<Rightarrow> 'a option"
  re_GeoError :: "GeoIPError \<Rightarrow> err"
  re_Marshal :: "Mirror \<Rightarrow> string"
  re_Compile :: "string \<Rightarrow> err + (string \<Rightarrow> bool)"
  re_Error :: "err \<Rightarrow> string"

text \<open>
  \<open>re_connErr\<close> is the error of \<open>Connect\<close>, \<open>re_listErr\<close> that of a pooled connection;
  \<open>re_Float\<close> is what the client writes for a floating point number, \<open>re_order\<close> the iteration order of
  the map of mirrors, \<open>re_ParseHost\<close> is \<open>url.Parse\<close> followed by \<open>Host\<close>, \<open>re_Marshal\<close> is \<open>yaml.Marshal\<close> with
  its error dropped.  The connection that \<open>Connect\<close> returns does not wait for the upgrade of the database.
\<close>

abbreviation rpc_exec :: "('db, 'a) rpc_env \<Rightarrow> 'db \<Rightarrow> rcmd list \<Rightarrow> (err + reply) \<times> 'db" where
  "rpc_exec env \<equiv> rd_exec (api (re_client env))"

abbreviation rpc_do :: "('db, 'a) rpc_env \<Rightarrow> 'db \<Rightarrow> rcmd \<Rightarrow> (err + reply) \<times> 'db" where
  "rpc_do env \<equiv> unblocked_do (re_client env)"

definition FailedPrecondition :: "string \<Rightarrow> err" where
  "FailedPrecondition msg = ErrStatus ''FailedPrecondition'' msg"

definition invalid_id :: err where
  "invalid_id = FailedPrecondition ''invalid mirror id''"

section \<open>Authorisation\<close>

text \<open>The metadata of a request, when it has any: a map to lists in which a missing key reads as empty.\<close>

definition authorize :: "Configuration \<Rightarrow> (string \<Rightarrow> string list) option \<Rightarrow> err option gores" where
  "authorize cnf md =
     (case md of
        Some m \<Rightarrow>
          (case m ''password'' of
             [] \<Rightarrow> Inl IndexOutOfRange
           | p # _ \<Rightarrow> Inr (if p = RPCPassword cnf then None else Some (ErrStatus ''Unauthenticated'' ''access denied'')))
      | None \<Rightarrow> Inr (Some (ErrStatus ''Unauthenticated'' ''access denied'')))"

definition UnaryInterceptor ::
    "Configuration \<Rightarrow> (string \<Rightarrow> string list) option \<Rightarrow> ('s \<Rightarrow> ((err + 'b) \<times> 's) gores) \<Rightarrow> 's \<Rightarrow> ((err + 'b) \<times> 's) gores" where
  "UnaryInterceptor cnf md handler s =
     (case authorize cnf md of
        Inl p \<Rightarrow> Inl p
      | Inr (Some e) \<Rightarrow> Inr (Inl e, s)
      | Inr None \<Rightarrow> handler s)"

definition StreamInterceptor ::
    "Configuration \<Rightarrow> (string \<Rightarrow> string list) option \<Rightarrow> ('s \<Rightarrow> (err option \<times> 's) gores) \<Rightarrow> 's \<Rightarrow> (err option \<times> 's) gores" where
  "StreamInterceptor cnf md handler s =
     (case authorize cnf md of
        Inl p \<Rightarrow> Inl p
      | Inr (Some e) \<Rightarrow> Inr (Some e, s)
      | Inr None \<Rightarrow> handler s)"

section \<open>Signals\<close>

text \<open>
  \<open>Upgrade\<close> and \<open>Reload\<close> send a signal when the handler can take it; \<open>sig_room\<close> is the free capacity of
  the channel, 0 for a channel that was not set.
\<close>

datatype signal = SIGUSR2 | SIGHUP

record sig_chan =
  sig_room :: nat
  sig_sent :: "signal list"

definition send_signal :: "signal \<Rightarrow> sig_chan \<Rightarrow> err option \<times> sig_chan" where
  "send_signal x c =
     (if 0 < sig_room c then (None, c\<lparr>sig_room := sig_room c - 1, sig_sent := sig_sent c @ [x]\<rparr>)
      else (Some (ErrStatus ''Internal'' ''signal handler not ready''), c))"

definition rpc_Upgrade :: "sig_chan \<Rightarrow> err option \<times> sig_chan" where
  "rpc_Upgrade c = send_signal SIGUSR2 c"

definition rpc_Reload :: "sig_chan \<Rightarrow> err option \<times> sig_chan" where
  "rpc_Reload c = send_signal SIGHUP c"

section \<open>Reading the mirrors\<close>

text \<open>The flag tells whether the database was set.\<close>

definition MatchMirror :: "('db, 'a) rpc_env \<Rightarrow> bool \<Rightarrow> string \<Rightarrow> 'db \<Rightarrow> ((err + (int \<times> string) list) \<times> 'db) gores" where
  "MatchMirror env ready pattern db =
     (if \<not> ready then Inr (Inl (ErrStatus ''Internal'' ''database not ready''), db)
      else (case GetListOfMirrors (re_client env) (re_listErr env) db of
              (Inl p, _) \<Rightarrow> Inl p
            | (Inr (Inl e), db1) \<Rightarrow> Inr (Inl (ErrWrap e ''can't fetch the list of mirrors''), db1)
            | (Inr (Inr mirrors), db1) \<Rightarrow>
                Inr (Inr (map (\<lambda>(i, name). (wrap32 i, name))
                            (filter (\<lambda>(i, name). Contains (ToLower name) (ToLower pattern)) (re_order env mirrors))), db1)))"

definition ChangeStatus :: "('db, 'a) rpc_env \<Rightarrow> int \<Rightarrow> bool \<Rightarrow> 'db \<Rightarrow> err option \<times> 'db" where
  "ChangeStatus env i enabled db =
     (if i \<le> 0 then (Some invalid_id, db)
      else if enabled then EnableMirror (re_json env) (re_client env) (re_now env) db i
      else DisableMirror (re_json env) (re_client env) (re_now env) db i)"

text \<open>One reply of \<open>HGETALL\<close> as a message.\<close>

fun list_replies :: "('db, 'a) rpc_env \<Rightarrow> reply list \<Rightarrow> err + rpc_mirror list" where
  "list_replies env [] = Inr []"
| "list_replies env (RMulti res # rs) =
     (case re_ScanStruct env res of
        Inl e \<Rightarrow> Inl (ErrWrap e ''scan struct failed'')
      | Inr m \<Rightarrow>
          (case MirrorToRPC (re_pt env) m of
             Inl e \<Rightarrow> Inl e
           | Inr rm \<Rightarrow> (case list_replies env rs of Inl e \<Rightarrow> Inl e | Inr l \<Rightarrow> Inr (rm # l))))"
| "list_replies env (_ # rs) = Inl (ErrMsg ''typecast failed'')"

definition rpc_List :: "('db, 'a) rpc_env \<Rightarrow> 'db \<Rightarrow> ((err + rpc_mirror list) \<times> 'db) gores" where
  "rpc_List env db =
     (case re_connErr env of
        Some e \<Rightarrow> Inr (Inl e, db)
      | None \<Rightarrow>
          (case GetListOfMirrors (re_client env) (re_listErr env) db of
             (Inl p, _) \<Rightarrow> Inl p
           | (Inr (Inl e), db1) \<Rightarrow> Inr (Inl (ErrWrap e ''can't fetch the list of mirrors''), db1)
           | (Inr (Inr mirrorsIDs), db1) \<Rightarrow>
               (case rpc_exec env db1 (map (\<lambda>(i, _). HGETALL (mirror_key i)) (re_order env mirrorsIDs)) of
                  (rep, db2) \<Rightarrow>
                    Inr (case rd_Values (api (re_client env)) rep of
                           Inl e \<Rightarrow> Inl (ErrWrap e ''database error'')
                         | Inr res \<Rightarrow> list_replies env res, db2))))"

text \<open>\<open>HGETALL\<close> of a mirror, decoded; an unknown mirror decodes as the zero value.\<close>

definition fetch_struct :: "('db, 'a) rpc_env \<Rightarrow> int \<Rightarrow> 'db \<Rightarrow> (err + Mirror) \<times> 'db" where
  "fetch_struct env i db =
     (let (rep, db1) = rpc_do env db (HGETALL (mirror_key i))
      in (case rd_Values (api (re_client env)) rep of Inl e \<Rightarrow> Inl e | Inr m \<Rightarrow> re_ScanStruct env m, db1))"

definition MirrorInfo :: "('db, 'a) rpc_env \<Rightarrow> int \<Rightarrow> 'db \<Rightarrow> (err + rpc_mirror) \<times> 'db" where
  "MirrorInfo env i db =
     (if i \<le> 0 then (Inl invalid_id, db)
      else (case re_connErr env of
              Some e \<Rightarrow> (Inl e, db)
            | None \<Rightarrow>
                (case fetch_struct env i db of
                   (Inl e, db1) \<Rightarrow> (Inl e, db1)
                 | (Inr mi, db1) \<Rightarrow> (MirrorToRPC (re_pt env) mi, db1))))"

definition GetMirrorLogs :: "('db, 'a) rpc_env \<Rightarrow> int \<Rightarrow> int \<Rightarrow> 'db \<Rightarrow> (err + string list) \<times> 'db" where
  "GetMirrorLogs env i mx db =
     (if i \<le> 0 then (Inl invalid_id, db)
      else (case ReadLogs (re_json env) (re_client env) db i mx of
              (Inl e, db1) \<Rightarrow> (Inl (ErrWrap e ''mirror logs error''), db1)
            | (Inr ls, db1) \<Rightarrow> (Inr ls, db1)))"

section \<open>Writing a mirror\<close>

text \<open>The loop over the known mirrors: \<open>None\<close> when another one has the name, else whether the number is known.\<close>

fun name_loop :: "int \<Rightarrow> string \<Rightarrow> (int \<times> string) list \<Rightarrow> bool \<Rightarrow> bool option" where
  "name_loop i name [] isUpdate = Some isUpdate"
| "name_loop i name ((j, n) # ms) isUpdate =
     (if i \<noteq> j \<and> n = name then None else name_loop i name ms (j = i \<or> isUpdate))"

definition normal_mirror :: "Mirror \<Rightarrow> Mirror" where
  "normal_mirror m =
     m\<lparr>CountryCodes := SanitizeLocationCodes (CountryCodes m),
       ExcludedCountryCodes := SanitizeLocationCodes (ExcludedCountryCodes m),
       ContinentCode := SanitizeLocationCodes (ContinentCode m),
       HttpURL := (if HttpURL m \<noteq> '''' then NormalizeURL (HttpURL m) else HttpURL m),
       RsyncURL := (if RsyncURL m \<noteq> '''' then NormalizeURL (RsyncURL m) else RsyncURL m),
       FtpURL := (if FtpURL m \<noteq> '''' then NormalizeURL (FtpURL m) else FtpURL m)\<rparr>"

definition mirror_args :: "(real \<Rightarrow> string) \<Rightarrow> Mirror \<Rightarrow> (string \<times> arg) list" where
  "mirror_args flt m =
     [(''ID'', AInt (ID m)), (''name'', AStr (Name m)), (''http'', AStr (HttpURL m)), (''rsync'', AStr (RsyncURL m)),
      (''ftp'', AStr (FtpURL m)), (''sponsorName'', AStr (SponsorName m)), (''sponsorURL'', AStr (SponsorURL m)),
      (''sponsorLogo'', AStr (SponsorLogoURL m)), (''adminName'', AStr (AdminName m)), (''adminEmail'', AStr (AdminEmail m)),
      (''customData'', AStr (CustomData m)), (''continentOnly'', ABool (ContinentOnly m)), (''countryOnly'', ABool (CountryOnly m)),
      (''asOnly'', ABool (ASOnly m)), (''score'', AInt (Score m)), (''latitude'', AStr (flt (Latitude m))),
      (''longitude'', AStr (flt (Longitude m))), (''networkBandwidth'', AInt (NetworkBandwidth m)),
      (''continentCode'', AStr (ContinentCode m)), (''countryCodes'', AStr (CountryCodes m)), (''country'', AStr (Country m)),
      (''excludedCountryCodes'', AStr (ExcludedCountryCodes m)), (''asnum'', AInt (int (Asnum m))), (''comment'', AStr (Comment m)),
      (''allowredirects'', AInt (AllowRedirects m)), (''enabled'', ABool (Enabled m))]"

text \<open>From the reformatting of the fields to the log entry, once the number is known.\<close>

definition save_mirror :: "('db, 'a) rpc_env \<Rightarrow> bool \<Rightarrow> Mirror \<Rightarrow> 'db \<Rightarrow> err option \<times> 'db" where
  "save_mirror env isUpdate m db =
     (let i = ID m; m1 = normal_mirror m;
          (rep, db1) = rpc_exec env db [HMSET (mirror_key i) (mirror_args (re_Float env) m1), HSET ''MIRRORS'' (Itoa i) (AStr (Name m1))]
      in case do_err rep of
           Some e \<Rightarrow> (Some (ErrWrap e ''couldn't save the mirror configuration''), db1)
         | None \<Rightarrow>
             (let db2 = snd (rpc_do env db1 (PUBLISH MIRROR_UPDATE (Itoa i)))
              in (None, snd (PushLog (re_json env) (re_client env) db2
                   (if isUpdate then NewLogEdited (re_now env) i else NewLogAdded (re_now env) i)))))"

definition setMirror :: "('db, 'a) rpc_env \<Rightarrow> Mirror \<Rightarrow> 'db \<Rightarrow> (err option \<times> 'db) gores" where
  "setMirror env m db =
     (let r = re_client env
      in case re_connErr env of
           Some e \<Rightarrow> Inr (Some e, db)
         | None \<Rightarrow>
             (case GetListOfMirrors r (re_listErr env) db of
                (Inl p, _) \<Rightarrow> Inl p
              | (Inr (Inl e), db1) \<Rightarrow> Inr (Some (ErrWrap e ''can't fetch the list of mirrors''), db1)
              | (Inr (Inr mirrorsIDs), db1) \<Rightarrow>
                  (case name_loop (ID m) (Name m) (re_order env mirrorsIDs) False of
                     None \<Rightarrow> Inr (Some ErrNameAlreadyTaken, db1)
                   | Some isUpdate \<Rightarrow>
                       (let (res, db2) =
                          (if ID m \<le> 0 then (case rpc_do env db1 (INCR ''LAST_MID'') of (rep, db') \<Rightarrow> (rd_Int (api r) rep, db'))
                           else (Inr (ID m), db1))
                        in case res of
                             Inl e \<Rightarrow> Inr (Some (ErrWrap e ''failed creating a new id''), db2)
                           | Inr i \<Rightarrow> Inr (save_mirror env isUpdate (m\<lparr>ID := i\<rparr>) db2)))))"

text \<open>The location of a mirror from its address; a latitude or longitude that was given is kept.\<close>

definition locate :: "GeoIPRecord \<Rightarrow> Mirror \<Rightarrow> Mirror" where
  "locate g m =
     m\<lparr>Latitude := (if Latitude m = 0 then geo_Latitude g else Latitude m),
       Longitude := (if Longitude m = 0 then geo_Longitude g else Longitude m),
       ContinentCode := geo_ContinentCode g, CountryCodes := geo_CountryCode g, Asnum := geo_ASNum g,
       Country := (if length (Country m) < 2 then geo_Country g else Country m)\<rparr>"

record AddMirrorReply =
  ar_NetworkBandwidth :: int
  ar_Latitude :: real
  ar_Longitude :: real
  ar_Country :: string
  ar_Continent :: string
  ar_ASN :: string
  ar_Warnings :: "string list"

definition load_geo :: "('db, 'a) rpc_env \<Rightarrow> err + 'a GeoIP" where
  "load_geo env =
     (case LoadGeoIP (re_openCity env) (re_openASN env) NewGeoIP of
        (Some e, _) \<Rightarrow> Inl (re_GeoError env e)
      | (None, g) \<Rightarrow> Inr g)"

definition AddMirror :: "('db, 'a) rpc_env \<Rightarrow> rpc_mirror \<Rightarrow> 'db \<Rightarrow> ((AddMirrorReply option \<times> err option) \<times> 'db) gores" where
  "AddMirror env rm db =
     (let fail = (\<lambda>e. Inr ((None, Some e), db))
      in case MirrorFromRPC (re_pt env) rm of
           Inl e \<Rightarrow> fail e
         | Inr m \<Rightarrow>
             if ID m \<noteq> 0 then fail (FailedPrecondition ''unexpected ID'')
             else (case re_ParseHost env (HttpURL m) of
                     Inl e \<Rightarrow> fail (ErrWrap e ''can't parse http url'')
                   | Inr host \<Rightarrow>
                       (case LookupMirrorIP (re_LookupIP env) host of
                          Inl p \<Rightarrow> Inl p
                        | Inr (ip, e) \<Rightarrow>
                            if e \<noteq> None \<and> e \<noteq> Some ErrMultipleAddresses then fail (ErrWrap (the e) ''IP lookup failed'')
                            else (case load_geo env of
                                    Inl ge \<Rightarrow> fail ge
                                  | Inr geo \<Rightarrow>
                                      (let w1 = (if e = Some ErrMultipleAddresses then
                                             [''Warning: the hostname returned more than one address. Assuming they're sharing the same location.''] else []);
                                           g = GetRecord (re_ParseIP env) geo ip;
                                           m1 = (if geo_IsValid g then locate g m else m);
                                           reply = (if geo_IsValid g then
                                               \<lparr>ar_NetworkBandwidth = NetworkBandwidth m, ar_Latitude = Latitude m1, ar_Longitude = Longitude m1, ar_Country = '''',
                                                ar_Continent = geo_ContinentCode g,
                                                ar_ASN = geo_ASName g @ '' ('' @ Itoa (int (geo_ASNum g)) @ '')'', ar_Warnings = w1\<rparr>
                                             else
                                               \<lparr>ar_NetworkBandwidth = NetworkBandwidth m, ar_Latitude = 0, ar_Longitude = 0, ar_Country = '''', ar_Continent = '''', ar_ASN = '''',
                                                ar_Warnings = w1 @ [''Warning: unable to guess the geographic location of this mirror'']\<rparr>)
                                       in case setMirror env m1 db of
                                            Inl p \<Rightarrow> Inl p
                                          | Inr (se, db') \<Rightarrow> Inr ((Some reply, se), db'))))))"

text \<open>The lines of two documents that differ; the loop runs over the first and indexes the second.\<close>

fun diff_loop :: "nat \<Rightarrow> string list \<Rightarrow> string list \<Rightarrow> string \<Rightarrow> string gores" where
  "diff_loop i [] splitn out = Inr out"
| "diff_loop i (l # ls) splitn out =
     (if length splitn \<le> i then Inl IndexOutOfRange
      else diff_loop (Suc i) ls splitn
             (if l \<noteq> splitn ! i then out @ ''- '' @ l @ [CHR 0x0A] @ ''+ '' @ splitn ! i @ [CHR 0x0A] else out))"

definition createDiff :: "('db, 'a) rpc_env \<Rightarrow> Mirror \<Rightarrow> Mirror \<Rightarrow> string gores" where
  "createDiff env mirror1 mirror2 =
     diff_loop 0 (Split (re_Marshal env mirror1) (CHR 0x0A)) (Split (re_Marshal env mirror2) (CHR 0x0A)) ''''"

text \<open>The location an update adds when the country is missing; the error of the lookup is dropped.\<close>

definition update_location :: "('db, 'a) rpc_env \<Rightarrow> Mirror \<Rightarrow> (err + Mirror) gores" where
  "update_location env m =
     (if length (Country m) < 2 then
        (case re_ParseHost env (HttpURL m) of
           Inl e \<Rightarrow> Inr (Inl (ErrWrap e ''can't parse http url''))
         | Inr host \<Rightarrow>
             (case LookupMirrorIP (re_LookupIP env) host of
                Inl p \<Rightarrow> Inl p
              | Inr (ip, _) \<Rightarrow>
                  (case load_geo env of
                     Inl ge \<Rightarrow> Inr (Inl ge)
                   | Inr geo \<Rightarrow>
                       (let g = GetRecord (re_ParseIP env) geo ip
                        in Inr (Inr (if geo_IsValid g then locate g m else m))))))
      else Inr (Inr m))"

definition UpdateMirror :: "('db, 'a) rpc_env \<Rightarrow> rpc_mirror \<Rightarrow> 'db \<Rightarrow> ((string option \<times> err option) \<times> 'db) gores" where
  "UpdateMirror env rm db =
     (case MirrorFromRPC (re_pt env) rm of
        Inl e \<Rightarrow> Inr ((None, Some e), db)
      | Inr m \<Rightarrow>
          if ID m \<le> 0 then Inr ((None, Some invalid_id), db)
          else (case re_connErr env of
                  Some e \<Rightarrow> Inr ((Some '''', Some e), db)
                | None \<Rightarrow>
                    (case fetch_struct env (ID m) db of
                       (Inl e, db1) \<Rightarrow> Inr ((None, Some e), db1)
                     | (Inr original, db1) \<Rightarrow>
                         (case update_location env m of
                            Inl p \<Rightarrow> Inl p
                          | Inr (Inl e) \<Rightarrow> Inr ((None, Some e), db1)
                          | Inr (Inr m1) \<Rightarrow>
                              (case createDiff env original m1 of
                                 Inl p \<Rightarrow> Inl p
                               | Inr diff \<Rightarrow>
                                   (case setMirror env m1 db1 of
                                      Inl p \<Rightarrow> Inl p
                                    | Inr (e, db2) \<Rightarrow> Inr ((Some diff, e), db2)))))))"

section \<open>Removing a mirror\<close>

definition drop_cmds :: "int \<Rightarrow> string \<Rightarrow> rcmd list" where
  "drop_cmds i f = [DEL [fileinfo_key i f], SREM (filemirrors_key f) [Itoa i], file_update_cmd i f]"

definition mirror_keys :: "int \<Rightarrow> string list" where
  "mirror_keys i = [mirror_key i, files_key i, tmp_key i, handled_key i, scanning_key i, log_key i]"

definition RemoveMirror :: "('db, 'a) rpc_env \<Rightarrow> int \<Rightarrow> 'db \<Rightarrow> err option \<times> 'db" where
  "RemoveMirror env i db =
     (if i \<le> 0 then (Some invalid_id, db)
      else (case re_connErr env of
              Some e \<Rightarrow> (Some e, db)
            | None \<Rightarrow>
                (case DisableMirror (re_json env) (re_client env) (re_now env) db i of
                   (Some e, db1) \<Rightarrow> (Some (ErrWrap e ''unable to disable the mirror''), db1)
                 | (None, db1) \<Rightarrow>
                     (case rpc_do env db1 (SMEMBERS (files_key i)) of
                        (rep, db2) \<Rightarrow>
                          (case rd_Strings (api (re_client env)) rep of
                             Inl e \<Rightarrow> (Some (ErrWrap e ''unable to fetch the file list''), db2)
                           | Inr files \<Rightarrow>
                               (let (rep2, db3) = rpc_exec env db2
                                  (concat (map (drop_cmds i) files) @ [DEL (mirror_keys i), HDEL ''MIRRORS'' [Itoa i]])
                                in case do_err rep2 of
                                     Some e \<Rightarrow> (Some (ErrWrap e ''operation failed''), db3)
                                   | None \<Rightarrow> (None, snd (rpc_do env db3 (PUBLISH MIRROR_UPDATE (Itoa i))))))))))"

section \<open>Scans\<close>

definition RefreshRepository :: "('db, 'a) rpc_env \<Rightarrow> 'db source_env \<Rightarrow> layers \<Rightarrow> 'db \<Rightarrow> (err option \<times> layers \<times> 'db) gores option" where
  "RefreshRepository env senv st db = ScanSource (senv\<lparr>sv_stopped := False\<rparr>) (re_client env) (re_listErr env) st db"

datatype ScanProtocol = Scan_ALL | Scan_FTP | Scan_RSYNC

record ScanMirrorReply =
  sr_Enabled :: bool
  sr_FilesIndexed :: int
  sr_KnownIndexed :: int
  sr_Removed :: int
  sr_TZOffsetMs :: int

text \<open>The choice of the protocol; the scan itself is the one over HTTP whichever is asked for.\<close>

definition scan_protocol ::
    "('db, 'w) scan_env \<Rightarrow> layers \<Rightarrow> ScanProtocol \<Rightarrow> Mirror \<Rightarrow> ('db, 'w) scan_state \<Rightarrow> ((err + ScanResult) \<times> ('db, 'w) scan_state) gores" where
  "scan_protocol senv st protocol m ss =
     (case protocol of
        Scan_ALL \<Rightarrow>
          (case (if RsyncURL m \<noteq> '''' then Scan senv st RSYNC (RsyncURL m) (ID m) ss else Inr (Inl ErrNoSyncMethod, ss)) of
             Inl p \<Rightarrow> Inl p
           | Inr (Inr res, ss1) \<Rightarrow> Inr (Inr res, ss1)
           | Inr (Inl e, ss1) \<Rightarrow> if FtpURL m \<noteq> '''' then Scan senv st FTP (FtpURL m) (ID m) ss1 else Inr (Inl e, ss1))
      | Scan_RSYNC \<Rightarrow> if RsyncURL m \<noteq> '''' then Scan senv st RSYNC (RsyncURL m) (ID m) ss else Inr (Inl ErrNoSyncMethod, ss)
      | Scan_FTP \<Rightarrow> if FtpURL m \<noteq> '''' then Scan senv st FTP (FtpURL m) (ID m) ss else Inr (Inl ErrNoSyncMethod, ss))"

text \<open>The fetch of the trace file runs beside the scan, as for the monitor.\<close>

definition ScanMirror ::
    "('db, 'a) rpc_env \<Rightarrow> ('db, 'w) scan_env \<Rightarrow> layers \<Rightarrow> int \<Rightarrow> ScanProtocol \<Rightarrow> bool \<Rightarrow> ('db, 'w) scan_state \<Rightarrow>
       ((err + ScanMirrorReply) \<times> ('db, 'w) scan_state) gores" where
  "ScanMirror env senv st i protocol autoEnable ss =
     (if i \<le> 0 then Inr (Inl invalid_id, ss)
      else (case re_connErr env of
              Some e \<Rightarrow> Inr (Inl e, ss)
            | None \<Rightarrow>
                (case rpc_do env (ss_db ss) (EXISTS ''FILES'') of
                   (rep, db1) \<Rightarrow>
                     (case rd_Bool (api (re_client env)) rep of
                        Inl e \<Rightarrow> Inr (Inl e, ss\<lparr>ss_db := db1\<rparr>)
                      | Inr False \<Rightarrow>
                          Inr (Inl (FailedPrecondition ''local repository not yet indexed. You should run 'refresh' first!''), ss\<lparr>ss_db := db1\<rparr>)
                      | Inr True \<Rightarrow>
                          (case fetch_struct env i db1 of
                             (Inl e, db2) \<Rightarrow> Inr (Inl e, ss\<lparr>ss_db := db2\<rparr>)
                           | (Inr m, db2) \<Rightarrow>
                               (case scan_protocol senv st protocol m (ss\<lparr>ss_db := db2\<rparr>) of
                                  Inl p \<Rightarrow> Inl p
                                | Inr (Inl e, ss1) \<Rightarrow> Inr (Inl (ErrMsg (''scanning '' @ Name m @ '' failed: '' @ re_Error env e)), ss1)
                                | Inr (Inr res, ss1) \<Rightarrow>
                                    (let reply = \<lparr>sr_Enabled = False, sr_FilesIndexed = res_FilesIndexed res, sr_KnownIndexed = res_KnownIndexed res,
                                                  sr_Removed = res_Removed res, sr_TZOffsetMs = res_TZOffsetMs res\<rparr>
                                     in if autoEnable then
                                          (case EnableMirror (re_json env) (re_client env) (re_now env) (ss_db ss1) (ID m) of
                                             (Some e, db3) \<Rightarrow> Inr (Inl (ErrWrap e ''couldn't enable the mirror''), ss1\<lparr>ss_db := db3\<rparr>)
                                           | (None, db3) \<Rightarrow> Inr (Inr (reply\<lparr>sr_Enabled := True\<rparr>), ss1\<lparr>ss_db := db3\<rparr>))
                                        else Inr (Inr reply, ss1))))))))"

section \<open>Statistics\<close>

text \<open>
  The counters of one key: pairs of a path and a number.  A reply that cannot be converted counts as the
  empty path and as 0; the number is read only for a path that matches.
\<close>

definition add_count :: "string \<Rightarrow> int \<Rightarrow> (string \<times> int) list \<Rightarrow> (string \<times> int) list" where
  "add_count path reqs files = AList.update path (wrap64 ((case map_of files path of None \<Rightarrow> 0 | Some n \<Rightarrow> n) + reqs)) files"

fun stats_line :: "'db redigo \<Rightarrow> (string \<Rightarrow> bool) \<Rightarrow> reply list \<Rightarrow> (string \<times> int) list \<Rightarrow> (string \<times> int) list gores" where
  "stats_line R matches [] files = Inr files"
| "stats_line R matches [p] files =
     (if matches (case rd_String R (Inr p) of Inl e \<Rightarrow> '''' | Inr s \<Rightarrow> s) then Inl IndexOutOfRange else Inr files)"
| "stats_line R matches (p # n # rs) files =
     (let path = (case rd_String R (Inr p) of Inl e \<Rightarrow> '''' | Inr s \<Rightarrow> s)
      in stats_line R matches rs
           (if matches path then add_count path (case rd_Int R (Inr n) of Inl e \<Rightarrow> 0 | Inr i \<Rightarrow> i) files else files))"

text \<open>A reply that is no list ends the call with the error of the transaction, which is nil.\<close>

fun stats_lines :: "'db redigo \<Rightarrow> (string \<Rightarrow> bool) \<Rightarrow> reply list \<Rightarrow> (string \<times> int) list \<Rightarrow> (string \<times> int) list option gores" where
  "stats_lines R matches [] files = Inr (Some files)"
| "stats_lines R matches (RMulti line # rs) files =
     (case stats_line R matches line files of Inl p \<Rightarrow> Inl p | Inr files' \<Rightarrow> stats_lines R matches rs files')"
| "stats_lines R matches (_ # rs) files = Inr None"

definition StatsFile ::
    "('db, 'a) rpc_env \<Rightarrow> string \<Rightarrow> timestamp option \<Rightarrow> timestamp option \<Rightarrow> 'db \<Rightarrow> ((err option \<times> (string \<times> int) list option) \<times> 'db) gores" where
  "StatsFile env pattern dateStart dateEnd db =
     (let fail = (\<lambda>e. Inr ((Some e, None), db))
      in case re_connErr env of
           Some e \<Rightarrow> fail e
         | None \<Rightarrow>
             (case pt_Timestamp (re_pt env) dateStart of Inl e \<Rightarrow> fail e | Inr start \<Rightarrow>
             (case pt_Timestamp (re_pt env) dateEnd of Inl e \<Rightarrow> fail e | Inr end \<Rightarrow>
             (case re_Compile env pattern of Inl e \<Rightarrow> fail e | Inr matches \<Rightarrow>
                (case rpc_exec env db (map (\<lambda>k. HGETALL (''STATS_FILE_'' @ k)) (TimeKeyCoverage start end)) of
                   (rep, db1) \<Rightarrow>
                     (case rd_Values (api (re_client env)) rep of
                        Inl e \<Rightarrow> Inr ((Some (ErrWrap e ''can't fetch stats''), None), db1)
                      | Inr stats \<Rightarrow>
                          (case stats_lines (api (re_client env)) matches stats [] of
                             Inl p \<Rightarrow> Inl p
                           | Inr files \<Rightarrow> Inr ((None, files), db1))))))))"

fun stats_pairs :: "string list \<Rightarrow> int \<times> int \<Rightarrow> (int \<times> int) gores" where
  "stats_pairs [] acc = Inr acc"
| "stats_pairs [x] acc = Inl IndexOutOfRange"
| "stats_pairs (x # y # rs) (req, byt) =
     stats_pairs rs (wrap64 (req + fst (ParseInt x)), wrap64 (byt + fst (ParseInt y)))"

definition StatsMirror ::
    "('db, 'a) rpc_env \<Rightarrow> int \<Rightarrow> timestamp option \<Rightarrow> timestamp option \<Rightarrow> 'db \<Rightarrow> ((err + rpc_mirror \<times> int \<times> int) \<times> 'db) gores" where
  "StatsMirror env i dateStart dateEnd db =
     (let fail = (\<lambda>e. Inr (Inl e, db))
      in if i \<le> 0 then fail invalid_id
         else case re_connErr env of
           Some e \<Rightarrow> fail e
         | None \<Rightarrow>
             (case pt_Timestamp (re_pt env) dateStart of Inl e \<Rightarrow> fail e | Inr start \<Rightarrow>
             (case pt_Timestamp (re_pt env) dateEnd of Inl e \<Rightarrow> fail e | Inr end \<Rightarrow>
                (case rpc_exec env db (concat (map (\<lambda>k. [HGET (''STATS_MIRROR_'' @ k) (Itoa i), HGET (''STATS_MIRROR_BYTES_'' @ k) (Itoa i)])
                                         (TimeKeyCoverage start end))) of
                   (rep, db1) \<Rightarrow>
                     (case rd_Strings (api (re_client env)) rep of
                        Inl e \<Rightarrow> Inr (Inl (ErrWrap e ''can't fetch stats''), db1)
                      | Inr stats \<Rightarrow>
                          (case rpc_do env db1 (HGETALL (mirror_key i)) of
                             (rep2, db2) \<Rightarrow>
                               (case rd_Values (api (re_client env)) rep2 of
                                  Inl e \<Rightarrow> Inr (Inl (ErrWrap e ''can't fetch mirror''), db2)
                                | Inr v \<Rightarrow>
                                    (case (case re_ScanStruct env v of Inl e \<Rightarrow> Inl e | Inr m \<Rightarrow> MirrorToRPC (re_pt env) m) of
                                       Inl e \<Rightarrow> Inr (Inl (ErrWrap e ''stats error''), db2)
                                     | Inr rm \<Rightarrow>
                                         (case stats_pairs stats (0, 0) of
                                            Inl p \<Rightarrow> Inl p
                                          | Inr (req, byt) \<Rightarrow> Inr (Inr (rm, req, byt), db2))))))))))"

end
