(* ===== verification/Rpc_Mirrors.thy ===== *)
theory Rpc_Mirrors
  imports Rpc
begin

text \<open>
  What the remote procedure calls leave in the database: the conversion of a mirror to a message and back,
  the register of mirrors under \<open>setMirror\<close>, and the removal of a mirror.
\<close>

section \<open>Messages\<close>

text \<open>The fields of a mirror that a message does not carry.\<close>

definition without_local :: "Mirror \<Rightarrow> Mirror" where
  "without_local m =
     m\<lparr>TZOffset := 0, Distance := 0, CountryFields := [], ExcludedCountryFields := [], Filepath := '''', Weight := 0,
       ComputedScore := (0, 0, 0), LastSuccessfulSyncProtocol := RSYNC, LastSuccessfulSyncPrecision := 0, m_FileInfo := None\<rparr>"

text \<open>The documented behaviour of the conversion of times: what was converted converts back.\<close>

definition ptypes_ok :: "ptypes \<Rightarrow> bool" where
  "ptypes_ok pt \<longleftrightarrow> (\<forall>t ts. pt_TimestampProto pt t = Inr ts \<longrightarrow> pt_Timestamp pt (Some ts) = Inr t)"

lemma wrapu32_id: "n < 2 ^ 32 \<Longrightarrow> wrapu32 (int n) = int n"
  by (simp add: wrapu32_def)

text \<open>
  C36: A mirror survives its message.  When its number, score and redirect permission fit into 32 bits
  and its system number into 32 bits without sign, converting the message back gives the mirror with
  the fields that the message does not carry at their zero values.
\<close>

theorem MirrorRPC_roundtrip:
  assumes "ptypes_ok pt" "in_int32 (ID m)" "in_int32 (Score m)" "in_int32 (AllowRedirects m)" "Asnum m < 2 ^ 32"
    and "MirrorToRPC pt m = Inr rm"
  shows "MirrorFromRPC pt rm = Inr (without_local m)"
  using assms(1,6) wrap32_id [OF assms(2)] wrap32_id [OF assms(3)] wrap32_id [OF assms(4)] wrapu32_id [OF assms(5)]
  by (auto simp: MirrorToRPC_def MirrorFromRPC_def ptypes_ok_def without_local_def zero_mirror_def split: sum.splits)

definition demo_pt :: ptypes where
  "demo_pt =
     \<lparr>pt_Timestamp = (\<lambda>ts. case ts of None \<Rightarrow> Inl (ErrMsg ''timestamp: nil Timestamp'') | Some t \<Rightarrow> Inr ((ts_Seconds t + unix_epoch) * time_Second + ts_Nanos t)),
      pt_TimestampProto = (\<lambda>t. Inr \<lparr>ts_Seconds = t div time_Second - unix_epoch, ts_Nanos = t mod time_Second\<rparr>)\<rparr>"

lemma demo_pt_ok: "ptypes_ok demo_pt"
  by (simp add: ptypes_ok_def demo_pt_def time_Second_def)

theorem MirrorRPC_roundtrip_witness:
  "\<exists>rm. MirrorToRPC demo_pt (zero_mirror\<lparr>ID := 7, LastSync := 5, TZOffset := 3\<rparr>) = Inr rm \<and>
     MirrorFromRPC demo_pt rm = Inr (zero_mirror\<lparr>ID := 7, LastSync := 5\<rparr>)"
proof -
  let ?m = "zero_mirror\<lparr>ID := 7, LastSync := 5, TZOffset := 3\<rparr>"
  obtain rm where rm: "MirrorToRPC demo_pt ?m = Inr rm" by (simp add: MirrorToRPC_def demo_pt_def)
  have "without_local ?m = zero_mirror\<lparr>ID := 7, LastSync := 5\<rparr>" by (simp add: without_local_def zero_mirror_def)
  then show ?thesis using rm MirrorRPC_roundtrip [OF demo_pt_ok _ _ _ _ rm] by (simp add: in_int32_def zero_mirror_def)
qed

section \<open>The register of mirrors\<close>

text \<open>
  The numbers and names of the mirrors, each number and each name once, all numbers up to the last one
  that was given out.
\<close>

definition registry :: "store \<Rightarrow> (int \<times> string) list \<Rightarrow> int \<Rightarrow> bool" where
  "registry s ms n \<longleftrightarrow>
     get_hash s ''MIRRORS'' = Some (mirrors_hash ms) \<and> distinct (map fst ms) \<and> distinct (map snd ms) \<and>
     (\<forall>(i, x) \<in> set ms. 0 < i \<and> i \<le> n) \<and> (\<exists>v. get_str s ''LAST_MID'' = Some v \<and> bulk_int v = Some n) \<and> 0 \<le> n \<and> in_int64 n"

definition order_ok :: "('db, 'a) rpc_env \<Rightarrow> bool" where
  "order_ok env \<longleftrightarrow> (\<forall>l. finite (dom l) \<longrightarrow> distinct (re_order env l) \<and> set (re_order env l) = {(i, n). l i = Some n})"

lemma name_loop_result:
  "name_loop i name ms u = (if \<exists>j. (j, name) \<in> set ms \<and> j \<noteq> i then None else Some (u \<or> i \<in> fst ` set ms))"
  by (induction i name ms u rule: name_loop.induct) (auto split: if_splits)

lemma update_mirrors_hash: "AList.update (Itoa i) x (mirrors_hash ms) = mirrors_hash (AList.update i x ms)"
  by (induction ms) (auto simp: mirrors_hash_def Itoa_inj)

lemma update_subset: "set (AList.update i x ms) \<subseteq> insert (i, x) (set ms)"
  by (induction ms) auto

lemma update_names:
  assumes "distinct (map snd ms)" "distinct (map fst ms)" "\<And>j. (j, x) \<in> set ms \<Longrightarrow> j = i"
  shows "distinct (map snd (AList.update i x ms))"
  using assms
proof (induction ms)
  case (Cons p ms)
  obtain j y where p: "p = (j, y)" by fastforce
  show ?case
  proof (cases "j = i")
    case True
    have "x \<notin> snd ` set ms"
    proof
      assume "x \<in> snd ` set ms"
      then obtain k where "(k, x) \<in> set ms" by force
      then show False using Cons.prems(2) Cons.prems(3) [of k] p True by force
    qed
    then show ?thesis using Cons.prems(1) p True by simp
  next
    case False
    then have "y \<noteq> x" using Cons.prems(3) [of j] p by auto
    moreover have "y \<notin> snd ` set ms" using Cons.prems(1) p by simp
    ultimately have "y \<notin> snd ` set (AList.update i x ms)" using update_subset [of i x ms] by auto
    then show ?thesis using Cons p False by simp
  qed
qed simp

lemma registry_update:
  assumes "registry s ms n" "0 < i" "i \<le> n'" "n \<le> n'" "in_int64 n'" "\<And>j. (j, x) \<in> set ms \<Longrightarrow> j = i"
    and "get_hash s' ''MIRRORS'' = Some (AList.update (Itoa i) x (mirrors_hash ms))"
    and "\<exists>v. get_str s' ''LAST_MID'' = Some v \<and> bulk_int v = Some n'"
  shows "registry s' (AList.update i x ms) n'"
proof -
  have "\<forall>(j, y) \<in> set (AList.update i x ms). 0 < j \<and> j \<le> n'" using assms(1-4) update_subset [of i x ms] unfolding registry_def by fastforce
  then show ?thesis using assms update_names [of ms x i] distinct_update [of ms i x]
    unfolding registry_def update_mirrors_hash by auto
qed

lemma reliable_raw:
  assumes "reliable_redis r \<alpha>"
  shows "unblocked_do r db c = conn_do r db c" "rd_exec (api r) db cs = conn_exec r db cs"
  using reliable_redis.ready [OF assms] by (simp_all add: unblocked_do_def conn_do_def conn_exec_def)

lemma map_of_rev_distinct: "distinct (map fst ms) \<Longrightarrow> map_of (rev ms) = map_of ms"
  by (rule map_of_eqI) (auto simp: rev_map [symmetric] map_of_eq_Some_iff)

lemma registry_list:
  assumes up: "reliable_redis r \<alpha>" and reg: "registry (\<alpha> db) ms n"
  shows "\<exists>db1. GetListOfMirrors r None db = (Inr (Inr (map_of ms)), db1) \<and> \<alpha> db1 = \<alpha> db"
proof -
  let ?q = "RMulti (concat (map (\<lambda>(f, v). [RBulk f, RBulk v]) (mirrors_hash ms)))"
  obtain db1 where d: "conn_do r db (HGETALL ''MIRRORS'') = (Inr ?q, db1)" "\<alpha> db1 = \<alpha> db"
    using reliable_redis.do_reply_effect [OF up, of db "HGETALL ''MIRRORS''" ?q "\<alpha> db"] reg by (auto simp: registry_def)
  have "list_all (\<lambda>(i, x). in_int64 i) ms" using reg by (force simp: registry_def list_all_iff in_int64_def)
  from mirrors_loop_hash [OF this, of Map.empty]
  have "mirrors_loop (concat (map (\<lambda>(f, v). [RBulk f, RBulk v]) (mirrors_hash ms))) Map.empty = Inr (Inr (map_of ms))"
    using reg map_of_rev_distinct [of ms] by (simp add: registry_def)
  then show ?thesis using d conv_okD(2) [OF reliable_redis.interface [OF up]]
    by (simp add: GetListOfMirrors_def reliable_raw(1) [OF up])
qed

section \<open>Saving a mirror\<close>

text \<open>The fields of a mirror as the database stores them.\<close>

definition mirror_fields :: "(real \<Rightarrow> string) \<Rightarrow> Mirror \<Rightarrow> string \<rightharpoonup> string" where
  "mirror_fields flt m = map_of (map (\<lambda>(f, a). (f, the (arg_str a))) (mirror_args flt m))"

lemma mirror_args_str:
  "\<exists>fvs. args_str (mirror_args flt m) = Some fvs \<and> map_of (rev fvs) = mirror_fields flt m"
proof -
  let ?fvs = "map (\<lambda>(f, a). (f, the (arg_str a))) (mirror_args flt m)"
  have "args_str (mirror_args flt m) = Some ?fvs" by (simp add: mirror_args_def)
  moreover have "distinct (map fst ?fvs)" by (simp add: mirror_args_def)
  ultimately show ?thesis using map_of_rev_distinct [of ?fvs] by (simp add: mirror_fields_def)
qed

lemma normal_name: "Name (normal_mirror m) = Name m"
  by (simp add: normal_mirror_def)

lemma save_keys:
  "mirror_key i \<noteq> ''MIRRORS''" "log_key j \<noteq> mirror_key i" "log_key i \<noteq> ''MIRRORS''" "''LAST_MID'' \<noteq> mirror_key i"
  "''LAST_MID'' \<noteq> log_key i"
  by (simp_all add: scan_key_defs)

lemma save_cmds:
  assumes M: "get_hash s ''MIRRORS'' = Some h" and k: "is_hash s (mirror_key i)"
  shows "\<exists>qs s'. redis_cmds s [HMSET (mirror_key i) (mirror_args flt m), HSET ''MIRRORS'' (Itoa i) (AStr x)] = Some (qs, s') \<and>
    get_hash s' ''MIRRORS'' = Some (AList.update (Itoa i) x h) \<and> is_hash s' (mirror_key i) \<and>
    field s' (mirror_key i) = field s (mirror_key i) ++ mirror_fields flt m \<and> eq_off {mirror_key i, ''MIRRORS''} s s'"
proof -
  obtain fvs where fvs: "args_str (mirror_args flt m) = Some fvs" "map_of (rev fvs) = mirror_fields flt m"
    using mirror_args_str by blast
  obtain q s1 where 1: "redis_cmd s (HMSET (mirror_key i) (mirror_args flt m)) = Some (q, s1)" "is_hash s1 (mirror_key i)"
    "field s1 (mirror_key i) = field s (mirror_key i) ++ mirror_fields flt m" "\<forall>k'. k' \<noteq> mirror_key i \<longrightarrow> keys s1 k' = keys s k'"
    using cmd_HMSET [OF k fvs(1)] unfolding fvs(2) by blast
  have h1: "get_hash s1 ''MIRRORS'' = Some h" using M 1(4) save_keys(1) [of i] get_cong(2) [of s1 "''MIRRORS''" s] by fastforce
  let ?s = "put_hash ''MIRRORS'' (AList.update (Itoa i) x h) s1"
  have 2: "redis_cmd s1 (HSET ''MIRRORS'' (Itoa i) (AStr x)) = Some (RInt (if map_of h (Itoa i) = None then 1 else 0), ?s)"
    using h1 by simp
  have "get_hash ?s (mirror_key i) = get_hash s1 (mirror_key i)" using save_keys(1) [of i] by (simp add: get_put_hash)
  moreover have "eq_off {mirror_key i, ''MIRRORS''} s ?s" using 1(4) by (simp add: eq_off_def keys_put_hash)
  moreover have "redis_cmds s [HMSET (mirror_key i) (mirror_args flt m), HSET ''MIRRORS'' (Itoa i) (AStr x)] =
    Some ([q, RInt (if map_of h (Itoa i) = None then 1 else 0)], ?s)" using 1(1) 2 by (simp del: redis_cmd.simps)
  ultimately show ?thesis using 1(2,3) get_put_hash(1) [of "''MIRRORS''" "AList.update (Itoa i) x h" s1 "''MIRRORS''"]
    by (simp add: field_def del: redis_cmds.simps)
qed

lemma save_mirror_run:
  assumes up: "reliable_redis (re_client env) \<alpha>" and M: "get_hash (\<alpha> db) ''MIRRORS'' = Some h"
    and k: "is_hash (\<alpha> db) (mirror_key (ID m))" and l: "get_list (\<alpha> db) (log_key (ID m)) \<noteq> None"
  shows "\<exists>db'. save_mirror env u m db = (None, db') \<and> get_hash (\<alpha> db') ''MIRRORS'' = Some (AList.update (Itoa (ID m)) (Name m) h) \<and>
    field (\<alpha> db') (mirror_key (ID m)) = field (\<alpha> db) (mirror_key (ID m)) ++ mirror_fields (re_Float env) (normal_mirror m) \<and>
    eq_off {mirror_key (ID m), ''MIRRORS'', log_key (ID m)} (\<alpha> db) (\<alpha> db')"
proof -
  let ?r = "re_client env" and ?i = "ID m"
  let ?cs = "[HMSET (mirror_key ?i) (mirror_args (re_Float env) (normal_mirror m)), HSET ''MIRRORS'' (Itoa ?i) (AStr (Name m))]"
  obtain qs s1 where 1: "redis_cmds (\<alpha> db) ?cs = Some (qs, s1)" "get_hash s1 ''MIRRORS'' = Some (AList.update (Itoa ?i) (Name m) h)"
    "field s1 (mirror_key ?i) = field (\<alpha> db) (mirror_key ?i) ++ mirror_fields (re_Float env) (normal_mirror m)"
    "eq_off {mirror_key ?i, ''MIRRORS''} (\<alpha> db) s1"
    using save_cmds [OF M k, of "re_Float env" "normal_mirror m" "Name m"] by blast
  obtain qs' db1 where d: "conn_exec ?r db ?cs = (Inr (RMulti qs'), db1)" "\<alpha> db1 = s1" using reliable_redis.exec_effect [OF up 1(1)] by blast
  let ?db2 = "snd (Publish ?r db1 MIRROR_UPDATE (Itoa ?i))" and ?a = "if u then NewLogEdited (re_now env) ?i else NewLogAdded (re_now env) ?i"
  have p: "snd (conn_do ?r db1 (PUBLISH MIRROR_UPDATE (Itoa ?i))) = ?db2" by (simp add: Publish_def split: prod.splits)
  have k2: "keys (\<alpha> ?db2) = keys s1" using reliable_redis.publish_effect(1) [OF up] d(2) by simp
  have a: "GetMirrorID ?a = ?i" by (simp add: NewLogEdited_def NewLogAdded_def)
  have "keys s1 (log_key ?i) = keys (\<alpha> db) (log_key ?i)" using 1(4) save_keys(2,3) [of ?i] by (simp add: eq_off_def)
  then have "get_list (\<alpha> ?db2) (log_key ?i) \<noteq> None" using l k2 by (simp add: get_list_def)
  then have k3: "keys (\<alpha> (snd (PushLog (re_json env) ?r ?db2 ?a))) k = keys s1 k" if "k \<noteq> log_key ?i" for k
    using reliable_redis.push_log_frame [OF up, of ?db2 ?a k] that a k2 by simp
  have "save_mirror env u m db = (None, snd (PushLog (re_json env) ?r ?db2 ?a))"
    using d(1) p by (simp add: save_mirror_def Let_def reliable_raw [OF up] do_err_def normal_name)
  moreover have "eq_off {mirror_key ?i, ''MIRRORS'', log_key ?i} (\<alpha> db) (\<alpha> (snd (PushLog (re_json env) ?r ?db2 ?a)))"
    using k3 1(4) by (simp add: eq_off_def)
  ultimately show ?thesis using 1(2,3) get_cong(2) [OF k3, of "''MIRRORS''"] get_cong(4) [OF k3 [OF save_keys(2) [symmetric]]] save_keys(3) [of ?i]
    by (intro exI [of _ "snd (PushLog (re_json env) ?r ?db2 ?a)"]) simp
qed

lemma fresh_number:
  assumes up: "reliable_redis r \<alpha>" and reg: "registry (\<alpha> db) ms n" and b: "n + 1 < 2 ^ 63"
  shows "\<exists>db'. conn_do r db (INCR ''LAST_MID'') = (Inr (RInt (n + 1)), db') \<and>
    \<alpha> db' = put ''LAST_MID'' (Some (VStr (Itoa (n + 1)))) (\<alpha> db)"
proof -
  obtain v where v: "get_str (\<alpha> db) ''LAST_MID'' = Some v" "bulk_int v = Some n" "0 \<le> n" using reg by (auto simp: registry_def)
  have "in_int64 (n + 1)" using v(3) b by (simp add: in_int64_def)
  then have "redis_cmd (\<alpha> db) (INCR ''LAST_MID'') = Some (RInt (n + 1), put ''LAST_MID'' (Some (VStr (Itoa (n + 1)))) (\<alpha> db))"
    using v by simp
  from reliable_redis.do_reply_effect [OF up this] show ?thesis by simp
qed

lemma number_given:
  assumes up: "reliable_redis r \<alpha>" and reg: "registry (\<alpha> db) ms n" and b: "n + 1 < 2 ^ 63"
    and known: "0 < i \<Longrightarrow> i \<in> fst ` set ms"
  shows "\<exists>db' n'. (if i \<le> 0 then (case unblocked_do r db (INCR ''LAST_MID'') of (rep, db') \<Rightarrow> (rd_Int (api r) rep, db'))
      else (Inr i, db)) = (Inr (if i \<le> 0 then n + 1 else i), db') \<and> eq_off {''LAST_MID''} (\<alpha> db) (\<alpha> db') \<and>
    (\<exists>v. get_str (\<alpha> db') ''LAST_MID'' = Some v \<and> bulk_int v = Some n') \<and> n' = (if i \<le> 0 then n + 1 else n) \<and>
    0 < (if i \<le> 0 then n + 1 else i) \<and> (if i \<le> 0 then n + 1 else i) \<le> n'"
proof (cases "i \<le> 0")
  case True
  obtain db' where d: "conn_do r db (INCR ''LAST_MID'') = (Inr (RInt (n + 1)), db')"
    "\<alpha> db' = put ''LAST_MID'' (Some (VStr (Itoa (n + 1)))) (\<alpha> db)" using fresh_number [OF up reg b] by blast
  have n: "0 \<le> n" "in_int64 (n + 1)" using reg b by (auto simp: registry_def in_int64_def)
  have "get_str (\<alpha> db') ''LAST_MID'' = Some (Some (Itoa (n + 1)))" "bulk_int (Some (Itoa (n + 1))) = Some (n + 1)"
    using d(2) n(2) by (simp_all add: get_str_def bulk_int_def ParseInt_Itoa)
  then show ?thesis using True d n(1) conv_okD(5) [OF reliable_redis.interface [OF up]]
    by (simp add: reliable_raw(1) [OF up] eq_off_def)
next
  case False
  then obtain x where "(i, x) \<in> set ms" using known by force
  then have "0 < i \<and> i \<le> n" using reg by (auto simp: registry_def)
  then show ?thesis using False reg by (simp add: registry_def eq_off_def)
qed

text \<open>
  C33: Saving a mirror keeps the register.  For a client whose calls are answered and a register whose numbers
  and names are each used once: when another mirror has the name, the call fails with
  \<open>ErrNameAlreadyTaken\<close> and changes nothing; otherwise it succeeds, a mirror without a number gets one
  that no mirror had, the register has the mirror under its number and is still without duplicates,
  the fields of the mirror are the normalised ones, and no key changes but the register, the counter and the two keys
  of this mirror.
\<close>

theorem setMirror_registry:
  assumes up: "reliable_redis (re_client env) \<alpha>" and conn: "re_connErr env = None" "re_listErr env = None" and ord: "order_ok env"
    and reg: "registry (\<alpha> db) ms n" "n + 1 < 2 ^ 63"
    and typed: "\<And>i. is_hash (\<alpha> db) (mirror_key i)" "\<And>i. get_list (\<alpha> db) (log_key i) \<noteq> None"
    and known: "0 < ID m \<Longrightarrow> ID m \<in> fst ` set ms"
  shows "let i = (if ID m \<le> 0 then n + 1 else ID m)
    in if \<exists>j. (j, Name m) \<in> set ms \<and> j \<noteq> ID m then
         \<exists>db'. setMirror env m db = Inr (Some ErrNameAlreadyTaken, db') \<and> \<alpha> db' = \<alpha> db
       else
         \<exists>db'. setMirror env m db = Inr (None, db') \<and> (ID m \<le> 0 \<longrightarrow> i \<notin> fst ` set ms) \<and>
           registry (\<alpha> db') (AList.update i (Name m) ms) (max n i) \<and>
           field (\<alpha> db') (mirror_key i) =
             field (\<alpha> db) (mirror_key i) ++ mirror_fields (re_Float env) (normal_mirror (m\<lparr>ID := i\<rparr>)) \<and>
           eq_off {mirror_key i, log_key i, ''MIRRORS'', ''LAST_MID''} (\<alpha> db) (\<alpha> db')"
proof -
  let ?i = "if ID m \<le> 0 then n + 1 else ID m"
  obtain db1 where g: "GetListOfMirrors (re_client env) None db = (Inr (Inr (map_of ms)), db1)" "\<alpha> db1 = \<alpha> db"
    using registry_list [OF up reg(1)] by blast
  have "set (re_order env (map_of ms)) = set ms"
    using ord finite_dom_map_of [of ms] reg(1) unfolding order_ok_def registry_def by (auto simp: map_of_eq_Some_iff)
  then have loop: "name_loop (ID m) (Name m) (re_order env (map_of ms)) False =
      (if \<exists>j. (j, Name m) \<in> set ms \<and> j \<noteq> ID m then None else Some (ID m \<in> fst ` set ms))"
    by (simp add: name_loop_result)
  show ?thesis
  proof (cases "\<exists>j. (j, Name m) \<in> set ms \<and> j \<noteq> ID m")
    case True
    then show ?thesis using g loop conn by (simp add: setMirror_def)
  next
    case False
    have reg1: "registry (\<alpha> db1) ms n" using reg(1) g(2) by simp
    obtain db2 n' where 2: "(if ID m \<le> 0 then (case unblocked_do (re_client env) db1 (INCR ''LAST_MID'') of (rep, db') \<Rightarrow> (rd_Int (api (re_client env)) rep, db'))
        else (Inr (ID m), db1)) = (Inr ?i, db2)" "eq_off {''LAST_MID''} (\<alpha> db) (\<alpha> db2)"
      "\<exists>v. get_str (\<alpha> db2) ''LAST_MID'' = Some v \<and> bulk_int v = Some n'" "n' = (if ID m \<le> 0 then n + 1 else n)" "0 < ?i" "?i \<le> n'"
      using number_given [OF up reg1 reg(2) known] g(2) by auto
    note off = eq_offD [OF 2(2)]
    have M: "get_hash (\<alpha> db2) ''MIRRORS'' = Some (mirrors_hash ms)" using off(3) [of "''MIRRORS''"] reg(1) by (simp add: registry_def)
    have k: "is_hash (\<alpha> db2) (mirror_key ?i)" "get_list (\<alpha> db2) (log_key ?i) \<noteq> None" "field (\<alpha> db2) (mirror_key ?i) = field (\<alpha> db) (mirror_key ?i)"
      using off(3,5) [of "mirror_key ?i"] off(6) [of "log_key ?i"] typed save_keys(4,5) by (auto simp: eq_commute)
    obtain db3 where 3: "save_mirror env (ID m \<in> fst ` set ms) (m\<lparr>ID := ?i\<rparr>) db2 = (None, db3)"
      "get_hash (\<alpha> db3) ''MIRRORS'' = Some (AList.update (Itoa ?i) (Name m) (mirrors_hash ms))"
      "field (\<alpha> db3) (mirror_key ?i) = field (\<alpha> db2) (mirror_key ?i) ++ mirror_fields (re_Float env) (normal_mirror (m\<lparr>ID := ?i\<rparr>))"
      "eq_off {mirror_key ?i, ''MIRRORS'', log_key ?i} (\<alpha> db2) (\<alpha> db3)"
      using save_mirror_run [OF up M, of "m\<lparr>ID := ?i\<rparr>"] k by auto
    have own: "j = ?i" if "(j, Name m) \<in> set ms" for j using that False reg(1) by (fastforce simp: registry_def)
    have "registry (\<alpha> db3) (AList.update ?i (Name m) ms) n'"
    proof (rule registry_update [OF reg(1) 2(5,6)])
      show "\<exists>v. get_str (\<alpha> db3) ''LAST_MID'' = Some v \<and> bulk_int v = Some n'"
        using 2(3) 3(4) save_keys(4,5) [of ?i] by (simp add: eq_off_def get_str_def)
      show "in_int64 n'" using 2(4) reg by (auto simp: registry_def in_int64_def)
    qed (use own 2(4) 3(2) in \<open>auto split: if_splits\<close>)
    moreover have "n' = max n ?i" using 2(4,6) by auto
    moreover have "ID m \<le> 0 \<longrightarrow> ?i \<notin> fst ` set ms" using reg(1) by (auto simp: registry_def)
    moreover have "eq_off {mirror_key ?i, log_key ?i, ''MIRRORS'', ''LAST_MID''} (\<alpha> db) (\<alpha> db3)" using 2(2) 3(4) by (simp add: eq_off_def)
    moreover have "setMirror env m db = Inr (None, db3)" using g(1) loop False conn 2(1) 3(1) by (simp add: setMirror_def)
    ultimately show ?thesis using False 3(3) k(3) by (simp add: Let_def)
  qed
qed

definition demo_renv :: "(store, unit) rpc_env" where
  "demo_renv =
     \<lparr>re_client = ref_client, re_connErr = None, re_listErr = None, re_pt = demo_pt, re_json = demo_json, re_now = 0,
      re_Float = (\<lambda>_. ''0''), re_ScanStruct = (\<lambda>_. Inr zero_mirror),
      re_order = (\<lambda>l. map (\<lambda>i. (i, the (l i))) (sorted_list_of_set (dom l))),
      re_ParseHost = (\<lambda>u. Inr u), re_LookupIP = (\<lambda>h. Inr [h]), re_openCity = (\<lambda>_. Inl (ErrMsg ''no file'')),
      re_openASN = (\<lambda>_. Inl (ErrMsg ''no file'')), re_ParseIP = (\<lambda>_. None), re_GeoError = (\<lambda>_. ErrMsg ''geo''),
      re_Marshal = Name, re_Compile = (\<lambda>p. Inr (\<lambda>s. s = p)), re_Error = (\<lambda>_. ''error'')\<rparr>"

definition demo_register :: store where
  "demo_register =
     put ''LAST_MID'' (Some (VStr (Itoa 1))) (put ''MIRRORS'' (Some (VHash (mirrors_hash [(1, ''a'')]))) empty_store)"

lemma demo_renv_order: "order_ok demo_renv"
  unfolding order_ok_def demo_renv_def by (auto simp: dom_def image_iff distinct_map intro!: inj_onI)

lemma demo_registry: "registry demo_register [(1, ''a'')] 1"
  by (auto simp: registry_def demo_register_def get_hash_def get_str_def bulk_int_def ParseInt_Itoa in_int64_def)

lemma demo_register_typed: "is_hash demo_register (mirror_key i)" "get_list demo_register (log_key i) \<noteq> None"
  by (simp_all add: demo_register_def get_hash_def get_list_def scan_key_defs empty_store_def)

theorem setMirror_registry_witness:
  "(\<exists>db'. setMirror demo_renv (zero_mirror\<lparr>Name := ''a''\<rparr>) demo_register = Inr (Some ErrNameAlreadyTaken, db') \<and> db' = demo_register) \<and>
   (\<exists>db'. setMirror demo_renv (zero_mirror\<lparr>Name := ''b''\<rparr>) demo_register = Inr (None, db') \<and> registry db' [(1, ''a''), (2, ''b'')] 2)"
proof -
  have up: "reliable_redis (re_client demo_renv) id" using ref_up.reliable_redis_axioms by (simp add: demo_renv_def)
  have c: "re_connErr demo_renv = None" "re_listErr demo_renv = None" by (simp_all add: demo_renv_def)
  have r: "registry (id demo_register) [(1, ''a'')] 1" using demo_registry by simp
  note t = setMirror_registry [where \<alpha> = id, OF up c demo_renv_order r _ _ _]
  have "ID (zero_mirror\<lparr>Name := x\<rparr>) = 0" for x by (simp add: zero_mirror_def)
  then show ?thesis using t [of "zero_mirror\<lparr>Name := ''a''\<rparr>"] t [of "zero_mirror\<lparr>Name := ''b''\<rparr>"] demo_register_typed
    by (auto simp: Let_def)
qed

section \<open>Removing a mirror\<close>

lemma drop_keys:
  "fileinfo_key i f \<noteq> filemirrors_key g" "fileinfo_key i f = fileinfo_key i g \<longleftrightarrow> f = g" "filemirrors_key f = filemirrors_key g \<longleftrightarrow> f = g"
  by (simp_all add: scan_key_defs)

definition dropped :: "int \<Rightarrow> string set \<Rightarrow> store \<Rightarrow> store \<Rightarrow> bool" where
  "dropped i F s s' \<longleftrightarrow>
     (\<forall>f. is_set s' (filemirrors_key f) \<and> members s' (filemirrors_key f) = members s (filemirrors_key f) - (if f \<in> F then {Itoa i} else {})) \<and>
     (\<forall>f. keys s' (fileinfo_key i f) = (if f \<in> F then None else keys s (fileinfo_key i f))) \<and>
     eq_off (range filemirrors_key \<union> range (fileinfo_key i)) s s'"

lemma drop_step:
  assumes "\<And>f. is_set s (filemirrors_key f)"
  shows "\<exists>qs s'. redis_cmds s (drop_cmds i f) = Some (qs, s') \<and> dropped i {f} s s'"
proof -
  obtain q1 s1 where 1: "redis_cmd s (DEL [fileinfo_key i f]) = Some (q1, s1)" "\<forall>k. keys s1 k = (if k = fileinfo_key i f then None else keys s k)"
    using cmd_DEL [of s "[fileinfo_key i f]"] by auto
  have s1: "get_set s1 (filemirrors_key g) = get_set s (filemirrors_key g)" "members s1 (filemirrors_key g) = members s (filemirrors_key g)" for g
    using get_cong(1,3) [of s1 "filemirrors_key g" s] 1(2) drop_keys(1) by fastforce+
  obtain q2 s2 where 2: "redis_cmd s1 (SREM (filemirrors_key f) [Itoa i]) = Some (q2, s2)" "is_set s2 (filemirrors_key f)"
    "members s2 (filemirrors_key f) = members s1 (filemirrors_key f) - {Itoa i}" "\<forall>k. k \<noteq> filemirrors_key f \<longrightarrow> keys s2 k = keys s1 k"
    using cmd_SREM [of s1 "filemirrors_key f" "Itoa i"] assms s1(1) by metis
  obtain q3 s3 where 3: "redis_cmd s2 (file_update_cmd i f) = Some (q3, s3)" "keys s3 = keys s2"
    using cmd_PUBLISH unfolding file_update_cmd_def by blast
  have o: "keys s3 k = keys s1 k" if "k \<noteq> filemirrors_key f" for k using 3(2) 2(4) that by simp
  have "is_set s3 (filemirrors_key g) \<and> members s3 (filemirrors_key g) = members s (filemirrors_key g) - (if g \<in> {f} then {Itoa i} else {})" for g
  proof (cases "g = f")
    case True
    then show ?thesis using 2(2,3) s1(2) get_cong(1,3) [of s3 "filemirrors_key f" s2] 3(2) by simp
  next
    case False
    then show ?thesis using get_cong(1,3) [OF o, of "filemirrors_key g"] assms s1 drop_keys(3) by simp
  qed
  moreover have "keys s3 (fileinfo_key i g) = (if g \<in> {f} then None else keys s (fileinfo_key i g))" for g
    using o [of "fileinfo_key i g"] 1(2) drop_keys by simp
  moreover have "eq_off (range filemirrors_key \<union> range (fileinfo_key i)) s s3" using o 1(2) unfolding eq_off_def by (metis UnI1 UnI2 rangeI)
  moreover have "redis_cmds s (drop_cmds i f) = Some ([q1, q2, q3], s3)" using 1(1) 2(1) 3(1) by (simp add: drop_cmds_def del: redis_cmd.simps)
  ultimately show ?thesis by (auto simp: dropped_def)
qed

lemma dropped_trans: "dropped i F s s1 \<Longrightarrow> dropped i G s1 s2 \<Longrightarrow> dropped i (F \<union> G) s s2"
  unfolding dropped_def eq_off_def by auto

lemma drop_run:
  "(\<And>f. is_set s (filemirrors_key f)) \<Longrightarrow> \<exists>qs s'. redis_cmds s (concat (map (drop_cmds i) fs)) = Some (qs, s') \<and> dropped i (set fs) s s'"
proof (induction fs arbitrary: s)
  case (Cons f fs)
  obtain qs s1 where 1: "redis_cmds s (drop_cmds i f) = Some (qs, s1)" "dropped i {f} s s1" using drop_step [OF Cons.prems] by blast
  obtain qs' s2 where 2: "redis_cmds s1 (concat (map (drop_cmds i) fs)) = Some (qs', s2)" "dropped i (set fs) s1 s2"
    using Cons.IH [of s1] 1(2) unfolding dropped_def by blast
  show ?case using redis_cmds_appendI [OF 1(1) 2(1)] dropped_trans [OF 1(2) 2(2)] by auto
qed (simp add: dropped_def)

text \<open>What is left of a mirror: its keys, its number in the register, the information on its files, and its place among
  the mirrors of a file are gone; the other mirrors keep theirs.\<close>

definition removed_keys :: "int \<Rightarrow> string set" where
  "removed_keys i = set (mirror_keys i) \<union> {''MIRRORS''} \<union> range filemirrors_key \<union> range (fileinfo_key i)"

definition removed :: "int \<Rightarrow> string set \<Rightarrow> store \<Rightarrow> store \<Rightarrow> bool" where
  "removed i F s s' \<longleftrightarrow>
     (\<forall>k \<in> set (mirror_keys i). keys s' k = None) \<and> (\<forall>f \<in> F. keys s' (fileinfo_key i f) = None) \<and>
     (\<forall>f. \<not> listed s' i f) \<and> others_same i s s' \<and> field s' ''MIRRORS'' = (field s ''MIRRORS'')(Itoa i := None) \<and> eq_off (removed_keys i) s s'"

lemma cmd_HDEL:
  assumes "is_hash s k"
  shows "\<exists>q s'. redis_cmd s (HDEL k [f]) = Some (q, s') \<and> field s' k = (field s k)(f := None) \<and> (\<forall>k'. k' \<noteq> k \<longrightarrow> keys s' k' = keys s k')"
proof -
  obtain h where h: "get_hash s k = Some h" using assms by blast
  have "map_of (filter (\<lambda>(g, v). g \<notin> set [f]) h) = (map_of h)(f := None)" by (induction h) auto
  then show ?thesis using h by (auto simp: get_put_hash keys_put_hash field_def)
qed

lemma remove_keys:
  "k \<in> set (mirror_keys i) \<Longrightarrow> k \<noteq> ''MIRRORS''" "filemirrors_key f \<notin> set (mirror_keys i)" "fileinfo_key j f \<notin> set (mirror_keys i)"
  "''MIRRORS'' \<notin> set (mirror_keys i)" "filemirrors_key f \<noteq> ''MIRRORS''" "fileinfo_key j f \<noteq> ''MIRRORS''"
  by (auto simp: mirror_keys_def scan_key_defs)

lemma remove_run:
  assumes sets: "\<And>f. is_set s (filemirrors_key f)" and h: "is_hash s ''MIRRORS''" and index: "\<And>f. listed s i f \<Longrightarrow> f \<in> set fs"
  shows "\<exists>qs s'. redis_cmds s (concat (map (drop_cmds i) fs) @ [DEL (mirror_keys i), HDEL ''MIRRORS'' [Itoa i]]) = Some (qs, s') \<and>
    removed i (set fs) s s'"
proof -
  obtain qs1 s1 where 1: "redis_cmds s (concat (map (drop_cmds i) fs)) = Some (qs1, s1)" "dropped i (set fs) s s1" using drop_run [OF sets] by blast
  obtain q2 s2 where 2: "redis_cmd s1 (DEL (mirror_keys i)) = Some (q2, s2)" "\<forall>k. keys s2 k = (if k \<in> set (mirror_keys i) then None else keys s1 k)"
    using cmd_DEL by blast
  have "''MIRRORS'' \<notin> range filemirrors_key \<union> range (fileinfo_key i)" using remove_keys(5,6) by (metis UnE rangeE)
  then have o1: "keys s1 ''MIRRORS'' = keys s ''MIRRORS''" using 1(2) by (simp add: dropped_def eq_off_def)
  then have M: "get_hash s2 ''MIRRORS'' = get_hash s ''MIRRORS''" "field s2 ''MIRRORS'' = field s ''MIRRORS''"
    using get_cong(2,4) [of s2 "''MIRRORS''" s] 2(2) remove_keys(4) by simp_all
  obtain q3 s3 where 3: "redis_cmd s2 (HDEL ''MIRRORS'' [Itoa i]) = Some (q3, s3)"
    "field s3 ''MIRRORS'' = (field s ''MIRRORS'')(Itoa i := None)" "\<forall>k. k \<noteq> ''MIRRORS'' \<longrightarrow> keys s3 k = keys s2 k"
    using cmd_HDEL [of s2 "''MIRRORS''" "Itoa i"] M h by metis
  have m3: "members s3 (filemirrors_key f) = members s1 (filemirrors_key f)" for f
    using get_cong(3) [of s3 "filemirrors_key f" s1] 2(2) 3(3) remove_keys(2,5) by simp
  have mem: "members s3 (filemirrors_key f) = members s (filemirrors_key f) - (if f \<in> set fs then {Itoa i} else {})" for f
    using 1(2) m3 by (simp add: dropped_def)
  have "\<not> listed s3 i f" for f using mem index [of f] by (auto simp: listed_def)
  moreover have "others_same i s s3" using mem by (auto simp: others_same_def)
  moreover have "keys s3 k = None" if "k \<in> set (mirror_keys i)" for k using that 2(2) 3(3) remove_keys(1) by simp
  moreover have "keys s3 (fileinfo_key i f) = None" if "f \<in> set fs" for f
    using that 1(2) 2(2) 3(3) remove_keys(3,6) by (simp add: dropped_def)
  moreover have "eq_off (removed_keys i) s s3" using 1(2) 2(2) 3(3) by (simp add: dropped_def eq_off_def removed_keys_def)
  moreover have "redis_cmds s (concat (map (drop_cmds i) fs) @ [DEL (mirror_keys i), HDEL ''MIRRORS'' [Itoa i]]) = Some (qs1 @ [q2, q3], s3)"
    using redis_cmds_appendI [OF 1(1), of "[DEL (mirror_keys i), HDEL ''MIRRORS'' [Itoa i]]"] 2(1) 3(1) by (simp del: redis_cmd.simps)
  ultimately show ?thesis using 3(2) by (auto simp: removed_def)
qed

lemma Strings_bulks: "redigo_ok R \<alpha> \<Longrightarrow> rd_Strings R (Inr (RMulti (map RBulk xs))) = Inr xs"
  using conv_okD(15) [of R \<alpha> "map Some xs"] by (simp add: comp_def opt_bulk_def)

lemma RemoveMirror_run:
  assumes up: "reliable_redis (re_client env) \<alpha>" and conn: "re_connErr env = None" and i: "0 < i"
    and typed: "is_hash (\<alpha> db) (mirror_key i)" "get_list (\<alpha> db) (log_key i) \<noteq> None" "is_set (\<alpha> db) (files_key i)"
      "\<And>f. is_set (\<alpha> db) (filemirrors_key f)" "is_hash (\<alpha> db) ''MIRRORS''"
    and index: "\<And>f. listed (\<alpha> db) i f \<Longrightarrow> f \<in> members (\<alpha> db) (files_key i)"
  shows "\<exists>db'. RemoveMirror env i db = (None, db') \<and> removed i (members (\<alpha> db) (files_key i)) (\<alpha> db) (\<alpha> db')"
proof -
  let ?r = "re_client env"
  obtain db1 where 1: "SetMirrorEnabled (re_json env) ?r (re_now env) db i False = (None, db1)" "eq_off {mirror_key i, log_key i} (\<alpha> db) (\<alpha> db1)"
    using SetMirrorEnabled_run [OF up typed(1,2)] by blast
  note off = eq_offD [OF 1(2)]
  have side: "files_key i \<notin> {mirror_key i, log_key i}" "filemirrors_key f \<notin> {mirror_key i, log_key i}" "''MIRRORS'' \<notin> {mirror_key i, log_key i}" for f
    by (simp_all add: scan_key_defs)
  obtain fs where fs: "get_set (\<alpha> db) (files_key i) = Some fs" using typed(3) by blast
  have "redis_cmd (\<alpha> db1) (SMEMBERS (files_key i)) = Some (RMulti (map RBulk fs), \<alpha> db1)" using off(2) [OF side(1)] fs by simp
  from reliable_redis.do_reply_effect [OF up this] obtain db2 where
    2: "conn_do ?r db1 (SMEMBERS (files_key i)) = (Inr (RMulti (map RBulk fs)), db2)" "\<alpha> db2 = \<alpha> db1" by auto
  have F: "members (\<alpha> db) (files_key i) = set fs" using fs by (simp add: members_def)
  have l2: "listed (\<alpha> db2) i f = listed (\<alpha> db) i f" for f using off(4) [OF side(2)] 2(2) by (simp add: listed_def)
  obtain qs s3 where 3: "redis_cmds (\<alpha> db2) (concat (map (drop_cmds i) fs) @ [DEL (mirror_keys i), HDEL ''MIRRORS'' [Itoa i]]) = Some (qs, s3)"
    "removed i (set fs) (\<alpha> db2) s3"
    using remove_run [of "\<alpha> db2" i fs] typed(4,5) off(2) [OF side(2)] off(3) [OF side(3)] index 2(2) l2 F by auto
  obtain qs' db3 where d3: "conn_exec ?r db2 (concat (map (drop_cmds i) fs) @ [DEL (mirror_keys i), HDEL ''MIRRORS'' [Itoa i]]) = (Inr (RMulti qs'), db3)"
    "\<alpha> db3 = s3" using reliable_redis.exec_effect [OF up 3(1)] by blast
  let ?db4 = "snd (Publish ?r db3 MIRROR_UPDATE (Itoa i))"
  have k4: "keys (\<alpha> ?db4) = keys s3" using reliable_redis.publish_effect(1) [OF up] d3(2) by simp
  have "RemoveMirror env i db = (None, ?db4)"
    using i conn 1(1) 2(1) d3(1) Strings_bulks [OF reliable_redis.interface [OF up]]
    by (simp add: RemoveMirror_def DisableMirror_def reliable_raw [OF up] do_err_def Publish_def split: prod.splits)
  moreover have "removed i (set fs) (\<alpha> db) (\<alpha> ?db4)"
  proof -
    have g: "members (\<alpha> ?db4) k = members s3 k" "field (\<alpha> ?db4) k = field s3 k" for k using get_cong(3,4) [of "\<alpha> ?db4" k s3] k4 by simp_all
    have o: "eq_off (removed_keys i) (\<alpha> db) (\<alpha> ?db4)" using 1(2) 3(2) k4 2(2) by (auto simp: removed_def eq_off_def removed_keys_def mirror_keys_def)
    show ?thesis using 3(2) o k4 g off(4) [OF side(2)] off(5) [OF side(3)] 2(2)
      by (simp add: removed_def listed_def others_same_def)
  qed
  ultimately show ?thesis using F by auto
qed


definition demo_listed :: store where
  "demo_listed =
     put (files_key 1) (Some (VSet [''/f'']))
       (put (filemirrors_key ''/f'') (Some (VSet [Itoa 1, Itoa 2])) (put ''MIRRORS'' (Some (VHash (mirrors_hash [(1, ''a''), (2, ''b'')]))) empty_store))"


end
