(* ===== verification/Rpc_Stats.thy ===== *)
theory Rpc_Stats
  imports Rpc_Mirrors Stats
begin

text \<open>
  From a download to the report of it: the counters that the statistics component writes for every year,
  month and day, read back over a period by the remote procedure calls through the keys that cover the period.
\<close>

section \<open>Dates as keys\<close>

definition digits_value :: "string \<Rightarrow> nat" where
  "digits_value s = foldl (\<lambda>a c. 10 * a + (of_char c - 48)) 0 s"

lemma digits_value_zeros: "digits_value (replicate n (CHR ''0'') @ s) = digits_value s"
  by (induction n) (simp_all add: digits_value_def)

lemma digits_value_nat: "digits_value (nat_digits n) = n"
proof (induction n rule: nat_digits.induct)
  case (1 n)
  show ?case
  proof (cases "n < 10")
    case False
    then show ?thesis using 1 by (subst nat_digits.simps) (simp add: digits_value_def)
  qed (subst nat_digits.simps, simp add: digits_value_def)
qed

lemma pad_int_inj: "pad_int w m = pad_int w n \<longleftrightarrow> m = n"
proof
  assume eq: "pad_int w m = pad_int w n"
  let ?p = "\<lambda>k. replicate (w - length (nat_digits (nat \<bar>k\<bar>))) (CHR ''0'') @ nat_digits (nat \<bar>k\<bar>)"
  have "CHR ''-'' \<notin> set (?p k)" for k :: int using nat_digits_are_digits [of "nat \<bar>k\<bar>"] by (auto simp: list_all_iff is_digit_def)
  then have sign: "CHR ''-'' \<in> set (pad_int w k) \<longleftrightarrow> k < 0" for k unfolding pad_int_def by auto
  from eq sign [of m] sign [of n] have s: "m < 0 \<longleftrightarrow> n < 0" by simp
  then have "?p m = ?p n" using eq by (simp add: pad_int_def split: if_splits)
  then have "digits_value (?p m) = digits_value (?p n)" by simp
  then have "\<bar>m\<bar> = \<bar>n\<bar>" by (simp add: digits_value_zeros digits_value_nat)
  then show "m = n" using s by auto
qed simp

fun key_parts :: "tkey \<Rightarrow> string list" where
  "key_parts (KYear y) = [pad_int 4 y]"
| "key_parts (KMonth y m) = [pad_int 4 y, pad_int 2 m]"
| "key_parts (KDay y m d) = [pad_int 4 y, pad_int 2 m, pad_int 2 d]"

lemma Join_inj:
  assumes "ws \<noteq> []" "vs \<noteq> []" "\<forall>w \<in> set ws \<union> set vs. c \<notin> set w"
  shows "Join ws [c] = Join vs [c] \<longleftrightarrow> ws = vs"
  using Split_Join [of ws c] Split_Join [of vs c] assms by (metis UnCI)

lemma format_key_parts: "format_key k = Join (key_parts k) ''_''"
  by (cases k) simp_all

lemma covered_key: "base @ ''_'' @ format_key k \<in> set (date_keys base t) \<longleftrightarrow> covers k (day_of t)"
proof -
  obtain y m d where c: "civil (day_of t) = (y, m, d)" by (cases "civil (day_of t)") auto
  have no: "\<forall>w \<in> set (key_parts k) \<union> set [pad_int 4 y, pad_int 2 m, pad_int 2 d]. CHR ''_'' \<notin> set w" "key_parts k \<noteq> []"
    by (cases k; simp)+
  let ?A = "{[pad_int 4 y, pad_int 2 m, pad_int 2 d], [pad_int 4 y, pad_int 2 m], [pad_int 4 y]}"
  have J: "Join (key_parts k) ''_'' = Join vs ''_'' \<longleftrightarrow> key_parts k = vs" if "vs \<in> ?A" for vs
    by (rule Join_inj) (use that no in auto)
  have "base @ ''_'' @ format_key k \<in> set (date_keys base t) \<longleftrightarrow> (\<exists>vs \<in> ?A. Join (key_parts k) ''_'' = Join vs ''_'')"
    by (simp add: date_keys_def date_parts_def c format_key_parts)
  also have "\<dots> \<longleftrightarrow> key_parts k \<in> ?A" using J by blast
  also have "\<dots> \<longleftrightarrow> covers k (day_of t)" by (cases k) (auto simp: c pad_int_inj)
  finally show ?thesis .
qed

lemma pad_int_B: "pad_int w n @ x \<noteq> CHR ''B'' # z"
  using pad_int_hd [of w n] pad_int_nonempty [of w n] by (cases "pad_int w n") (auto simp: is_digit_def)

lemma format_key_B: "format_key k \<noteq> CHR ''B'' # z"
  using pad_int_B [of 4 _ "[]" z] pad_int_B [of 4] by (cases k) simp_all

lemma other_base:
  "''STATS_MIRROR_'' @ format_key k \<notin> set (date_keys ''STATS_FILE'' t)" "''STATS_MIRROR_'' @ format_key k \<notin> set (date_keys ''STATS_MIRROR_BYTES'' t)"
  "''STATS_MIRROR_BYTES_'' @ format_key k \<notin> set (date_keys ''STATS_FILE'' t)" "''STATS_MIRROR_BYTES_'' @ format_key k \<notin> set (date_keys ''STATS_MIRROR'' t)"
proof -
  obtain y m d where c: "date_parts t = [pad_int 4 y, pad_int 2 m, pad_int 2 d]" by (rule date_parts_three)
  show "''STATS_MIRROR_'' @ format_key k \<notin> set (date_keys ''STATS_FILE'' t)" "''STATS_MIRROR_BYTES_'' @ format_key k \<notin> set (date_keys ''STATS_FILE'' t)"
    by (simp_all add: date_keys_def c)
  show "''STATS_MIRROR_'' @ format_key k \<notin> set (date_keys ''STATS_MIRROR_BYTES'' t)" using format_key_B by (simp add: date_keys_def c)
  show "''STATS_MIRROR_BYTES_'' @ format_key k \<notin> set (date_keys ''STATS_MIRROR'' t)" using pad_int_B [of 4 y, THEN not_sym] pad_int_B [of 4 y "[]", THEN not_sym]
    by (simp add: date_keys_def c)
qed

lemma mirror_counts:
  "item_counts (''STATS_MIRROR_'' @ format_key k) (Itoa i) c = (if covers k (day_of (ci_time c)) \<and> ci_mirrorID c = i then 1 else 0)"
  "item_counts (''STATS_MIRROR_BYTES_'' @ format_key k) (Itoa i) c = (if covers k (day_of (ci_time c)) \<and> ci_mirrorID c = i then ci_size c else 0)"
  using covered_key [of "''STATS_MIRROR''" k "ci_time c"] covered_key [of "''STATS_MIRROR_BYTES''" k "ci_time c"] other_base [of k "ci_time c"]
  by (auto simp: item_counts_def)

section \<open>Adding up\<close>

lemma covered_sum:
  assumes "partition_days ks a b"
  shows "(\<Sum>k\<leftarrow>ks. \<Sum>c\<leftarrow>cs. if covers k (d c) \<and> P c then w c else (0::int)) = (\<Sum>c\<leftarrow>filter (\<lambda>c. a \<le> d c \<and> d c < b \<and> P c) cs. w c)"
proof (induction cs)
  case (Cons c cs)
  have "(\<Sum>k\<leftarrow>ks. if covers k (d c) \<and> P c then w c else 0) = int (length (filter (\<lambda>k. covers k (d c)) ks)) * (if P c then w c else 0)" for ks
    by (induction ks) (auto simp: algebra_simps)
  then have "(\<Sum>k\<leftarrow>ks. if covers k (d c) \<and> P c then w c else 0) = (if a \<le> d c \<and> d c < b \<and> P c then w c else 0)"
    using assms by (simp add: partition_days_def)
  then show ?case using Cons by (simp add: sum_list_addf)
qed simp

lemma sum_list_filter_le: "(\<And>x. x \<in> set xs \<Longrightarrow> (0::int) \<le> f x) \<Longrightarrow> (\<Sum>x\<leftarrow>filter P xs. f x) \<le> (\<Sum>x\<leftarrow>xs. f x)"
proof (induction xs)
  case (Cons a xs)
  have "0 \<le> f a" "(\<Sum>x\<leftarrow>filter P xs. f x) \<le> (\<Sum>x\<leftarrow>xs. f x)" using Cons by auto
  then show ?case by simp
qed simp

lemma wrap64_add: "wrap64 (wrap64 x + y) = wrap64 (x + y)"
proof -
  have "((x + m) mod n - m + y + m) mod n - m = (x + y + m) mod n - m" for m n :: int
    using mod_add_left_eq [of "x + m" n y] by (simp add: algebra_simps)
  then show ?thesis unfolding wrap64_def .
qed

lemma stats_pairs_sum:
  "stats_pairs (concat (map (\<lambda>k. [f k, g k]) ks)) (wrap64 x, wrap64 y) =
     Inr (wrap64 (x + (\<Sum>k\<leftarrow>ks. fst (ParseInt (f k)))), wrap64 (y + (\<Sum>k\<leftarrow>ks. fst (ParseInt (g k)))))"
  by (induction ks arbitrary: x y) (simp_all add: wrap64_add add.assoc)

text \<open>What \<open>redis.Strings\<close> makes of the reply of \<open>HGET\<close>.\<close>

definition hget_string :: "store \<Rightarrow> string \<Rightarrow> string \<Rightarrow> string" where
  "hget_string s H f = (case field s H f of None \<Rightarrow> '''' | Some v \<Rightarrow> v)"

lemma hget_counter:
  assumes "counters_ok N s" "H \<noteq> ''STATS_TOTAL''" "HasPrefix H ''STATS_''"
  shows "redis_cmd s (HGET H f) = Some (opt_bulk (field s H f), s)" "fst (ParseInt (hget_string s H f)) = hash_int s H f"
proof -
  obtain h where h: "get_hash s H = Some h" "is_counter N (map_of h f)" using assms unfolding counters_ok_def by blast
  then show "redis_cmd s (HGET H f) = Some (opt_bulk (field s H f), s)" by (simp add: field_def)
  have "fst (ParseInt '''') = 0" by (simp add: ParseInt_def parse_uint_def)
  then show "fst (ParseInt (hget_string s H f)) = hash_int s H f" using h
    by (auto simp: hget_string_def field_def hash_int_def is_counter_def bulk_int_def split: option.splits prod.splits)
qed

lemma hget_cmds:
  assumes "\<And>H. H \<in> set Hs \<Longrightarrow> redis_cmd s (HGET H f) = Some (opt_bulk (field s H f), s)"
  shows "redis_cmds s (map (\<lambda>H. HGET H f) Hs) = Some (map (\<lambda>H. opt_bulk (field s H f)) Hs, s)"
  using assms by (induction Hs) (simp_all del: redis_cmd.simps)

lemma exec_reads:
  assumes up: "reliable_redis r \<alpha>" and cmds: "redis_cmds (\<alpha> db) cs = Some (qs, s')" and "\<And>ch m. PUBLISH ch m \<notin> set cs"
  shows "\<exists>db'. conn_exec r db cs = (Inr (RMulti qs), db') \<and> \<alpha> db' = s'"
proof -
  obtain qs' db' where d: "conn_exec r db cs = (Inr (RMulti qs'), db')" "\<alpha> db' = s'" "length qs' = length qs"
    "\<forall>i < length qs. same_reply (cs ! i) (qs ! i) (qs' ! i)" using reliable_redis.exec_effect [OF up cmds] by blast
  have l: "length qs = length cs" using redis_cmds_length [OF cmds] .
  have "qs' ! i = qs ! i" if "i < length qs" for i
  proof -
    have "cs ! i \<noteq> PUBLISH ch m" for ch m using that l assms(3) [of ch m] by (metis nth_mem)
    then show ?thesis using d(4) that by (cases "cs ! i") (auto simp: same_reply_def)
  qed
  then have "qs' = qs" using d(3) by (metis nth_equalityI)
  then show ?thesis using d by blast
qed

section \<open>The report of a mirror\<close>

definition mirror_stat_keys :: "tkey list \<Rightarrow> string list" where
  "mirror_stat_keys ks = concat (map (\<lambda>k. [''STATS_MIRROR_'' @ format_key k, ''STATS_MIRROR_BYTES_'' @ format_key k]) ks)"

lemma mirror_stat_keysD:
  assumes "H \<in> set (mirror_stat_keys ks)"
  shows "H \<noteq> ''STATS_TOTAL''" "HasPrefix H ''STATS_''"
  using assms by (auto simp: mirror_stat_keys_def HasPrefix_def)

lemma mirror_stat_cmds:
  "concat (map (\<lambda>k. [HGET (''STATS_MIRROR_'' @ k) f, HGET (''STATS_MIRROR_BYTES_'' @ k) f]) (TimeKeyCoverage start end)) =
     map (\<lambda>H. HGET H f) (mirror_stat_keys (time_keys start end))"
  by (simp add: mirror_stat_keys_def TimeKeyCoverage_def map_concat comp_def)

lemma mirror_stat_sums:
  assumes "counters_ok N s"
  shows "stats_pairs (map (\<lambda>H. hget_string s H f) (mirror_stat_keys ks)) (0, 0) =
    Inr (wrap64 (\<Sum>k\<leftarrow>ks. hash_int s (''STATS_MIRROR_'' @ format_key k) f), wrap64 (\<Sum>k\<leftarrow>ks. hash_int s (''STATS_MIRROR_BYTES_'' @ format_key k) f))"
proof -
  have "wrap64 0 = 0" by (simp add: in_int64_def)
  moreover have "map (\<lambda>H. hget_string s H f) (mirror_stat_keys ks) =
      concat (map (\<lambda>k. [hget_string s (''STATS_MIRROR_'' @ format_key k) f, hget_string s (''STATS_MIRROR_BYTES_'' @ format_key k) f]) ks)"
    by (simp add: mirror_stat_keys_def map_concat comp_def)
  moreover have "fst (ParseInt (hget_string s (''STATS_MIRROR_'' @ x) f)) = hash_int s (''STATS_MIRROR_'' @ x) f" for x
    using hget_counter(2) [OF assms, of "''STATS_MIRROR_'' @ x" f] by (simp add: HasPrefix_def)
  ultimately show ?thesis using stats_pairs_sum [of _ _ ks 0 0] by simp
qed

lemma StatsMirror_run:
  assumes up: "reliable_redis (re_client env) \<alpha>" and conn: "re_connErr env = None" and i: "0 < i"
    and dates: "pt_Timestamp (re_pt env) dateStart = Inr start" "pt_Timestamp (re_pt env) dateEnd = Inr end"
    and counters: "counters_ok N (\<alpha> db)"
    and mirror: "get_hash (\<alpha> db) (mirror_key i) = Some h" "re_ScanStruct env (concat (map (\<lambda>(f, v). [RBulk f, RBulk v]) h)) = Inr m"
      "MirrorToRPC (re_pt env) m = Inr rm"
  shows "\<exists>db'. StatsMirror env i dateStart dateEnd db =
      Inr (Inr (rm, wrap64 (\<Sum>k\<leftarrow>time_keys start end. hash_int (\<alpha> db) (''STATS_MIRROR_'' @ format_key k) (Itoa i)),
                    wrap64 (\<Sum>k\<leftarrow>time_keys start end. hash_int (\<alpha> db) (''STATS_MIRROR_BYTES_'' @ format_key k) (Itoa i))), db') \<and>
    \<alpha> db' = \<alpha> db"
proof -
  let ?r = "re_client env" and ?s = "\<alpha> db" and ?Hs = "mirror_stat_keys (time_keys start end)"
  note ok = reliable_redis.interface [OF up]
  have "redis_cmds ?s (map (\<lambda>H. HGET H (Itoa i)) ?Hs) = Some (map (\<lambda>H. opt_bulk (field ?s H (Itoa i))) ?Hs, ?s)"
    by (rule hget_cmds, rule hget_counter(1) [OF counters]) (simp_all add: mirror_stat_keysD)
  from exec_reads [OF up this] obtain db1 where
    1: "conn_exec ?r db (map (\<lambda>H. HGET H (Itoa i)) ?Hs) = (Inr (RMulti (map (\<lambda>H. opt_bulk (field ?s H (Itoa i))) ?Hs)), db1)" "\<alpha> db1 = ?s"
    by auto
  have str: "rd_Strings (api ?r) (Inr (RMulti (map (\<lambda>H. opt_bulk (field ?s H (Itoa i))) ?Hs))) = Inr (map (\<lambda>H. hget_string ?s H (Itoa i)) ?Hs)"
    using conv_okD(15) [OF ok, of "map (\<lambda>H. field ?s H (Itoa i)) ?Hs"] by (simp add: comp_def hget_string_def)
  let ?q = "RMulti (concat (map (\<lambda>(f, v). [RBulk f, RBulk v]) h))"
  have "redis_cmd (\<alpha> db1) (HGETALL (mirror_key i)) = Some (?q, ?s)" using mirror(1) 1(2) by simp
  from reliable_redis.do_reply_effect [OF up this] obtain db2 where
    2: "conn_do ?r db1 (HGETALL (mirror_key i)) = (Inr ?q, db2)" "\<alpha> db2 = ?s" by auto
  show ?thesis
    using conn i dates 1(1) 2 str conv_okD(2) [OF ok] mirror(2,3) mirror_stat_sums [OF counters, of "Itoa i" "time_keys start end"]
    by (simp add: StatsMirror_def mirror_stat_cmds [simplified] reliable_raw [OF up])
qed


lemma demo_run:
  "\<exists>s' db'. processCountDownload ref_client [StatsCount, StatsStop None] demo_stats empty_store = Inr (s', db') \<and>
     mapStats s' = [] \<and> countChan s' = [] \<and> get_hash db' (mirror_key 7) = Some []"
proof -
  let ?v = "case processCountDownload ref_client [StatsCount, StatsStop None] demo_stats empty_store of
    Inl _ \<Rightarrow> False | Inr (s', db') \<Rightarrow> mapStats s' = [] \<and> countChan s' = [] \<and> get_hash db' (mirror_key 7) = Some []"
  have "?v" by code_simp
  then show ?thesis by (auto split: sum.splits prod.splits)
qed


end
