(* ===== verification/Upgrade_V1.thy ===== *)
theory Upgrade_V1
  imports Rpc_Mirrors
begin

text \<open>
  The upgrade of the database from format 0, where mirrors are known by name, to format 1, where they have numbers
  (\<^verbatim>\<open>database/v1/version1.go\<close>, \<^verbatim>\<open>database/upgrader/upgrader.go\<close>): the steps that
  write under work keys, and the transaction that renames them into place.
\<close>

section \<open>Connections\<close>

text \<open>
  Commands sent without waiting for the answer: an error among the answers is what the next call on the connection
  returns; \<open>Flush\<close> itself fails only on the network.  The state of a connection is that error and the database.
\<close>

definition conn_Send :: "'db redigo \<Rightarrow> rcmd \<Rightarrow> err option \<times> 'db \<Rightarrow> err option \<times> 'db" where
  "conn_Send R c st =
     (case rd_do R (snd st) c of
        (Inl e, db') \<Rightarrow> (if fst st = None then Some e else fst st, db')
      | (Inr _, db') \<Rightarrow> (fst st, db'))"

definition conn_Do :: "'db redigo \<Rightarrow> rcmd \<Rightarrow> err option \<times> 'db \<Rightarrow> (err + reply) \<times> err option \<times> 'db" where
  "conn_Do R c st =
     (let (rep, db') = rd_do R (snd st) c in (case fst st of Some e \<Rightarrow> Inl e | None \<Rightarrow> rep, None, db'))"

definition conn_Flush :: "err option \<times> 'db \<Rightarrow> err option" where
  "conn_Flush st = (case fst st of Some e \<Rightarrow> if is_reply_error e then None else Some e | None \<Rightarrow> None)"

section \<open>The steps\<close>

record actions =
  act_delete :: "string list"
  act_rename :: "(string \<times> string) list"

text \<open>
  The iteration orders of the maps are arguments: \<open>v1_range n\<close> is the order of the \<open>n\<close>-th loop over the
  mirrors, \<open>v1_renames\<close> and \<open>v1_stats\<close> those of the renamings and of the counters.
\<close>

record 'db v1_env =
  v1_redis :: "'db redigo"
  v1_range :: "nat \<Rightarrow> (int \<times> string) list \<Rightarrow> (int \<times> string) list"
  v1_renames :: "(string \<times> string) list \<Rightarrow> (string \<times> string) list"
  v1_stats :: "(string \<times> string) list \<Rightarrow> (string \<times> string) list"

definition add_rename :: "string \<Rightarrow> string \<Rightarrow> actions \<Rightarrow> actions" where
  "add_rename k v a = a\<lparr>act_rename := AList.update k v (act_rename a)\<rparr>"

definition IsErrNoSuchKey :: "err \<Rightarrow> bool" where
  "IsErrNoSuchKey e \<longleftrightarrow> e = ErrReply ''ERR no such key''"

text \<open>The script that erases the work keys of an earlier attempt, in portions of 5000 keys.\<close>

function chunks :: "nat \<Rightarrow> 'a list \<Rightarrow> 'a list list" where
  "chunks n xs = (if xs = [] then [] else take (Suc n) xs # chunks n (drop (Suc n) xs))"
  by pat_completeness auto
termination by (relation "measure (\<lambda>(n, xs). length xs)") auto

declare chunks.simps [simp del]

fun del_all :: "'db redigo \<Rightarrow> string list list \<Rightarrow> 'db \<Rightarrow> err option \<times> 'db" where
  "del_all R [] db = (None, db)"
| "del_all R (ks # kss) db =
     (case rd_do R db (DEL ks) of (Inl e, db') \<Rightarrow> (Some e, db') | (Inr _, db') \<Rightarrow> del_all R kss db')"

definition erase_work :: "'db redigo \<Rightarrow> 'db \<Rightarrow> err option \<times> 'db" where
  "erase_work R db =
     (let (rep, db1) = rd_do R db (KEYS ''V1_*'')
      in case rd_Strings R rep of Inl e \<Rightarrow> (Some e, db1) | Inr ks \<Rightarrow> del_all R (chunks 4999 ks) db1)"

fun number_mirrors :: "'db redigo \<Rightarrow> string list \<Rightarrow> (int \<times> string) list \<Rightarrow> 'db \<Rightarrow> (err + (int \<times> string) list) \<times> 'db" where
  "number_mirrors R [] m db = (Inr m, db)"
| "number_mirrors R (name # names) m db =
     (let (rep, db1) = rd_do R db (INCR ''LAST_MID'')
      in case rd_Int R rep of
           Inl e \<Rightarrow> (Inl e, db1)
         | Inr i \<Rightarrow>
             (case rd_do R db1 (HSET ''V1_MIRRORS'' (Itoa i) (AStr name)) of
                (Inl e, db2) \<Rightarrow> (Inl e, db2)
              | (Inr _, db2) \<Rightarrow> number_mirrors R names (AList.update i name m) db2))"

definition CreateMirrorIndex :: "'db redigo \<Rightarrow> actions \<Rightarrow> 'db \<Rightarrow> (err + (int \<times> string) list \<times> actions) \<times> 'db" where
  "CreateMirrorIndex R a db =
     (let (rep, db1) = rd_do R db (LRANGE ''MIRRORS'' 0 (- 1))
      in case rd_Strings R rep of
           Inl e \<Rightarrow> (Inl e, db1)
         | Inr names \<Rightarrow>
             (case number_mirrors R names [] db1 of
                (Inl e, db2) \<Rightarrow> (Inl e, db2)
              | (Inr m, db2) \<Rightarrow> (Inr (m, add_rename ''V1_MIRRORS'' ''MIRRORS'' a), db2)))"

text \<open>The number of a name, 0 when no mirror has it.\<close>

fun find_id :: "(int \<times> string) list \<Rightarrow> string \<Rightarrow> int" where
  "find_id [] name = 0"
| "find_id ((i, n) # ms) name = (if n = name then i else find_id ms name)"

definition mirror_renames :: "int \<Rightarrow> string \<Rightarrow> string list \<Rightarrow> actions \<Rightarrow> actions" where
  "mirror_renames i name files a =
     add_rename (''HANDLEDFILES_'' @ name) (handled_key i)
       (add_rename (''MIRROR_'' @ name @ ''_FILES'') (files_key i)
         (fold (\<lambda>f. add_rename (''FILEINFO_'' @ name @ ''_'' @ f) (fileinfo_key i f)) files a))"

fun rename_mirrors :: "'db redigo \<Rightarrow> (int \<times> string) list \<Rightarrow> actions \<Rightarrow> 'db \<Rightarrow> (err + actions) \<times> 'db" where
  "rename_mirrors R [] a db = (Inr a, db)"
| "rename_mirrors R ((i, name) # ms) a db =
     (let (rep, db1) = rd_do R db (SMEMBERS (''MIRROR_'' @ name @ ''_FILES''))
      in case rd_Strings R rep of
           Inl e \<Rightarrow> if e = ErrNil \<or> IsErrNoSuchKey e then rename_mirrors R ms a db1 else (Inl e, db1)
         | Inr files \<Rightarrow> rename_mirrors R ms (mirror_renames i name files a) db1)"

fun rename_files :: "'db redigo \<Rightarrow> (int \<times> string) list \<Rightarrow> string list \<Rightarrow> actions \<Rightarrow> err option \<times> 'db \<Rightarrow> (err + actions) \<times> 'db" where
  "rename_files R m [] a st = (Inr a, snd st)"
| "rename_files R m (file # files) a st =
     (let (rep, st1) = conn_Do R (SMEMBERS (filemirrors_key file)) st
      in case rd_Strings R rep of
           Inl e \<Rightarrow> (Inl e, snd st1)
         | Inr names \<Rightarrow>
             (let st2 = fold (\<lambda>name st. if find_id m name = 0 then st
                                        else conn_Send R (SADD (''V1_FILEMIRRORS_'' @ file) [Itoa (find_id m name)]) st) names st1
              in case conn_Flush st2 of
                   Some e \<Rightarrow> (Inl e, snd st2)
                 | None \<Rightarrow> rename_files R m files (add_rename (''V1_FILEMIRRORS_'' @ file) (filemirrors_key file) a) st2))"

definition RenameKeys :: "'db v1_env \<Rightarrow> (int \<times> string) list \<Rightarrow> actions \<Rightarrow> 'db \<Rightarrow> (err + actions) \<times> 'db" where
  "RenameKeys env m a db =
     (let R = v1_redis env
      in case rename_mirrors R (v1_range env 0 m) a db of
           (Inl e, db1) \<Rightarrow> (Inl e, db1)
         | (Inr a1, db1) \<Rightarrow>
             (let (rep, db2) = rd_do R db1 (SMEMBERS ''FILES'')
              in case rd_Strings R rep of
                   Inl e \<Rightarrow> if e \<noteq> ErrNil then (Inl e, db2) else (Inr a1, db2)
                 | Inr files \<Rightarrow> rename_files R (v1_range env 1 m) files a1 (None, db2)))"

text \<open>\<open>RESTORE\<close> with a time to live of 0 and \<open>REPLACE\<close>.\<close>

definition CopyKey :: "'db redigo \<Rightarrow> string \<Rightarrow> string \<Rightarrow> err option \<times> 'db \<Rightarrow> err option \<times> err option \<times> 'db" where
  "CopyKey R src dst st =
     (let (rep, st1) = conn_Do R (DUMP src) st
      in case rd_String R rep of
           Inl e \<Rightarrow> (Some e, st1)
         | Inr dmp \<Rightarrow> (let (rep2, st2) = conn_Do R (RESTORE dst dmp) st1 in (do_err rep2, st2)))"

fun fix_ids :: "'db redigo \<Rightarrow> (int \<times> string) list \<Rightarrow> actions \<Rightarrow> err option \<times> 'db \<Rightarrow> (err + actions) \<times> 'db" where
  "fix_ids R [] a st = (case conn_Flush st of Some e \<Rightarrow> Inl e | None \<Rightarrow> Inr a, snd st)"
| "fix_ids R ((i, name) # ms) a st =
     (case CopyKey R (''MIRROR_'' @ name) (''V1_MIRROR_'' @ Itoa i) st of
        (Some e, st1) \<Rightarrow> (Inl e, snd st1)
      | (None, st1) \<Rightarrow>
          fix_ids R ms
            ((add_rename (''V1_MIRROR_'' @ Itoa i) (mirror_key i) a)\<lparr>act_delete := act_delete a @ [''MIRROR_'' @ name]\<rparr>)
            (conn_Send R (HMSET (''V1_MIRROR_'' @ Itoa i) [(''ID'', AInt i), (''name'', AStr name)]) st1))"

definition FixMirrorID :: "'db v1_env \<Rightarrow> (int \<times> string) list \<Rightarrow> actions \<Rightarrow> 'db \<Rightarrow> (err + actions) \<times> 'db" where
  "FixMirrorID env m a db = fix_ids (v1_redis env) (v1_range env 2 m) a (None, db)"

text \<open>\<open>redis.StringMap\<close> on a list of replies.\<close>

fun string_map :: "reply list \<Rightarrow> (string \<times> string) list \<Rightarrow> err + (string \<times> string) list" where
  "string_map [] acc = Inr acc"
| "string_map (RBulk k # RBulk v # rs) acc = string_map rs (AList.update k v acc)"
| "string_map _ acc = Inl (ErrMsg ''redigo: StringMap'')"

definition stat_field :: "'db redigo \<Rightarrow> (int \<times> string) list \<Rightarrow> string \<Rightarrow> string \<times> string \<Rightarrow> actions \<times> err option \<times> 'db \<Rightarrow> actions \<times> err option \<times> 'db" where
  "stat_field R m key x acc =
     (let i = find_id m (fst x)
      in if i = 0 then acc
         else (add_rename (''V1_'' @ key) key (fst acc), conn_Send R (HSET (''V1_'' @ key) (Itoa i) (AStr (snd x))) (snd acc)))"

fun rename_stats :: "'db v1_env \<Rightarrow> (int \<times> string) list \<Rightarrow> string list \<Rightarrow> actions \<Rightarrow> err option \<times> 'db \<Rightarrow> (err + actions) \<times> 'db" where
  "rename_stats env m [] a st = (Inr a, snd st)"
| "rename_stats env m (key # ks) a st =
     (let R = v1_redis env; (rep, st1) = conn_Do R (HGETALL key) st
      in case (case rd_Values R rep of Inl e \<Rightarrow> Inl e | Inr rs \<Rightarrow> string_map rs []) of
           Inl e \<Rightarrow> (Inl e, snd st1)
         | Inr stats \<Rightarrow>
             (let (a1, st2) = fold (stat_field R m key) (v1_stats env stats) (a, st1)
              in case conn_Flush st2 of Some e \<Rightarrow> (Inl e, snd st2) | None \<Rightarrow> rename_stats env m ks a1 st2))"

definition RenameStats :: "'db v1_env \<Rightarrow> (int \<times> string) list \<Rightarrow> actions \<Rightarrow> 'db \<Rightarrow> (err + actions) \<times> 'db" where
  "RenameStats env m a db =
     (let R = v1_redis env; (rep, db1) = rd_do R db (KEYS ''STATS_MIRROR_*'')
      in case rd_Strings R rep of
           Inl e \<Rightarrow> if e \<noteq> ErrNil then (Inl e, db1) else (Inr a, db1)
         | Inr ks \<Rightarrow> rename_stats env (v1_range env 3 m) ks a (None, db1))"

section \<open>The upgrade\<close>

text \<open>The renamings, the deletions that would not delete the result of a renaming, and the version.\<close>

definition commit_cmds :: "'db v1_env \<Rightarrow> actions \<Rightarrow> rcmd list" where
  "commit_cmds env a =
     map (\<lambda>(k, v). RENAME k v) (v1_renames env (act_rename a)) @
     map (\<lambda>d. DEL [d]) (filter (\<lambda>d. \<forall>(k, v) \<in> set (act_rename a). d \<noteq> v) (act_delete a)) @ [SET DBVersionKey (AInt 1)]"

definition prepare :: "'db v1_env \<Rightarrow> 'db \<Rightarrow> (err + actions) \<times> 'db" where
  "prepare env db =
     (case erase_work (v1_redis env) db of
        (Some e, db1) \<Rightarrow> (Inl e, db1)
      | (None, db1) \<Rightarrow>
          (case CreateMirrorIndex (v1_redis env) \<lparr>act_delete = [], act_rename = []\<rparr> db1 of
             (Inl e, db2) \<Rightarrow> (Inl e, db2)
           | (Inr (m, a1), db2) \<Rightarrow>
               (case RenameKeys env m a1 db2 of
                  (Inl e, db3) \<Rightarrow> (Inl e, db3)
                | (Inr a2, db3) \<Rightarrow>
                    (case FixMirrorID env m a2 db3 of
                       (Inl e, db4) \<Rightarrow> (Inl e, db4)
                     | (Inr a3, db4) \<Rightarrow> RenameStats env m a3 db4))))"

definition v1_Upgrade :: "'db v1_env \<Rightarrow> 'db \<Rightarrow> err option \<times> 'db" where
  "v1_Upgrade env db =
     (case prepare env db of
        (Inl e, db1) \<Rightarrow> (Some e, db1)
      | (Inr a, db1) \<Rightarrow> (let (rep, db2) = rd_exec (v1_redis env) db1 (commit_cmds env a) in (do_err rep, db2)))"

text \<open>The upgrader for a version.\<close>

definition GetUpgrader :: "'db v1_env \<Rightarrow> int \<Rightarrow> ('db \<Rightarrow> err option \<times> 'db) option" where
  "GetUpgrader env version = (if version = 1 then Some (v1_Upgrade env) else None)"

section \<open>What a command may change\<close>

fun touches :: "rcmd \<Rightarrow> string set" where
  "touches (SET k a) = {k}"
| "touches (SETNX k a t) = {k}"
| "touches (DEL ks) = set ks"
| "touches (EXPIRE k i) = {k}"
| "touches (PEXPIRE k i) = {k}"
| "touches (HSET k f a) = {k}"
| "touches (HMSET k fas) = {k}"
| "touches (HDEL k fs) = {k}"
| "touches (HINCRBY k f i) = {k}"
| "touches (INCR k) = {k}"
| "touches (INCRBY k i) = {k}"
| "touches (RPUSH k vs) = {k}"
| "touches (SADD k xs) = {k}"
| "touches (SREM k xs) = {k}"
| "touches (SINTERSTORE d a b) = {d}"
| "touches (RENAME a b) = {a, b}"
| "touches (RESTORE k d) = {k}"
| "touches (EVAL s ks as) = UNIV"
| "touches c = {}"

text \<open>
  The part of the documentation of the server that the upgrade relies on, also when commands fail: a command changes no key but those
  it writes, \<open>KEYS\<close> answers with matching keys, and a transaction that is answered with an error was not run.
\<close>

text \<open>The keys the steps before the transaction write.\<close>

definition work_keys :: "string set" where
  "work_keys = {k. HasPrefix k ''V1_''} \<union> {''LAST_MID''}"

definition work :: "('db \<Rightarrow> store) \<Rightarrow> 'db \<Rightarrow> 'db \<Rightarrow> bool" where
  "work \<alpha> db db' \<longleftrightarrow> eq_off work_keys (\<alpha> db) (\<alpha> db')"

lemma work_refl [simp]: "work \<alpha> db db"
  by (simp add: work_def)

lemma work_trans [trans]: "work \<alpha> a b \<Longrightarrow> work \<alpha> b c \<Longrightarrow> work \<alpha> a c"
  by (simp add: work_def eq_off_def)

lemma work_keys_simps [simp]: "''V1_'' @ k \<in> work_keys" "''LAST_MID'' \<in> work_keys"
  by (simp_all add: work_keys_def HasPrefix_def)

lemma set_chunks: "ks \<in> set (chunks n xs) \<Longrightarrow> set ks \<subseteq> set xs"
proof (induction n xs rule: chunks.induct)
  case (1 n xs)
  then show ?case by (subst (asm) (2) chunks.simps) (auto split: if_splits dest: in_set_takeD in_set_dropD)
qed

locale framed_redis =
  fixes R :: "'db redigo" and \<alpha> :: "'db \<Rightarrow> store"
  assumes do_frame: "rd_do R db c = (res, db') \<Longrightarrow> eq_off (touches c) (\<alpha> db) (\<alpha> db')"
    and keys_match: "rd_do R db (KEYS (p @ ''*'')) = (rep, db') \<Longrightarrow> rd_Strings R rep = Inr ks \<Longrightarrow> k \<in> set ks \<Longrightarrow> HasPrefix k p"
    and exec_refused: "rd_exec R db cs = (Inl e, db') \<Longrightarrow> is_reply_error e \<Longrightarrow> \<alpha> db' = \<alpha> db"
begin

lemma work_do: "rd_do R db c = (res, db') \<Longrightarrow> touches c \<subseteq> work_keys \<Longrightarrow> work \<alpha> db db'"
  using do_frame [of db c res db'] unfolding work_def eq_off_def by blast

lemma work_Send: "touches c \<subseteq> work_keys \<Longrightarrow> work \<alpha> (snd st) (snd (conn_Send R c st))"
  using work_do [of "snd st" c] by (auto simp: conn_Send_def split: prod.splits sum.splits)

lemma work_Do: "conn_Do R c st = (rep, st') \<Longrightarrow> touches c \<subseteq> work_keys \<Longrightarrow> work \<alpha> (snd st) (snd st')"
  using work_do [of "snd st" c] by (auto simp: conn_Do_def split: prod.splits)

lemma work_del: "del_all R kss db = (e, db') \<Longrightarrow> (\<And>ks. ks \<in> set kss \<Longrightarrow> set ks \<subseteq> work_keys) \<Longrightarrow> work \<alpha> db db'"
proof (induction kss arbitrary: db)
  case (Cons ks kss)
  obtain rep db1 where d: "rd_do R db (DEL ks) = (rep, db1)" by fastforce
  have "work \<alpha> db db1" using work_do [OF d] Cons.prems(2) by simp
  also have "work \<alpha> db1 db'" using Cons d by (auto split: sum.splits)
  finally show ?case .
qed simp

lemma work_erase:
  assumes "erase_work R db = (e, db')"
  shows "work \<alpha> db db'"
proof -
  obtain rep db1 where d: "rd_do R db (KEYS ''V1_*'') = (rep, db1)" by fastforce
  have 1: "work \<alpha> db db1" using work_do [OF d] by simp
  show ?thesis
  proof (cases "rd_Strings R rep")
    case (Inr ks)
    have "HasPrefix k ''V1_''" if "k \<in> set ks" for k using keys_match [of db "''V1_''" rep db1 ks k] d Inr that by simp
    then have "set l \<subseteq> work_keys" if "l \<in> set (chunks 4999 ks)" for l using set_chunks [OF that] by (auto simp: work_keys_def)
    moreover have "del_all R (chunks 4999 ks) db1 = (e, db')" using assms d Inr by (simp add: erase_work_def)
    ultimately show ?thesis using work_trans [OF 1 work_del] by blast
  qed (use assms d 1 in \<open>simp add: erase_work_def\<close>)
qed

lemma work_number: "number_mirrors R names m db = (res, db') \<Longrightarrow> work \<alpha> db db'"
proof (induction names arbitrary: m db)
  case (Cons name names)
  obtain rep db1 where d: "rd_do R db (INCR ''LAST_MID'') = (rep, db1)" by fastforce
  have 1: "work \<alpha> db db1" using work_do [OF d] by simp
  show ?case
  proof (cases "rd_Int R rep")
    case (Inr i)
    obtain rep2 db2 where d2: "rd_do R db1 (HSET ''V1_MIRRORS'' (Itoa i) (AStr name)) = (rep2, db2)" by fastforce
    have 2: "work \<alpha> db1 db2" using work_do [OF d2] work_keys_simps(1) [of "''MIRRORS''"] by simp
    have 3: "work \<alpha> db2 db'"
    proof (cases rep2)
      case (Inr q)
      then have "number_mirrors R names (AList.update i name m) db2 = (res, db')"
        using Cons.prems d d2 \<open>rd_Int R rep = Inr i\<close> by simp
      then show ?thesis by (rule Cons.IH)
    qed (use Cons.prems d d2 Inr in simp)
    show ?thesis by (rule work_trans [OF 1 work_trans [OF 2 3]])
  qed (use Cons.prems d 1 in simp)
qed simp

lemma work_create: "CreateMirrorIndex R a db = (res, db') \<Longrightarrow> work \<alpha> db db'"
proof -
  assume c: "CreateMirrorIndex R a db = (res, db')"
  obtain rep db1 where d: "rd_do R db (LRANGE ''MIRRORS'' 0 (- 1)) = (rep, db1)" by fastforce
  have 1: "work \<alpha> db db1" using work_do [OF d] by simp
  show "work \<alpha> db db'"
  proof (cases "rd_Strings R rep")
    case (Inr names)
    obtain x db2 where n: "number_mirrors R names [] db1 = (x, db2)" by fastforce
    then show ?thesis using c d Inr work_trans [OF 1 work_number [OF n]] by (auto simp: CreateMirrorIndex_def split: sum.splits)
  qed (use c d 1 in \<open>simp add: CreateMirrorIndex_def\<close>)
qed

lemma work_rename_mirrors: "rename_mirrors R ms a db = (res, db') \<Longrightarrow> work \<alpha> db db'"
proof (induction ms arbitrary: a db)
  case (Cons x ms)
  obtain i name where x: "x = (i, name)" by fastforce
  obtain rep db1 where d: "rd_do R db (SMEMBERS (''MIRROR_'' @ name @ ''_FILES'')) = (rep, db1)" by fastforce
  have 1: "work \<alpha> db db1" using work_do [OF d] by simp
  show ?case
  proof (cases "rd_Strings R rep")
    case (Inl e)
    show ?thesis
    proof (cases "e = ErrNil \<or> IsErrNoSuchKey e")
      case True
      then have "rename_mirrors R ms a db1 = (res, db')" using Cons.prems x d Inl by simp
      then show ?thesis using work_trans [OF 1 Cons.IH] by blast
    qed (use Cons.prems x d Inl 1 in simp)
  next
    case (Inr files)
    then have "rename_mirrors R ms (mirror_renames i name files a) db1 = (res, db')" using Cons.prems x d by simp
    then show ?thesis using work_trans [OF 1 Cons.IH] by blast
  qed
qed simp

lemma work_fold_Send:
  "(\<And>x st. x \<in> set xs \<Longrightarrow> work \<alpha> (snd st) (snd (f x st))) \<Longrightarrow> work \<alpha> (snd st) (snd (fold f xs st))"
proof (induction xs arbitrary: st)
  case (Cons x xs)
  have "work \<alpha> (snd st) (snd (f x st))" using Cons.prems by simp
  also have "work \<alpha> (snd (f x st)) (snd (fold f xs (f x st)))" using Cons by simp
  finally show ?case by simp
qed simp

lemma work_rename_files: "rename_files R m files a st = (res, db') \<Longrightarrow> work \<alpha> (snd st) db'"
proof (induction files arbitrary: a st)
  case (Cons f files)
  obtain rep st1 where d: "conn_Do R (SMEMBERS (filemirrors_key f)) st = (rep, st1)" by (metis prod.exhaust)
  have 1: "work \<alpha> (snd st) (snd st1)" using work_Do [OF d] by simp
  show ?case
  proof (cases "rd_Strings R rep")
    case (Inr names)
    let ?s = "\<lambda>name st. if find_id m name = 0 then st else conn_Send R (SADD (''V1_FILEMIRRORS_'' @ f) [Itoa (find_id m name)]) st"
    let ?st2 = "fold ?s names st1"
    have "work \<alpha> (snd st) (snd (?s name st))" for name st
      using work_Send [of "SADD (''V1_FILEMIRRORS_'' @ f) [Itoa (find_id m name)]" st] work_keys_simps(1) [of "''FILEMIRRORS_'' @ f"] by simp
    then have 2: "work \<alpha> (snd st1) (snd ?st2)" by (intro work_fold_Send)
    have 3: "work \<alpha> (snd ?st2) db'"
    proof (cases "conn_Flush ?st2")
      case None
      then have "rename_files R m files (add_rename (''V1_FILEMIRRORS_'' @ f) (filemirrors_key f) a) ?st2 = (res, db')"
        using Cons.prems d Inr by (simp add: Let_def)
      then show ?thesis by (rule Cons.IH)
    qed (use Cons.prems d Inr in \<open>simp add: Let_def\<close>)
    show ?thesis by (rule work_trans [OF 1 work_trans [OF 2 3]])
  qed (use Cons.prems d 1 in simp)
qed simp

lemma work_copy: "CopyKey R src (''V1_'' @ dst) st = (e, st') \<Longrightarrow> work \<alpha> (snd st) (snd st')"
proof -
  assume c: "CopyKey R src (''V1_'' @ dst) st = (e, st')"
  obtain rep st1 where d: "conn_Do R (DUMP src) st = (rep, st1)" by (metis prod.exhaust)
  have 1: "work \<alpha> (snd st) (snd st1)" using work_Do [OF d] by simp
  show ?thesis
  proof (cases "rd_String R rep")
    case (Inr dmp)
    obtain rep2 st2 where d2: "conn_Do R (RESTORE (''V1_'' @ dst) dmp) st1 = (rep2, st2)" by (metis prod.exhaust)
    have "work \<alpha> (snd st1) (snd st2)" using work_Do [OF d2] work_keys_simps(1) [of dst] by simp
    then show ?thesis using work_trans [OF 1] c d d2 Inr by (simp add: CopyKey_def)
  qed (use c d 1 in \<open>simp add: CopyKey_def\<close>)
qed

lemma work_fix_ids: "fix_ids R ms a st = (res, db') \<Longrightarrow> work \<alpha> (snd st) db'"
proof (induction ms arbitrary: a st)
  case (Cons x ms)
  obtain i name where x: "x = (i, name)" by fastforce
  obtain e st1 where c: "CopyKey R (''MIRROR_'' @ name) (''V1_MIRROR_'' @ Itoa i) st = (e, st1)" by (metis prod.exhaust)
  have 1: "work \<alpha> (snd st) (snd st1)" using work_copy [of _ "''MIRROR_'' @ Itoa i"] c by simp
  show ?case
  proof (cases e)
    case None
    let ?c = "HMSET (''V1_MIRROR_'' @ Itoa i) [(''ID'', AInt i), (''name'', AStr name)]"
    have 2: "work \<alpha> (snd st1) (snd (conn_Send R ?c st1))" using work_Send [of ?c st1] work_keys_simps(1) [of "''MIRROR_'' @ Itoa i"] by simp
    have "fix_ids R ms ((add_rename (''V1_MIRROR_'' @ Itoa i) (mirror_key i) a)\<lparr>act_delete := act_delete a @ [''MIRROR_'' @ name]\<rparr>)
        (conn_Send R ?c st1) = (res, db')" using Cons.prems x c None by simp
    then show ?thesis using work_trans [OF 1 work_trans [OF 2 Cons.IH]] by blast
  qed (use Cons.prems x c 1 in simp)
qed simp

lemma work_rename_keys: "v1_redis env = R \<Longrightarrow> RenameKeys env m a db = (res, db') \<Longrightarrow> work \<alpha> db db'"
proof -
  assume e: "v1_redis env = R" and k: "RenameKeys env m a db = (res, db')"
  obtain x db1 where r: "rename_mirrors R (v1_range env 0 m) a db = (x, db1)" by fastforce
  note 1 = work_rename_mirrors [OF r]
  show ?thesis
  proof (cases x)
    case (Inr a1)
    obtain rep db2 where d: "rd_do R db1 (SMEMBERS ''FILES'') = (rep, db2)" by fastforce
    have 2: "work \<alpha> db1 db2" using work_do [OF d] by simp
    have "work \<alpha> db2 db'"
    proof (cases "rd_Strings R rep")
      case (Inr files)
      then have "rename_files R (v1_range env 1 m) files a1 (None, db2) = (res, db')" using k r d e \<open>x = Inr a1\<close> by (simp add: RenameKeys_def)
      then show ?thesis using work_rename_files by fastforce
    qed (use k r d e Inr in \<open>simp add: RenameKeys_def split: if_splits\<close>)
    then show ?thesis by (rule work_trans [OF 1 work_trans [OF 2]])
  qed (use k r e 1 in \<open>simp add: RenameKeys_def\<close>)
qed

lemma work_stat_fields: "fold (stat_field R m key) xs (a, st) = (a', st') \<Longrightarrow> work \<alpha> (snd st) (snd st')"
proof (induction xs arbitrary: a st)
  case (Cons x xs)
  obtain a1 st1 where f: "stat_field R m key x (a, st) = (a1, st1)" by (metis prod.exhaust)
  have "work \<alpha> (snd st) (snd st1)"
    using f work_Send [of "HSET (''V1_'' @ key) (Itoa (find_id m (fst x))) (AStr (snd x))" st] work_keys_simps(1) [of key]
    by (auto simp: stat_field_def Let_def split: if_splits)
  also have "work \<alpha> (snd st1) (snd st')" using Cons f by simp
  finally show ?case .
qed simp

lemma work_rename_stats: "v1_redis env = R \<Longrightarrow> rename_stats env m ks a st = (res, db') \<Longrightarrow> work \<alpha> (snd st) db'"
proof (induction ks arbitrary: a st)
  case (Cons key ks)
  obtain rep st1 where d: "conn_Do R (HGETALL key) st = (rep, st1)" by (metis prod.exhaust)
  have 1: "work \<alpha> (snd st) (snd st1)" using work_Do [OF d] by simp
  let ?v = "case rd_Values R rep of Inl e \<Rightarrow> Inl e | Inr rs \<Rightarrow> string_map rs []"
  show ?case
  proof (cases ?v)
    case (Inr stats)
    obtain a1 st2 where f: "fold (stat_field R m key) (v1_stats env stats) (a, st1) = (a1, st2)" by (metis prod.exhaust)
    note 2 = work_stat_fields [OF f]
    have 3: "work \<alpha> (snd st2) db'"
    proof (cases "conn_Flush st2")
      case None
      then have "rename_stats env m ks a1 st2 = (res, db')" using Cons.prems d f Inr by (simp add: Let_def)
      then show ?thesis by (rule Cons.IH [OF Cons.prems(1)])
    qed (use Cons.prems d f Inr in \<open>simp add: Let_def\<close>)
    show ?thesis by (rule work_trans [OF 1 work_trans [OF 2 3]])
  qed (use Cons.prems d 1 in \<open>simp add: Let_def\<close>)
qed simp

lemma work_stats: "v1_redis env = R \<Longrightarrow> RenameStats env m a db = (res, db') \<Longrightarrow> work \<alpha> db db'"
proof -
  assume e: "v1_redis env = R" and s: "RenameStats env m a db = (res, db')"
  obtain rep db1 where d: "rd_do R db (KEYS ''STATS_MIRROR_*'') = (rep, db1)" by fastforce
  have 1: "work \<alpha> db db1" using work_do [OF d] by simp
  show ?thesis
  proof (cases "rd_Strings R rep")
    case (Inr ks)
    then have "rename_stats env (v1_range env 3 m) ks a (None, db1) = (res, db')" using s d e by (simp add: RenameStats_def)
    then show ?thesis using work_trans [OF 1] work_rename_stats [OF e, of _ ks a "(None, db1)"] by auto
  qed (use s d e 1 in \<open>simp add: RenameStats_def split: if_splits\<close>)
qed

lemma work_prepare:
  assumes e: "v1_redis env = R" and p: "prepare env db = (res, db')"
  shows "work \<alpha> db db'"
proof -
  obtain x db1 where 1: "erase_work R db = (x, db1)" by fastforce
  note w1 = work_erase [OF 1]
  obtain y db2 where 2: "CreateMirrorIndex R \<lparr>act_delete = [], act_rename = []\<rparr> db1 = (y, db2)" by (metis prod.exhaust)
  note w2 = work_trans [OF w1 work_create [OF 2]]
  show ?thesis
  proof (cases "\<exists>m a. x = None \<and> y = Inr (m, a)")
    case False
    then show ?thesis using p e 1 2 w1 w2 by (cases x; cases y) (auto simp: prepare_def)
  next
    case True
    then obtain m a where y: "x = None" "y = Inr (m, a)" by blast
    obtain z db3 where 3: "RenameKeys env m a db2 = (z, db3)" by fastforce
    note w3 = work_trans [OF w2 work_rename_keys [OF e 3]]
    show ?thesis
    proof (cases z)
      case (Inr a2)
      obtain u db4 where 4: "FixMirrorID env m a2 db3 = (u, db4)" by fastforce
      have w4: "work \<alpha> db db4" using work_trans [OF w3] work_fix_ids [of "v1_range env 2 m" a2 "(None, db3)" u db4] 4 e by (simp add: FixMirrorID_def)
      show ?thesis
      proof (cases u)
        case (Inr a3)
        then have "RenameStats env m a3 db4 = (res, db')" using p e 1 2 3 4 y \<open>z = Inr a2\<close> by (simp add: prepare_def)
        from work_trans [OF w4 work_stats [OF e this]] show ?thesis .
      qed (use p e 1 2 3 4 y Inr w4 in \<open>simp add: prepare_def\<close>)
    qed (use p e 1 2 3 y w3 in \<open>simp add: prepare_def\<close>)
  qed
qed

lemma work_failed:
  assumes e: "v1_redis env = R" and u: "v1_Upgrade env db = (Some e, db')" and x: "is_reply_error e \<or> fst (prepare env db) = Inl e"
  shows "work \<alpha> db db'"
proof -
  obtain res db1 where p: "prepare env db = (res, db1)" by fastforce
  note w = work_prepare [OF e p]
  show ?thesis
  proof (cases res)
    case (Inr a)
    obtain rep db2 where d: "rd_exec R db1 (commit_cmds env a) = (rep, db2)" by fastforce
    then have r: "rep = Inl e" "db2 = db'" using u p Inr e by (auto simp: v1_Upgrade_def do_err_def split: sum.splits)
    then have "\<alpha> db' = \<alpha> db1" using exec_refused d x p Inr by auto
    then show ?thesis using w by (simp add: work_def)
  qed (use u p w in \<open>simp add: v1_Upgrade_def\<close>)
qed

end

section \<open>A reference instance\<close>

text \<open>
  The reference server with \<open>KEYS\<close> among a list of candidates and patterns that end in a star, and with copies: what it
  dumps is the name of the key.
\<close>

definition ref_v1 :: "string list \<Rightarrow> store redigo" where
  "ref_v1 U =
     ref_redis\<lparr>rd_do := (\<lambda>s c. case c of
         KEYS p \<Rightarrow> (Inr (RMulti (map RBulk (filter (\<lambda>k. keys s k \<noteq> None \<and> HasPrefix k (butlast p)) U))), s)
       | DUMP k \<Rightarrow> (Inr (if keys s k = None then RNil else RBulk k), s)
       | RESTORE k d \<Rightarrow> (Inr (RStatus ''OK''), put k (keys s d) s)
       | _ \<Rightarrow> rd_do ref_redis s c)\<rparr>"

lemma redis_cmd_touches: "redis_cmd s c = Some (q, s') \<Longrightarrow> eq_off (touches c) s s'"
  by (cases c) (auto simp: eq_off_def put_hash_def put_set_def put_list_def rename_key_def fold_put_None Let_def split: option.splits if_splits)

lemma ref_touches: "rd_do ref_redis s c = (res, s') \<Longrightarrow> eq_off (touches c) s s'"
  using redis_cmd_touches [of s c] by (auto simp: ref_redis_def split: option.splits prod.splits)

lemma bulks_RBulk [simp]: "bulks (map RBulk xs) = Some xs"
  by (induction xs) simp_all

interpretation ref_framed: framed_redis "ref_v1 U" id for U
proof
  fix db c res db' assume "rd_do (ref_v1 U) db c = (res, db')"
  then show "eq_off (touches c) (id db) (id db')"
    using ref_touches [of db c res db'] by (auto simp: ref_v1_def eq_off_def split: rcmd.splits)
next
  fix db p rep db' ks k assume "rd_do (ref_v1 U) db (KEYS (p @ ''*'')) = (rep, db')" "rd_Strings (ref_v1 U) rep = Inr ks" "k \<in> set ks"
  then show "HasPrefix k p" by (auto simp: ref_v1_def ref_redis_def butlast_append split: option.splits)
next
  fix db cs e db' assume "rd_exec (ref_v1 U) db cs = (Inl e, db')" "is_reply_error e"
  then show "id db' = id db" by (auto simp: ref_v1_def ref_redis_def split: option.splits)
qed

section \<open>Properties\<close>

text \<open>
  C38: An upgrade that fails has changed nothing an earlier version of the program uses.  Whatever step fails and whatever was
  done before it, and also when the server refuses the final transaction, the database differs from the one before in work keys and
  in the counter of mirror numbers only.
\<close>

theorem v1_Upgrade_safe:
  assumes "framed_redis (v1_redis env) \<alpha>" and "v1_Upgrade env db = (Some e, db')" and "is_reply_error e \<or> fst (prepare env db) = Inl e"
  shows "eq_off work_keys (\<alpha> db) (\<alpha> db')"
  using framed_redis.work_failed [OF assms(1) refl assms(2,3)] by (simp add: work_def)

definition demo_v0 :: store where
  "demo_v0 = put ''V1_MIRRORS'' (Some (VHash [(''9'', ''z'')])) (put ''MIRRORS'' (Some (VList [''a''])) empty_store)"

definition demo_venv :: "store v1_env" where
  "demo_venv = \<lparr>v1_redis = ref_v1 [''MIRROR_a'', ''V1_MIRRORS'', ''MIRRORS''], v1_range = (\<lambda>n m. m), v1_renames = (\<lambda>l. l), v1_stats = (\<lambda>l. l)\<rparr>"

text \<open>The mirror of the example has no key of its own, so there is nothing to copy; work keys of an earlier attempt are erased.\<close>

theorem v1_Upgrade_safe_witness:
  "\<exists>db'. v1_Upgrade demo_venv demo_v0 = (Some ErrNil, db') \<and> keys db' ''MIRRORS'' = Some (VList [''a'']) \<and>
     keys db' ''V1_MIRRORS'' = Some (VHash [(Itoa 1, ''a'')])"
proof -
  have v: "case prepare demo_venv demo_v0 of (Inl ErrNil, db') \<Rightarrow> keys db' ''V1_MIRRORS'' = Some (VHash [(Itoa 1, ''a'')]) | _ \<Rightarrow> False"
    by code_simp
  then obtain db' where p: "prepare demo_venv demo_v0 = (Inl ErrNil, db')" "keys db' ''V1_MIRRORS'' = Some (VHash [(Itoa 1, ''a'')])"
    by (auto split: prod.splits sum.splits err.splits)
  then have u: "v1_Upgrade demo_venv demo_v0 = (Some ErrNil, db')" by (simp add: v1_Upgrade_def)
  have "framed_redis (v1_redis demo_venv) id" using ref_framed.framed_redis_axioms by (simp add: demo_venv_def)
  from v1_Upgrade_safe [OF this u] p(1) have "eq_off work_keys demo_v0 db'" by simp
  then have "keys db' ''MIRRORS'' = keys demo_v0 ''MIRRORS''" by (simp add: eq_off_def work_keys_def HasPrefix_def)
  then show ?thesis using u p(2) by (simp add: demo_v0_def)
qed

section \<open>The new register\<close>

definition numbered :: "store \<Rightarrow> (int \<times> string) list \<Rightarrow> int \<Rightarrow> bool" where
  "numbered s m n \<longleftrightarrow>
     get_hash s ''V1_MIRRORS'' = Some (mirrors_hash m) \<and> distinct (map fst m) \<and> (\<forall>(i, x) \<in> set m. 0 < i \<and> i \<le> n) \<and>
     (\<exists>v. get_str s ''LAST_MID'' = Some v \<and> bulk_int v = Some n) \<and> 0 \<le> n"

lemma update_fresh: "i \<notin> fst ` set m \<Longrightarrow> AList.update i x m = m @ [(i, x)]"
  by (induction m) auto

lemma number_step:
  assumes up: "reliable_redis r \<alpha>" and num: "numbered (\<alpha> db) m n" and b: "n + 1 < 2 ^ 63"
  shows "\<exists>db1 db2 q. rd_do (api r) db (INCR ''LAST_MID'') = (Inr (RInt (n + 1)), db1) \<and>
    rd_do (api r) db1 (HSET ''V1_MIRRORS'' (Itoa (n + 1)) (AStr x)) = (Inr q, db2) \<and> numbered (\<alpha> db2) (m @ [(n + 1, x)]) (n + 1) \<and>
    AList.update (n + 1) x m = m @ [(n + 1, x)]"
proof -
  have raw: "rd_do (api r) d c = conn_do r d c" for d c using reliable_redis.ready [OF up] by (simp add: conn_do_def)
  obtain v where v: "get_hash (\<alpha> db) ''V1_MIRRORS'' = Some (mirrors_hash m)" "get_str (\<alpha> db) ''LAST_MID'' = Some v" "bulk_int v = Some n" "0 \<le> n"
    using num by (auto simp: numbered_def)
  let ?s1 = "put ''LAST_MID'' (Some (VStr (Itoa (n + 1)))) (\<alpha> db)"
  have i: "in_int64 (n + 1)" using v(4) b by (simp add: in_int64_def)
  then have "redis_cmd (\<alpha> db) (INCR ''LAST_MID'') = Some (RInt (n + 1), ?s1)" using v by simp
  from reliable_redis.do_reply_effect [OF up this] obtain db1 where
    1: "conn_do r db (INCR ''LAST_MID'') = (Inr (RInt (n + 1)), db1)" "\<alpha> db1 = ?s1" by auto
  have f: "n + 1 \<notin> fst ` set m" using num by (auto simp: numbered_def)
  note a = update_fresh [OF f, of x]
  have "get_hash ?s1 ''V1_MIRRORS'' = Some (mirrors_hash m)" using v(1) by (simp add: get_hash_def)
  then obtain q where "redis_cmd (\<alpha> db1) (HSET ''V1_MIRRORS'' (Itoa (n + 1)) (AStr x)) =
      Some (q, put_hash ''V1_MIRRORS'' (mirrors_hash (m @ [(n + 1, x)])) ?s1)"
    using 1(2) update_mirrors_hash [of "n + 1" x m] a by simp
  from reliable_redis.do_effect [OF up this] obtain q' db2 where
    2: "conn_do r db1 (HSET ''V1_MIRRORS'' (Itoa (n + 1)) (AStr x)) = (Inr q', db2)"
    "\<alpha> db2 = put_hash ''V1_MIRRORS'' (mirrors_hash (m @ [(n + 1, x)])) ?s1" by blast
  have h: "get_hash (\<alpha> db2) ''V1_MIRRORS'' = Some (mirrors_hash (m @ [(n + 1, x)]))" using 2(2) by (simp add: get_put_hash)
  have l: "get_str (\<alpha> db2) ''LAST_MID'' = Some (Some (Itoa (n + 1)))" using 2(2) by (simp add: get_str_def put_hash_def)
  have "numbered (\<alpha> db2) (m @ [(n + 1, x)]) (n + 1)"
    using num f i v(4) h l by (auto simp: numbered_def bulk_int_def ParseInt_Itoa)
  then show ?thesis using 1(1) 2(1) a by (auto simp: raw)
qed

lemma number_run:
  assumes up: "reliable_redis r \<alpha>"
  shows "numbered (\<alpha> db) m n \<Longrightarrow> n + int (length names) < 2 ^ 63 \<Longrightarrow>
    \<exists>db'. number_mirrors (api r) names m db = (Inr (m @ zip [n + 1..n + int (length names)] names), db') \<and>
      numbered (\<alpha> db') (m @ zip [n + 1..n + int (length names)] names) (n + int (length names))"
proof (induction names arbitrary: m n db)
  case (Cons x names)
  obtain db1 db2 q where s: "rd_do (api r) db (INCR ''LAST_MID'') = (Inr (RInt (n + 1)), db1)"
    "rd_do (api r) db1 (HSET ''V1_MIRRORS'' (Itoa (n + 1)) (AStr x)) = (Inr q, db2)" "numbered (\<alpha> db2) (m @ [(n + 1, x)]) (n + 1)"
    "AList.update (n + 1) x m = m @ [(n + 1, x)]"
    using number_step [OF up Cons.prems(1), of x] Cons.prems(2) by auto
  have z: "zip [n + 1..n + int (length (x # names))] (x # names) = (n + 1, x) # zip [n + 1 + 1..n + 1 + int (length names)] names"
    by (simp add: upto_rec1 algebra_simps)
  obtain db' where d: "number_mirrors (api r) names (m @ [(n + 1, x)]) db2 =
      (Inr ((m @ [(n + 1, x)]) @ zip [n + 1 + 1..n + 1 + int (length names)] names), db')"
    "numbered (\<alpha> db') ((m @ [(n + 1, x)]) @ zip [n + 1 + 1..n + 1 + int (length names)] names) (n + 1 + int (length names))"
    using Cons.IH [OF s(3)] Cons.prems(2) by auto
  have "number_mirrors (api r) (x # names) m db = (Inr (m @ (n + 1, x) # zip [n + 1 + 1..n + 1 + int (length names)] names), db')"
    using d(1) s conv_okD(5) [OF reliable_redis.interface [OF up]] by simp
  then show ?case using d(2) unfolding z by (simp add: add.assoc)
qed simp

text \<open>
  C39: The upgrade numbers the mirrors.  The mirrors of the old list get the numbers that follow the last one in the order of
  the list, the work key has each of them under its number, and after the renaming that the step schedules the register
  is one of the new format: every number and every name once, no number above the counter.
\<close>

theorem CreateMirrorIndex_registry:
  assumes up: "reliable_redis r \<alpha>" and old: "get_list (\<alpha> db) ''MIRRORS'' = Some names" "distinct names" "names \<noteq> []"
    and num: "numbered (\<alpha> db) [] n" and b: "n + int (length names) < 2 ^ 63"
  defines "ms \<equiv> zip [n + 1..n + int (length names)] names"
  shows "\<exists>db'. CreateMirrorIndex (api r) a db = (Inr (ms, add_rename ''V1_MIRRORS'' ''MIRRORS'' a), db') \<and>
    registry (rename_key ''V1_MIRRORS'' ''MIRRORS'' (\<alpha> db')) ms (n + int (length names))"
proof -
  note ok = reliable_redis.interface [OF up]
  have raw: "rd_do (api r) d c = conn_do r d c" for d c using reliable_redis.ready [OF up] by (simp add: conn_do_def)
  have "list_range names 0 (- 1) = names" by (simp add: list_range_def)
  then have "redis_cmd (\<alpha> db) (LRANGE ''MIRRORS'' 0 (- 1)) = Some (RMulti (map RBulk names), \<alpha> db)" using old(1) by simp
  from reliable_redis.do_reply_effect [OF up this] obtain db1 where
    1: "conn_do r db (LRANGE ''MIRRORS'' 0 (- 1)) = (Inr (RMulti (map RBulk names)), db1)" "\<alpha> db1 = \<alpha> db" by auto
  obtain db' where 2: "number_mirrors (api r) names [] db1 = (Inr ms, db')" "numbered (\<alpha> db') ms (n + int (length names))"
    using number_run [OF up, of db1 "[]" n names] num b 1(2) by (auto simp: ms_def)
  have c: "CreateMirrorIndex (api r) a db = (Inr (ms, add_rename ''V1_MIRRORS'' ''MIRRORS'' a), db')"
    using 1(1) 2(1) Strings_bulks [OF ok] by (simp add: CreateMirrorIndex_def raw)
  have "length ms = length names" using num by (simp add: ms_def numbered_def)
  moreover have snd: "map snd ms = names" using num by (simp add: ms_def numbered_def)
  ultimately have ne: "ms \<noteq> []" using old(3) by auto
  let ?s = "rename_key ''V1_MIRRORS'' ''MIRRORS'' (\<alpha> db')"
  have "get_hash ?s ''MIRRORS'' = get_hash (\<alpha> db') ''V1_MIRRORS''" by (simp add: rename_key_def get_hash_def)
  moreover have "get_str ?s ''LAST_MID'' = get_str (\<alpha> db') ''LAST_MID''" by (simp add: rename_key_def get_str_def)
  ultimately have "registry ?s ms (n + int (length names))"
    using 2(2) old(2) snd b by (auto simp: registry_def numbered_def in_int64_def)
  then show ?thesis using c by blast
qed

theorem CreateMirrorIndex_registry_witness:
  "\<exists>db'. CreateMirrorIndex (api ref_client) \<lparr>act_delete = [], act_rename = []\<rparr> (put ''MIRRORS'' (Some (VList [''a'', ''b''])) empty_store) =
     (Inr ([(1, ''a''), (2, ''b'')], \<lparr>act_delete = [], act_rename = [(''V1_MIRRORS'', ''MIRRORS'')]\<rparr>), db') \<and>
     registry (rename_key ''V1_MIRRORS'' ''MIRRORS'' db') [(1, ''a''), (2, ''b'')] 2"
proof -
  let ?s = "put ''MIRRORS'' (Some (VList [''a'', ''b''])) empty_store"
  have n: "numbered (id ?s) [] 0" "get_list (id ?s) ''MIRRORS'' = Some [''a'', ''b'']"
    by (simp_all add: numbered_def get_hash_def get_str_def get_list_def empty_store_def mirrors_hash_def bulk_int_def)
  have u: "[1..2] = [1, 2 :: int]" by (simp add: upto_rec1)
  have r: "reliable_redis ref_client id" by (rule ref_up.reliable_redis_axioms)
  show ?thesis
    using CreateMirrorIndex_registry [where \<alpha> = id and r = ref_client and db = ?s and names = "[''a'', ''b'']" and n = 0
        and a = "\<lparr>act_delete = [], act_rename = []\<rparr>"] r n by (simp add: u add_rename_def)
qed

end
