(* ===== verification/Cli.thy ===== *)
theory Cli
  imports Rpc_Mirrors
begin

text \<open>
  The command line client (\<^verbatim>\<open>cli/commands.go\<close>): the commands as functions of the parsed flags, the answers of the server
  and the terminal.  The generated client is a record of calls on the state of the server; the server itself is an instance of it.
\<close>

section \<open>The client and the terminal\<close>

record StatsMirrorReply =
  smr_Mirror :: rpc_mirror
  smr_Requests :: int
  smr_Bytes :: int

record 's rpc_client =
  cl_List :: "'s \<Rightarrow> (err + rpc_mirror list) \<times> 's"
  cl_MatchMirror :: "string \<Rightarrow> 's \<Rightarrow> (err + (int \<times> string) list) \<times> 's"
  cl_MirrorInfo :: "int \<Rightarrow> 's \<Rightarrow> (err + rpc_mirror) \<times> 's"
  cl_AddMirror :: "rpc_mirror \<Rightarrow> 's \<Rightarrow> (err + AddMirrorReply) \<times> 's"
  cl_UpdateMirror :: "rpc_mirror \<Rightarrow> 's \<Rightarrow> (err + string) \<times> 's"
  cl_RemoveMirror :: "int \<Rightarrow> 's \<Rightarrow> err option \<times> 's"
  cl_ChangeStatus :: "int \<Rightarrow> bool \<Rightarrow> 's \<Rightarrow> err option \<times> 's"
  cl_RefreshRepository :: "bool \<Rightarrow> 's \<Rightarrow> err option \<times> 's"
  cl_ScanMirror :: "int \<Rightarrow> bool \<Rightarrow> ScanProtocol \<Rightarrow> 's \<Rightarrow> (err + ScanMirrorReply) \<times> 's"
  cl_StatsFile :: "string \<Rightarrow> timestamp option \<Rightarrow> timestamp option \<Rightarrow> 's \<Rightarrow> (err + (string \<times> int) list) \<times> 's"
  cl_StatsMirror :: "int \<Rightarrow> timestamp option \<Rightarrow> timestamp option \<Rightarrow> 's \<Rightarrow> (err + StatsMirrorReply) \<times> 's"
  cl_GetMirrorLogs :: "int \<Rightarrow> int \<Rightarrow> 's \<Rightarrow> (err + string list) \<times> 's"
  cl_Reload :: "'s \<Rightarrow> err option \<times> 's"
  cl_Upgrade :: "'s \<Rightarrow> err option \<times> 's"

text \<open>
  The state of a command: the server, what was printed, and the lines that are still to be read.  A command returns, or
  the process ends with a status; \<open>log.Fatal\<close> prints and ends with status 1.
\<close>

record 's terminal =
  t_srv :: 's
  t_out :: "string list"
  t_in :: "string list"

datatype cli_end = Returned "err option" | Exited int

record 's cli_env =
  ce_client :: "'s rpc_client"
  ce_pt :: ptypes
  ce_Error :: "err \<Rightarrow> string"
  ce_RFC1123 :: "gotime \<Rightarrow> string"
  ce_Fixed4 :: "real \<Rightarrow> string"
  ce_ParseURL :: "string \<Rightarrow> err option"
  ce_ParseDate :: "string \<Rightarrow> err + gotime"
  ce_now :: gotime
  ce_Marshal :: "Mirror \<Rightarrow> err + string"
  ce_Stat :: "string \<Rightarrow> err option"
  ce_IsNotExist :: "err \<Rightarrow> bool"
  ce_ReadFile :: "string \<Rightarrow> err + string"
  ce_Unmarshal :: "string \<Rightarrow> err + Mirror option"
  ce_range :: "(string \<times> int) list \<Rightarrow> (string \<times> int) list"
  ce_scan_range :: "(int \<times> string) list \<Rightarrow> (int \<times> string) list"

definition t_print :: "string \<Rightarrow> 's terminal \<Rightarrow> 's terminal" where
  "t_print s w = w\<lparr>t_out := t_out w @ [s]\<rparr>"

definition log_Fatal :: "string \<Rightarrow> 's terminal \<Rightarrow> cli_end \<times> 's terminal" where
  "log_Fatal msg w = (Exited 1, t_print msg w)"

definition q :: string where "q = [CHR 0x27]"

definition nl :: string where "nl = [CHR 0x0A]"

definition tab :: string where "tab = [CHR 0x09]"

text \<open>The call of a client method.\<close>

definition call :: "('s \<Rightarrow> 'r \<times> 's) \<Rightarrow> 's terminal \<Rightarrow> 'r \<times> 's terminal" where
  "call f w = (let (x, s) = f (t_srv w) in (x, w\<lparr>t_srv := s\<rparr>))"

definition usage :: "'s terminal \<Rightarrow> cli_end \<times> 's terminal" where
  "usage w = (Returned None, t_print ''usage'' w)"

section \<open>Finding a mirror\<close>

definition GetSingle :: "(int \<times> string) list \<Rightarrow> (int \<times> string) \<times> err option" where
  "GetSingle l =
     (case l of
        [] \<Rightarrow> ((- 1, ''''), Some (ErrMsg ''list is empty''))
      | [x] \<Rightarrow> (x, None)
      | _ \<Rightarrow> ((- 1, ''''), Some (ErrMsg ''too many results'')))"

text \<open>The match, or the end of the process.\<close>

definition matchMirror :: "'s cli_env \<Rightarrow> string \<Rightarrow> 's terminal \<Rightarrow> (cli_end + int \<times> string) \<times> 's terminal" where
  "matchMirror env pattern w =
     (if length pattern = 0 then (Inr (- 1, ''''), w)
      else case call (cl_MatchMirror (ce_client env) pattern) w of
             (Inl e, w1) \<Rightarrow> (Inl (Exited 1), t_print (''mirror matching: '' @ ce_Error env e @ nl) w1)
           | (Inr ms, w1) \<Rightarrow>
               (case ms of
                  [] \<Rightarrow> (Inl (Exited 1), t_print (''No match for '' @ q @ pattern @ q @ nl) w1)
                | [x] \<Rightarrow>
                    (case GetSingle ms of
                       (_, Some e) \<Rightarrow> (case log_Fatal (''unexpected error:'' @ ce_Error env e) w1 of (x, w2) \<Rightarrow> (Inl x, w2))
                     | (y, None) \<Rightarrow> (Inr y, w1))
                | _ \<Rightarrow> (Inl (Exited 1), fold (\<lambda>(i, name). t_print (''  '' @ name @ nl)) ms (t_print (''Multiple match:'' @ nl) w1))))"

section \<open>Listing\<close>

definition ByDate_Less :: "rpc_mirror \<Rightarrow> rpc_mirror \<Rightarrow> bool" where
  "ByDate_Less a b \<longleftrightarrow>
     (case rm_StateSince a of None \<Rightarrow> 0 | Some t \<Rightarrow> ts_Seconds t) > (case rm_StateSince b of None \<Rightarrow> 0 | Some t \<Rightarrow> ts_Seconds t)"

record list_flags =
  lf_http :: bool
  lf_rsync :: bool
  lf_ftp :: bool
  lf_location :: bool
  lf_state :: bool
  lf_score :: bool
  lf_disabled :: bool
  lf_enabled :: bool
  lf_down :: bool

definition list_shown :: "list_flags \<Rightarrow> rpc_mirror \<Rightarrow> bool" where
  "list_shown fl m \<longleftrightarrow> \<not> (lf_disabled fl \<and> rm_Enabled m) \<and> \<not> (lf_enabled fl \<and> \<not> rm_Enabled m) \<and> \<not> (lf_down fl \<and> rm_Up m)"

definition list_header :: "list_flags \<Rightarrow> string" where
  "list_header fl =
     ''Identifier '' @ (if lf_score fl then tab @ ''SCORE'' else '''') @ (if lf_http fl then tab @ ''HTTP '' else '''') @
     (if lf_rsync fl then tab @ ''RSYNC '' else '''') @ (if lf_ftp fl then tab @ ''FTP '' else '''') @
     (if lf_location fl then tab @ ''LOCATION '' else '''') @ (if lf_state fl then tab @ ''STATE'' @ tab @ ''SINCE'' else '''') @ nl"

text \<open>The state of a mirror in words; a split by a separator is never empty.\<close>

definition state_word :: "rpc_mirror \<Rightarrow> string" where
  "state_word m = (if \<not> rm_Enabled m then ''disabled'' else if rm_Up m then ''up'' else ''down'')"

definition list_row :: "'s cli_env \<Rightarrow> list_flags \<Rightarrow> rpc_mirror \<Rightarrow> gotime \<Rightarrow> string" where
  "list_row env fl m stateSince =
     rm_Name m @ '' '' @ (if lf_score fl then tab @ Itoa (rm_Score m) @ '' '' else '''') @
     (if lf_http fl then tab @ rm_HttpURL m @ '' '' else '''') @ (if lf_rsync fl then tab @ rm_RsyncURL m @ '' '' else '''') @
     (if lf_ftp fl then tab @ rm_FtpURL m @ '' '' else '''') @
     (if lf_location fl then
        (let countries = Split (rm_CountryCodes m) (CHR '' '')
         in tab @ (if 1 \<le> length countries then countries ! 0 else ''/'') @ '' ('' @ rm_ContinentCode m @ '') '')
      else '''') @
     (if lf_state fl then tab @ state_word m @ '' '' @ tab @ ''('' @ ce_RFC1123 env stateSince @ '')'' else '''') @ nl"

text \<open>The rows; a time that cannot be converted ends the process, and what was written is not flushed.\<close>

fun list_rows :: "'s cli_env \<Rightarrow> list_flags \<Rightarrow> rpc_mirror list \<Rightarrow> err + string list" where
  "list_rows env fl [] = Inr []"
| "list_rows env fl (m # ms) =
     (if \<not> list_shown fl m then list_rows env fl ms
      else case pt_Timestamp (ce_pt env) (rm_StateSince m) of
             Inl e \<Rightarrow> Inl e
           | Inr t \<Rightarrow> (case list_rows env fl ms of Inl e \<Rightarrow> Inl e | Inr rows \<Rightarrow> Inr (list_row env fl m t # rows)))"

definition CmdList :: "'s cli_env \<Rightarrow> err + list_flags \<times> string list \<Rightarrow> 's terminal \<Rightarrow> cli_end \<times> 's terminal" where
  "CmdList env parsed w =
     (case parsed of
        Inl e \<Rightarrow> log_Fatal (''err:'' @ ce_Error env e) w
      | Inr (fl, args) \<Rightarrow>
          if length args \<noteq> 0 then usage w
          else (case call (cl_List (ce_client env)) w of
                  (Inl e, w1) \<Rightarrow> log_Fatal (''list error:'' @ ce_Error env e) w1
                | (Inr ms, w1) \<Rightarrow>
                    (case list_rows env fl (go_sort ByDate_Less ms) of
                       Inl e \<Rightarrow> log_Fatal (''list error:'' @ ce_Error env e) w1
                     | Inr rows \<Rightarrow> (Returned None, w1\<lparr>t_out := t_out w1 @ list_header fl # rows\<rparr>))))"

section \<open>Adding, removing, changing\<close>

text \<open>
  The flags of \<open>add\<close> that are copied into the new mirror, converted to their widths, are given as a mirror; its name is the first argument.
\<close>

definition add_warnings :: "string list \<Rightarrow> string list" where
  "add_warnings ws = (if ws = [] then [] else map (\<lambda>x. x @ nl) ws @ [nl])"

definition CmdAdd :: "'s cli_env \<Rightarrow> err + Mirror \<times> string list \<Rightarrow> 's terminal \<Rightarrow> cli_end \<times> 's terminal" where
  "CmdAdd env parsed w =
     (case parsed of
        Inl e \<Rightarrow> log_Fatal (''err: '' @ ce_Error env e) w
      | Inr (fl, []) \<Rightarrow> usage w
      | Inr (fl, name # _) \<Rightarrow>
          if Contains name '' '' then (Exited (- 1), t_print (''The identifier cannot contain a space'' @ nl) w)
          else if HttpURL fl = '''' then (Exited (- 1), t_print (''You *must* pass at least an HTTP URL'' @ nl) w)
          else (let http = HttpURL fl;
                    http1 = (if \<not> HasPrefix http ''http://'' \<and> \<not> HasPrefix http ''https://'' then ''http://'' @ http else http)
                in if ce_ParseURL env http1 \<noteq> None then (Exited (- 1), t_print (''Can't parse url'' @ nl) w)
                   else (case MirrorToRPC (ce_pt env) (fl\<lparr>Name := name, HttpURL := http1\<rparr>) of
                           Inl e \<Rightarrow> log_Fatal (''edit error1:'' @ ce_Error env e) w
                         | Inr m \<Rightarrow>
                             (case call (cl_AddMirror (ce_client env) m) w of
                                (Inl e, w1) \<Rightarrow>
                                  if ce_Error env e = ce_Error env ErrNameAlreadyTaken
                                  then log_Fatal (''Mirror '' @ name @ '' already exists!'' @ nl) w1
                                  else log_Fatal (''edit error2:'' @ ce_Error env e) w1
                              | (Inr reply, w1) \<Rightarrow>
                                  (Returned None, w1\<lparr>t_out := t_out w1 @ add_warnings (ar_Warnings reply) @
                                     (if ar_Country reply \<noteq> '''' then
                                        [''Mirror location:'' @ nl, ''Latitude:  '' @ ce_Fixed4 env (ar_Latitude reply) @ nl,
                                         ''Longitude: '' @ ce_Fixed4 env (ar_Longitude reply) @ nl, ''Continent: '' @ ar_Continent reply @ nl,
                                         ''Country:   '' @ ar_Country reply @ nl, ''NetworkBandwidth:   '' @ Itoa (ar_NetworkBandwidth reply) @ nl,
                                         ''ASN:       '' @ ar_ASN reply @ nl, nl]
                                      else []) @
                                     [''Mirror '' @ q @ name @ q @ '' added successfully'' @ nl,
                                      ''Enable this mirror using'' @ nl @ ''  $ mirrorbits enable '' @ name @ nl]\<rparr>)))))"

text \<open>A line read from the terminal has its newline; at the end of the input it is empty, and its first byte does not exist.\<close>

definition read_line_in :: "'s terminal \<Rightarrow> string \<times> 's terminal" where
  "read_line_in w = (case t_in w of [] \<Rightarrow> ('''', w) | l # ls \<Rightarrow> (l, w\<lparr>t_in := ls\<rparr>))"

definition confirm :: "bool \<Rightarrow> string \<Rightarrow> 's terminal \<Rightarrow> (bool \<times> 's terminal) gores" where
  "confirm force name w =
     (if force then Inr (True, w)
      else let (s, w1) = read_line_in (t_print (''Removing '' @ name @ '', are you sure? [y/N]'') w)
           in if s = '''' then Inl IndexOutOfRange
              else Inr (s ! 0 = CHR ''y'' \<or> s ! 0 = CHR ''Y'', w1))"

definition CmdRemove :: "'s cli_env \<Rightarrow> err + bool \<times> string list \<Rightarrow> 's terminal \<Rightarrow> (cli_end \<times> 's terminal) gores" where
  "CmdRemove env parsed w =
     (case parsed of
        Inl e \<Rightarrow> Inr (log_Fatal (''err: '' @ ce_Error env e) w)
      | Inr (force, args) \<Rightarrow>
          if length args \<noteq> 1 then Inr (usage w)
          else (case matchMirror env (args ! 0) w of
                  (Inl x, w1) \<Rightarrow> Inr (x, w1)
                | (Inr (i, name), w1) \<Rightarrow>
                    (case confirm force name w1 of
                       Inl p \<Rightarrow> Inl p
                     | Inr (False, w2) \<Rightarrow> Inr (Returned None, w2)
                     | Inr (True, w2) \<Rightarrow>
                         (case call (cl_RemoveMirror (ce_client env) (wrap32 i)) w2 of
                            (Some e, w3) \<Rightarrow> Inr (log_Fatal (''remove error:'' @ ce_Error env e) w3)
                          | (None, w3) \<Rightarrow> Inr (Returned None, t_print (''Mirror '' @ q @ name @ q @ '' removed successfully'' @ nl) w3)))))"

definition changeStatus :: "'s cli_env \<Rightarrow> string \<Rightarrow> bool \<Rightarrow> 's terminal \<Rightarrow> cli_end \<times> 's terminal" where
  "changeStatus env pattern enabled w =
     (case matchMirror env pattern w of
        (Inl x, w1) \<Rightarrow> (x, w1)
      | (Inr (i, name), w1) \<Rightarrow>
          (case call (cl_ChangeStatus (ce_client env) (wrap32 i) enabled) w1 of
             (Some e, w2) \<Rightarrow>
               if enabled then log_Fatal (''Couldn't enable mirror '' @ q @ name @ q @ '': '' @ ce_Error env e @ nl) w2
               else log_Fatal (''Couldn't disable mirror '' @ q @ name @ q @ '': '' @ ce_Error env e @ nl) w2
           | (None, w2) \<Rightarrow>
               (Returned None, t_print (if enabled then ''Mirror '' @ q @ name @ q @ '' enabled successfully'' @ nl
                                        else ''Mirror '' @ q @ name @ q @ '' disabled successfully'' @ nl) w2)))"

definition CmdEnable :: "'s cli_env \<Rightarrow> err + string list \<Rightarrow> 's terminal \<Rightarrow> cli_end \<times> 's terminal" where
  "CmdEnable env parsed w =
     (case parsed of
        Inl e \<Rightarrow> (Returned None, w)
      | Inr args \<Rightarrow> if length args \<noteq> 1 then usage w
                    else (case changeStatus env (args ! 0) True w of (Returned _, w1) \<Rightarrow> (Returned None, w1) | (x, w1) \<Rightarrow> (x, w1)))"

definition CmdDisable :: "'s cli_env \<Rightarrow> err + string list \<Rightarrow> 's terminal \<Rightarrow> cli_end \<times> 's terminal" where
  "CmdDisable env parsed w =
     (case parsed of
        Inl e \<Rightarrow> (Returned None, w)
      | Inr args \<Rightarrow> if length args \<noteq> 1 then usage w
                    else (case changeStatus env (args ! 0) False w of (Returned _, w1) \<Rightarrow> (Returned None, w1) | (x, w1) \<Rightarrow> (x, w1)))"

section \<open>Scanning\<close>

record scan_flags =
  sf_enable :: bool
  sf_all :: bool
  sf_ftp :: bool
  sf_rsync :: bool

definition scan_method :: "scan_flags \<Rightarrow> ScanProtocol" where
  "scan_method fl = (if \<not> sf_ftp fl \<and> \<not> sf_rsync fl then Scan_ALL else if sf_rsync fl then Scan_RSYNC else Scan_FTP)"

definition is_precondition :: "err \<Rightarrow> bool" where
  "is_precondition e = (case e of ErrStatus c _ \<Rightarrow> c = ''FailedPrecondition'' | _ \<Rightarrow> False)"

definition corner :: string where "corner = [CHR 0xE2, CHR 0x88, CHR 0x9F]"

definition scan_lines :: "ScanMirrorReply \<Rightarrow> string list" where
  "scan_lines r =
     [Itoa (sr_FilesIndexed r) @ '' files indexed, '' @ Itoa (sr_KnownIndexed r) @ '' known and '' @ Itoa (sr_Removed r) @ '' removed'' @ nl] @
     (if sr_TZOffsetMs r \<noteq> 0 then [''  '' @ corner @ '' Timezone offset detected and corrected: '' @ Itoa (sr_TZOffsetMs r) @ '' milliseconds'' @ nl] else []) @
     (if sr_Enabled r then [''  '' @ corner @ '' Enabled'' @ nl] else [])"

text \<open>The loop over the mirrors; a failed precondition, or a failure of the only mirror, ends it.\<close>

fun scan_list :: "'s cli_env \<Rightarrow> scan_flags \<Rightarrow> nat \<Rightarrow> (int \<times> string) list \<Rightarrow> 's terminal \<Rightarrow> cli_end \<times> 's terminal" where
  "scan_list env fl n [] w = (Returned None, w)"
| "scan_list env fl n ((i, name) # ms) w =
     (case call (cl_ScanMirror (ce_client env) (wrap32 i) (sf_enable fl) (scan_method fl)) (t_print (''Scanning '' @ name @ ''... '') w) of
        (Inl e, w1) \<Rightarrow>
          if is_precondition e \<or> n = 1 then (Returned (Some (ErrMsg (nl @ ''scan error: '' @ ce_Error env e))), w1)
          else scan_list env fl n ms (t_print (''scan error: '' @ ce_Error env e @ nl) w1)
      | (Inr reply, w1) \<Rightarrow> scan_list env fl n ms (w1\<lparr>t_out := t_out w1 @ scan_lines reply\<rparr>))"

definition CmdScan :: "'s cli_env \<Rightarrow> err + scan_flags \<times> string list \<Rightarrow> 's terminal \<Rightarrow> cli_end \<times> 's terminal" where
  "CmdScan env parsed w =
     (case parsed of
        Inl e \<Rightarrow> (Returned None, w)
      | Inr (fl, args) \<Rightarrow>
          if \<not> sf_all fl \<and> length args \<noteq> 1 \<or> sf_all fl \<and> length args \<noteq> 0 then usage w
          else if sf_all fl then
            (case call (cl_MatchMirror (ce_client env) '''') w of
               (Inl e, w1) \<Rightarrow> (Returned (Some (ErrMsg ''Cannot fetch the list of mirrors'')), w1)
             | (Inr ms, w1) \<Rightarrow>
                 (let l = fold (\<lambda>(i, name). AList.update i name) ms [] in scan_list env fl (length l) (ce_scan_range env l) w1))
          else (case matchMirror env (args ! 0) w of
                  (Inl x, w1) \<Rightarrow> (x, w1)
                | (Inr y, w1) \<Rightarrow> scan_list env fl 1 [y] w1))"

definition CmdRefresh :: "'s cli_env \<Rightarrow> err + bool \<times> string list \<Rightarrow> 's terminal \<Rightarrow> cli_end \<times> 's terminal" where
  "CmdRefresh env parsed w =
     (case parsed of
        Inl e \<Rightarrow> (Returned None, w)
      | Inr (rehash, args) \<Rightarrow>
          if length args \<noteq> 0 then usage w
          else (case call (cl_RefreshRepository (ce_client env) rehash) (t_print ''Refreshing the local repository... '' w) of
                  (Some e, w1) \<Rightarrow> log_Fatal (ce_Error env e) (t_print nl w1)
                | (None, w1) \<Rightarrow> (Returned None, t_print (''done'' @ nl) w1)))"

section \<open>Editing and showing\<close>

definition edit_fields :: "Mirror \<Rightarrow> Mirror \<Rightarrow> Mirror" where
  "edit_fields u m =
     m\<lparr>HttpURL := HttpURL u, RsyncURL := RsyncURL u, FtpURL := FtpURL u, SponsorName := SponsorName u, SponsorURL := SponsorURL u,
       AdminName := AdminName u, AdminEmail := AdminEmail u, ContinentOnly := ContinentOnly u, CountryOnly := CountryOnly u,
       ASOnly := ASOnly u, Score := Score u, Enabled := Enabled u, SponsorLogoURL := SponsorLogoURL u,
       NetworkBandwidth := NetworkBandwidth u, Latitude := Latitude u, Longitude := Longitude u, Country := Country u\<rparr>"

definition CompareAndUpdate :: "Mirror \<Rightarrow> Mirror \<Rightarrow> bool \<times> Mirror" where
  "CompareAndUpdate m u =
     (if HttpURL m = HttpURL u \<and> RsyncURL m = RsyncURL u \<and> FtpURL m = FtpURL u \<and> SponsorName m = SponsorName u \<and>
         SponsorURL m = SponsorURL u \<and> AdminName m = AdminName u \<and> AdminEmail m = AdminEmail u \<and>
         ContinentOnly m = ContinentOnly u \<and> CountryOnly m = CountryOnly u \<and> ASOnly m = ASOnly u \<and> Score m = Score u \<and>
         Enabled m = Enabled u \<and> SponsorLogoURL m = SponsorLogoURL u \<and> NetworkBandwidth m = NetworkBandwidth u \<and>
         Latitude m = Latitude u \<and> Longitude m = Longitude u \<and> Country m = Country u
      then (False, m) else (True, edit_fields u m))"

text \<open>The mirror a command is about, fetched and converted.\<close>

definition fetch_mirror :: "'s cli_env \<Rightarrow> string \<Rightarrow> string \<Rightarrow> string \<Rightarrow> 's terminal \<Rightarrow> (cli_end + Mirror) \<times> 's terminal" where
  "fetch_mirror env pattern err1 err2 w =
     (case matchMirror env pattern w of
        (Inl x, w1) \<Rightarrow> (Inl x, w1)
      | (Inr (i, _), w1) \<Rightarrow>
          (case call (cl_MirrorInfo (ce_client env) (wrap32 i)) w1 of
             (Inl e, w2) \<Rightarrow> (case log_Fatal (err1 @ ce_Error env e) w2 of (x, w3) \<Rightarrow> (Inl x, w3))
           | (Inr rm, w2) \<Rightarrow>
               (case MirrorFromRPC (ce_pt env) rm of
                  Inl e \<Rightarrow> (case log_Fatal (err2 @ ce_Error env e) w2 of (x, w3) \<Rightarrow> (Inl x, w3))
                | Inr m \<Rightarrow> (Inr m, w2))))"

text \<open>The edit from a file, \<open>edit --mirror-file\<close>; a file without a document leaves the pointer nil.\<close>

definition edit_file :: "'s cli_env \<Rightarrow> string \<Rightarrow> string \<Rightarrow> 's terminal \<Rightarrow> (cli_end \<times> 's terminal) gores" where
  "edit_file env mirrorFile name w =
     (case fetch_mirror env name ''edit error3:'' ''edit error4:'' w of
        (Inl x, w1) \<Rightarrow> Inr (x, w1)
      | (Inr m, w1) \<Rightarrow>
          if (case ce_Stat env mirrorFile of Some e \<Rightarrow> ce_IsNotExist env e | None \<Rightarrow> False)
          then Inr (log_Fatal (''mirror file not existed: '' @ mirrorFile) w1)
          else (case ce_ReadFile env mirrorFile of
                  Inl e \<Rightarrow> Inr (log_Fatal (''cannot read file '' @ mirrorFile) w1)
                | Inr bytes \<Rightarrow>
                    (case ce_Unmarshal env bytes of
                       Inl e \<Rightarrow> Inr (log_Fatal (''cannot unmarshal update file into yaml object '' @ mirrorFile) w1)
                     | Inr None \<Rightarrow> Inl NilDeref
                     | Inr (Some u) \<Rightarrow>
                         if Name u \<noteq> name then
                           Inr (log_Fatal (''mirror name in file '' @ Name m @ '' is not equal to command specified name '' @ name @ ''.'') w1)
                         else Inr (case CompareAndUpdate m u of
                                 (False, _) \<Rightarrow> (Returned None, w1)
                               | (True, m1) \<Rightarrow>
                                   (case MirrorToRPC (ce_pt env) m1 of
                                      Inl e \<Rightarrow> log_Fatal (''edit error5:'' @ ce_Error env e) w1
                                    | Inr rm \<Rightarrow>
                                        (case call (cl_UpdateMirror (ce_client env) rm) w1 of
                                           (Inl e, w2) \<Rightarrow> log_Fatal (''edit error6:'' @ ce_Error env e) w2
                                         | (Inr diff, w2) \<Rightarrow>
                                             (Returned None, t_print (''Mirror '' @ q @ Name m1 @ q @ '' edited successfully'' @ nl)
                                                (if 0 < length diff then t_print (diff @ nl) w2 else w2))))))))"

text \<open>What the editor left, split into the document and the comment.\<close>

definition commentSeparator :: string where
  "commentSeparator = ''##### Comments go below this line #####''"

definition split_comment :: "string \<Rightarrow> string \<times> string" where
  "split_comment yamlstr =
     (let commentIndex = Index yamlstr commentSeparator
      in if commentIndex > 0
         then (take (nat commentIndex) yamlstr, TrimSpace (drop (nat commentIndex + length commentSeparator) yamlstr))
         else (yamlstr, ''''))"

definition CmdShow :: "'s cli_env \<Rightarrow> err + string list \<Rightarrow> 's terminal \<Rightarrow> cli_end \<times> 's terminal" where
  "CmdShow env parsed w =
     (case parsed of
        Inl e \<Rightarrow> (Returned None, w)
      | Inr args \<Rightarrow>
          if length args \<noteq> 1 then usage w
          else (case fetch_mirror env (args ! 0) ''edit error9:'' ''edit error10:'' w of
                  (Inl x, w1) \<Rightarrow> (x, w1)
                | (Inr m, w1) \<Rightarrow>
                    (case ce_Marshal env m of
                       Inl e \<Rightarrow> log_Fatal (''show error:'' @ ce_Error env e) w1
                     | Inr out \<Rightarrow> (Returned None, t_print (out @ nl @ ''Comment:'' @ nl @ Comment m @ nl) w1))))"

section \<open>Export\<close>

record export_flags =
  ef_rsync :: bool
  ef_http :: bool
  ef_ftp :: bool
  ef_disabled :: bool

definition export_urls :: "export_flags \<Rightarrow> rpc_mirror \<Rightarrow> string list" where
  "export_urls fl m =
     (if ef_rsync fl \<and> rm_RsyncURL m \<noteq> '''' then [rm_RsyncURL m] else []) @
     (if ef_http fl \<and> rm_HttpURL m \<noteq> '''' then [rm_HttpURL m] else []) @ (if ef_ftp fl \<and> rm_FtpURL m \<noteq> '''' then [rm_FtpURL m] else [])"

text \<open>The first country of a mirror without countries does not exist.\<close>

fun export_rows :: "export_flags \<Rightarrow> rpc_mirror list \<Rightarrow> string list gores" where
  "export_rows fl [] = Inr []"
| "export_rows fl (m # ms) =
     (if \<not> ef_disabled fl \<and> \<not> rm_Enabled m then export_rows fl ms
      else let ccodes = Fields (rm_CountryCodes m); urls = export_urls fl m
           in if urls \<noteq> [] \<and> ccodes = [] then Inl IndexOutOfRange
              else case export_rows fl ms of
                     Inl p \<Rightarrow> Inl p
                   | Inr rows \<Rightarrow> Inr (map (\<lambda>u. ccodes ! 0 @ tab @ u @ tab @ rm_AdminEmail m @ nl) urls @ rows))"

definition CmdExport :: "'s cli_env \<Rightarrow> err + export_flags \<times> string list \<Rightarrow> 's terminal \<Rightarrow> (cli_end \<times> 's terminal) gores" where
  "CmdExport env parsed w =
     (case parsed of
        Inl e \<Rightarrow> Inr (Returned None, w)
      | Inr (fl, args) \<Rightarrow>
          if length args \<noteq> 1 then Inr (usage w)
          else if args ! 0 \<noteq> ''mirmon'' then Inr (usage (t_print (''Unsupported format'' @ nl) w))
          else (case call (cl_List (ce_client env)) w of
                  (Inl e, w1) \<Rightarrow> Inr (log_Fatal (''export error:'' @ ce_Error env e) w1)
                | (Inr ms, w1) \<Rightarrow>
                    (case export_rows fl ms of
                       Inl p \<Rightarrow> Inl p
                     | Inr rows \<Rightarrow> Inr (Returned None, w1\<lparr>t_out := t_out w1 @ rows\<rparr>))))"

section \<open>Statistics, logs and signals\<close>

record stats_flags =
  st_start :: string
  st_end :: string
  st_human :: bool

definition flag_date :: "'s cli_env \<Rightarrow> string \<Rightarrow> timestamp option" where
  "flag_date env d =
     (case pt_TimestampProto (ce_pt env) (case ce_ParseDate env d of Inl e \<Rightarrow> ce_now env | Inr t \<Rightarrow> t) of Inl e \<Rightarrow> None | Inr ts \<Rightarrow> Some ts)"

definition file_stats_lines :: "'s cli_env \<Rightarrow> (string \<times> int) list \<Rightarrow> string list" where
  "file_stats_lines env files =
     (let l = ce_range env files; requests = fold (\<lambda>(k, req) r. wrap64 (r + req)) l 0; ks = sort_Strings (map fst l)
      in map (\<lambda>k. k @ '':'' @ tab @ Itoa (case map_of files k of None \<Rightarrow> 0 | Some n \<Rightarrow> n) @ nl) ks @
         (if 0 < length ks then [tab @ nl] else []) @ [''Total download requests: '' @ tab @ Itoa requests @ nl])"

definition mirror_stats_lines :: "string \<Rightarrow> bool \<Rightarrow> StatsMirrorReply \<Rightarrow> string list" where
  "mirror_stats_lines name human r =
     [''Identifier:'' @ tab @ name @ nl, ''Status:'' @ tab @ state_word (smr_Mirror r) @ nl,
      ''Download requests:'' @ tab @ Itoa (smr_Requests r) @ nl,
      ''Bytes transferred:'' @ tab @ (if human then ReadableSize (smr_Bytes r) else Itoa (smr_Bytes r)) @ nl]"

definition CmdStats :: "'s cli_env \<Rightarrow> err + stats_flags \<times> string list \<Rightarrow> 's terminal \<Rightarrow> cli_end \<times> 's terminal" where
  "CmdStats env parsed w =
     (case parsed of
        Inl e \<Rightarrow> (Returned None, w)
      | Inr (fl, args) \<Rightarrow>
          if length args \<noteq> 2 \<or> args ! 0 \<noteq> ''mirror'' \<and> args ! 0 \<noteq> ''file'' then usage w
          else (let startproto = flag_date env (st_start fl); endproto = flag_date env (st_end fl)
                in if args ! 0 = ''file'' then
                     (case call (cl_StatsFile (ce_client env) (args ! 1) startproto endproto) w of
                        (Inl e, w1) \<Rightarrow> log_Fatal (''file stats error:'' @ ce_Error env e) w1
                      | (Inr files, w1) \<Rightarrow> (Returned None, w1\<lparr>t_out := t_out w1 @ file_stats_lines env files\<rparr>))
                   else
                     (case matchMirror env (args ! 1) w of
                        (Inl x, w1) \<Rightarrow> (x, w1)
                      | (Inr (i, name), w1) \<Rightarrow>
                          (case call (cl_StatsMirror (ce_client env) (wrap32 i) startproto endproto) w1 of
                             (Inl e, w2) \<Rightarrow> log_Fatal (''mirror stats error:'' @ ce_Error env e) w2
                           | (Inr r, w2) \<Rightarrow> (Returned None, w2\<lparr>t_out := t_out w2 @ mirror_stats_lines name (st_human fl) r\<rparr>)))))"

definition CmdLogs :: "'s cli_env \<Rightarrow> err + nat \<times> string list \<Rightarrow> 's terminal \<Rightarrow> cli_end \<times> 's terminal" where
  "CmdLogs env parsed w =
     (case parsed of
        Inl e \<Rightarrow> (Returned None, w)
      | Inr (maxResults, args) \<Rightarrow>
          if length args \<noteq> 1 then usage w
          else (case matchMirror env (args ! 0) w of
                  (Inl x, w1) \<Rightarrow> (x, w1)
                | (Inr (i, name), w1) \<Rightarrow>
                    (case call (cl_GetMirrorLogs (ce_client env) (wrap32 i) (wrap32 (int maxResults))) w1 of
                       (Inl e, w2) \<Rightarrow> log_Fatal (''logs error:'' @ ce_Error env e) w2
                     | (Inr ls, w2) \<Rightarrow>
                         (Returned None,
                          if length ls = 0 then t_print (''No logs for '' @ name @ nl) w2
                          else w2\<lparr>t_out := t_out w2 @ (''Printing logs for '' @ name @ '':'' @ nl) # map (\<lambda>l. l @ nl) ls\<rparr>))))"

definition CmdReload :: "'s cli_env \<Rightarrow> 's terminal \<Rightarrow> cli_end \<times> 's terminal" where
  "CmdReload env w =
     (case call (cl_Reload (ce_client env)) w of (Some e, w1) \<Rightarrow> log_Fatal (''upgrade error:'' @ ce_Error env e) w1 | (None, w1) \<Rightarrow> (Returned None, w1))"

definition CmdUpgrade :: "'s cli_env \<Rightarrow> 's terminal \<Rightarrow> cli_end \<times> 's terminal" where
  "CmdUpgrade env w =
     (case call (cl_Upgrade (ce_client env)) w of (Some e, w1) \<Rightarrow> log_Fatal (''upgrade error:'' @ ce_Error env e) w1 | (None, w1) \<Rightarrow> (Returned None, w1))"

section \<open>What a removal does\<close>

text \<open>The calls of the server behind the client; a panic of the server is an error of the transport.\<close>

definition serves :: "('db, 'a) rpc_env \<Rightarrow> 'db rpc_client \<Rightarrow> bool" where
  "serves env c \<longleftrightarrow>
     cl_MatchMirror c = (\<lambda>p db. case MatchMirror env True p db of Inl _ \<Rightarrow> (Inl (ErrMsg ''transport is closing''), db) | Inr x \<Rightarrow> x) \<and>
     cl_RemoveMirror c = RemoveMirror env"

definition hits :: "string \<Rightarrow> (int \<times> string) list \<Rightarrow> (int \<times> string) list" where
  "hits pattern ms = filter (\<lambda>(i, name). Contains (ToLower name) (ToLower pattern)) ms"

definition confirmed :: "bool \<Rightarrow> string list \<Rightarrow> bool" where
  "confirmed force ls \<longleftrightarrow> force \<or> (\<exists>l ls'. ls = l # ls' \<and> l \<noteq> '''' \<and> (l ! 0 = CHR ''y'' \<or> l ! 0 = CHR ''Y''))"

lemma distinct_single: "distinct zs \<Longrightarrow> zs = [x] \<longleftrightarrow> set zs = {x}"
proof
  assume d: "distinct zs" and s: "set zs = {x}"
  then have "length zs = 1" using distinct_card [of zs] by simp
  then obtain y where "zs = [y]" by (auto simp: length_Suc_conv)
  then show "zs = [x]" using s by simp
qed simp

lemma MatchMirror_hits:
  assumes up: "reliable_redis (re_client env) \<alpha>" and conn: "re_listErr env = None" and ord: "order_ok env"
    and reg: "registry (\<alpha> db) ms n" "n < 2 ^ 31"
  shows "\<exists>l db1. MatchMirror env True p db = Inr (Inr l, db1) \<and> \<alpha> db1 = \<alpha> db \<and> (\<forall>x. l = [x] \<longleftrightarrow> hits p ms = [x])"
proof -
  obtain db1 where g: "GetListOfMirrors (re_client env) None db = (Inr (Inr (map_of ms)), db1)" "\<alpha> db1 = \<alpha> db"
    using registry_list [OF up reg(1)] by blast
  let ?o = "re_order env (map_of ms)"
  have o: "distinct ?o" "set ?o = set ms"
    using ord finite_dom_map_of [of ms] reg(1) unfolding order_ok_def registry_def by (auto simp: map_of_eq_Some_iff)
  have d: "distinct ms" using reg(1) by (auto simp: registry_def distinct_map)
  have "in_int32 i" if "(i, x) \<in> set ms" for i x using that reg by (auto simp: registry_def in_int32_def)
  then have "map (\<lambda>(i, name). (wrap32 i, name)) (hits p ?o) = hits p ?o"
    using o(2) by (intro map_idI) (auto simp: hits_def)
  then have m: "MatchMirror env True p db = Inr (Inr (hits p ?o), db1)"
    using g(1) conn by (simp add: MatchMirror_def hits_def)
  have "hits p ?o = [x] \<longleftrightarrow> hits p ms = [x]" for x
    using distinct_single [of "hits p ?o" x] distinct_single [of "hits p ms" x] o d by (simp add: hits_def)
  then show ?thesis using m g(2) by blast
qed

lemma matchMirror_one:
  assumes "serves env (ce_client cenv)" and m: "MatchMirror env True p (t_srv w) = Inr (Inr l, db1)"
  shows "p \<noteq> '''' \<Longrightarrow> l = [x] \<Longrightarrow> matchMirror cenv p w = (Inr x, w\<lparr>t_srv := db1\<rparr>)"
    and "p \<noteq> '''' \<Longrightarrow> \<forall>x. l \<noteq> [x] \<Longrightarrow> \<exists>w1. matchMirror cenv p w = (Inl (Exited 1), w1) \<and> t_srv w1 = db1"
proof -
  have c: "call (cl_MatchMirror (ce_client cenv) p) w = (Inr l, w\<lparr>t_srv := db1\<rparr>)" using assms by (simp add: serves_def call_def)
  show "p \<noteq> '''' \<Longrightarrow> l = [x] \<Longrightarrow> matchMirror cenv p w = (Inr x, w\<lparr>t_srv := db1\<rparr>)" using c by (simp add: matchMirror_def GetSingle_def)
  have f: "t_srv (fold (\<lambda>(i, name). t_print (''  '' @ name @ nl)) ms v) = t_srv v" for ms :: "(int \<times> string) list" and v :: "'a terminal"
    by (induction ms arbitrary: v) (auto simp: t_print_def)
  show "p \<noteq> '''' \<Longrightarrow> \<forall>x. l \<noteq> [x] \<Longrightarrow> \<exists>w1. matchMirror cenv p w = (Inl (Exited 1), w1) \<and> t_srv w1 = db1"
    using c f by (cases l rule: remdups_adj.cases) (auto simp: matchMirror_def t_print_def)
qed

lemma confirm_result:
  "confirm force name w = Inr (b, w1) \<Longrightarrow> b = confirmed force (t_in w) \<and> t_srv w1 = t_srv w"
  "confirmed force (t_in w) \<Longrightarrow> \<exists>w1. confirm force name w = Inr (True, w1)"
  by (auto simp: confirm_def confirmed_def read_line_in_def t_print_def split: if_splits list.splits)

lemma CmdRemove_matched:
  assumes mm: "matchMirror cenv pattern w = (Inr (i, name), w1)"
  shows "\<not> confirmed force (t_in w1) \<Longrightarrow> CmdRemove cenv (Inr (force, [pattern])) w = Inr (x, w') \<Longrightarrow> t_srv w' = t_srv w1"
    and "confirmed force (t_in w1) \<Longrightarrow> cl_RemoveMirror (ce_client cenv) (wrap32 i) (t_srv w1) = (None, db') \<Longrightarrow>
      \<exists>w'. CmdRemove cenv (Inr (force, [pattern])) w = Inr (Returned None, w') \<and> t_srv w' = db'"
    and "cl_RemoveMirror (ce_client cenv) (wrap32 i) (t_srv w1) = (Some e, t_srv w1) \<Longrightarrow>
      CmdRemove cenv (Inr (force, [pattern])) w = Inr (x, w') \<Longrightarrow> t_srv w' = t_srv w1"
proof -
  assume c: "\<not> confirmed force (t_in w1)" and run: "CmdRemove cenv (Inr (force, [pattern])) w = Inr (x, w')"
  show "t_srv w' = t_srv w1"
  proof (cases "confirm force name w1")
    case (Inr y)
    obtain b w2 where y: "y = (b, w2)" by fastforce
    then have "\<not> b" "t_srv w2 = t_srv w1" using confirm_result(1) [of force name w1 b w2] Inr c by simp_all
    then show ?thesis using run mm Inr y by (simp add: CmdRemove_def)
  qed (use run mm in \<open>simp add: CmdRemove_def\<close>)
next
  assume c: "confirmed force (t_in w1)" and r: "cl_RemoveMirror (ce_client cenv) (wrap32 i) (t_srv w1) = (None, db')"
  obtain w2 where "confirm force name w1 = Inr (True, w2)" "t_srv w2 = t_srv w1" using c confirm_result by blast
  then show "\<exists>w'. CmdRemove cenv (Inr (force, [pattern])) w = Inr (Returned None, w') \<and> t_srv w' = db'"
    using mm r by (simp add: CmdRemove_def call_def t_print_def)
next
  assume r: "cl_RemoveMirror (ce_client cenv) (wrap32 i) (t_srv w1) = (Some e, t_srv w1)"
    and run: "CmdRemove cenv (Inr (force, [pattern])) w = Inr (x, w')"
  show "t_srv w' = t_srv w1"
  proof (cases "confirm force name w1")
    case (Inr y)
    obtain b w2 where y: "y = (b, w2)" by fastforce
    then have "t_srv w2 = t_srv w1" using confirm_result(1) [of force name w1 b w2] Inr by simp
    then show ?thesis using run mm r Inr y by (cases b) (auto simp: CmdRemove_def call_def log_Fatal_def t_print_def)
  qed (use run mm in \<open>simp add: CmdRemove_def\<close>)
qed

text \<open>The only panic of the removal is the one on an empty answer.\<close>

lemma CmdRemove_answered:
  assumes "t_in w = c # cs" "c \<noteq> ''''"
  shows "\<exists>x w'. CmdRemove cenv (Inr (force, [pattern])) w = Inr (x, w')"
proof (cases "matchMirror cenv pattern w")
  case (Pair y w1)
  show ?thesis
  proof (cases y)
    case (Inr m)
    then have "t_in w1 = t_in w" using Pair
      by (auto simp: matchMirror_def call_def t_print_def log_Fatal_def GetSingle_def split: if_splits prod.splits sum.splits list.splits option.splits)
    then show ?thesis using assms Pair Inr
      by (cases m) (auto simp: CmdRemove_def confirm_def read_line_in_def t_print_def split: bool.splits prod.splits option.splits)
  qed (use Pair in \<open>simp add: CmdRemove_def\<close>)
qed

text \<open>
  C40: The command \<open>remove\<close> removes the mirror that was meant, or none.  When the pattern is part of the name of exactly one mirror and the removal is forced
  or confirmed by a line that starts with y, that mirror is removed and the command succeeds; in every other case
  the database is as before.
\<close>

theorem CmdRemove_effect:
  assumes up: "reliable_redis (re_client env) \<alpha>" and conn: "re_connErr env = None" "re_listErr env = None" and ord: "order_ok env"
    and serves: "serves env (ce_client cenv)" and reg: "registry (\<alpha> (t_srv w)) ms n" "n < 2 ^ 31"
    and typed: "\<And>i. is_hash (\<alpha> (t_srv w)) (mirror_key i)" "\<And>i. get_list (\<alpha> (t_srv w)) (log_key i) \<noteq> None"
      "\<And>i. is_set (\<alpha> (t_srv w)) (files_key i)" "\<And>f. is_set (\<alpha> (t_srv w)) (filemirrors_key f)"
    and index: "\<And>i f. listed (\<alpha> (t_srv w)) i f \<Longrightarrow> f \<in> members (\<alpha> (t_srv w)) (files_key i)"
  shows "if pattern \<noteq> '''' \<and> length (hits pattern ms) = 1 \<and> confirmed force (t_in w)
    then \<exists>w'. CmdRemove cenv (Inr (force, [pattern])) w = Inr (Returned None, w') \<and>
           (let i = fst (hd (hits pattern ms)) in removed i (members (\<alpha> (t_srv w)) (files_key i)) (\<alpha> (t_srv w)) (\<alpha> (t_srv w')))
    else \<forall>x w'. CmdRemove cenv (Inr (force, [pattern])) w = Inr (x, w') \<longrightarrow> \<alpha> (t_srv w') = \<alpha> (t_srv w)"
proof -
  obtain l db1 where m: "MatchMirror env True pattern (t_srv w) = Inr (Inr l, db1)" "\<alpha> db1 = \<alpha> (t_srv w)" "\<forall>x. l = [x] \<longleftrightarrow> hits pattern ms = [x]"
    using MatchMirror_hits [OF up conn(2) ord reg] by blast
  note one = matchMirror_one [OF serves m(1)]
  have rm: "cl_RemoveMirror (ce_client cenv) = RemoveMirror env" using serves by (simp add: serves_def)
  show ?thesis
  proof (cases "pattern = ''''")
    case True
    then have mm: "matchMirror cenv pattern w = (Inr (- 1, ''''), w)" by (simp add: matchMirror_def)
    have "RemoveMirror env (wrap32 (- 1)) v = (Some invalid_id, v)" for v by (simp add: RemoveMirror_def in_int32_def)
    then show ?thesis using True CmdRemove_matched(3) [OF mm] rm by auto
  next
    case ne: False
    show ?thesis
    proof (cases "length (hits pattern ms) = 1")
      case True
      then obtain i name where h: "hits pattern ms = [(i, name)]" by (auto simp: length_Suc_conv)
      then have mm: "matchMirror cenv pattern w = (Inr (i, name), w\<lparr>t_srv := db1\<rparr>)" using one(1) ne m(3) by simp
      have "(i, name) \<in> set (hits pattern ms)" using h by simp
      then have "(i, name) \<in> set ms" by (simp add: hits_def)
      then have i: "0 < i" "wrap32 i = i" using reg by (auto simp: registry_def in_int32_def)
      obtain db' where r: "RemoveMirror env i db1 = (None, db')" "removed i (members (\<alpha> (t_srv w)) (files_key i)) (\<alpha> (t_srv w)) (\<alpha> db')"
        using RemoveMirror_run [OF up conn(1) i(1), of db1] typed index reg(1) unfolding m(2) by (auto simp: registry_def)
      show ?thesis using CmdRemove_matched(1,2) [OF mm, of force] ne True h i(2) r rm m(2) by fastforce
    next
      case False
      then have "\<forall>x. l \<noteq> [x]" using m(3) by auto
      from one(2) [OF ne this] show ?thesis using False m(2) by (auto simp: CmdRemove_def)
    qed
  qed
qed

definition demo_client :: "store rpc_client" where
  "demo_client =
     \<lparr>cl_List = (\<lambda>s. (Inr [], s)),
      cl_MatchMirror = (\<lambda>p db. case MatchMirror demo_renv True p db of Inl _ \<Rightarrow> (Inl (ErrMsg ''transport is closing''), db) | Inr x \<Rightarrow> x),
      cl_MirrorInfo = (\<lambda>i. MirrorInfo demo_renv i), cl_AddMirror = (\<lambda>_ s. (Inl ErrNil, s)), cl_UpdateMirror = (\<lambda>_ s. (Inl ErrNil, s)),
      cl_RemoveMirror = RemoveMirror demo_renv, cl_ChangeStatus = ChangeStatus demo_renv, cl_RefreshRepository = (\<lambda>_ s. (None, s)),
      cl_ScanMirror = (\<lambda>_ _ _ s. (Inl ErrNil, s)), cl_StatsFile = (\<lambda>_ _ _ s. (Inr [], s)), cl_StatsMirror = (\<lambda>_ _ _ s. (Inl ErrNil, s)),
      cl_GetMirrorLogs = GetMirrorLogs demo_renv, cl_Reload = (\<lambda>s. (None, s)), cl_Upgrade = (\<lambda>s. (None, s))\<rparr>"

definition demo_cenv :: "store cli_env" where
  "demo_cenv =
     \<lparr>ce_client = demo_client, ce_pt = demo_pt, ce_Error = (\<lambda>_. ''error''), ce_RFC1123 = (\<lambda>_. ''''), ce_Fixed4 = (\<lambda>_. ''0''),
      ce_ParseURL = (\<lambda>_. None), ce_ParseDate = (\<lambda>_. Inl ErrNil), ce_now = 0, ce_Marshal = (\<lambda>_. Inr ''''), ce_Stat = (\<lambda>_. None),
      ce_IsNotExist = (\<lambda>_. True), ce_ReadFile = (\<lambda>_. Inr ''''), ce_Unmarshal = (\<lambda>_. Inl ErrNil), ce_range = (\<lambda>l. l), ce_scan_range = (\<lambda>l. l)\<rparr>"

definition demo_two :: store where
  "demo_two = put (files_key 2) (Some (VSet [''/f''])) (put ''LAST_MID'' (Some (VStr (Itoa 2))) demo_listed)"

text \<open>Mirrors a and b, of which the first is removed after the answer y and the second is kept after the answer n.\<close>

theorem CmdRemove_effect_witness:
  "(\<exists>w'. CmdRemove demo_cenv (Inr (False, [''a''])) \<lparr>t_srv = demo_two, t_out = [], t_in = [''y'']\<rparr> =
      Inr (Returned None, w') \<and> \<not> listed (t_srv w') 1 ''/f'') \<and>
   (\<exists>x w'. CmdRemove demo_cenv (Inr (False, [''b''])) \<lparr>t_srv = demo_two, t_out = [], t_in = [''n'']\<rparr> =
      Inr (x, w') \<and> t_srv w' = demo_two)"
proof -
  let ?s = demo_two and ?w = "\<lambda>l. \<lparr>t_srv = demo_two, t_out = [], t_in = [l]\<rparr>"
  note d = demo_two_def demo_listed_def get_hash_def get_list_def get_set_def members_def field_def scan_key_defs empty_store_def
  have up: "reliable_redis (re_client demo_renv) id" using ref_up.reliable_redis_axioms by (simp add: demo_renv_def)
  have c: "re_connErr demo_renv = None" "re_listErr demo_renv = None" by (simp_all add: demo_renv_def)
  have sv: "serves demo_renv (ce_client demo_cenv)" by (simp add: serves_def demo_cenv_def demo_client_def)
  have reg: "registry ?s [(1, ''a''), (2, ''b'')] 2"
    by (auto simp: registry_def demo_two_def demo_listed_def get_hash_def get_str_def bulk_int_def ParseInt_Itoa in_int64_def scan_key_defs)
  have t: "is_hash ?s (mirror_key i)" "get_list ?s (log_key i) \<noteq> None" "is_set ?s (files_key i)" "is_set ?s (filemirrors_key f)" for i f
    by (simp_all add: d)
  have x: "f \<in> members ?s (files_key i)" if "listed ?s i f" for i f using that by (auto simp: d listed_def split: if_splits)
  have h: "hits ''a'' [(1, ''a''), (2, ''b'')] = [(1, ''a'')]" by code_simp
  note e = CmdRemove_effect [where \<alpha> = id and env = demo_renv and cenv = demo_cenv and ms = "[(1, ''a''), (2, ''b'')]" and n = 2, OF up c demo_renv_order sv]
  have a: "\<exists>w'. CmdRemove demo_cenv (Inr (False, [''a''])) (?w ''y'') = Inr (Returned None, w') \<and> removed 1 (members ?s (files_key 1)) ?s (t_srv w')"
    using e [of "?w ''y''" "''a''" False] reg t x h by (simp add: confirmed_def)
  have b: "\<forall>x w'. CmdRemove demo_cenv (Inr (False, [''b''])) (?w ''n'') = Inr (x, w') \<longrightarrow> t_srv w' = ?s"
    using e [of "?w ''n''" "''b''" False] reg t x by (simp add: confirmed_def)
  obtain x w' where r: "CmdRemove demo_cenv (Inr (False, [''b''])) (?w ''n'') = Inr (x, w')"
    using CmdRemove_answered [of "?w ''n''" "''n''" "[]" demo_cenv False "''b''"] by auto
  have "\<not> listed (t_srv w') 1 ''/f''" if "removed 1 (members ?s (files_key 1)) ?s (t_srv w')" for w' :: "store terminal"
    using that by (auto simp: removed_def)
  then show ?thesis using a b r by blast
qed

section \<open>Other commands\<close>

text \<open>An edit from a file reports a change exactly when a field differs, and the same file reports none afterwards.\<close>

lemma CompareAndUpdate_settles:
  assumes "CompareAndUpdate m u = (b, m')"
  shows "m' = edit_fields u m" "b \<longleftrightarrow> m' \<noteq> m" "CompareAndUpdate m' u = (False, m')"
proof -
  have same: "fst (CompareAndUpdate m u) = False \<longleftrightarrow> edit_fields u m = m"
    by (cases m; cases u) (auto simp: CompareAndUpdate_def edit_fields_def)
  show 1: "m' = edit_fields u m" using assms same by (auto simp: CompareAndUpdate_def split: if_splits)
  show "b \<longleftrightarrow> m' \<noteq> m" using assms same 1 by auto
  show "CompareAndUpdate m' u = (False, m')" unfolding 1 by (simp add: CompareAndUpdate_def edit_fields_def)
qed

text \<open>The export of a mirror without a country panics.\<close>

lemma export_panics:
  "rm_Enabled m \<Longrightarrow> rm_CountryCodes m = '''' \<Longrightarrow> export_urls fl m \<noteq> [] \<Longrightarrow> export_rows fl (m # ms) = Inl IndexOutOfRange"
  by (simp add: Fields_def)

end
