(* ===== verification/Process.thy ===== *)
theory Process
  imports Utils
begin

text \<open>
  The pid file (\<^verbatim>\<open>process/process.go\<close>): where it is, how it is written, and its removal, which must spare the file of the process that took
  over during a seamless upgrade.
\<close>

text \<open>
  The run-time option, the environment variable, the compile-time default, the number of the process, and the errors of the file
  system; the files themselves are a map.
\<close>

record proc_env =
  pe_PidFile :: string
  pe_XDG_RUNTIME_DIR :: string
  pe_defaultPidFile :: string
  pe_Getpid :: int
  pe_WriteErr :: "err option"
  pe_ReadErr :: "err option"
  pe_RemoveErr :: "err option"

type_synonym files = "string \<rightharpoonup> string"

definition GetPidLocation :: "proc_env \<Rightarrow> string" where
  "GetPidLocation env =
     (if pe_PidFile env = '''' then
        (if pe_XDG_RUNTIME_DIR env = '''' then
           (if pe_defaultPidFile env = '''' then ''/run/mirrorbits/mirrorbits.pid'' else pe_defaultPidFile env)
         else pe_XDG_RUNTIME_DIR env @ ''/mirrorbits.pid'')
      else pe_PidFile env)"

text \<open>A directory that cannot be made shows as an error of the write; both are logged only.\<close>

definition WritePidFile :: "proc_env \<Rightarrow> files \<Rightarrow> files" where
  "WritePidFile env fs =
     (if pe_WriteErr env = None then fs(GetPidLocation env \<mapsto> Itoa (pe_Getpid env)) else fs)"

definition GetRemoteProcPid :: "proc_env \<Rightarrow> files \<Rightarrow> int" where
  "GetRemoteProcPid env fs =
     (if pe_ReadErr env \<noteq> None then - 1
      else case fs (GetPidLocation env) of
             None \<Rightarrow> - 1
           | Some b \<Rightarrow> (case ParseInt b of (i, None) \<Rightarrow> i | (_, Some e) \<Rightarrow> - 1))"

definition RemovePidFile :: "proc_env \<Rightarrow> files \<Rightarrow> files" where
  "RemovePidFile env fs =
     (if fs (GetPidLocation env) \<noteq> None then
        (if GetRemoteProcPid env fs = pe_Getpid env then (if pe_RemoveErr env = None then fs(GetPidLocation env := None) else fs) else fs)
      else fs)"

text \<open>
  A process that ends takes its own pid file with it and spares that of its successor: after the successor has written its number to the
  same place, the removal by the first process changes nothing.
\<close>

theorem pid_handover:
  assumes "GetPidLocation new = GetPidLocation old" "0 < pe_Getpid old" "0 < pe_Getpid new" "pe_Getpid old \<noteq> pe_Getpid new"
    and "in_int64 (pe_Getpid old)" "in_int64 (pe_Getpid new)" "pe_WriteErr old = None" "pe_WriteErr new = None"
  shows "RemovePidFile old (WritePidFile new (WritePidFile old fs)) = WritePidFile new fs"
    and "pe_ReadErr old = None \<Longrightarrow> pe_RemoveErr old = None \<Longrightarrow> RemovePidFile old (WritePidFile old fs) = fs(GetPidLocation old := None)"
  using assms by (auto simp: RemovePidFile_def WritePidFile_def GetRemoteProcPid_def ParseInt_Itoa)

end
