(* ===== verification/Spec2Isabelle.thy ===== *)
theory Spec2Isabelle
  imports Http_Server Cluster Layer_Build Scan_Offset Rpc_Stats Upgrade_V1 Cli Process
begin

text \<open>
  Verification library for mirrorbits, a geographical download redirector written in Go.

  \<^bold>\<open>The program.\<close>  A daemon answers requests for the files of a repository by redirecting each
  client to a mirror that has the file.  It keeps its data in a redis database shared by the nodes
  of a cluster: the mirrors (\<open>MIRRORS\<close>, \<open>MIRROR_id\<close>), the files of the repository (\<open>FILES\<close>,
  \<open>FILE_path\<close>), which mirror has which file (\<open>FILEMIRRORS_path\<close>, \<open>FILEINFO_id_path\<close>) and counters
  of downloads.  A request passes from the dispatcher of the HTTP server (\<^verbatim>\<open>http/http.go\<close>) through
  the path check (\<^verbatim>\<open>filesystem/fs.go\<close>), the location of the client (\<^verbatim>\<open>network/geoip.go\<close>), the cache
  of the database (\<^verbatim>\<open>mirrors/cache.go\<close> over \<^verbatim>\<open>mirrors/lru.go\<close>), the selection engine
  (\<^verbatim>\<open>http/selection.go\<close>) and a page renderer (\<^verbatim>\<open>http/pagerenderer.go\<close>); the download is counted
  (\<^verbatim>\<open>http/stats.go\<close>) and logged.  In the background a scan of the repository builds the tree of its
  files (\<^verbatim>\<open>filesystem/layerfile.go\<close>), mirrors are scanned and checked, and the nodes share this work
  out between them (\<^verbatim>\<open>daemon/cluster.go\<close>).  A change of the database is published on a channel
  (\<^verbatim>\<open>database/pubsub.go\<close>) and makes every node drop what it has cached of it.

  \<^bold>\<open>Conventions.\<close>  A Go function is a HOL function on the state it reads and changes, which it
  returns.  \<open>'a gores\<close> is \<open>panic + 'a\<close>: a panic of the run time is the value \<open>Inl\<close>, with its kind.
  Errors are the datatype \<open>err\<close>.  Structs are records, enumerations datatypes, 64 bit integers are
  words where their width matters (the size counter of the cache) and integers with an explicit
  wrap-around or a stated bound elsewhere; floating point numbers are reals, so the statements are
  about exact arithmetic.  Strings are lists of bytes.  Maps whose iteration order is visible take
  the order as an argument, so a theorem holds for every order.  Time, random draws, the file
  system, templates, JSON, YAML, the MaxMind reader and regular files are arguments.  The redis
  server and its client are a value of type \<open>redigo\<close> with the hypothesis \<open>redigo_ok\<close>, which relates
  each command to its documented effect on an abstract keyspace and allows a network error anywhere;
  \<open>ref_redis\<close> is an instance, used by the witnesses.  Code under a mutex is one step.  Goroutines
  that interleave are steps of a relation or folds over an arbitrary list of events.

  \<^bold>\<open>Theories\<close>, in order of their imports, with the sources they model.

  \<^item> \<open>Prelude\<close>: panics, errors, byte strings, the parts of \<^verbatim>\<open>strings\<close> and \<^verbatim>\<open>strconv\<close> in use.
  \<^item> \<open>Go_Sort\<close>: the contract of \<^verbatim>\<open>sort.Sort\<close> as a locale, and an instance.
  \<^item> \<open>Lru\<close> (\<^verbatim>\<open>mirrors/lru.go\<close>): list and table of the cache, each operation with its panics.  Every
    run refines an abstract recency list, and the size counter is exact and within the capacity.
  \<^item> \<open>Utils\<close> (\<^verbatim>\<open>utils/utils.go\<close>, \<^verbatim>\<open>network/utils.go\<close>), \<open>Config\<close> (\<^verbatim>\<open>config/config.go\<close>,
    \<^verbatim>\<open>core/scan.go\<close>, \<^verbatim>\<open>core/database.go\<close>), \<open>Geo\<close> (\<^verbatim>\<open>network/geoip.go\<close>), \<open>Mirror\<close>
    (\<^verbatim>\<open>mirrors/mirrors.go\<close>, \<^verbatim>\<open>filesystem/fileinfo.go\<close>): the data of the program, its normal forms,
    orders and round trips.
  \<^item> \<open>Selection\<close> (\<^verbatim>\<open>http/context.go\<close>, \<^verbatim>\<open>http/selection.go\<close>): the request context and the choice of
    mirrors.  Soundness, completeness (a permutation of the input), order, and what the shuffle can
    give.
  \<^item> \<open>Cluster\<close> (\<^verbatim>\<open>daemon/cluster.go\<close>): node list, mirror index, event loop.  Each mirror is handled
    by exactly one of the nodes that agree.
  \<^item> \<open>Redis_Iface\<close>: the database interface described above.  \<open>Database\<close> (\<^verbatim>\<open>database/redis.go\<close>,
    \<^verbatim>\<open>lock.go\<close>, \<^verbatim>\<open>upgrade.go\<close>, \<^verbatim>\<open>utils.go\<close>, \<^verbatim>\<open>pubsub.go\<close>): the lock as a step relation over all
    interleavings of the nodes, the format version, the mirror list, reconnection.
  \<^item> \<open>Cache\<close> (\<^verbatim>\<open>mirrors/cache.go\<close>): the four caches.  A coherent cache answers what the database
    holds; an invalidation event restores coherence.  The locale of a cached lookup is interpreted
    for each of the caches.
  \<^item> \<open>Mirror_Db\<close> (\<^verbatim>\<open>mirrors/mirrors.go\<close>, \<^verbatim>\<open>mirrors/logs.go\<close>): state changes and logs in the database.
  \<^item> \<open>Calendar\<close>: civil dates, shared by the theories that format or compare days.
  \<^item> \<open>Stats\<close> (\<^verbatim>\<open>http/stats.go\<close>): counting and flushing.  What the counters of the database and the
    pending map hold together is what was counted, whatever the order of the events and whichever
    transactions are refused.
  \<^item> \<open>Filesystem\<close> (\<^verbatim>\<open>filesystem/fs.go\<close>, \<^verbatim>\<open>hash.go\<close>): path cleaning and confinement to the repository.
  \<^item> \<open>Layerfile\<close>, \<open>Layer_Tree\<close>, \<open>Layer_Build\<close> (\<^verbatim>\<open>filesystem/layerfile.go\<close>): the tree of the
    repository, with pointers as addresses of an explicit heap and the package variables as one
    record.  \<open>Layerfile\<close> holds the operations, \<open>Layer_Build\<close> the invariant of the index, links and
    newest files under \<open>BuildFileTree\<close>, \<open>Layer_Tree\<close> that \<open>UpdateFileTree\<close> ends.
  \<^item> \<open>Http_Render\<close> (\<^verbatim>\<open>http/pagerenderer.go\<close>, \<open>handlerRes\<close>, \<^verbatim>\<open>logs/logs.go\<close>), \<open>Http\<close> (the handlers of
    \<^verbatim>\<open>http/http.go\<close>), \<open>Http_Server\<close> (construction, reload and stop of the server, \<^verbatim>\<open>http/gzip.go\<close>):
    what a client receives, composed from the theories above.

  \<^item> \<open>Cluster_Lock\<close> (\<^verbatim>\<open>network/clusterlock.go\<close>): the lock on a scan with its goroutine and timer; the
    nodes that share a key are a step relation with a clock.  The lock excludes within the time to live
    of its key, and is never renewed.
  \<^item> \<open>Redis_Effects\<close>: a database whose calls are answered, as a locale, with the effect of commands and
    transactions; it is interpreted for the reference client.
  \<^item> \<open>Http_Scan\<close> (\<^verbatim>\<open>scan/http.go\<close>), \<open>Scan\<close> (\<^verbatim>\<open>scan/scan.go\<close>, \<^verbatim>\<open>scan/trace.go\<close>): the scan of a mirror.
    \<open>Scan_Index\<close> proves what it leaves in the database, \<open>Scan_Offset\<close> that the guessed clock offset does not
    depend on the iteration order.  \<open>Source_Scan\<close> (\<^verbatim>\<open>ScanSource\<close>): the scan of the local repository, from the
    listing to the index, composed with the tree of \<open>Layerfile\<close>.
  \<^item> \<open>Monitor\<close> (\<^verbatim>\<open>daemon/monitor.go\<close>): the health check, the loop that hands mirrors out and the workers,
    interleaved in a step relation.  A node scans a mirror once at a time, a health check records what
    the mirror answered; \<open>retry\<close> does not retry, and some mirrors are never checked again.
  \<^item> \<open>Time_Keys\<close> (\<open>TimeKeyCoverage\<close> of \<^verbatim>\<open>utils/utils.go\<close>): the keys of years, months and days that cover a period,
    with the inverse of the calendar; every day of the period is covered once.
  \<^item> \<open>Rpc\<close> (\<^verbatim>\<open>rpc/rpc.go\<close>, \<^verbatim>\<open>rpc/utils.go\<close>, \<^verbatim>\<open>rpc/interceptors.go\<close>): the calls of the server, their
    authorisation and messages.  \<open>Rpc_Mirrors\<close>: messages lose nothing a mirror has in the database, saving a
    mirror keeps the register free of duplicates, removing one leaves nothing of it.  \<open>Rpc_Stats\<close> composes the
    counters of \<open>Stats\<close> with the keys of \<open>Time_Keys\<close> and the report \<open>StatsMirror\<close>: a download is reported once,
    in the periods it belongs to.
  \<^item> \<open>Upgrade_V1\<close> (\<^verbatim>\<open>database/v1/version1.go\<close>, \<^verbatim>\<open>database/upgrader/upgrader.go\<close>): the upgrade from names to
    numbers.  The locale \<open>framed_redis\<close> states which keys a command may change even when it fails; an upgrade that
    fails has changed work keys only, and the new list of mirrors is a register as \<open>Rpc_Mirrors\<close> keeps it.

  \<^item> \<open>Cli\<close> (\<^verbatim>\<open>cli/commands.go\<close>): the commands over the calls of a client, with the terminal as state.  The
    command \<open>remove\<close>, composed with the server and the database, removes the mirror that was meant or none.
  \<^item> \<open>Process\<close> (\<^verbatim>\<open>process/process.go\<close>): the pid file and its hand-over during an upgrade.

  \<^bold>\<open>Bounds and fuel.\<close>  The walks over the file tree take fuel; the number of nodes of the heap is
  enough, because a node is allocated after its parent and the addresses grow along every path, and
  this is proved with the invariant of the tree.  The wait for a loading database
  (\<open>GetDBFormatVersion\<close>) takes fuel, as nothing bounds it; one turn is enough when the server
  answers.  The theorem on the download counters asks for room below \<open>2 ^ 63\<close> for what is pending,
  since the database refuses an increment that overflows.

  \<^bold>\<open>Not modelled.\<close>  The generated code \<^verbatim>\<open>rpc/rpc.pb.go\<close>, whose messages are records here; of the command line
  client the dispatch by reflection, the editor and the help texts; \<^verbatim>\<open>main.go\<close>, the hand-over of sockets in \<^verbatim>\<open>process/\<close>, the
  log files and the listening sockets, which call the operating system; the HTML templates; the mock of
  the tests.  Connection pools, buffered channels and timers appear only as the order of the events.  Of the monitor, the
  waits before its loop starts and the intervals of its tickers are part of that order.
\<close>

end
